(* ===== verification/Prelude.thy ===== *)
theory Prelude
  imports Complex_Main "HOL-Library.Char_ord" "HOL-Library.List_Lexorder"
    "HOL-Library.Product_Lexorder"
begin

text \<open>
  Vocabulary shared by every component of the development.

  \<^item> Types: instants (\<open>datetime\<close>) are integers counting microseconds, JSON payloads are
    the datatype \<open>json\<close>, the exceptions of the program are the datatype \<open>py_error\<close>, and
    a call that may raise returns \<open>py_error + 'a\<close>.
  \<^item> Python's standard library, as far as the source uses it: \<open>dict.fromkeys\<close> (\<open>uniq\<close>),
    \<open>str.split\<close>, \<open>str.join\<close>, \<open>str.strip\<close>, \<open>str.casefold\<close>, \<open>str(int)\<close>, truthiness of
    optional strings, substring search. Strings are HOL strings and the character classes are
    those of ASCII.
\<close>

subsection \<open>Types\<close>

type_synonym instant = int

definition seconds :: "int \<Rightarrow> int" where
  "seconds n = n * 1000000"

lemma seconds_pos [simp]: "0 < seconds n \<longleftrightarrow> 0 < n"
  and seconds_nonneg [simp]: "0 \<le> seconds n \<longleftrightarrow> 0 \<le> n"
  and seconds_le0 [simp]: "seconds n \<le> 0 \<longleftrightarrow> n \<le> 0"
  by (simp_all add: seconds_def)

datatype json =
    JNull
  | JBool bool
  | JInt int
  | JReal real
  | JStr string
  | JList "json list"
  | JObj "(string \<times> json) list"

datatype py_error =
    BusinessException string int int
  | ValueError string
  | RuntimeError string
  | LookupError string
  | KeyError string
  | DependencyError string
  | MemoryAgentRetryable string int
  | MemoryAgentPermanentFailure string int
  | IntegrityError string
  | PurgeConfirmationReplay string
  | ProjectionIntegrityError string
  | IncompleteProjectionError string
  | ProjectionObservationNotReady string
  | SourceDeletionError string
  | MalformedMemoryEvent string
  | EvidenceProvenanceError string
  | TerminalExtractionError string
  | RetryableExtractionError string

type_synonym 'a result = "py_error + 'a"

text \<open>
  \<open>str(exc)\<close>. \<open>BusinessException\<close> does not pass its arguments to \<open>Exception.__init__\<close>, so built with
  keyword arguments its text is empty; the memory agent errors override \<open>__str__\<close>; a \<open>KeyError\<close> is
  printed with the \<open>repr\<close> of its key. \<open>business_message\<close> is \<open>exc.message\<close> where it exists.
\<close>

definition error_text :: "py_error \<Rightarrow> string" where
  "error_text e =
     (case e of
        BusinessException m c s \<Rightarrow> []
      | ValueError m \<Rightarrow> m
      | RuntimeError m \<Rightarrow> m
      | LookupError m \<Rightarrow> m
      | KeyError m \<Rightarrow> CHR 0x27 # m @ [CHR 0x27]
      | DependencyError m \<Rightarrow> m
      | MemoryAgentRetryable m s \<Rightarrow> m
      | MemoryAgentPermanentFailure m s \<Rightarrow> m
      | IntegrityError m \<Rightarrow> m
      | PurgeConfirmationReplay m \<Rightarrow> m
      | ProjectionIntegrityError m \<Rightarrow> m
      | IncompleteProjectionError m \<Rightarrow> m
      | ProjectionObservationNotReady m \<Rightarrow> m
      | SourceDeletionError m \<Rightarrow> m
      | MalformedMemoryEvent m \<Rightarrow> m
      | EvidenceProvenanceError m \<Rightarrow> m
      | TerminalExtractionError m \<Rightarrow> m
      | RetryableExtractionError m \<Rightarrow> m)"

definition business_message :: "py_error \<Rightarrow> string option" where
  "business_message e =
     (case e of
        BusinessException m c s \<Rightarrow> Some m
      | MemoryAgentRetryable m s \<Rightarrow> Some m
      | MemoryAgentPermanentFailure m s \<Rightarrow> Some m
      | _ \<Rightarrow> None)"

text \<open>Sequencing of calls that may raise: the first error ends the block.\<close>

fun ebind :: "'e + 'a \<Rightarrow> ('a \<Rightarrow> 'e + 'b) \<Rightarrow> 'e + 'b" where
  "ebind (Inl e) f = Inl e"
| "ebind (Inr x) f = f x"

lemma ebind_Inr_iff [simp]:
  "ebind m f = Inr y \<longleftrightarrow> (\<exists>x. m = Inr x \<and> f x = Inr y)"
  by (cases m) auto

lemma ebind_Inl_iff:
  "ebind m f = Inl e \<longleftrightarrow> m = Inl e \<or> (\<exists>x. m = Inr x \<and> f x = Inl e)"
  by (cases m) auto

subsection \<open>Python lists and strings\<close>

text \<open>\<open>list(dict.fromkeys(xs))\<close>: the first occurrence of every element, in order.\<close>

primrec uniq :: "'a list \<Rightarrow> 'a list" where
  "uniq [] = []"
| "uniq (x # xs) = x # filter (\<lambda>y. y \<noteq> x) (uniq xs)"

lemma set_uniq [simp]: "set (uniq xs) = set xs"
  by (induction xs) auto

lemma distinct_uniq [simp]: "distinct (uniq xs)"
  by (induction xs) auto

lemma uniq_distinct: "distinct xs \<Longrightarrow> uniq xs = xs"
  by (induction xs) (auto intro: filter_True)

lemma uniq_uniq [simp]: "uniq (uniq xs) = uniq xs"
  by (simp add: uniq_distinct)

lemma length_uniq_le: "length (uniq xs) \<le> length xs"
proof (induction xs)
  case (Cons x xs)
  show ?case
    using order_trans [OF length_filter_le Cons.IH] by simp
qed simp

definition is_space :: "char \<Rightarrow> bool" where
  "is_space c \<longleftrightarrow> c = CHR 0x20 \<or> (CHR 0x09 \<le> c \<and> c \<le> CHR 0x0D) \<or> (CHR 0x1C \<le> c \<and> c \<le> CHR 0x1F)"

text \<open>\<open>str.split()\<close> with no argument: the maximal runs of non-blank characters.\<close>

fun split_acc :: "string \<Rightarrow> string \<Rightarrow> string list" where
  "split_acc w [] = (if w = [] then [] else [w])"
| "split_acc w (c # cs) =
     (if is_space c then (if w = [] then split_acc [] cs else w # split_acc [] cs)
      else split_acc (w @ [c]) cs)"

definition py_split :: "string \<Rightarrow> string list" where
  "py_split s = split_acc [] s"

fun py_join :: "string \<Rightarrow> string list \<Rightarrow> string" where
  "py_join sep [] = []"
| "py_join sep [w] = w"
| "py_join sep (w # v # ws) = w @ sep @ py_join sep (v # ws)"

definition py_lstrip :: "string \<Rightarrow> string" where
  "py_lstrip s = dropWhile is_space s"

definition py_strip :: "string \<Rightarrow> string" where
  "py_strip s = rev (dropWhile is_space (rev (dropWhile is_space s)))"

text \<open>\<open>" ".join(s.split())\<close>, the whitespace normalisation used throughout.\<close>

definition squeeze :: "string \<Rightarrow> string" where
  "squeeze s = py_join '' '' (py_split s)"

definition lower_char :: "char \<Rightarrow> char" where
  "lower_char c = (if CHR ''A'' \<le> c \<and> c \<le> CHR ''Z'' then char_of (of_char c + (32::nat)) else c)"

definition casefold :: "string \<Rightarrow> string" where
  "casefold s = map lower_char s"

lemma split_acc_word:
  "list_all (\<lambda>c. \<not> is_space c) w \<Longrightarrow> split_acc v w = (if v @ w = [] then [] else [v @ w])"
  by (induction w arbitrary: v) auto

definition is_word :: "string \<Rightarrow> bool" where
  "is_word u \<longleftrightarrow> u \<noteq> [] \<and> list_all (\<lambda>c. \<not> is_space c) u"

lemma split_acc_words:
  "list_all (\<lambda>c. \<not> is_space c) w \<Longrightarrow> list_all is_word (split_acc w s)"
proof (induction s arbitrary: w)
  case (Cons c s)
  then show ?case by (cases "is_space c") (simp_all add: is_word_def)
qed (simp add: is_word_def)

lemma py_split_words: "list_all is_word (py_split s)"
  by (simp add: py_split_def split_acc_words)

lemma split_acc_app_space:
  "list_all (\<lambda>c. \<not> is_space c) w \<Longrightarrow> is_space b \<Longrightarrow> v @ w \<noteq> [] \<Longrightarrow>
   split_acc v (w @ b # s) = (v @ w) # split_acc [] s"
  by (induction w arbitrary: v) auto

lemma py_split_join:
  "list_all is_word ws \<Longrightarrow> py_split (py_join '' '' ws) = ws"
proof (induction ws rule: induct_list012)
  case (3 w v ws)
  have "is_space (CHR 0x20)" by (simp add: is_space_def)
  with 3 show ?case
    by (simp add: py_split_def is_word_def split_acc_app_space)
qed (simp_all add: py_split_def is_word_def split_acc_word)

lemma squeeze_squeeze [simp]: "squeeze (squeeze s) = squeeze s"
  by (simp add: squeeze_def py_split_join py_split_words)

text \<open>\<open>sub in text\<close> on strings.\<close>

fun starts_with :: "string \<Rightarrow> string \<Rightarrow> bool" where
  "starts_with [] s = True"
| "starts_with (p # ps) [] = False"
| "starts_with (p # ps) (c # cs) = (p = c \<and> starts_with ps cs)"

fun is_substring :: "string \<Rightarrow> string \<Rightarrow> bool" where
  "is_substring p [] = (p = [])"
| "is_substring p (c # cs) = (starts_with p (c # cs) \<or> is_substring p cs)"

definition ends_with :: "string \<Rightarrow> string \<Rightarrow> bool" where
  "ends_with p s = starts_with (rev p) (rev s)"

text \<open>\<open>str(n)\<close> for an integer.\<close>

fun digits_of :: "nat \<Rightarrow> string" where
  "digits_of n = (if n < 10 then [char_of (48 + n)] else digits_of (n div 10) @ [char_of (48 + n mod 10)])"

declare digits_of.simps [simp del]

definition py_str_int :: "int \<Rightarrow> string" where
  "py_str_int n = (if n < 0 then CHR ''-'' # digits_of (nat (- n)) else digits_of (nat n))"

text \<open>\<open>int(s)\<close> on a string: blanks around, a sign, digits with single underscores between them.\<close>

definition is_digit :: "char \<Rightarrow> bool" where
  "is_digit c \<longleftrightarrow> CHR ''0'' \<le> c \<and> c \<le> CHR ''9''"

definition digit_value :: "char \<Rightarrow> int" where
  "digit_value c = int (of_char c) - 48"

fun py_digits :: "int \<Rightarrow> string \<Rightarrow> int option" where
  "py_digits acc [] = Some acc"
| "py_digits acc [c] = (if is_digit c then Some (acc * 10 + digit_value c) else None)"
| "py_digits acc (c # d # cs) =
     (if is_digit c then py_digits (acc * 10 + digit_value c) (d # cs)
      else if c = CHR ''_'' \<and> is_digit d then py_digits acc (d # cs) else None)"

definition py_int :: "string \<Rightarrow> int option" where
  "py_int s =
     (case py_strip s of
        [] \<Rightarrow> None
      | c # cs \<Rightarrow>
          let ds = (if c = CHR ''-'' \<or> c = CHR ''+'' then cs else c # cs) in
          (case ds of
             [] \<Rightarrow> None
           | d # _ \<Rightarrow> if is_digit d
               then map_option (\<lambda>n. if c = CHR ''-'' then - n else n) (py_digits 0 ds) else None))"

lemma py_digits_fold:
  "list_all is_digit ds \<Longrightarrow> py_digits acc ds = Some (foldl (\<lambda>a c. a * 10 + digit_value c) acc ds)"
  by (induction acc ds rule: py_digits.induct) auto

lemma digit_char:
  assumes "n < 10"
  shows "is_digit (char_of (48 + n :: nat)) \<and> digit_value (char_of (48 + n :: nat)) = int n"
proof -
  have "n \<in> {0, 1, 2, 3, 4, 5, 6, 7, 8, 9}" using assms by auto
  then show ?thesis by (elim insertE) (simp_all add: is_digit_def digit_value_def less_eq_char_def)
qed

lemma digits_of_digits: "list_all is_digit (digits_of n)"
proof (induction n rule: digits_of.induct)
  case (1 n)
  then show ?case using digit_char [of n] digit_char [of "n mod 10"]
    by (subst digits_of.simps) simp
qed

lemma digits_of_value: "foldl (\<lambda>a c. a * 10 + digit_value c) 0 (digits_of n) = int n"
proof (induction n rule: digits_of.induct)
  case (1 n)
  then show ?case using digit_char [of n] digit_char [of "n mod 10"]
    by (subst digits_of.simps) (auto simp: zdiv_int zmod_int)
qed

lemma digits_of_nonempty [simp]: "digits_of n \<noteq> []"
  by (subst digits_of.simps) simp

lemma digit_no_space: "is_digit c \<Longrightarrow> \<not> is_space c \<and> c \<noteq> CHR ''-'' \<and> c \<noteq> CHR ''+''"
  by (auto simp: is_digit_def is_space_def less_eq_char_def)

lemma py_strip_id: "list_all (\<lambda>c. \<not> is_space c) s \<Longrightarrow> py_strip s = s"
proof -
  assume *: "list_all (\<lambda>c. \<not> is_space c) s"
  then have "dropWhile is_space s = s" "dropWhile is_space (rev s) = rev s"
    by (auto simp: list_all_iff dropWhile_eq_self_iff) (metis hd_in_set list.set_sel(1) last_in_set hd_rev)+
  then show ?thesis by (simp add: py_strip_def)
qed

lemma py_int_digits_of: "py_int (digits_of n) = Some (int n)"
proof -
  obtain c cs where d: "digits_of n = c # cs" by (cases "digits_of n") auto
  have all: "list_all is_digit (c # cs)" using digits_of_digits [of n] d by simp
  then have strip: "py_strip (c # cs) = c # cs"
    by (intro py_strip_id) (auto simp: list_all_iff dest: digit_no_space)
  have "py_digits 0 (c # cs) = Some (int n)"
    using py_digits_fold [OF all, of 0] digits_of_value [of n] d by simp
  then show ?thesis
    using all digit_no_space [of c] unfolding d py_int_def strip by (simp add: Let_def)
qed

text \<open>Truthiness of a string or of an optional string.\<close>

definition truthy :: "string option \<Rightarrow> bool" where
  "truthy s \<longleftrightarrow> (case s of None \<Rightarrow> False | Some t \<Rightarrow> t \<noteq> [])"

subsection \<open>Dictionaries of JSON payloads\<close>

definition jget :: "string \<Rightarrow> (string \<times> json) list \<Rightarrow> json option" where
  "jget k kvs = map_of kvs k"

definition jtruthy :: "json \<Rightarrow> bool" where
  "jtruthy v = (case v of JNull \<Rightarrow> False | JBool b \<Rightarrow> b | JInt i \<Rightarrow> i \<noteq> 0 | JReal x \<Rightarrow> x \<noteq> 0
     | JStr s \<Rightarrow> s \<noteq> [] | JList xs \<Rightarrow> xs \<noteq> [] | JObj kvs \<Rightarrow> kvs \<noteq> [])"

definition jstr_opt :: "string option \<Rightarrow> json" where
  "jstr_opt s = (case s of None \<Rightarrow> JNull | Some t \<Rightarrow> JStr t)"

definition jbool_opt :: "bool option \<Rightarrow> json" where
  "jbool_opt b = (case b of None \<Rightarrow> JNull | Some t \<Rightarrow> JBool t)"

text \<open>\<open>str(v)\<close>; the text of floats, lists and objects is the argument \<open>repr\<close>.\<close>

definition py_str :: "(json \<Rightarrow> string) \<Rightarrow> json \<Rightarrow> string" where
  "py_str repr v =
     (case v of JStr s \<Rightarrow> s | JInt n \<Rightarrow> py_str_int n | JNull \<Rightarrow> ''None''
      | JBool b \<Rightarrow> (if b then ''True'' else ''False'') | _ \<Rightarrow> repr v)"

text \<open>\<open>str(payload.get(key) or default)\<close>.\<close>

definition str_or :: "(json \<Rightarrow> string) \<Rightarrow> string \<Rightarrow> string \<Rightarrow> (string \<times> json) list \<Rightarrow> string" where
  "str_or repr key dflt kvs =
     (case jget key kvs of
        None \<Rightarrow> dflt
      | Some v \<Rightarrow> if jtruthy v then py_str repr v else dflt)"

subsection \<open>Calls with effects on an outer state\<close>

text \<open>A call that may raise and acts on a state \<open>'w\<close>: what it did before raising is kept.\<close>

type_synonym ('w, 'a) action = "'w \<Rightarrow> 'w \<times> 'a result"

definition abind :: "('w, 'a) action \<Rightarrow> ('a \<Rightarrow> ('w, 'b) action) \<Rightarrow> ('w, 'b) action" where
  "abind m f w = (case m w of (w', Inl e) \<Rightarrow> (w', Inl e) | (w', Inr x) \<Rightarrow> f x w')"

definition areturn :: "'a \<Rightarrow> ('w, 'a) action" where
  "areturn x w = (w, Inr x)"

definition araise :: "py_error \<Rightarrow> ('w, 'a) action" where
  "araise e w = (w, Inl e)"

subsection \<open>Transactions\<close>

text \<open>
  A call inside a database transaction. The caller rolls the transaction back when it raises, so an
  error carries no state.
\<close>

type_synonym ('s, 'a) tx = "'s \<Rightarrow> ('a \<times> 's) result"

definition tbind :: "('s, 'a) tx \<Rightarrow> ('a \<Rightarrow> ('s, 'b) tx) \<Rightarrow> ('s, 'b) tx" where
  "tbind m f s = (case m s of Inl e \<Rightarrow> Inl e | Inr (x, s') \<Rightarrow> f x s')"

definition treturn :: "'a \<Rightarrow> ('s, 'a) tx" where
  "treturn x s = Inr (x, s)"

definition tfail :: "py_error \<Rightarrow> ('s, 'a) tx" where
  "tfail e s = Inl e"

definition tget :: "('s \<Rightarrow> 'a) \<Rightarrow> ('s, 'a) tx" where
  "tget f s = Inr (f s, s)"

definition tmodify :: "('s \<Rightarrow> 's) \<Rightarrow> ('s, unit) tx" where
  "tmodify f s = Inr ((), f s)"

definition tlift :: "('s \<Rightarrow> 'a result) \<Rightarrow> ('s, 'a) tx" where
  "tlift f s = (case f s of Inl e \<Rightarrow> Inl e | Inr x \<Rightarrow> Inr (x, s))"

definition tguard :: "bool \<Rightarrow> py_error \<Rightarrow> ('s, unit) tx" where
  "tguard c e s = (if c then Inr ((), s) else Inl e)"

named_theorems tx_simps

lemma tbind_Inr [tx_simps]:
  "tbind m f s = Inr (y, t) \<longleftrightarrow> (\<exists>x s'. m s = Inr (x, s') \<and> f x s' = Inr (y, t))"
  by (auto simp: tbind_def split: sum.splits)

lemma tx_Inr [tx_simps]:
  "treturn x s = Inr (y, t) \<longleftrightarrow> y = x \<and> t = s"
  "tfail e s = Inr (y, t) \<longleftrightarrow> False"
  "tget f s = Inr (y, t) \<longleftrightarrow> y = f s \<and> t = s"
  "tmodify g s = Inr (u, t) \<longleftrightarrow> t = g s"
  "tlift h s = Inr (y, t) \<longleftrightarrow> h s = Inr y \<and> t = s"
  "tguard c e s = Inr (u, t) \<longleftrightarrow> c \<and> t = s"
  by (auto simp: treturn_def tfail_def tget_def tmodify_def tlift_def tguard_def split: sum.splits)

lemma tbind_tget: "tbind (tget g) f s = f (g s) s"
  by (simp add: tbind_def tget_def)

text \<open>Running a transaction step by step, errors included.\<close>

named_theorems tx_run

lemmas tx_run_get [tx_run] = tbind_tget

lemma tx_run_steps [tx_run]:
  "tbind (tguard c e) f s = (if c then f () s else Inl e)"
  "tbind (tmodify g) f s = f () (g s)"
  "tbind (treturn x) h s = h x s"
  "treturn x s = Inr (x, s)"
  "tfail e s = Inl e"
  "m s = Inr (y, t) \<Longrightarrow> tbind m k s = k y t"
  "m s = Inl e \<Longrightarrow> tbind m k s = Inl e"
  by (simp_all add: tbind_def tmodify_def tguard_def treturn_def tfail_def)

end
