(* ===== verification/Tables.thy ===== *)
theory Tables
  imports Prelude
begin

text \<open>
  SQL tables as lists of rows, in the order the rows were inserted. A SELECT ... WHERE that expects
  at most one row (\<open>scalar_one_or_none\<close>, \<open>db.scalar\<close>) is \<open>find\<close>; a SELECT with ORDER BY and LIMIT
  is a stable sort followed by \<open>take\<close>; an UPDATE of ORM rows is \<open>update_where\<close>; an INSERT with
  ON CONFLICT DO NOTHING on a unique key is \<open>insert_if_absent\<close>, which returns the stored row and
  whether it was created, as the \<open>create_or_get\<close> functions of the source do.

  The locale \<open>idem_store\<close> is the contract of those functions: every provider of the
  development interprets it, and the facts about replays are proved here once.
\<close>

named_theorems table_simps

definition update_where :: "('r \<Rightarrow> bool) \<Rightarrow> ('r \<Rightarrow> 'r) \<Rightarrow> 'r list \<Rightarrow> 'r list" where
  "update_where P f rows = map (\<lambda>r. if P r then f r else r) rows"

definition delete_where :: "('r \<Rightarrow> bool) \<Rightarrow> 'r list \<Rightarrow> 'r list" where
  "delete_where P rows = filter (\<lambda>r. \<not> P r) rows"

definition order_limit :: "('r \<Rightarrow> 'k::linorder) \<Rightarrow> nat \<Rightarrow> 'r list \<Rightarrow> 'r list" where
  "order_limit k n rows = take n (sort_key k rows)"

definition insert_if_absent :: "('r \<Rightarrow> 'k) \<Rightarrow> 'r \<Rightarrow> 'r list \<Rightarrow> 'r list \<times> 'r \<times> bool" where
  "insert_if_absent key row rows =
     (case find (\<lambda>r. key r = key row) rows of
        Some existing \<Rightarrow> (rows, existing, False)
      | None \<Rightarrow> (rows @ [row], row, True))"

lemma length_update_where [simp]: "length (update_where P f rows) = length rows"
  by (simp add: update_where_def)

lemma set_update_where: "set (update_where P f rows) = (\<lambda>r. if P r then f r else r) ` set rows"
  by (simp add: update_where_def)

lemma in_update_whereE:
  assumes "r \<in> set (update_where P f rows)"
  obtains q where "q \<in> set rows" and "P q" and "r = f q"
    | "r \<in> set rows" and "\<not> P r"
  using assms by (auto simp: set_update_where split: if_splits)

lemma map_update_where [table_simps]:
  "(\<And>r. P r \<Longrightarrow> g (f r) = g r) \<Longrightarrow> map g (update_where P f rows) = map g rows"
  by (simp add: update_where_def)

lemma find_update_where:
  assumes "\<And>r. P r \<Longrightarrow> Q (f r) = Q r"
  shows "find Q (update_where P f rows) = map_option (\<lambda>r. if P r then f r else r) (find Q rows)"
  using assms by (induction rows) (auto simp: update_where_def)

lemma find_update_where_other:
  assumes "\<And>r. P r \<Longrightarrow> \<not> Q r \<and> \<not> Q (f r)"
  shows "find Q (update_where P f rows) = find Q rows"
  using assms by (induction rows) (auto simp: update_where_def)

lemma find_app: "find P (xs @ ys) = (case find P xs of None \<Rightarrow> find P ys | Some x \<Rightarrow> Some x)"
  by (induction xs) auto

lemma find_SomeD: "find P xs = Some x \<Longrightarrow> P x \<and> x \<in> set xs"
  by (auto simp: find_Some_iff)

lemma find_distinct_key:
  assumes "distinct (map key rows)" and "x \<in> set rows"
  shows "find (\<lambda>r. key r = key x) rows = Some x"
  using assms by (induction rows) (auto simp: image_iff)

lemma distinct_key_unique:
  "distinct (map key rows) \<Longrightarrow> x \<in> set rows \<Longrightarrow> y \<in> set rows \<Longrightarrow> key x = key y \<Longrightarrow> x = y"
  by (auto simp: distinct_map inj_on_def)

lemma find_unique:
  assumes "x \<in> set xs" and "P x" and "\<And>y. y \<in> set xs \<Longrightarrow> P y \<Longrightarrow> y = x"
  shows "find P xs = Some x"
proof (cases "find P xs")
  case None
  then show ?thesis using assms(1,2) by (auto simp: find_None_iff)
next
  case (Some y)
  then show ?thesis using assms(3) find_SomeD [OF Some] by blast
qed

lemma set_update_where_id:
  assumes "distinct (map f rows)" and "x \<in> set rows"
  shows "set (update_where (\<lambda>q. f q = f x) g rows) = insert (g x) (set rows - {x})"
proof -
  have "(if f q = f x then g q else q) = (if q = x then g x else q)" if "q \<in> set rows" for q
    using distinct_key_unique [OF assms(1) that assms(2)] by auto
  then have "set (update_where (\<lambda>q. f q = f x) g rows) = (\<lambda>q. if q = x then g x else q) ` set rows"
    unfolding set_update_where by (rule image_cong [OF refl])
  then show ?thesis using assms(2) by auto
qed

lemma filter_update_other:
  "\<forall>x\<in>set rows. Q x \<longrightarrow> \<not> P x \<and> \<not> P (f x) \<Longrightarrow> filter P (update_where Q f rows) = filter P rows"
  by (induction rows) (auto simp: update_where_def)

lemma filter_update_id:
  assumes "distinct (map key rows)" and "x \<in> set rows" and "\<not> P x" and "\<not> P (f x)"
  shows "filter P (update_where (\<lambda>q. key q = key x) f rows) = filter P rows"
  using distinct_key_unique [OF assms(1) _ assms(2)] assms(3,4) by (intro filter_update_other) blast

lemma distinct_replace:
  assumes "distinct (map key rows)" and "distinct (map k (filter P rows))" and "\<forall>x\<in>set rows. P x \<longrightarrow> k x \<noteq> k y"
  shows "distinct (map k (filter P (update_where (\<lambda>x. key x = i) (\<lambda>_. y) rows)))"
  using assms
proof (induction rows)
  case (Cons a rows)
  show ?case
  proof (cases "key a = i")
    case True
    then have "\<forall>x\<in>set rows. key x \<noteq> i" using Cons.prems(1) by (metis distinct.simps(2) image_eqI list.set_map list.simps(9))
    then have "update_where (\<lambda>x. key x = i) (\<lambda>_. y) rows = rows"
      by (auto simp: update_where_def intro!: map_idI)
    then show ?thesis using Cons.prems True by (auto simp: update_where_def split: if_splits)
  next
    case False
    have "distinct (map k (filter P (update_where (\<lambda>x. key x = i) (\<lambda>_. y) rows)))"
      by (rule Cons.IH) (use Cons.prems in \<open>auto split: if_splits\<close>)
    moreover have "k a \<notin> k ` set (filter P (update_where (\<lambda>x. key x = i) (\<lambda>_. y) rows))" if "P a"
      using Cons.prems that by (auto simp: set_update_where split: if_splits)
    ultimately show ?thesis using False by (auto simp: update_where_def)
  qed
qed (simp add: update_where_def)

lemma filter_delete_other: "(\<And>x. x \<in> set rows \<Longrightarrow> Q x \<Longrightarrow> \<not> P x) \<Longrightarrow> filter P (delete_where Q rows) = filter P rows"
  by (induction rows) (auto simp: delete_where_def)

lemma distinct_filter_map:
  "\<forall>x\<in>set rows. key (h x) = key x \<and> (P (h x) \<longrightarrow> P x) \<Longrightarrow> distinct (map key (filter P rows)) \<Longrightarrow>
   distinct (map key (filter P (map h rows)))"
  by (induction rows) (auto split: if_splits)

lemma set_order_limit: "set (order_limit k n rows) \<subseteq> set rows"
  by (auto simp: order_limit_def dest: in_set_takeD)

lemma length_order_limit: "length (order_limit k n rows) \<le> n"
  by (simp add: order_limit_def)

lemma sorted_order_limit: "sorted (map k (order_limit k n rows))"
  by (simp add: order_limit_def take_map [symmetric] sorted_wrt_take)

lemma distinct_map_take_sort: "distinct (map g xs) \<Longrightarrow> distinct (map g (take n (sort_key k xs)))"
  using set_take_subset [of n "sort_key k xs"] by (auto simp: distinct_map intro: inj_on_subset)

lemma distinct_order_limit:
  "distinct (map g rows) \<Longrightarrow> distinct (map g (order_limit k n (filter P rows)))"
  unfolding order_limit_def by (intro distinct_map_take_sort) (simp add: distinct_map_filter)

subsection \<open>The create-or-get interface\<close>

locale idem_store =
  fixes rows :: "'s \<Rightarrow> 'r list"
    and key :: "'r \<Rightarrow> 'k"
    and put :: "'r \<Rightarrow> 's \<Rightarrow> 's \<times> 'r \<times> bool"
  assumes put_fresh: "find (\<lambda>r. key r = key x) (rows s) = None \<Longrightarrow>
      \<exists>s'. put x s = (s', x, True) \<and> rows s' = rows s @ [x]"
    and put_known: "find (\<lambda>r. key r = key x) (rows s) = Some r \<Longrightarrow> put x s = (s, r, False)"
begin

lemma put_cases:
  obtains s' where "find (\<lambda>r. key r = key x) (rows s) = None" and "put x s = (s', x, True)"
      and "rows s' = rows s @ [x]"
    | r where "find (\<lambda>r. key r = key x) (rows s) = Some r" and "put x s = (s, r, False)"
  using put_fresh [of x s] put_known [of x s]
  by (cases "find (\<lambda>r. key r = key x) (rows s)") auto

lemma put_stored: "put x s = (s', r, b) \<Longrightarrow> r \<in> set (rows s') \<and> key r = key x"
  by (cases rule: put_cases [of x s]) (auto dest!: find_SomeD)

lemma put_rows: "put x s = (s', r, b) \<Longrightarrow> rows s' = (if b then rows s @ [x] else rows s)"
  by (cases rule: put_cases [of x s]) auto

lemma put_keeps: "put x s = (s', r, b) \<Longrightarrow> set (rows s) \<subseteq> set (rows s')"
  by (auto dest: put_rows)

lemma put_created_iff: "put x s = (s', r, b) \<Longrightarrow> b \<longleftrightarrow> key x \<notin> key ` set (rows s)"
proof (cases rule: put_cases [of x s])
  case (2 q)
  moreover assume "put x s = (s', r, b)"
  ultimately show ?thesis using find_SomeD [OF 2(1)] by (auto intro: rev_image_eqI)
qed (auto simp: find_None_iff)

lemma put_distinct:
  "put x s = (s', r, b) \<Longrightarrow> distinct (map key (rows s)) \<Longrightarrow> distinct (map key (rows s'))"
  using put_created_iff [of x s s' r b] put_rows [of x s s' r b] by auto

text \<open>A replay with the same key, whatever its other fields, returns the first row and stores nothing.\<close>

lemma put_replay:
  assumes "put x s = (s', r, b)" and "key y = key x"
  shows "put y s' = (s', r, False)"
proof (cases rule: put_cases [of x s])
  case (1 s'')
  then have "find (\<lambda>q. key q = key y) (rows s') = Some r"
    using assms by (auto simp: find_app)
  then show ?thesis by (rule put_known)
next
  case (2 q)
  then show ?thesis using assms by (auto intro: put_known)
qed

end

lemma find_insert_if_absent:
  "insert_if_absent key x rows = (rows', r, b) \<Longrightarrow> find (\<lambda>q. key q = key x) rows' = Some r"
  by (auto simp: insert_if_absent_def find_app split: option.splits)

interpretation plain_table: idem_store "\<lambda>rows. rows" key "insert_if_absent key"
  by unfold_locales (auto simp: insert_if_absent_def)

end
