(* ===== verification/TaskState.thy ===== *)
theory TaskState
  imports Tables
begin

text \<open>
  Background task records: \<open>domains/tasks/state.py\<close> (the status machine),
  \<open>crud/task_record.py\<close> (the table), \<open>domains/tasks/maintenance.py\<close> (submission) and the worker
  and recovery steps of \<open>tasks/maintenance_tasks.py\<close>. Statuses are the strings the code
  compares. A function that reads the clock takes \<open>now\<close>; \<open>updated_at\<close> moves exactly when the ORM
  would emit an UPDATE, that is when a column of the row changes.
\<close>

subsection \<open>The status machine (domains/tasks/state.py)\<close>

definition PENDING :: string where "PENDING = ''pending''"
definition RUNNING :: string where "RUNNING = ''running''"
definition SUCCEEDED :: string where "SUCCEEDED = ''succeeded''"
definition FAILED :: string where "FAILED = ''failed''"
definition RETRYING :: string where "RETRYING = ''retrying''"
definition CANCELLED :: string where "CANCELLED = ''cancelled''"

lemmas task_status_defs =
  PENDING_def RUNNING_def SUCCEEDED_def FAILED_def RETRYING_def CANCELLED_def

definition TERMINAL_TASK_STATUSES :: "string list" where
  "TERMINAL_TASK_STATUSES = [SUCCEEDED, FAILED, CANCELLED]"

definition ACTIVE_TASK_STATUSES :: "string list" where
  "ACTIVE_TASK_STATUSES = [PENDING, RUNNING, RETRYING]"

definition LEGACY_STATUS_ALIASES :: "(string \<times> string) list" where
  "LEGACY_STATUS_ALIASES =
     [(''queued'', PENDING), (''completed'', SUCCEEDED), (''canceled'', CANCELLED)]"

definition PROGRESS_STAGE_STATUSES :: "string list" where
  "PROGRESS_STAGE_STATUSES =
     [''parsing'', ''chunking'', ''memory_extracting'', ''embedding'', ''vector_upserting'',
      ''graph_projecting'', ''eval_running'']"

definition ALLOWED_TASK_TRANSITIONS :: "(string \<times> string list) list" where
  "ALLOWED_TASK_TRANSITIONS =
     [(PENDING, [RUNNING, FAILED, CANCELLED]),
      (RUNNING, [SUCCEEDED, FAILED, RETRYING, CANCELLED]),
      (RETRYING, [PENDING, RUNNING, FAILED, CANCELLED]),
      (FAILED, [RETRYING, PENDING]),
      (CANCELLED, [RETRYING, PENDING]),
      (SUCCEEDED, [])]"

definition normalize_task_status :: "string \<Rightarrow> string" where
  "normalize_task_status s =
     (if s \<in> set PROGRESS_STAGE_STATUSES then RUNNING
      else case map_of LEGACY_STATUS_ALIASES s of Some t \<Rightarrow> t | None \<Rightarrow> s)"

definition is_active_task_status :: "string \<Rightarrow> bool" where
  "is_active_task_status s \<longleftrightarrow> normalize_task_status s \<in> set ACTIVE_TASK_STATUSES"

definition allowed_transitions :: "string \<Rightarrow> string list" where
  "allowed_transitions s =
     (case map_of ALLOWED_TASK_TRANSITIONS s of Some ts \<Rightarrow> ts | None \<Rightarrow> [])"

definition resolve_task_transition :: "string \<Rightarrow> string \<Rightarrow> (string \<times> string option) result" where
  "resolve_task_transition current requested =
     (let normalized_current = normalize_task_status current;
          (stage, normalized_requested) =
            (if requested \<in> set PROGRESS_STAGE_STATUSES then (Some requested, RUNNING)
             else (None, normalize_task_status requested))
      in if normalized_current = normalized_requested then Inr (normalized_requested, stage)
         else if normalized_requested \<notin> set (allowed_transitions normalized_current)
         then Inl (BusinessException
           (''illegal task status transition: '' @ normalized_current @ '' -> '' @ normalized_requested)
           4009 400)
         else Inr (normalized_requested, stage))"

subsection \<open>The table (crud/task_record.py)\<close>

record task_record =
  tr_id :: string
  tr_task_type :: string
  tr_target_id :: string
  tr_status :: string
  tr_progress_stage :: "string option"
  tr_queue_name :: "string option"
  tr_celery_task_id :: "string option"
  tr_attempt_count :: int
  tr_max_attempts :: int
  tr_result_summary :: "string option"
  tr_error_message :: "string option"
  tr_created_at :: instant
  tr_updated_at :: instant

type_synonym task_db = "task_record list"

text \<open>What the ORM writes for a row: nothing when no column changed, otherwise a new \<open>updated_at\<close>.\<close>

definition tr_flush :: "instant \<Rightarrow> task_record \<Rightarrow> task_record \<Rightarrow> task_record" where
  "tr_flush now old new = (if new = old then old else new\<lparr>tr_updated_at := now\<rparr>)"

definition create_task_record ::
  "instant \<Rightarrow> string \<Rightarrow> string \<Rightarrow> string \<Rightarrow> string \<Rightarrow> string option \<Rightarrow> string option \<Rightarrow> string option \<Rightarrow> int \<Rightarrow> int
   \<Rightarrow> task_db \<Rightarrow> task_db \<times> task_record" where
  "create_task_record now task_id task_type target_id status stage queue celery attempts maxa db =
     (let row = \<lparr>tr_id = task_id, tr_task_type = task_type, tr_target_id = target_id,
            tr_status = status, tr_progress_stage = stage, tr_queue_name = queue,
            tr_celery_task_id = celery, tr_attempt_count = attempts, tr_max_attempts = maxa,
            tr_result_summary = None, tr_error_message = None,
            tr_created_at = now, tr_updated_at = now\<rparr>
      in (db @ [row], row))"

definition get_task_record_by_id :: "string \<Rightarrow> task_db \<Rightarrow> task_record option" where
  "get_task_record_by_id task_id db = find (\<lambda>r. tr_id r = task_id) db"

definition claim_row :: "instant \<Rightarrow> task_record \<Rightarrow> task_record" where
  "claim_row now r =
     tr_flush now r (r\<lparr>tr_status := ''running'', tr_progress_stage := Some ''executing'',
                       tr_attempt_count := tr_attempt_count r + 1, tr_error_message := None\<rparr>)"

definition claim_maintenance_task :: "instant \<Rightarrow> string \<Rightarrow> task_db \<Rightarrow> task_db \<times> task_record option" where
  "claim_maintenance_task now task_id db =
     (case get_task_record_by_id task_id db of
        None \<Rightarrow> (db, None)
      | Some r \<Rightarrow>
          if tr_queue_name r \<noteq> Some ''maintenance'' \<or> tr_status r \<notin> {''pending'', ''retrying''}
          then (db, None)
          else (update_where (\<lambda>q. tr_id q = task_id) (claim_row now) db, Some (claim_row now r)))"

definition recoverable_row :: "instant \<Rightarrow> instant \<Rightarrow> task_record \<Rightarrow> bool" where
  "recoverable_row pending_before running_before r \<longleftrightarrow>
     tr_queue_name r = Some ''maintenance'' \<and>
     (tr_status r = ''pending'' \<and> tr_updated_at r < pending_before \<or>
      tr_status r = ''running'' \<and> tr_updated_at r < running_before)"

definition recover_row :: "instant \<Rightarrow> task_record \<Rightarrow> task_record" where
  "recover_row now r =
     tr_flush now r
       (if tr_attempt_count r \<ge> tr_max_attempts r
        then r\<lparr>tr_status := ''failed'', tr_progress_stage := None,
               tr_error_message := Some ''maintenance task exceeded its recovery attempt limit''\<rparr>
        else r\<lparr>tr_status := ''pending'', tr_progress_stage := Some ''recovered''\<rparr>)"

definition list_recoverable_maintenance_tasks ::
  "instant \<Rightarrow> instant \<Rightarrow> instant \<Rightarrow> nat \<Rightarrow> task_db \<Rightarrow> task_db \<times> task_record list" where
  "list_recoverable_maintenance_tasks now pending_before running_before batch db =
     (let picked = order_limit tr_updated_at batch
            (filter (recoverable_row pending_before running_before) db);
          ids = map tr_id picked
      in (update_where (\<lambda>r. tr_id r \<in> set ids) (recover_row now) db, map (recover_row now) picked))"

definition apply_status_update ::
  "string \<Rightarrow> string option \<Rightarrow> bool \<Rightarrow> bool \<Rightarrow> string option \<Rightarrow> string option \<Rightarrow> bool \<Rightarrow> task_record \<Rightarrow> task_record" where
  "apply_status_update status stage clear_stage incr summary err clear_err r =
     (let r1 = r\<lparr>tr_status := status\<rparr>;
          r2 = (if clear_stage then r1\<lparr>tr_progress_stage := None\<rparr>
                else if stage \<noteq> None then r1\<lparr>tr_progress_stage := stage\<rparr> else r1);
          r3 = (if incr then r2\<lparr>tr_attempt_count := tr_attempt_count r2 + 1\<rparr> else r2);
          r4 = (if summary \<noteq> None then r3\<lparr>tr_result_summary := summary\<rparr> else r3)
      in if clear_err then r4\<lparr>tr_error_message := None\<rparr>
         else if err \<noteq> None then r4\<lparr>tr_error_message := err\<rparr> else r4)"

definition update_task_record_status ::
  "instant \<Rightarrow> string \<Rightarrow> string \<Rightarrow> string option \<Rightarrow> bool \<Rightarrow> bool \<Rightarrow> string option \<Rightarrow> string option \<Rightarrow> bool
   \<Rightarrow> task_db \<Rightarrow> task_db \<times> task_record option" where
  "update_task_record_status now task_id status stage clear_stage incr summary err clear_err db =
     (case get_task_record_by_id task_id db of
        None \<Rightarrow> (db, None)
      | Some r \<Rightarrow>
          let upd = (\<lambda>q. tr_flush now q (apply_status_update status stage clear_stage incr summary err clear_err q))
          in (update_where (\<lambda>q. tr_id q = task_id) upd db, Some (upd r)))"

definition list_task_records_by_target_id :: "string \<Rightarrow> string option \<Rightarrow> task_db \<Rightarrow> task_record list" where
  "list_task_records_by_target_id target_id task_type db =
     sort_key (\<lambda>r. - tr_created_at r)
       (filter (\<lambda>r. tr_target_id r = target_id \<and> (truthy task_type \<longrightarrow> task_type = Some (tr_task_type r))) db)"

definition get_latest_task_record_by_target_id :: "string \<Rightarrow> string option \<Rightarrow> task_db \<Rightarrow> task_record option" where
  "get_latest_task_record_by_target_id target_id task_type db =
     (case list_task_records_by_target_id target_id task_type db of [] \<Rightarrow> None | r # _ \<Rightarrow> Some r)"

definition delete_task_records_by_target_id :: "string \<Rightarrow> string option \<Rightarrow> task_db \<Rightarrow> task_db \<times> nat" where
  "delete_task_records_by_target_id target_id task_type db =
     (let P = (\<lambda>r. tr_target_id r = target_id \<and> (truthy task_type \<longrightarrow> task_type = Some (tr_task_type r)))
      in (delete_where P db, length (filter P db)))"

subsection \<open>Transitions of a stored task (domains/tasks/state.py)\<close>

definition transition_task_status ::
  "instant \<Rightarrow> string \<Rightarrow> string \<Rightarrow> string option \<Rightarrow> string option \<Rightarrow> task_db \<Rightarrow> (task_db \<times> task_record option) result" where
  "transition_task_status now task_id to_status summary err db =
     (case get_task_record_by_id task_id db of
        None \<Rightarrow> Inr (db, None)
      | Some r \<Rightarrow>
          let previous = normalize_task_status (tr_status r) in
          ebind (resolve_task_transition (tr_status r) to_status) (\<lambda>(next, stage).
            if previous = next \<and> stage = None then Inr (db, Some r)
            else Inr (update_task_record_status now task_id next stage
                   (stage = None \<and> next \<in> {PENDING, RETRYING, CANCELLED})
                   (next = RUNNING \<and> previous \<in> {PENDING, RETRYING})
                   summary err
                   (next \<in> {PENDING, RUNNING, SUCCEEDED, RETRYING}) db)))"

subsection \<open>Maintenance tasks (domains/tasks/maintenance.py, tasks/maintenance_tasks.py)\<close>

definition MAINTENANCE_TASK_TYPES :: "string list" where
  "MAINTENANCE_TASK_TYPES =
     [''graph_rebuild_user'', ''graph_rebuild_knowledge_base'', ''memory_rebuild_knowledge_base'']"

text \<open>
  \<open>uid\<close> is \<open>uuid.uuid4().hex\<close>, \<open>queue\<close> and \<open>retries\<close> are the two settings. The publication to
  the queue after the commit may fail without changing the outcome, so it is not part of the result.
\<close>

definition submit_maintenance_task ::
  "instant \<Rightarrow> string \<Rightarrow> string \<Rightarrow> int \<Rightarrow> string \<Rightarrow> string \<Rightarrow> task_db \<Rightarrow> (task_db \<times> task_record) result" where
  "submit_maintenance_task now uid queue retries task_type target_id db =
     (if task_type \<notin> set MAINTENANCE_TASK_TYPES
      then Inl (ValueError (''unsupported maintenance task type: '' @ task_type))
      else let task_id = ''task_'' @ uid
           in Inr (create_task_record now task_id task_type target_id ''pending'' (Some ''queued'')
                (Some queue) (Some task_id) 0 retries db))"

text \<open>
  The rebuild that \<open>run_maintenance_task\<close> dispatches to between its two transactions. The lookups
  and the three rebuild services are arguments; \<open>dumps\<close> is \<open>json.dumps\<close>.
\<close>

definition maintenance_outcome ::
  "(string \<Rightarrow> (int \<times> string \<times> int) option) \<Rightarrow> (int \<Rightarrow> 'u option) \<Rightarrow> (int \<Rightarrow> string \<Rightarrow> json result)
   \<Rightarrow> ('u \<Rightarrow> json result) \<Rightarrow> ('u \<Rightarrow> string \<Rightarrow> json result) \<Rightarrow> (json \<Rightarrow> string)
   \<Rightarrow> string \<Rightarrow> string \<Rightarrow> string result" where
  "maintenance_outcome kb_of user_of rebuild_memory rebuild_user rebuild_kb dumps task_type target_id =
     ebind
       (if task_type = ''memory_rebuild_knowledge_base'' then
          (case kb_of target_id of
             None \<Rightarrow> Inl (RuntimeError ''maintenance task knowledge base no longer exists'')
           | Some (pk, kb_id, owner) \<Rightarrow> rebuild_memory pk kb_id)
        else if task_type = ''graph_rebuild_user'' then
          (case py_int target_id of
             None \<Rightarrow> Inl (ValueError ''invalid literal for int() with base 10'')
           | Some n \<Rightarrow> (case user_of n of
               None \<Rightarrow> Inl (RuntimeError ''maintenance task user no longer exists'')
             | Some u \<Rightarrow> rebuild_user u))
        else if task_type = ''graph_rebuild_knowledge_base'' then
          (case kb_of target_id of
             None \<Rightarrow> Inl (RuntimeError ''maintenance task knowledge base no longer exists'')
           | Some (pk, kb_id, owner) \<Rightarrow> (case user_of owner of
               None \<Rightarrow> Inl (RuntimeError ''maintenance task user no longer exists'')
             | Some u \<Rightarrow> rebuild_kb u target_id))
        else Inl (RuntimeError (''unsupported maintenance task type: '' @ task_type)))
       (\<lambda>res. Inr (dumps res))"

text \<open>
  The end of \<open>run_maintenance_task\<close>: the outcome of the rebuild (\<open>Inr\<close> its JSON summary, \<open>Inl\<close> the
  exception with its text) is recorded. Both the SUCCEEDED write and the rebuild sit in the same
  \<open>try\<close>, so an illegal transition to SUCCEEDED is itself recorded as a failure and re-raised.
\<close>

definition fail_maintenance_task :: "instant \<Rightarrow> string \<Rightarrow> py_error \<Rightarrow> task_db \<Rightarrow> task_db \<times> unit result" where
  "fail_maintenance_task now task_id e db =
     (case transition_task_status now task_id FAILED None (Some (error_text e)) db of
        Inl e' \<Rightarrow> (db, Inl e')
      | Inr (db', _) \<Rightarrow> (db', Inl e))"

definition finish_maintenance_task ::
  "instant \<Rightarrow> string \<Rightarrow> string result \<Rightarrow> task_db \<Rightarrow> task_db \<times> unit result" where
  "finish_maintenance_task now task_id outcome db =
     (case outcome of
        Inl e \<Rightarrow> fail_maintenance_task now task_id e db
      | Inr summary \<Rightarrow>
          (case transition_task_status now task_id SUCCEEDED (Some summary) None db of
             Inl e \<Rightarrow> fail_maintenance_task now task_id e db
           | Inr (db', _) \<Rightarrow> (db', Inr ())))"

definition recover_stale_maintenance_tasks ::
  "instant \<Rightarrow> int \<Rightarrow> int \<Rightarrow> nat \<Rightarrow> task_db \<Rightarrow> task_db \<times> string list" where
  "recover_stale_maintenance_tasks now pending_secs running_secs batch db =
     (let (db', rows) = list_recoverable_maintenance_tasks now (now - seconds pending_secs)
            (now - seconds running_secs) batch db
      in (db', map tr_id (filter (\<lambda>r. tr_status r = ''pending'') rows)))"


subsection \<open>The maintenance queue as a step relation\<close>

text \<open>
  Every committed transaction of the maintenance queue is a step: a submission under a fresh id, a
  worker's claim, a worker's final write (at any time, by any worker, however late), a recovery scan.
  \<open>task_step\<close> adds the transitions that other callers may ask for.
\<close>

inductive maintenance_step :: "int \<Rightarrow> task_db \<Rightarrow> task_db \<Rightarrow> bool" for retries where
  ms_submit: "submit_maintenance_task now uid ''maintenance'' retries ty target db = Inr (db', r)
    \<Longrightarrow> get_task_record_by_id (tr_id r) db = None \<Longrightarrow> maintenance_step retries db db'"
| ms_claim: "claim_maintenance_task now i db = (db', c) \<Longrightarrow> maintenance_step retries db db'"
| ms_finish: "finish_maintenance_task now i outcome db = (db', u) \<Longrightarrow> maintenance_step retries db db'"
| ms_recover: "recover_stale_maintenance_tasks now p q batch db = (db', ids)
    \<Longrightarrow> maintenance_step retries db db'"

inductive task_step :: "int \<Rightarrow> task_db \<Rightarrow> task_db \<Rightarrow> bool" for retries where
  ts_maintenance: "maintenance_step retries db db' \<Longrightarrow> task_step retries db db'"
| ts_transition: "transition_task_status now i to summary err db = Inr (db', r)
    \<Longrightarrow> task_step retries db db'"

inductive_cases maintenance_stepE: "maintenance_step retries db db'"
inductive_cases task_stepE: "task_step retries db db'"

subsection \<open>Lemmas\<close>

lemma tr_flush_id [simp]: "tr_id new = tr_id old \<Longrightarrow> tr_id (tr_flush now old new) = tr_id old"
  by (simp add: tr_flush_def)

lemma tr_flush_simps [simp]:
  "tr_status (tr_flush now old new) = tr_status new"
  "tr_progress_stage (tr_flush now old new) = tr_progress_stage new"
  "tr_queue_name (tr_flush now old new) = tr_queue_name new"
  "tr_attempt_count (tr_flush now old new) = tr_attempt_count new"
  "tr_max_attempts (tr_flush now old new) = tr_max_attempts new"
  "tr_error_message (tr_flush now old new) = tr_error_message new"
  "tr_result_summary (tr_flush now old new) = tr_result_summary new"
  by (simp_all add: tr_flush_def)

lemma claim_row_simps [simp]:
  "tr_id (claim_row now r) = tr_id r"
  "tr_status (claim_row now r) = ''running''"
  "tr_queue_name (claim_row now r) = tr_queue_name r"
  "tr_attempt_count (claim_row now r) = tr_attempt_count r + 1"
  "tr_max_attempts (claim_row now r) = tr_max_attempts r"
  by (simp_all add: claim_row_def)

lemma recover_row_simps [simp]:
  "tr_id (recover_row now r) = tr_id r"
  "tr_status (recover_row now r) = (if tr_attempt_count r \<ge> tr_max_attempts r then ''failed'' else ''pending'')"
  "tr_attempt_count (recover_row now r) = tr_attempt_count r"
  "tr_max_attempts (recover_row now r) = tr_max_attempts r"
  by (simp_all add: recover_row_def)

lemma apply_status_update_simps [simp]:
  "tr_id (apply_status_update st sg cs inc su er ce r) = tr_id r"
  "tr_status (apply_status_update st sg cs inc su er ce r) = st"
  "tr_queue_name (apply_status_update st sg cs inc su er ce r) = tr_queue_name r"
  "tr_attempt_count (apply_status_update st sg cs inc su er ce r) = tr_attempt_count r + (if inc then 1 else 0)"
  "tr_max_attempts (apply_status_update st sg cs inc su er ce r) = tr_max_attempts r"
  by (simp_all add: apply_status_update_def Let_def)

lemma find_by_id_update:
  assumes "\<And>r. tr_id (f r) = tr_id r"
  shows "get_task_record_by_id i (update_where P f db) =
    map_option (\<lambda>r. if P r then f r else r) (get_task_record_by_id i db)"
  unfolding get_task_record_by_id_def by (rule find_update_where) (simp add: assms)

lemma get_idD: "get_task_record_by_id i db = Some r \<Longrightarrow> tr_id r = i \<and> r \<in> set db"
  by (auto simp: get_task_record_by_id_def dest: find_SomeD)

lemma normalize_canonical:
  "normalize_task_status PENDING = PENDING" "normalize_task_status RUNNING = RUNNING"
  "normalize_task_status SUCCEEDED = SUCCEEDED" "normalize_task_status FAILED = FAILED"
  "normalize_task_status RETRYING = RETRYING" "normalize_task_status CANCELLED = CANCELLED"
  by (simp_all add: normalize_task_status_def PROGRESS_STAGE_STATUSES_def LEGACY_STATUS_ALIASES_def
      task_status_defs)

lemma allowed_SUCCEEDED: "allowed_transitions SUCCEEDED = []"
  by (simp add: allowed_transitions_def ALLOWED_TASK_TRANSITIONS_def task_status_defs)

lemma resolve_from_succeeded:
  assumes "normalize_task_status s = SUCCEEDED" and "resolve_task_transition s q = Inr (n, st)"
  shows "n = SUCCEEDED \<and> st = None"
proof -
  have "RUNNING \<noteq> SUCCEEDED" by (simp add: task_status_defs)
  with assms show ?thesis
    by (auto simp: resolve_task_transition_def allowed_SUCCEEDED Let_def split: if_splits)
qed

text \<open>What a transition does, once and for all: nothing, or one \<open>update_task_record_status\<close>.\<close>

lemma transition_cases:
  assumes "transition_task_status now i to summary err db = Inr (db', ro)"
  obtains "db' = db" "ro = get_task_record_by_id i db"
  | r n st where "get_task_record_by_id i db = Some r" and "resolve_task_transition (tr_status r) to = Inr (n, st)"
      and "\<not> (normalize_task_status (tr_status r) = n \<and> st = None)"
      and "db' = update_where (\<lambda>q. tr_id q = i) (\<lambda>q. tr_flush now q (apply_status_update n st
            (st = None \<and> n \<in> {PENDING, RETRYING, CANCELLED})
            (n = RUNNING \<and> normalize_task_status (tr_status r) \<in> {PENDING, RETRYING}) summary err
            (n \<in> {PENDING, RUNNING, SUCCEEDED, RETRYING}) q)) db"
proof (cases "get_task_record_by_id i db")
  case None
  with assms show ?thesis using that(1) by (simp add: transition_task_status_def)
next
  case (Some r)
  show ?thesis
  proof (cases "resolve_task_transition (tr_status r) to")
    case (Inl e)
    with assms Some show ?thesis by (simp add: transition_task_status_def)
  next
    case (Inr a)
    then obtain n st where res: "resolve_task_transition (tr_status r) to = Inr (n, st)" by (cases a) auto
    show ?thesis
    proof (cases "normalize_task_status (tr_status r) = n \<and> st = None")
      case True
      with assms Some res show ?thesis using that(1) by (simp add: transition_task_status_def Let_def)
    next
      case False
      with assms Some res show ?thesis
        using that(2) [OF Some res False]
        by (auto simp: transition_task_status_def update_task_record_status_def Let_def)
    qed
  qed
qed

lemma transition_keeps_succeeded:
  assumes "transition_task_status now j to summary err db = Inr (db', ro)"
    and "get_task_record_by_id i db = Some r" and "normalize_task_status (tr_status r) = SUCCEEDED"
  shows "get_task_record_by_id i db' = Some r"
  using assms(1)
proof (cases rule: transition_cases)
  case 1
  then show ?thesis using assms by simp
next
  case (2 q n st)
  have "j \<noteq> i"
    using 2(1-3) assms(2,3) resolve_from_succeeded [of "tr_status q" to n st] by auto
  with 2(4) assms(2) show ?thesis
    by (auto simp: find_by_id_update dest: get_idD)
qed

lemma finish_cases:
  assumes "finish_maintenance_task now i outcome db = (db', u)"
  obtains "db' = db"
  | to summary err ro where "to = SUCCEEDED \<or> to = FAILED"
      and "transition_task_status now i to summary err db = Inr (db', ro)"
  using assms
  by (auto simp: finish_maintenance_task_def fail_maintenance_task_def
      split: sum.splits prod.splits; blast)

lemma recover_stale_db:
  "recover_stale_maintenance_tasks now p q batch db = (db', ids) \<Longrightarrow>
   \<exists>picked. picked = order_limit tr_updated_at batch
       (filter (recoverable_row (now - seconds p) (now - seconds q)) db)
     \<and> db' = update_where (\<lambda>r. tr_id r \<in> set (map tr_id picked)) (recover_row now) db"
  by (auto simp: recover_stale_maintenance_tasks_def list_recoverable_maintenance_tasks_def Let_def)

lemma picked_recoverable:
  "r \<in> set (order_limit tr_updated_at batch (filter P db)) \<Longrightarrow> r \<in> set db \<and> P r"
  using set_order_limit [of tr_updated_at batch "filter P db"] by auto


lemma claim_keeps_other:
  assumes "claim_maintenance_task now j db = (db', c)" and "get_task_record_by_id i db = Some r"
    and "tr_status r \<notin> {''pending'', ''retrying''}"
  shows "get_task_record_by_id i db' = Some r"
  using assms
  by (cases "j = i")
    (auto simp: claim_maintenance_task_def find_by_id_update dest: get_idD
      split: option.splits if_splits)

lemma succeeded_not_open:
  "normalize_task_status s = SUCCEEDED \<Longrightarrow> s \<notin> {''pending'', ''retrying'', ''running''}"
  by (auto simp: normalize_task_status_def PROGRESS_STAGE_STATUSES_def LEGACY_STATUS_ALIASES_def
      task_status_defs)

lemma recover_keeps_other:
  assumes "recover_stale_maintenance_tasks now p q batch db = (db', ids)" and "distinct (map tr_id db)"
    and "get_task_record_by_id i db = Some r" and "tr_status r \<notin> {''pending'', ''running''}"
  shows "get_task_record_by_id i db' = Some r"
proof -
  obtain picked where picked: "picked = order_limit tr_updated_at batch
       (filter (recoverable_row (now - seconds p) (now - seconds q)) db)"
    and db': "db' = update_where (\<lambda>r. tr_id r \<in> set (map tr_id picked)) (recover_row now) db"
    using recover_stale_db [OF assms(1)] by blast
  have "tr_id r \<notin> set (map tr_id picked)"
  proof
    assume "tr_id r \<in> set (map tr_id picked)"
    then obtain x where x: "x \<in> set picked" "tr_id x = tr_id r" by auto
    then have "x \<in> set db" "recoverable_row (now - seconds p) (now - seconds q) x"
      using picked picked_recoverable by blast+
    moreover have "x = r"
      using distinct_key_unique [OF assms(2)] x get_idD [OF assms(3)] \<open>x \<in> set db\<close> by blast
    ultimately show False using assms(4) by (auto simp: recoverable_row_def)
  qed
  with assms(3) db' show ?thesis by (simp add: find_by_id_update)
qed

lemma submit_db:
  "submit_maintenance_task now uid queue retries ty target db = Inr (db', r) \<Longrightarrow>
   db' = db @ [r] \<and> tr_status r = ''pending'' \<and> tr_attempt_count r = 0 \<and> tr_max_attempts r = retries"
  by (auto simp: submit_maintenance_task_def create_task_record_def Let_def split: if_splits)

lemma get_id_None: "get_task_record_by_id i db = None \<longleftrightarrow> i \<notin> set (map tr_id db)"
  by (auto simp: get_task_record_by_id_def find_None_iff)

lemma transition_ids:
  "transition_task_status now i to summary err db = Inr (db', ro) \<Longrightarrow> map tr_id db' = map tr_id db"
  by (erule transition_cases) (simp_all add: map_update_where)

lemma maintenance_step_ids:
  assumes "maintenance_step retries db db'" and "distinct (map tr_id db)"
  shows "distinct (map tr_id db')"
  using assms(1)
proof (cases rule: maintenance_stepE [consumes 1])
  case (1 now uid ty target r)
  then show ?thesis using assms(2) by (auto dest!: submit_db simp: get_id_None)
next
  case (2 now i c)
  then show ?thesis using assms(2)
    by (auto simp: claim_maintenance_task_def map_update_where split: option.splits if_splits)
next
  case (3 now i outcome u)
  then show ?thesis using assms(2) by (auto elim!: finish_cases dest!: transition_ids)
next
  case (4 now p q batch ids)
  then show ?thesis using assms(2) by (auto dest!: recover_stale_db simp: map_update_where)
qed

lemma maintenance_step_keeps_succeeded:
  assumes "maintenance_step retries db db'" and "distinct (map tr_id db)"
    and r: "get_task_record_by_id i db = Some r" "normalize_task_status (tr_status r) = SUCCEEDED"
  shows "get_task_record_by_id i db' = Some r"
  using assms(1)
proof (cases rule: maintenance_stepE [consumes 1])
  case (1 now uid ty target q)
  then show ?thesis using r by (auto dest!: submit_db simp: get_task_record_by_id_def find_app)
next
  case (2 now j c)
  then show ?thesis using claim_keeps_other r succeeded_not_open [OF r(2)] by auto
next
  case (3 now j outcome u)
  then show ?thesis using r by (auto elim!: finish_cases dest: transition_keeps_succeeded)
next
  case (4 now p q batch ids)
  then show ?thesis using recover_keeps_other [OF 4 assms(2) r(1)] succeeded_not_open [OF r(2)] by auto
qed

lemma task_step_keeps:
  assumes "task_step retries db db'" and "distinct (map tr_id db)"
  shows "distinct (map tr_id db')"
    and "get_task_record_by_id i db = Some r \<Longrightarrow> normalize_task_status (tr_status r) = SUCCEEDED \<Longrightarrow>
         get_task_record_by_id i db' = Some r"
  using assms
  by (auto elim!: task_stepE dest: maintenance_step_ids transition_ids
      maintenance_step_keeps_succeeded transition_keeps_succeeded)

subsection \<open>Bounded attempts\<close>

definition task_ok :: "int \<Rightarrow> task_record \<Rightarrow> bool" where
  "task_ok retries r \<longleftrightarrow>
     tr_max_attempts r = retries \<and> 0 \<le> tr_attempt_count r \<and> tr_attempt_count r \<le> retries \<and>
     tr_status r \<in> {''pending'', ''running'', ''succeeded'', ''failed''} \<and>
     (tr_status r = ''pending'' \<longrightarrow> tr_attempt_count r < retries) \<and>
     (tr_status r = ''running'' \<longrightarrow> 0 < tr_attempt_count r)"

lemma finish_resolve:
  assumes "to = SUCCEEDED \<or> to = FAILED" and "resolve_task_transition s to = Inr (n, st)"
  shows "n = to \<and> st = None"
proof -
  have "to \<notin> set PROGRESS_STAGE_STATUSES" "normalize_task_status to = to"
    using assms(1) normalize_canonical by (auto simp: PROGRESS_STAGE_STATUSES_def task_status_defs)
  with assms(2) show ?thesis by (auto simp: resolve_task_transition_def Let_def split: if_splits)
qed

lemma transition_task_ok:
  assumes "transition_task_status now i to summary err db = Inr (db', ro)"
    and "to = SUCCEEDED \<or> to = FAILED" and "\<forall>r\<in>set db. task_ok retries r"
  shows "\<forall>r\<in>set db'. task_ok retries r"
  using assms(1)
proof (cases rule: transition_cases)
  case (2 q n st)
  have "n = to" using finish_resolve [OF assms(2) 2(2)] by simp
  with assms(2,3) 2(4) show ?thesis
    by (auto simp: task_ok_def task_status_defs elim!: in_update_whereE)
qed (use assms in simp)

lemma claim_task_ok:
  assumes "claim_maintenance_task now i db = (db', c)" and "distinct (map tr_id db)"
    and "\<forall>r\<in>set db. task_ok retries r"
  shows "\<forall>r\<in>set db'. task_ok retries r"
proof
  fix x assume x: "x \<in> set db'"
  show "task_ok retries x"
  proof (cases "db' = db")
    case False
    then obtain r where r: "get_task_record_by_id i db = Some r" "tr_status r \<in> {''pending'', ''retrying''}"
      and db': "db' = update_where (\<lambda>q. tr_id q = i) (claim_row now) db"
      using assms(1) by (auto simp: claim_maintenance_task_def split: option.splits if_splits)
    from x [unfolded db'] show ?thesis
    proof (cases rule: in_update_whereE)
      case (1 q)
      then have "q = r" using distinct_key_unique [OF assms(2)] get_idD [OF r(1)] by blast
      then show ?thesis using 1 r(2) assms(3) by (auto simp: task_ok_def)
    qed (use assms(3) in blast)
  qed (use assms(3) x in blast)
qed

lemma maintenance_step_ok:
  assumes "maintenance_step retries db db'" and "0 < retries" and "distinct (map tr_id db)"
    and ok: "\<forall>r\<in>set db. task_ok retries r"
  shows "\<forall>r\<in>set db'. task_ok retries r"
  using assms(1)
proof (cases rule: maintenance_stepE [consumes 1])
  case (1 now uid ty target r)
  then show ?thesis using ok assms(2) by (auto dest!: submit_db simp: task_ok_def)
next
  case (2 now i c)
  then show ?thesis using claim_task_ok assms(3) ok by blast
next
  case (3 now i outcome u)
  then show ?thesis using ok by (auto elim!: finish_cases dest: transition_task_ok)
next
  case (4 now p q batch ids)
  then show ?thesis using ok by (auto dest!: recover_stale_db elim!: in_update_whereE simp: task_ok_def
      split: if_splits)
qed


lemma maintenance_reach_ok:
  assumes "(maintenance_step retries)\<^sup>*\<^sup>* [] db" and "0 < retries"
  shows "distinct (map tr_id db) \<and> (\<forall>r\<in>set db. task_ok retries r)"
  using assms(1)
proof (induction rule: rtranclp_induct)
  case (step db db')
  then show ?case using maintenance_step_ids maintenance_step_ok [OF _ assms(2)] by blast
qed simp

lemma task_reach_keeps:
  assumes "(task_step retries)\<^sup>*\<^sup>* db db'" and "distinct (map tr_id db)"
    and "get_task_record_by_id i db = Some r" and "normalize_task_status (tr_status r) = SUCCEEDED"
  shows "distinct (map tr_id db') \<and> get_task_record_by_id i db' = Some r"
  using assms(1)
proof (induction rule: rtranclp_induct)
  case (step db1 db2)
  then show ?case using task_step_keeps assms(4) by blast
qed (simp add: assms)

subsection \<open>Properties\<close>

definition sample_task :: "string \<Rightarrow> int \<Rightarrow> task_record" where
  "sample_task status attempts =
     \<lparr>tr_id = ''t1'', tr_task_type = ''graph_rebuild_user'', tr_target_id = ''7'', tr_status = status,
      tr_progress_stage = None, tr_queue_name = Some ''maintenance'', tr_celery_task_id = Some ''t1'',
      tr_attempt_count = attempts, tr_max_attempts = 3, tr_result_summary = None,
      tr_error_message = None, tr_created_at = 0, tr_updated_at = 0\<rparr>"

text \<open>
  C24. SUCCEEDED is final: once the stored status of a task normalises to SUCCEEDED, no sequence of
  submissions, claims, worker writes, recovery scans and requested transitions changes any column
  of its row.
\<close>

theorem task_succeeded_frozen:
  assumes "(task_step retries)\<^sup>*\<^sup>* db db'" and "distinct (map tr_id db)"
    and "get_task_record_by_id i db = Some r" and "normalize_task_status (tr_status r) = SUCCEEDED"
  shows "get_task_record_by_id i db' = Some r"
  using task_reach_keeps [OF assms] by blast

definition sample_submitted :: "string \<Rightarrow> task_record" where
  "sample_submitted uid =
     \<lparr>tr_id = ''task_'' @ uid, tr_task_type = ''graph_rebuild_user'', tr_target_id = ''7'',
      tr_status = ''pending'', tr_progress_stage = Some ''queued'', tr_queue_name = Some ''maintenance'',
      tr_celery_task_id = Some (''task_'' @ uid), tr_attempt_count = 0, tr_max_attempts = 3,
      tr_result_summary = None, tr_error_message = None, tr_created_at = 5, tr_updated_at = 5\<rparr>"

lemma sample_submit_step:
  assumes "get_task_record_by_id (''task_'' @ uid) db = None"
  shows "maintenance_step 3 db (db @ [sample_submitted uid])"
proof (rule ms_submit)
  show "submit_maintenance_task 5 uid ''maintenance'' 3 ''graph_rebuild_user'' ''7'' db =
      Inr (db @ [sample_submitted uid], sample_submitted uid)"
    by (simp add: submit_maintenance_task_def MAINTENANCE_TASK_TYPES_def create_task_record_def
        sample_submitted_def Let_def)
  show "get_task_record_by_id (tr_id (sample_submitted uid)) db = None"
    using assms by (simp add: sample_submitted_def)
qed

theorem task_succeeded_frozen_witness:
  "\<exists>db'. task_step 3 [sample_task ''completed'' 1] db' \<and> length db' = 2 \<and>
     get_task_record_by_id ''t1'' db' = Some (sample_task ''completed'' 1)"
proof -
  let ?db = "[sample_task ''completed'' 1]"
  have new: "get_task_record_by_id (''task_'' @ ''u'') ?db = None"
    by (simp add: get_task_record_by_id_def sample_task_def)
  obtain db' where step: "task_step 3 ?db db'" and len: "length db' = 2"
    using ts_maintenance [OF sample_submit_step [OF new]] by force
  have "normalize_task_status (tr_status (sample_task ''completed'' 1)) = SUCCEEDED"
    by (simp add: sample_task_def normalize_task_status_def PROGRESS_STAGE_STATUSES_def
        LEGACY_STATUS_ALIASES_def task_status_defs)
  then have "get_task_record_by_id ''t1'' db' = Some (sample_task ''completed'' 1)"
    using task_succeeded_frozen [OF r_into_rtranclp, of 3 ?db db' "''t1''"] step
    by (simp add: get_task_record_by_id_def sample_task_def)
  with step len show ?thesis by blast
qed

text \<open>
  C27. Bounded attempts: in every state the maintenance queue can reach from the empty table, a task has
  been attempted at most CELERY_TASK_MAX_RETRIES times, a pending one strictly less (so that the
  next claim stays within the limit), a running one at least once, and its status is one of four.
\<close>

theorem maintenance_attempts_bounded:
  assumes "(maintenance_step retries)\<^sup>*\<^sup>* [] db" and "0 < retries" and "r \<in> set db"
  shows "0 \<le> tr_attempt_count r \<and> tr_attempt_count r \<le> retries \<and>
    tr_status r \<in> {''pending'', ''running'', ''succeeded'', ''failed''} \<and>
    (tr_status r = ''pending'' \<longrightarrow> tr_attempt_count r < retries) \<and>
    (tr_status r = ''running'' \<longrightarrow> 0 < tr_attempt_count r)"
  using maintenance_reach_ok [OF assms(1,2)] assms(3) by (auto simp: task_ok_def)

theorem maintenance_attempts_bounded_witness:
  "\<exists>db r. maintenance_step 3 [] db \<and> r \<in> set db \<and> tr_status r = ''pending'' \<and> tr_attempt_count r < 3"
proof -
  obtain db where step: "maintenance_step 3 [] db" and "\<exists>r\<in>set db. tr_status r = ''pending''"
    using sample_submit_step [of "''u''" "[]"] by (force simp: get_task_record_by_id_def sample_submitted_def)
  then obtain r where r: "r \<in> set db" "tr_status r = ''pending''" by blast
  show ?thesis
    using maintenance_attempts_bounded [OF r_into_rtranclp, OF step, of r] r step by auto
qed

text \<open>
  A claim is exclusive: it succeeds only on a pending or retrying task of the maintenance queue,
  counts one attempt, and a second claim of the same task finds nothing to claim and changes nothing.
\<close>

theorem maintenance_claim_exclusive:
  assumes "claim_maintenance_task now i db = (db', Some r)"
  shows "(\<exists>q. get_task_record_by_id i db = Some q \<and> tr_status q \<in> {''pending'', ''retrying''} \<and>
      tr_queue_name q = Some ''maintenance'' \<and> tr_attempt_count r = tr_attempt_count q + 1) \<and>
    get_task_record_by_id i db' = Some r \<and> claim_maintenance_task now' i db' = (db', None)"
proof -
  from assms obtain q where q: "get_task_record_by_id i db = Some q" "tr_status q \<in> {''pending'', ''retrying''}"
      "tr_queue_name q = Some ''maintenance''" "r = claim_row now q"
      and db': "db' = update_where (\<lambda>q. tr_id q = i) (claim_row now) db"
    by (auto simp: claim_maintenance_task_def split: option.splits if_splits)
  then have get: "get_task_record_by_id i db' = Some r"
    by (auto simp: find_by_id_update dest: get_idD)
  with q have "claim_maintenance_task now' i db' = (db', None)"
    by (simp add: claim_maintenance_task_def)
  with q get show ?thesis by auto
qed

theorem maintenance_claim_exclusive_witness:
  "claim_maintenance_task 9 ''t1'' (fst (claim_maintenance_task 8 ''t1'' [sample_task ''pending'' 0]))
     = (fst (claim_maintenance_task 8 ''t1'' [sample_task ''pending'' 0]), None)"
proof -
  have "claim_maintenance_task 8 ''t1'' [sample_task ''pending'' 0] =
      (fst (claim_maintenance_task 8 ''t1'' [sample_task ''pending'' 0]), Some (claim_row 8 (sample_task ''pending'' 0)))"
    by (simp add: claim_maintenance_task_def get_task_record_by_id_def sample_task_def)
  from maintenance_claim_exclusive [OF this] show ?thesis by blast
qed

text \<open>
  Outcome of a worker's final write. On a running task the rebuild's outcome is stored: SUCCEEDED with
  the summary and no error, or FAILED with the text of the exception. But if the task was recovered
  meanwhile (it is pending again), even a successful rebuild is stored as FAILED, and the worker raises
  the illegal-transition error.
\<close>

theorem maintenance_finish_outcome:
  assumes "get_task_record_by_id i db = Some r"
  shows "(tr_status r = ''running'' \<longrightarrow>
      snd (finish_maintenance_task now i (Inr summary) db) = Inr () \<and>
      map_option (\<lambda>q. (tr_status q, tr_result_summary q, tr_error_message q))
        (get_task_record_by_id i (fst (finish_maintenance_task now i (Inr summary) db))) =
        Some (''succeeded'', Some summary, None)) \<and>
    (tr_status r = ''running'' \<longrightarrow>
      snd (finish_maintenance_task now i (Inl e) db) = Inl e \<and>
      map_option (\<lambda>q. (tr_status q, tr_error_message q))
        (get_task_record_by_id i (fst (finish_maintenance_task now i (Inl e) db))) =
        Some (''failed'', Some (error_text e))) \<and>
    (tr_status r = ''pending'' \<longrightarrow>
      snd (finish_maintenance_task now i (Inr summary) db) =
        Inl (BusinessException ''illegal task status transition: pending -> succeeded'' 4009 400) \<and>
      map_option tr_status (get_task_record_by_id i (fst (finish_maintenance_task now i (Inr summary) db))) =
        Some ''failed'')"
proof -
  note eval = finish_maintenance_task_def fail_maintenance_task_def transition_task_status_def
    resolve_task_transition_def allowed_transitions_def ALLOWED_TASK_TRANSITIONS_def
    normalize_task_status_def PROGRESS_STAGE_STATUSES_def LEGACY_STATUS_ALIASES_def task_status_defs
    update_task_record_status_def find_by_id_update apply_status_update_def
  have id: "tr_id r = i" using get_idD [OF assms] by simp
  show ?thesis by (intro conjI impI) (use id assms in \<open>auto simp: eval\<close>)
qed

theorem maintenance_finish_outcome_witness:
  "map_option tr_status (get_task_record_by_id ''t1''
     (fst (finish_maintenance_task 9 ''t1'' (Inr ''{}'') [sample_task ''pending'' 1]))) = Some ''failed''"
proof -
  have "get_task_record_by_id ''t1'' [sample_task ''pending'' 1] = Some (sample_task ''pending'' 1)"
    by (simp add: get_task_record_by_id_def sample_task_def)
  from maintenance_finish_outcome [OF this] show ?thesis by (simp add: sample_task_def)
qed

end
