(* ===== verification/Patterns.thy ===== *)
theory Patterns
  imports Prelude
begin

text \<open>
  Python regular expressions, as far as the source uses them to recognise secrets: literals (with or
  without IGNORECASE), repeated character classes, sequences, alternatives, options and the word
  boundary. A match is computed as the list of the positions where it can end; a position is the
  character before it and the text after it. Non-ASCII alternatives of the patterns are outside the
  alphabet of the model.
\<close>

datatype rx =
    Lit string
  | LitI string
  | Cls "char \<Rightarrow> bool" nat "nat option"
  | Seq rx rx
  | Alt rx rx
  | Opt rx
  | WordB

definition is_upper :: "char \<Rightarrow> bool" where "is_upper c \<longleftrightarrow> CHR ''A'' \<le> c \<and> c \<le> CHR ''Z''"
definition is_lower :: "char \<Rightarrow> bool" where "is_lower c \<longleftrightarrow> CHR ''a'' \<le> c \<and> c \<le> CHR ''z''"
definition is_alnum :: "char \<Rightarrow> bool" where "is_alnum c \<longleftrightarrow> is_upper c \<or> is_lower c \<or> is_digit c"

definition is_word_char :: "char \<Rightarrow> bool" where
  "is_word_char c \<longleftrightarrow> is_alnum c \<or> c = CHR ''_''"

definition at_word_char :: "char option \<Rightarrow> bool" where
  "at_word_char c \<longleftrightarrow> (case c of None \<Rightarrow> False | Some d \<Rightarrow> is_word_char d)"

definition first_char :: "string \<Rightarrow> char option" where
  "first_char s = (case s of [] \<Rightarrow> None | c # _ \<Rightarrow> Some c)"

type_synonym position = "char option \<times> string"

fun lit_match :: "(char \<Rightarrow> char) \<Rightarrow> string \<Rightarrow> position \<Rightarrow> position list" where
  "lit_match f [] p = [p]"
| "lit_match f (l # ls) (prev, []) = []"
| "lit_match f (l # ls) (prev, c # cs) = (if f l = f c then lit_match f ls (Some c, cs) else [])"

fun cls_match :: "(char \<Rightarrow> bool) \<Rightarrow> nat \<Rightarrow> nat option \<Rightarrow> char option \<Rightarrow> string \<Rightarrow> position list" where
  "cls_match P lo hi prev [] = (if lo = 0 then [(prev, [])] else [])"
| "cls_match P lo hi prev (c # cs) =
     (if lo = 0 then [(prev, c # cs)] else []) @
     (if P c \<and> hi \<noteq> Some 0 then cls_match P (lo - 1) (map_option (\<lambda>n. n - 1) hi) (Some c) cs else [])"

primrec rx_match :: "rx \<Rightarrow> position \<Rightarrow> position list" where
  "rx_match (Lit l) p = lit_match (\<lambda>c. c) l p"
| "rx_match (LitI l) p = lit_match lower_char l p"
| "rx_match (Cls P lo hi) p = cls_match P lo hi (fst p) (snd p)"
| "rx_match (Seq r s) p = concat (map (rx_match s) (rx_match r p))"
| "rx_match (Alt r s) p = rx_match r p @ rx_match s p"
| "rx_match (Opt r) p = rx_match r p @ [p]"
| "rx_match WordB p = (if at_word_char (fst p) \<noteq> at_word_char (first_char (snd p)) then [p] else [])"

text \<open>\<open>pattern.search(text) is not None\<close>.\<close>

fun search_from :: "rx \<Rightarrow> char option \<Rightarrow> string \<Rightarrow> bool" where
  "search_from r prev [] = (rx_match r (prev, []) \<noteq> [])"
| "search_from r prev (c # cs) = (rx_match r (prev, c # cs) \<noteq> [] \<or> search_from r (Some c) cs)"

definition rx_search :: "rx \<Rightarrow> string \<Rightarrow> bool" where
  "rx_search r s = search_from r None s"

fun rx_seq :: "rx list \<Rightarrow> rx" where
  "rx_seq [] = Lit []"
| "rx_seq [r] = r"
| "rx_seq (r # s # rs) = Seq r (rx_seq (s # rs))"

fun rx_alt :: "rx list \<Rightarrow> rx" where
  "rx_alt [] = Cls (\<lambda>_. False) 1 (Some 1)"
| "rx_alt [r] = r"
| "rx_alt (r # s # rs) = Alt r (rx_alt (s # rs))"

subsection \<open>The secret patterns\<close>

definition one_of :: "string \<Rightarrow> rx" where
  "one_of cs = Cls (\<lambda>c. c \<in> set cs) 1 (Some 1)"

definition spaces :: "nat \<Rightarrow> rx" where
  "spaces n = Cls is_space n None"

definition url_token_char :: "char \<Rightarrow> bool" where
  "url_token_char c \<longleftrightarrow> is_alnum c \<or> c = CHR ''_'' \<or> c = CHR ''-''"

definition bearer_char :: "char \<Rightarrow> bool" where
  "bearer_char c \<longleftrightarrow> is_alnum c \<or> c \<in> set ''._~+/=-''"

definition assigned_names :: rx where
  "assigned_names =
     (let sep = Opt (Cls (\<lambda>c. is_space c \<or> c = CHR ''_'' \<or> c = CHR ''-'') 1 (Some 1)) in
      rx_alt [LitI ''password'', LitI ''passwd'', LitI ''pwd'',
        rx_seq [LitI ''api'', sep, LitI ''key''], rx_seq [LitI ''access'', sep, LitI ''token''],
        LitI ''token'', LitI ''secret'', rx_seq [LitI ''refresh'', sep, LitI ''token''],
        rx_seq [LitI ''auth'', sep, LitI ''token''], rx_seq [LitI ''client'', sep, LitI ''secret''],
        rx_seq [LitI ''private'', sep, LitI ''key'']])"

definition SECRET_PATTERNS :: "rx list" where
  "SECRET_PATTERNS =
     [rx_seq [Lit ''-----BEGIN '', Opt (Seq (Cls (\<lambda>c. is_upper c \<or> is_digit c \<or> c = CHR '' '') 1 None) (Lit '' '')),
        Lit ''PRIVATE KEY-----''],
      rx_seq [WordB, Lit ''AKIA'', Cls (\<lambda>c. is_digit c \<or> is_upper c) 16 (Some 16), WordB],
      rx_seq [WordB,
        Alt (rx_seq [Lit ''gh'', one_of ''pousr'', Lit ''_'', Cls is_alnum 20 None])
            (Seq (Lit ''sk-'') (Cls url_token_char 20 None)), WordB],
      rx_seq [WordB, LitI ''Bearer'', spaces 1, Cls bearer_char 16 None],
      rx_seq [WordB, Lit ''eyJ'', Cls url_token_char 1 None, Lit ''.eyJ'', Cls url_token_char 1 None,
        Lit ''.'', Cls url_token_char 1 None, WordB],
      rx_seq [WordB, assigned_names, WordB, spaces 0, rx_alt [LitI ''is'', Lit '':'', Lit ''=''], spaces 0,
        Opt (one_of [CHR 0x22, CHR 0x27]),
        Cls (\<lambda>c. \<not> is_space c \<and> c \<notin> {CHR '','', CHR '';'', CHR 0x22, CHR 0x27}) 4 None],
      rx_seq [WordB,
        rx_alt [Seq (LitI ''postgres'') (Opt (LitI ''ql'')), LitI ''mysql'',
          Seq (LitI ''mongodb'') (Opt (LitI ''+srv''))],
        Lit ''://'', Cls (\<lambda>c. \<not> is_space c \<and> c \<noteq> CHR '':'' \<and> c \<noteq> CHR ''/'') 1 None, Lit '':'',
        Cls (\<lambda>c. \<not> is_space c \<and> c \<noteq> CHR ''@'') 1 None, Lit ''@'']]"

definition contains_secret :: "string \<Rightarrow> bool" where
  "contains_secret text \<longleftrightarrow> list_ex (\<lambda>p. rx_search p text) SECRET_PATTERNS"

subsection \<open>Lemmas\<close>

lemma lit_match_literal: "lit_match (\<lambda>c. c) l (prev, l @ s) = [(if l = [] then prev else Some (last l), s)]"
  by (induction l arbitrary: prev) auto

text \<open>Search finds a pattern that matches somewhere in the text.\<close>

lemma search_from_app:
  "rx_match r (if u = [] then prev else Some (last u), s) \<noteq> [] \<Longrightarrow> search_from r prev (u @ s)"
proof (induction u arbitrary: prev)
  case Nil
  then show ?case by (cases s) auto
next
  case (Cons c u)
  then have "search_from r (Some c) (u @ s)" by (cases u) auto
  then show ?case by simp
qed

lemma rx_search_literal: "rx_search (Lit l) (u @ l @ s)"
  unfolding rx_search_def by (rule search_from_app) (auto simp: lit_match_literal)

lemma sample_secret:
  "contains_secret ''the password: hunter2''"
  "\<not> contains_secret ''the token ring''"
  by code_simp+

end
