(* ===== verification/Outbox.thy ===== *)
theory Outbox
  imports Tables Patterns
begin

text \<open>
  The transactional Outbox: \<open>domains/tasks/outbox.py\<close>, \<open>crud/outbox_event.py\<close> and
  \<open>models/outbox_event.py\<close>. Producers insert an event once per idempotency key; workers load a
  snapshot of an event, mark it running, apply its handler and record success, a retry or a dead
  letter. The settings, the clock formatting and SHA-256 are fields of \<open>outbox_env\<close>; the stores the
  handlers act on (vector store, graph, HTTP) are the fields of \<open>world_ops\<close>, acting on a state \<open>'w\<close>.
\<close>

subsection \<open>Constants, settings and rows\<close>

definition OUTBOX_PENDING :: string where "OUTBOX_PENDING = ''pending''"
definition OUTBOX_RUNNING :: string where "OUTBOX_RUNNING = ''running''"
definition OUTBOX_SUCCEEDED :: string where "OUTBOX_SUCCEEDED = ''succeeded''"
definition OUTBOX_FAILED :: string where "OUTBOX_FAILED = ''failed''"
definition OUTBOX_DEAD_LETTER :: string where "OUTBOX_DEAD_LETTER = ''dead_letter''"

lemmas outbox_status_defs = OUTBOX_PENDING_def OUTBOX_RUNNING_def OUTBOX_SUCCEEDED_def
  OUTBOX_FAILED_def OUTBOX_DEAD_LETTER_def

definition MAX_MEMORY_AGENT_ERROR_LENGTH :: nat where "MAX_MEMORY_AGENT_ERROR_LENGTH = 2000"

record outbox_env =
  oe_max_attempts :: int
  oe_retry_delay :: int
  oe_memory_target :: string
  oe_vector_batch :: int
  oe_iso :: "instant \<Rightarrow> string"
  oe_dump_time :: "instant \<Rightarrow> string"
  oe_sha256 :: "string \<Rightarrow> string"

record outbox_event =
  ev_id :: string
  ev_event_type :: string
  ev_aggregate_type :: string
  ev_aggregate_id :: string
  ev_target_backend :: string
  ev_payload :: "(string \<times> json) list"
  ev_idempotency_key :: string
  ev_status :: string
  ev_attempt_count :: int
  ev_max_attempts :: int
  ev_enqueued_at :: instant
  ev_created_at :: instant
  ev_next_attempt_at :: "instant option"
  ev_locked_at :: "instant option"
  ev_processed_at :: "instant option"
  ev_last_error :: "string option"

type_synonym outbox_db = "outbox_event list"

record outbox_snapshot =
  sn_id :: string
  sn_event_type :: string
  sn_aggregate_type :: string
  sn_aggregate_id :: string
  sn_target_backend :: string
  sn_payload :: "(string \<times> json) list"
  sn_idempotency_key :: string
  sn_status :: string
  sn_attempt_count :: int
  sn_max_attempts :: int

subsection \<open>The table (crud/outbox_event.py)\<close>

definition create_outbox_event ::
  "instant \<Rightarrow> string \<Rightarrow> string \<Rightarrow> string \<Rightarrow> string \<Rightarrow> string \<Rightarrow> (string \<times> json) list \<Rightarrow> string \<Rightarrow> string \<Rightarrow> int
   \<Rightarrow> outbox_event" where
  "create_outbox_event now event_id event_type aggregate_type aggregate_id target_backend payload key status maxa =
     \<lparr>ev_id = event_id, ev_event_type = event_type, ev_aggregate_type = aggregate_type,
      ev_aggregate_id = aggregate_id, ev_target_backend = target_backend, ev_payload = payload,
      ev_idempotency_key = key, ev_status = status, ev_attempt_count = 0, ev_max_attempts = maxa,
      ev_enqueued_at = now, ev_created_at = now, ev_next_attempt_at = None, ev_locked_at = None,
      ev_processed_at = None, ev_last_error = None\<rparr>"

definition get_outbox_event_by_id :: "string \<Rightarrow> outbox_db \<Rightarrow> outbox_event option" where
  "get_outbox_event_by_id event_id db = find (\<lambda>e. ev_id e = event_id) db"

definition get_outbox_event_by_idempotency_key :: "string \<Rightarrow> outbox_db \<Rightarrow> outbox_event option" where
  "get_outbox_event_by_idempotency_key key db = find (\<lambda>e. ev_idempotency_key e = key) db"

definition dispatchable :: "string option \<Rightarrow> instant option \<Rightarrow> outbox_event \<Rightarrow> bool" where
  "dispatchable target_backend now e \<longleftrightarrow>
     ev_status e \<in> {''pending'', ''failed''} \<and>
     (case now of None \<Rightarrow> True
      | Some t \<Rightarrow> (case ev_next_attempt_at e of None \<Rightarrow> True | Some n \<Rightarrow> n \<le> t)) \<and>
     (truthy target_backend \<longrightarrow> target_backend = Some (ev_target_backend e))"

definition list_dispatchable_outbox_events ::
  "nat \<Rightarrow> string option \<Rightarrow> instant option \<Rightarrow> outbox_db \<Rightarrow> outbox_event list" where
  "list_dispatchable_outbox_events batch target_backend now db =
     order_limit ev_created_at batch (filter (dispatchable target_backend now) db)"

definition apply_event_update ::
  "string \<Rightarrow> int option \<Rightarrow> instant option \<Rightarrow> instant option \<Rightarrow> instant option \<Rightarrow> string option \<Rightarrow> bool
   \<Rightarrow> outbox_event \<Rightarrow> outbox_event" where
  "apply_event_update status attempts next locked processed err clear_err e =
     (let e1 = e\<lparr>ev_status := status\<rparr>;
          e2 = (case attempts of None \<Rightarrow> e1 | Some n \<Rightarrow> e1\<lparr>ev_attempt_count := n\<rparr>);
          e3 = (if next \<noteq> None \<or> status \<in> {''pending'', ''running'', ''succeeded'', ''dead_letter''}
                then e2\<lparr>ev_next_attempt_at := next\<rparr> else e2);
          e4 = (if locked \<noteq> None \<or> status \<in> {''pending'', ''failed'', ''succeeded'', ''dead_letter''}
                then e3\<lparr>ev_locked_at := locked\<rparr> else e3);
          e5 = (if processed \<noteq> None then e4\<lparr>ev_processed_at := processed\<rparr> else e4)
      in if clear_err then e5\<lparr>ev_last_error := None\<rparr>
         else if err \<noteq> None then e5\<lparr>ev_last_error := err\<rparr> else e5)"

definition update_outbox_event_status ::
  "string \<Rightarrow> string \<Rightarrow> int option \<Rightarrow> instant option \<Rightarrow> instant option \<Rightarrow> instant option \<Rightarrow> string option \<Rightarrow> bool
   \<Rightarrow> outbox_db \<Rightarrow> outbox_db" where
  "update_outbox_event_status event_id status attempts next locked processed err clear_err db =
     update_where (\<lambda>e. ev_id e = event_id)
       (apply_event_update status attempts next locked processed err clear_err) db"

subsection \<open>Producers (domains/tasks/outbox.py)\<close>

definition build_outbox_event_id :: "string \<Rightarrow> string \<Rightarrow> string" where
  "build_outbox_event_id stamp hex = ''outbox_'' @ stamp @ ''_'' @ take 8 hex"

definition build_outbox_idempotency_key :: "string \<Rightarrow> string \<Rightarrow> string \<Rightarrow> string \<Rightarrow> string" where
  "build_outbox_idempotency_key event_type aggregate_type aggregate_id operation_id =
     event_type @ '':'' @ aggregate_type @ '':'' @ aggregate_id @ '':'' @ operation_id"

definition calculate_next_attempt_at :: "outbox_env \<Rightarrow> instant \<Rightarrow> int \<Rightarrow> instant" where
  "calculate_next_attempt_at env now attempts = now + seconds (oe_retry_delay env * max 1 attempts)"

definition should_dead_letter :: "int \<Rightarrow> int \<Rightarrow> bool" where
  "should_dead_letter attempts maxa \<longleftrightarrow> attempts \<ge> maxa"

definition create_outbox_event_if_missing :: "outbox_event \<Rightarrow> outbox_db \<Rightarrow> outbox_db \<times> outbox_event \<times> bool" where
  "create_outbox_event_if_missing new db =
     (case get_outbox_event_by_idempotency_key (ev_idempotency_key new) db of
        None \<Rightarrow> (db @ [new], new, True)
      | Some existing \<Rightarrow> (db, existing, False))"

text \<open>\<open>new_id\<close> is the value of \<open>build_outbox_event_id()\<close> for this call.\<close>

definition enqueue_outbox_event ::
  "outbox_env \<Rightarrow> instant \<Rightarrow> string \<Rightarrow> string \<Rightarrow> string \<Rightarrow> string \<Rightarrow> string \<Rightarrow> (string \<times> json) list \<Rightarrow> string
   \<Rightarrow> outbox_db \<Rightarrow> outbox_db \<times> outbox_event" where
  "enqueue_outbox_event env now new_id event_type aggregate_type aggregate_id target_backend payload operation_id db =
     (let key = build_outbox_idempotency_key event_type aggregate_type aggregate_id operation_id;
          new = create_outbox_event now new_id event_type aggregate_type aggregate_id target_backend
                  payload key ''pending'' (oe_max_attempts env);
          (db', e, created) = create_outbox_event_if_missing new db
      in (db', e))"

definition enqueue_document_vector_reindex_event ::
  "outbox_env \<Rightarrow> instant \<Rightarrow> string \<Rightarrow> string \<Rightarrow> string \<Rightarrow> bool \<Rightarrow> outbox_db \<Rightarrow> outbox_db \<times> outbox_event" where
  "enqueue_document_vector_reindex_event env now new_id document_id operation_id delete_existing db =
     enqueue_outbox_event env now new_id ''document.vector.reindex'' ''document'' document_id ''milvus''
       [(''document_id'', JStr document_id), (''delete_existing'', JBool delete_existing)] operation_id db"

definition enqueue_document_graph_sync_event ::
  "outbox_env \<Rightarrow> instant \<Rightarrow> string \<Rightarrow> string \<Rightarrow> string \<Rightarrow> outbox_db \<Rightarrow> outbox_db \<times> outbox_event" where
  "enqueue_document_graph_sync_event env now new_id document_id operation_id db =
     enqueue_outbox_event env now new_id ''document.graph.sync'' ''document'' document_id ''neo4j''
       [(''document_id'', JStr document_id)] operation_id db"

definition enqueue_graph_projection_upsert ::
  "outbox_env \<Rightarrow> instant \<Rightarrow> string \<Rightarrow> string \<Rightarrow> string \<Rightarrow> string \<Rightarrow> outbox_db
   \<Rightarrow> (outbox_db \<times> outbox_event) result" where
  "enqueue_graph_projection_upsert env now new_id aggregate_type aggregate_id operation_id db =
     (if aggregate_type \<notin> {''user'', ''knowledge_base'', ''document''}
      then Inl (ValueError (''unsupported graph projection aggregate: '' @ aggregate_type))
      else Inr (enqueue_outbox_event env now new_id ''graph.projection.upsert'' aggregate_type aggregate_id
        ''neo4j'' [(''aggregate_type'', JStr aggregate_type), (''aggregate_id'', JStr aggregate_id)]
        operation_id db))"

subsection \<open>Events for the memory agent\<close>

definition MEMORY_AGENT_EVENT_TYPES :: "string list" where
  "MEMORY_AGENT_EVENT_TYPES =
     [''document.projection.upserted'', ''document.memory.observed'', ''document.deleted'',
      ''knowledge_base.deleted'', ''conversation.completed'', ''conversation.deleted'',
      ''user.memory_requested'', ''user.memory_settings.changed'']"

record memory_agent_event =
  ma_event_id :: string
  ma_event_type :: string
  ma_occurred_at :: instant
  ma_owner_id :: int
  ma_knowledge_base_id :: "string option"
  ma_payload :: "(string \<times> json) list"

text \<open>The constructor validates (pydantic): bad field values raise a \<open>ValidationError\<close>, a \<open>ValueError\<close>.\<close>

definition new_memory_agent_event ::
  "string \<Rightarrow> string \<Rightarrow> instant \<Rightarrow> int \<Rightarrow> string option \<Rightarrow> (string \<times> json) list \<Rightarrow> memory_agent_event result" where
  "new_memory_agent_event event_id event_type occurred_at owner_id kb payload =
     (if event_id = [] \<or> 128 < length event_id \<or> event_type \<notin> set MEMORY_AGENT_EVENT_TYPES \<or> owner_id \<le> 0
      then Inl (ValueError ''validation error for MemoryAgentEvent'')
      else Inr \<lparr>ma_event_id = event_id, ma_event_type = event_type, ma_occurred_at = occurred_at,
             ma_owner_id = owner_id, ma_knowledge_base_id = kb, ma_payload = payload\<rparr>)"

definition event_dump :: "outbox_env \<Rightarrow> memory_agent_event \<Rightarrow> (string \<times> json) list" where
  "event_dump env e =
     [(''event_id'', JStr (ma_event_id e)), (''event_type'', JStr (ma_event_type e)),
      (''schema_version'', JStr ''1''), (''occurred_at'', JStr (oe_dump_time env (ma_occurred_at e))),
      (''owner_id'', JInt (ma_owner_id e)), (''knowledge_base_id'', jstr_opt (ma_knowledge_base_id e)),
      (''payload'', JObj (ma_payload e))]"

definition enqueue_memory_agent_event ::
  "outbox_env \<Rightarrow> instant \<Rightarrow> string \<Rightarrow> memory_agent_event \<Rightarrow> string \<Rightarrow> string \<Rightarrow> outbox_db
   \<Rightarrow> outbox_db \<times> outbox_event" where
  "enqueue_memory_agent_event env now new_id event aggregate_type aggregate_id db =
     enqueue_outbox_event env now new_id (ma_event_type event) aggregate_type aggregate_id
       (oe_memory_target env) (event_dump env event) (ma_event_id event) db"

text \<open>\<open>event.payload["document_id"]\<close> is a string by the event's schema; a missing key raises \<open>KeyError\<close>.\<close>

definition payload_document_id :: "(json \<Rightarrow> string) \<Rightarrow> memory_agent_event \<Rightarrow> string result" where
  "payload_document_id repr event =
     (case jget ''document_id'' (ma_payload event) of
        None \<Rightarrow> Inl (KeyError ''document_id'')
      | Some v \<Rightarrow> Inr (py_str repr v))"

definition enqueue_document_agent_projection ::
  "(json \<Rightarrow> string) \<Rightarrow> outbox_env \<Rightarrow> instant \<Rightarrow> string \<Rightarrow> memory_agent_event \<Rightarrow> outbox_db
   \<Rightarrow> (outbox_db \<times> outbox_event) result" where
  "enqueue_document_agent_projection repr env now new_id event db =
     (if ma_event_type event \<noteq> ''document.projection.upserted''
      then Inl (ValueError ''document projection enqueue requires a projection event'')
      else ebind (payload_document_id repr event) (\<lambda>document_id.
        Inr (enqueue_memory_agent_event env now new_id event ''document'' document_id db)))"

definition some_event :: "outbox_db \<times> outbox_event \<Rightarrow> outbox_db \<times> outbox_event option" where
  "some_event r = (fst r, Some (snd r))"

definition enqueue_document_memory_observed ::
  "(json \<Rightarrow> string) \<Rightarrow> outbox_env \<Rightarrow> instant \<Rightarrow> string \<Rightarrow> memory_agent_event \<Rightarrow> outbox_db
   \<Rightarrow> (outbox_db \<times> outbox_event option) result" where
  "enqueue_document_memory_observed repr env now new_id event db =
     (if ma_event_type event \<noteq> ''document.memory.observed''
      then Inl (ValueError ''document memory enqueue requires an observation event'')
      else (case jget ''excerpt'' (ma_payload event) of
        Some (JStr excerpt) \<Rightarrow>
          if contains_secret excerpt then Inr (db, None)
          else ebind (payload_document_id repr event) (\<lambda>document_id.
            Inr (some_event (enqueue_memory_agent_event env now new_id event ''document'' document_id db)))
      | _ \<Rightarrow> Inr (db, None)))"

definition memory_event_id :: "outbox_env \<Rightarrow> string \<Rightarrow> string list \<Rightarrow> string" where
  "memory_event_id env prefix parts = prefix @ '':'' @ oe_sha256 env (py_join [CHR 0x00] parts)"

definition enqueue_conversation_completed ::
  "outbox_env \<Rightarrow> instant \<Rightarrow> string \<Rightarrow> int \<Rightarrow> string option \<Rightarrow> string \<Rightarrow> string \<Rightarrow> string \<Rightarrow> instant \<Rightarrow> string \<Rightarrow> string
   \<Rightarrow> instant \<Rightarrow> outbox_db \<Rightarrow> (outbox_db \<times> outbox_event option) result" where
  "enqueue_conversation_completed env now new_id owner kb session_id user_id user_content user_at
       assistant_id assistant_content assistant_at db =
     (if contains_secret user_content \<or> contains_secret assistant_content then Inr (db, None)
      else ebind
        (new_memory_agent_event
          (memory_event_id env ''conversation-completed'' [py_str_int owner, session_id, user_id, assistant_id])
          ''conversation.completed'' assistant_at owner kb
          [(''session_id'', JStr session_id),
           (''user_message'', JObj [(''id'', JStr user_id), (''content'', JStr (take 20000 user_content)),
              (''created_at'', JStr (oe_iso env user_at))]),
           (''assistant_message'', JObj [(''id'', JStr assistant_id), (''content'', JStr (take 20000 assistant_content)),
              (''created_at'', JStr (oe_iso env assistant_at))])])
        (\<lambda>event. Inr (some_event
          (enqueue_memory_agent_event env now new_id event ''conversation'' session_id db))))"

definition enqueue_user_memory_requested ::
  "outbox_env \<Rightarrow> instant \<Rightarrow> string \<Rightarrow> int \<Rightarrow> string \<Rightarrow> string \<Rightarrow> string \<Rightarrow> string \<Rightarrow> instant \<Rightarrow> outbox_db
   \<Rightarrow> (outbox_db \<times> outbox_event option) result" where
  "enqueue_user_memory_requested env now new_id owner kb session_id message_id excerpt created_at db =
     (if contains_secret excerpt then Inr (db, None)
      else ebind
        (new_memory_agent_event
          (memory_event_id env ''memory-requested''
            [py_str_int owner, session_id, message_id, oe_iso env created_at])
          ''user.memory_requested'' created_at owner (Some kb)
          [(''session_id'', JStr session_id), (''message_id'', JStr message_id),
           (''message_created_at'', JStr (oe_iso env created_at)), (''excerpt'', JStr (take 20000 excerpt))])
        (\<lambda>event. Inr (some_event
          (enqueue_memory_agent_event env now new_id event ''chat_message'' message_id db))))"

text \<open>\<open>repr(sorted(payload.items()))\<close> for a dict of at most the two boolean settings.\<close>

definition repr_setting :: "string \<times> bool \<Rightarrow> string" where
  "repr_setting kv = ''('' @ [CHR 0x27] @ fst kv @ [CHR 0x27] @ '', '' @ (if snd kv then ''True'' else ''False'') @ '')''"

definition repr_settings :: "(string \<times> bool) list \<Rightarrow> string" where
  "repr_settings kvs = ''['' @ py_join '', '' (map repr_setting (sort kvs)) @ '']''"

definition enqueue_user_memory_settings_changed ::
  "outbox_env \<Rightarrow> instant \<Rightarrow> string \<Rightarrow> int \<Rightarrow> bool option \<Rightarrow> bool option \<Rightarrow> instant \<Rightarrow> outbox_db
   \<Rightarrow> (outbox_db \<times> outbox_event) result" where
  "enqueue_user_memory_settings_changed env now new_id owner automatic ads occurred_at db =
     (let payload = (case automatic of None \<Rightarrow> [] | Some b \<Rightarrow> [(''automatic_conversation_memory'', b)])
                  @ (case ads of None \<Rightarrow> [] | Some b \<Rightarrow> [(''ad_personalization_enabled'', b)])
      in if payload = [] then Inl (ValueError ''at least one memory setting is required'')
         else ebind
           (new_memory_agent_event
             (memory_event_id env ''memory-settings-changed''
               [py_str_int owner, oe_iso env occurred_at, repr_settings payload])
             ''user.memory_settings.changed'' occurred_at owner None
             (map (\<lambda>(k, b). (k, JBool b)) payload))
           (\<lambda>event. Inr (enqueue_memory_agent_event env now new_id event ''user'' (py_str_int owner) db)))"

definition enqueue_document_deleted ::
  "outbox_env \<Rightarrow> instant \<Rightarrow> string \<Rightarrow> int \<Rightarrow> string \<Rightarrow> string \<Rightarrow> instant \<Rightarrow> outbox_db
   \<Rightarrow> (outbox_db \<times> outbox_event) result" where
  "enqueue_document_deleted env now new_id owner kb document_id source_version db =
     ebind
       (new_memory_agent_event
         (memory_event_id env ''document-deleted''
           [py_str_int owner, kb, document_id, oe_iso env source_version])
         ''document.deleted'' source_version owner (Some kb)
         [(''owner_id'', JInt owner), (''knowledge_base_id'', JStr kb), (''document_id'', JStr document_id),
          (''source_version'', JStr (oe_iso env source_version))])
       (\<lambda>event. Inr (enqueue_memory_agent_event env now new_id event ''document'' document_id db))"

definition enqueue_knowledge_base_deleted ::
  "outbox_env \<Rightarrow> instant \<Rightarrow> string \<Rightarrow> int \<Rightarrow> string \<Rightarrow> instant \<Rightarrow> outbox_db
   \<Rightarrow> (outbox_db \<times> outbox_event) result" where
  "enqueue_knowledge_base_deleted env now new_id owner kb source_version db =
     ebind
       (new_memory_agent_event
         (memory_event_id env ''knowledge-base-deleted''
           [py_str_int owner, kb, oe_iso env source_version])
         ''knowledge_base.deleted'' source_version owner (Some kb)
         [(''owner_id'', JInt owner), (''knowledge_base_id'', JStr kb),
          (''source_version'', JStr (oe_iso env source_version))])
       (\<lambda>event. Inr (enqueue_memory_agent_event env now new_id event ''knowledge_base'' kb db))"

definition enqueue_conversation_deleted ::
  "outbox_env \<Rightarrow> instant \<Rightarrow> string \<Rightarrow> int \<Rightarrow> string option \<Rightarrow> string \<Rightarrow> string list \<Rightarrow> instant \<Rightarrow> outbox_db
   \<Rightarrow> (outbox_db \<times> outbox_event) result" where
  "enqueue_conversation_deleted env now new_id owner kb session_id message_ids source_version db =
     ebind
       (new_memory_agent_event
         (memory_event_id env ''conversation-deleted''
           [py_str_int owner, (case kb of None \<Rightarrow> [] | Some k \<Rightarrow> k), session_id, oe_iso env source_version])
         ''conversation.deleted'' source_version owner kb
         [(''owner_id'', JInt owner), (''knowledge_base_id'', jstr_opt kb), (''session_id'', JStr session_id),
          (''message_ids'', JList (map JStr (sort (uniq message_ids)))),
          (''source_version'', JStr (oe_iso env source_version))])
       (\<lambda>event. Inr (enqueue_memory_agent_event env now new_id event ''conversation'' session_id db))"

subsection \<open>Handlers\<close>

record document_row =
  doc_id :: string
  doc_pk :: int
  doc_user_id :: int
  doc_knowledge_base_id :: string
  doc_knowledge_base_pk :: int
  doc_file_name :: string
  doc_file_type :: string
  doc_file_path :: string

record chunk_row =
  ck_id :: string
  ck_content :: string
  ck_chunk_index :: int
  ck_page_no :: "int option"
  ck_start_offset :: "int option"
  ck_end_offset :: "int option"
  ck_section_id :: "string option"
  ck_section_title :: "string option"
  ck_section_level :: "int option"
  ck_section_path :: json
  ck_section_summary :: "string option"
  ck_section_chunk_index :: "int option"

record lc_document =
  lc_page_content :: string
  lc_metadata :: "(string \<times> json) list"

definition jint_opt :: "int option \<Rightarrow> json" where
  "jint_opt n = (case n of None \<Rightarrow> JNull | Some i \<Rightarrow> JInt i)"

definition build_chunk_document :: "document_row \<Rightarrow> chunk_row \<Rightarrow> lc_document" where
  "build_chunk_document d c =
     \<lparr>lc_page_content = ck_content c,
      lc_metadata =
        [(''user_id'', JInt (doc_user_id d)), (''knowledge_base_id'', JStr (doc_knowledge_base_id d)),
         (''knowledge_base_pk'', JInt (doc_knowledge_base_pk d)), (''document_id'', JStr (doc_id d)),
         (''document_pk'', JInt (doc_pk d)), (''file_name'', JStr (doc_file_name d)),
         (''file_type'', JStr (doc_file_type d)), (''source'', JStr (doc_file_path d)),
         (''chunk_id'', JStr (ck_id c)), (''chunk_index'', JInt (ck_chunk_index c)),
         (''page_no'', jint_opt (ck_page_no c)), (''start_offset'', jint_opt (ck_start_offset c)),
         (''end_offset'', jint_opt (ck_end_offset c)), (''section_id'', jstr_opt (ck_section_id c)),
         (''section_title'', jstr_opt (ck_section_title c)), (''section_level'', jint_opt (ck_section_level c)),
         (''section_path'', ck_section_path c), (''section_summary'', jstr_opt (ck_section_summary c)),
         (''section_chunk_index'', jint_opt (ck_section_chunk_index c))]\<rparr>"

text \<open>
  The stores outside the Outbox: \<open>wo_doc\<close> to \<open>wo_entries\<close> are the reads, the other fields the calls
  into the vector store, the graph projection, the automation hooks and the memory agent. The vector
  store answers with the total count, the batch count and the batch size.
\<close>

record ('u, 'k, 'm, 'w) world_ops =
  wo_doc :: "'w \<Rightarrow> string \<Rightarrow> document_row option"
  wo_chunks :: "'w \<Rightarrow> string \<Rightarrow> chunk_row list"
  wo_kb :: "'w \<Rightarrow> string \<Rightarrow> 'k option"
  wo_kb_user_id :: "'k \<Rightarrow> int"
  wo_user :: "'w \<Rightarrow> int \<Rightarrow> 'u option"
  wo_entries :: "'w \<Rightarrow> string \<Rightarrow> 'm list"
  wo_delete_vectors :: "string list \<Rightarrow> ('w, unit) action"
  wo_add_vectors :: "lc_document list \<Rightarrow> int \<Rightarrow> ('w, int \<times> int \<times> int) action"
  wo_sync_memory :: "'u \<Rightarrow> 'k \<Rightarrow> document_row \<Rightarrow> 'm list \<Rightarrow> ('w, unit) action"
  wo_sync_user :: "'u \<Rightarrow> ('w, unit) action"
  wo_sync_kb :: "'u \<Rightarrow> 'k \<Rightarrow> ('w, unit) action"
  wo_sync_document :: "'u \<Rightarrow> 'k \<Rightarrow> document_row \<Rightarrow> ('w, unit) action"
  wo_in_app :: "outbox_snapshot \<Rightarrow> ('w, json) action"
  wo_internal_hook :: "outbox_snapshot \<Rightarrow> ('w, json) action"
  wo_memory_agent :: "outbox_snapshot \<Rightarrow> ('w, json) action"
  wo_repr :: "json \<Rightarrow> string"

text \<open>\<open>payload.get(key)\<close> where the code tests it for truth and then uses it as a string id.\<close>

definition payload_id :: "string \<Rightarrow> (string \<times> json) list \<Rightarrow> string option" where
  "payload_id key kvs = (case jget key kvs of Some (JStr s) \<Rightarrow> if s = [] then None else Some s | _ \<Rightarrow> None)"

definition apply_vector_reindex_event ::
  "outbox_env \<Rightarrow> ('u, 'k, 'm, 'w) world_ops \<Rightarrow> outbox_snapshot \<Rightarrow> ('w, json) action" where
  "apply_vector_reindex_event env ops sn w =
     (case payload_id ''document_id'' (sn_payload sn) of
        None \<Rightarrow> (w, Inl (BusinessException ''outbox vector event missing document_id'' 5017 500))
      | Some document_id \<Rightarrow> (case wo_doc ops w document_id of
          None \<Rightarrow> (w, Inl (BusinessException ''document not found for vector outbox event'' 4044 404))
        | Some document \<Rightarrow>
            let chunks = wo_chunks ops w (doc_id document);
                docs = map (build_chunk_document document) chunks;
                delete = (case jget ''delete_existing'' (sn_payload sn) of None \<Rightarrow> True | Some v \<Rightarrow> jtruthy v)
            in abind
              (if delete then wo_delete_vectors ops (map ck_id chunks) else areturn ())
              (\<lambda>_. abind (wo_add_vectors ops docs (oe_vector_batch env))
                (\<lambda>(total, batches, size). areturn (JObj
                  [(''document_id'', JStr document_id), (''total_count'', JInt total),
                   (''batch_count'', JInt batches), (''batch_size'', JInt size),
                   (''indexed_vector_count'', JInt total), (''vector_batch_count'', JInt batches),
                   (''vector_batch_size'', JInt size)]))) w))"

definition apply_graph_sync_event ::
  "('u, 'k, 'm, 'w) world_ops \<Rightarrow> outbox_snapshot \<Rightarrow> ('w, json) action" where
  "apply_graph_sync_event ops sn w =
     (case payload_id ''document_id'' (sn_payload sn) of
        None \<Rightarrow> (w, Inl (BusinessException ''outbox graph event missing document_id'' 5018 500))
      | Some document_id \<Rightarrow> (case wo_doc ops w document_id of
          None \<Rightarrow> (w, Inl (BusinessException ''document not found for graph outbox event'' 4044 404))
        | Some document \<Rightarrow>
            (case (wo_kb ops w (doc_knowledge_base_id document), wo_user ops w (doc_user_id document)) of
               (Some kb, Some user) \<Rightarrow>
                 let entries = wo_entries ops w (doc_id document) in
                 abind (wo_sync_memory ops user kb document entries)
                   (\<lambda>_. areturn (JObj [(''document_id'', JStr document_id),
                      (''memory_entry_count'', JInt (int (length entries)))])) w
             | _ \<Rightarrow> (w, Inl (BusinessException ''graph outbox event missing user or knowledge base'' 5019 500)))))"

definition projection_result :: "string \<Rightarrow> string \<Rightarrow> bool \<Rightarrow> json" where
  "projection_result aggregate_type aggregate_id skipped =
     JObj [(''aggregate_type'', JStr aggregate_type), (''aggregate_id'', JStr aggregate_id),
           (''skipped'', JBool skipped)]"

definition apply_graph_projection_upsert ::
  "('u, 'k, 'm, 'w) world_ops \<Rightarrow> outbox_snapshot \<Rightarrow> ('w, json) action" where
  "apply_graph_projection_upsert ops sn w =
     (let ty = str_or (wo_repr ops) ''aggregate_type'' [] (sn_payload sn);
          i = str_or (wo_repr ops) ''aggregate_id'' [] (sn_payload sn);
          skip = (w, Inr (projection_result ty i True));
          synced = (\<lambda>m. abind m (\<lambda>_. areturn (projection_result ty i False)) w)
      in if ty \<notin> {''user'', ''knowledge_base'', ''document''} \<or> i = []
         then (w, Inl (BusinessException ''invalid graph projection outbox payload'' 5023 500))
         else if ty = ''user'' then
           (case py_int i of
              None \<Rightarrow> (w, Inl (ValueError ''invalid literal for int() with base 10''))
            | Some n \<Rightarrow> (case wo_user ops w n of None \<Rightarrow> skip | Some user \<Rightarrow> synced (wo_sync_user ops user)))
         else if ty = ''knowledge_base'' then
           (case wo_kb ops w i of
              None \<Rightarrow> skip
            | Some kb \<Rightarrow> (case wo_user ops w (wo_kb_user_id ops kb) of
                None \<Rightarrow> skip | Some user \<Rightarrow> synced (wo_sync_kb ops user kb)))
         else
           (case wo_doc ops w i of
              None \<Rightarrow> skip
            | Some d \<Rightarrow> (case (wo_kb ops w (doc_knowledge_base_id d), wo_user ops w (doc_user_id d)) of
                (Some kb, Some user) \<Rightarrow> synced (wo_sync_document ops user kb d)
              | _ \<Rightarrow> skip)))"

definition apply_outbox_event ::
  "outbox_env \<Rightarrow> ('u, 'k, 'm, 'w) world_ops \<Rightarrow> outbox_snapshot \<Rightarrow> ('w, json) action" where
  "apply_outbox_event env ops sn =
     (if sn_target_backend sn = ''in_app'' then wo_in_app ops sn
      else if sn_target_backend sn = ''internal_hook'' then wo_internal_hook ops sn
      else if sn_target_backend sn = oe_memory_target env then wo_memory_agent ops sn
      else if sn_event_type sn = ''document.vector.reindex'' then apply_vector_reindex_event env ops sn
      else if sn_event_type sn = ''document.graph.sync'' then apply_graph_sync_event ops sn
      else if sn_event_type sn = ''graph.projection.upsert'' then apply_graph_projection_upsert ops sn
      else araise (BusinessException (''unsupported outbox event type: '' @ sn_event_type sn) 5020 500))"

subsection \<open>Workers\<close>

definition snapshot_outbox_event :: "outbox_event \<Rightarrow> outbox_snapshot" where
  "snapshot_outbox_event e =
     \<lparr>sn_id = ev_id e, sn_event_type = ev_event_type e, sn_aggregate_type = ev_aggregate_type e,
      sn_aggregate_id = ev_aggregate_id e, sn_target_backend = ev_target_backend e,
      sn_payload = ev_payload e, sn_idempotency_key = ev_idempotency_key e, sn_status = ev_status e,
      sn_attempt_count = ev_attempt_count e, sn_max_attempts = ev_max_attempts e\<rparr>"

definition load_outbox_event_snapshot :: "string \<Rightarrow> outbox_db \<Rightarrow> outbox_snapshot option" where
  "load_outbox_event_snapshot event_id db =
     map_option snapshot_outbox_event (get_outbox_event_by_id event_id db)"

definition mark_outbox_running :: "instant \<Rightarrow> outbox_snapshot \<Rightarrow> outbox_db \<Rightarrow> outbox_db" where
  "mark_outbox_running now sn db =
     update_outbox_event_status (sn_id sn) OUTBOX_RUNNING (Some (sn_attempt_count sn + 1)) None (Some now)
       None None True db"

definition mark_outbox_succeeded :: "instant \<Rightarrow> string \<Rightarrow> outbox_db \<Rightarrow> outbox_db" where
  "mark_outbox_succeeded now event_id db =
     update_outbox_event_status event_id OUTBOX_SUCCEEDED None None None (Some now) None True db"

definition bounded_error_detail :: "outbox_env \<Rightarrow> outbox_snapshot \<Rightarrow> py_error \<Rightarrow> string" where
  "bounded_error_detail env sn e =
     (if sn_target_backend sn = oe_memory_target env
      then take MAX_MEMORY_AGENT_ERROR_LENGTH
        (case business_message e of Some m \<Rightarrow> m | None \<Rightarrow> ''memory agent delivery failed'')
      else error_text e)"

definition is_retryable :: "py_error \<Rightarrow> bool" where
  "is_retryable e = (case e of MemoryAgentRetryable m s \<Rightarrow> True | _ \<Rightarrow> False)"

definition failure_status :: "outbox_env \<Rightarrow> outbox_snapshot \<Rightarrow> py_error \<Rightarrow> string" where
  "failure_status env sn e =
     (let exhausted = should_dead_letter (sn_attempt_count sn + 1) (sn_max_attempts sn)
      in if sn_target_backend sn = oe_memory_target env
         then (if is_retryable e \<and> \<not> exhausted then OUTBOX_FAILED else OUTBOX_DEAD_LETTER)
         else (if exhausted then OUTBOX_DEAD_LETTER else OUTBOX_FAILED))"

definition mark_outbox_failed ::
  "outbox_env \<Rightarrow> instant \<Rightarrow> outbox_snapshot \<Rightarrow> py_error \<Rightarrow> outbox_db \<Rightarrow> outbox_db" where
  "mark_outbox_failed env now sn e db =
     (let attempts = sn_attempt_count sn + 1;
          status = failure_status env sn e
      in update_outbox_event_status (sn_id sn) status (Some attempts)
           (if status = OUTBOX_DEAD_LETTER then None else Some (calculate_next_attempt_at env now attempts))
           None None (Some (bounded_error_detail env sn e)) False db)"

datatype outbox_outcome =
    OutboxSkipped string string
  | OutboxDone string json

text \<open>
  \<open>process_outbox_event_by_id\<close>: four transactions around the handler. \<open>t0\<close> and \<open>t1\<close> are the clock
  when the event is marked running and when the outcome is recorded; \<open>handler\<close> is \<open>apply_outbox_event\<close>.
\<close>

definition process_outbox_event_by_id ::
  "outbox_env \<Rightarrow> (outbox_snapshot \<Rightarrow> ('w, json) action) \<Rightarrow> instant \<Rightarrow> instant \<Rightarrow> string \<Rightarrow> outbox_db \<times> 'w
   \<Rightarrow> (outbox_db \<times> 'w) \<times> outbox_outcome result" where
  "process_outbox_event_by_id env handler t0 t1 event_id s =
     (case load_outbox_event_snapshot event_id (fst s) of
        None \<Rightarrow> (s, Inl (BusinessException ''outbox event not found'' 4046 404))
      | Some sn \<Rightarrow>
          if sn_status sn \<notin> {OUTBOX_PENDING, OUTBOX_FAILED}
          then (s, Inr (OutboxSkipped (sn_id sn) (sn_status sn)))
          else let db1 = mark_outbox_running t0 sn (fst s) in
            (case handler sn (snd s) of
               (w', Inl e) \<Rightarrow> ((mark_outbox_failed env t1 sn e db1, w'), Inl e)
             | (w', Inr res) \<Rightarrow> ((mark_outbox_succeeded t1 (sn_id sn) db1, w'), Inr (OutboxDone (sn_id sn) res))))"

fun dispatch_loop ::
  "(string \<Rightarrow> 's \<Rightarrow> 's \<times> 'a result) \<Rightarrow> string list \<Rightarrow> 's \<Rightarrow> 's \<times> nat \<times> nat" where
  "dispatch_loop process [] s = (s, 0, 0)"
| "dispatch_loop process (i # is) s =
     (let (s1, r) = process i s;
          (s2, dispatched, failed) = dispatch_loop process is s1
      in case r of Inl e \<Rightarrow> (s2, dispatched, Suc failed) | Inr a \<Rightarrow> (s2, Suc dispatched, failed))"

text \<open>
  The result is \<open>(matched, dispatched, failed)\<close>; \<open>clock i\<close> gives the two clock readings of the
  processing of event \<open>i\<close>.
\<close>

definition dispatch_pending_outbox_events ::
  "outbox_env \<Rightarrow> (outbox_snapshot \<Rightarrow> ('w, json) action) \<Rightarrow> instant \<Rightarrow> (string \<Rightarrow> instant \<times> instant) \<Rightarrow> nat
   \<Rightarrow> string option \<Rightarrow> outbox_db \<times> 'w \<Rightarrow> (outbox_db \<times> 'w) \<times> nat \<times> nat \<times> nat" where
  "dispatch_pending_outbox_events env handler now clock batch target_backend s =
     (let ids = map ev_id (list_dispatchable_outbox_events batch target_backend (Some now) (fst s));
          (s', dispatched, failed) = dispatch_loop
            (\<lambda>i. process_outbox_event_by_id env handler (fst (clock i)) (snd (clock i)) i) ids s
      in (s', length ids, dispatched, failed))"

subsection \<open>Concurrent workers as a step relation\<close>

text \<open>
  A state is the table, the snapshots loaded by workers that have not yet marked their event running,
  and those whose handler is running. Every step is one committed transaction (or the death of a
  worker): producers, the load with its status check, the three writes.
\<close>

type_synonym outbox_sys = "outbox_db \<times> outbox_snapshot list \<times> outbox_snapshot list"

inductive outbox_step :: "outbox_env \<Rightarrow> outbox_sys \<Rightarrow> outbox_sys \<Rightarrow> bool" for env where
  os_enqueue: "get_outbox_event_by_id new_id db = None \<Longrightarrow>
     outbox_step env (db, L, A)
       (fst (enqueue_outbox_event env now new_id ty aty aid backend payload operation db), L, A)"
| os_load: "load_outbox_event_snapshot i db = Some sn \<Longrightarrow> sn_status sn \<in> {OUTBOX_PENDING, OUTBOX_FAILED} \<Longrightarrow>
     outbox_step env (db, L, A) (db, sn # L, A)"
| os_start: "sn \<in> set L \<Longrightarrow>
     outbox_step env (db, L, A) (mark_outbox_running now sn db, remove1 sn L, sn # A)"
| os_succeed: "sn \<in> set A \<Longrightarrow>
     outbox_step env (db, L, A) (mark_outbox_succeeded now (sn_id sn) db, L, remove1 sn A)"
| os_fail: "sn \<in> set A \<Longrightarrow>
     outbox_step env (db, L, A) (mark_outbox_failed env now sn e db, L, remove1 sn A)"
| os_crash: "outbox_step env (db, L, A) (db, remove1 sn L, remove1 sn' A)"

subsection \<open>Lemmas\<close>

interpretation outbox_store: idem_store "\<lambda>db. db" ev_idempotency_key create_outbox_event_if_missing
  by unfold_locales
    (auto simp: create_outbox_event_if_missing_def get_outbox_event_by_idempotency_key_def)

lemma apply_event_update_keeps [simp]:
  "ev_id (apply_event_update st att nx lk pr er ce e) = ev_id e"
  "ev_event_type (apply_event_update st att nx lk pr er ce e) = ev_event_type e"
  "ev_aggregate_type (apply_event_update st att nx lk pr er ce e) = ev_aggregate_type e"
  "ev_aggregate_id (apply_event_update st att nx lk pr er ce e) = ev_aggregate_id e"
  "ev_target_backend (apply_event_update st att nx lk pr er ce e) = ev_target_backend e"
  "ev_payload (apply_event_update st att nx lk pr er ce e) = ev_payload e"
  "ev_idempotency_key (apply_event_update st att nx lk pr er ce e) = ev_idempotency_key e"
  "ev_max_attempts (apply_event_update st att nx lk pr er ce e) = ev_max_attempts e"
  "ev_created_at (apply_event_update st att nx lk pr er ce e) = ev_created_at e"
  by (simp_all add: apply_event_update_def Let_def split: option.splits)

lemma apply_event_update_sets [simp]:
  "ev_status (apply_event_update st att nx lk pr er ce e) = st"
  "ev_attempt_count (apply_event_update st att nx lk pr er ce e) =
     (case att of None \<Rightarrow> ev_attempt_count e | Some n \<Rightarrow> n)"
  "ev_next_attempt_at (apply_event_update st att nx lk pr er ce e) =
     (if nx \<noteq> None \<or> st \<in> {''pending'', ''running'', ''succeeded'', ''dead_letter''} then nx
      else ev_next_attempt_at e)"
  "ev_last_error (apply_event_update st att nx lk pr er ce e) =
     (if ce then None else if er \<noteq> None then er else ev_last_error e)"
  by (simp_all add: apply_event_update_def Let_def split: option.splits)

lemma update_status_find [simp]:
  "get_outbox_event_by_id i (update_outbox_event_status j st att nx lk pr er ce db) =
     (if i = j then map_option (apply_event_update st att nx lk pr er ce) (get_outbox_event_by_id i db)
      else get_outbox_event_by_id i db)"
proof -
  have "find (\<lambda>e. ev_id e = i) (update_where (\<lambda>e. ev_id e = j) (apply_event_update st att nx lk pr er ce) db) =
      map_option (\<lambda>r. if ev_id r = j then apply_event_update st att nx lk pr er ce r else r)
        (find (\<lambda>e. ev_id e = i) db)"
    by (rule find_update_where) simp
  then show ?thesis
    unfolding get_outbox_event_by_id_def update_outbox_event_status_def
    by (cases "find (\<lambda>e. ev_id e = i) db") (use find_SomeD in \<open>force+\<close>)
qed

lemma update_status_maps [simp]:
  "map ev_id (update_outbox_event_status j st att nx lk pr er ce db) = map ev_id db"
  "map ev_idempotency_key (update_outbox_event_status j st att nx lk pr er ce db) = map ev_idempotency_key db"
  by (simp_all add: update_outbox_event_status_def map_update_where)

lemma in_update_statusE:
  assumes "e \<in> set (update_outbox_event_status j st att nx lk pr er ce db)"
  obtains q where "q \<in> set db" and "ev_id q = j" and "e = apply_event_update st att nx lk pr er ce q"
    | "e \<in> set db" and "ev_id e \<noteq> j"
  using assms unfolding update_outbox_event_status_def by (blast elim: in_update_whereE)

lemma get_eventD: "get_outbox_event_by_id i db = Some e \<Longrightarrow> ev_id e = i \<and> e \<in> set db"
  by (auto simp: get_outbox_event_by_id_def dest: find_SomeD)

lemma get_event_None: "get_outbox_event_by_id i db = None \<longleftrightarrow> i \<notin> set (map ev_id db)"
  by (auto simp: get_outbox_event_by_id_def find_None_iff)

lemma snapshot_simps [simp]:
  "sn_id (snapshot_outbox_event e) = ev_id e"
  "sn_status (snapshot_outbox_event e) = ev_status e"
  "sn_attempt_count (snapshot_outbox_event e) = ev_attempt_count e"
  "sn_max_attempts (snapshot_outbox_event e) = ev_max_attempts e"
  "sn_target_backend (snapshot_outbox_event e) = ev_target_backend e"
  by (simp_all add: snapshot_outbox_event_def)

lemma failure_status_cases: "failure_status env sn e = OUTBOX_FAILED \<or> failure_status env sn e = OUTBOX_DEAD_LETTER"
  by (simp add: failure_status_def Let_def)

lemma failure_status_exhausted:
  "sn_attempt_count sn + 1 \<ge> sn_max_attempts sn \<Longrightarrow> failure_status env sn e = OUTBOX_DEAD_LETTER"
  by (simp add: failure_status_def should_dead_letter_def Let_def)

lemma enqueue_cases:
  obtains "get_outbox_event_by_idempotency_key (build_outbox_idempotency_key ty aty aid operation) db = None"
      and "enqueue_outbox_event env now i ty aty aid backend payload operation db =
        (db @ [create_outbox_event now i ty aty aid backend payload
           (build_outbox_idempotency_key ty aty aid operation) ''pending'' (oe_max_attempts env)],
         create_outbox_event now i ty aty aid backend payload
           (build_outbox_idempotency_key ty aty aid operation) ''pending'' (oe_max_attempts env))"
    | e where "get_outbox_event_by_idempotency_key (build_outbox_idempotency_key ty aty aid operation) db = Some e"
      and "enqueue_outbox_event env now i ty aty aid backend payload operation db = (db, e)"
  by (cases "get_outbox_event_by_idempotency_key (build_outbox_idempotency_key ty aty aid operation) db")
    (auto simp: enqueue_outbox_event_def create_outbox_event_if_missing_def create_outbox_event_def Let_def)


lemma enqueue_keeps:
  "get_outbox_event_by_id j db = Some e \<Longrightarrow>
   get_outbox_event_by_id j (fst (enqueue_outbox_event env now i ty aty aid backend payload operation db)) = Some e"
  by (cases rule: enqueue_cases [of ty aty aid operation db env now i backend payload])
    (auto simp: get_outbox_event_by_id_def find_app)

subsection \<open>Invariant of the concurrent system\<close>

definition event_ok :: "outbox_env \<Rightarrow> outbox_event \<Rightarrow> bool" where
  "event_ok env e \<longleftrightarrow>
     ev_max_attempts e = oe_max_attempts env \<and> 0 \<le> ev_attempt_count e \<and>
     ev_attempt_count e \<le> ev_max_attempts e \<and>
     ev_status e \<in> {OUTBOX_PENDING, OUTBOX_RUNNING, OUTBOX_SUCCEEDED, OUTBOX_FAILED, OUTBOX_DEAD_LETTER} \<and>
     (ev_status e \<in> {OUTBOX_PENDING, OUTBOX_FAILED} \<longrightarrow> ev_attempt_count e < ev_max_attempts e)"

definition snapshot_ok :: "outbox_env \<Rightarrow> outbox_snapshot \<Rightarrow> bool" where
  "snapshot_ok env sn \<longleftrightarrow>
     sn_max_attempts sn = oe_max_attempts env \<and> 0 \<le> sn_attempt_count sn \<and>
     sn_attempt_count sn < oe_max_attempts env"

definition outbox_ok :: "outbox_env \<Rightarrow> outbox_sys \<Rightarrow> bool" where
  "outbox_ok env s \<longleftrightarrow>
     (\<forall>e\<in>set (fst s). event_ok env e) \<and>
     (\<forall>sn\<in>set (fst (snd s)) \<union> set (snd (snd s)). snapshot_ok env sn) \<and>
     distinct (map ev_id (fst s)) \<and> distinct (map ev_idempotency_key (fst s))"

lemma outbox_status_distinct:
  "OUTBOX_RUNNING \<notin> {OUTBOX_PENDING, OUTBOX_FAILED}" "OUTBOX_SUCCEEDED \<notin> {OUTBOX_PENDING, OUTBOX_FAILED}"
  "OUTBOX_DEAD_LETTER \<notin> {OUTBOX_PENDING, OUTBOX_FAILED}" "OUTBOX_RUNNING \<noteq> OUTBOX_DEAD_LETTER"
  "OUTBOX_FAILED \<noteq> OUTBOX_DEAD_LETTER" "OUTBOX_SUCCEEDED \<noteq> OUTBOX_DEAD_LETTER"
  by (simp_all add: outbox_status_defs)

lemma mark_running_ok:
  "\<forall>e\<in>set db. event_ok env e \<Longrightarrow> snapshot_ok env sn \<Longrightarrow>
   \<forall>e\<in>set (mark_outbox_running now sn db). event_ok env e"
  unfolding mark_outbox_running_def
  by (auto elim!: in_update_statusE simp: event_ok_def snapshot_ok_def outbox_status_defs)

lemma mark_succeeded_ok:
  "\<forall>e\<in>set db. event_ok env e \<Longrightarrow> \<forall>e\<in>set (mark_outbox_succeeded now i db). event_ok env e"
  unfolding mark_outbox_succeeded_def
  by (auto elim!: in_update_statusE simp: event_ok_def outbox_status_defs)

lemma mark_failed_ok:
  assumes "\<forall>e\<in>set db. event_ok env e" and "snapshot_ok env sn"
  shows "\<forall>e\<in>set (mark_outbox_failed env now sn err db). event_ok env e"
proof
  fix e assume "e \<in> set (mark_outbox_failed env now sn err db)"
  then show "event_ok env e"
    unfolding mark_outbox_failed_def Let_def
  proof (cases rule: in_update_statusE)
    case (1 q)
    have "sn_attempt_count sn + 1 < oe_max_attempts env \<or> failure_status env sn err = OUTBOX_DEAD_LETTER"
      using assms(2) failure_status_exhausted [of sn env err] by (force simp: snapshot_ok_def)
    then show ?thesis
      using assms 1 failure_status_cases [of env sn err] outbox_status_distinct
      by (auto simp: event_ok_def snapshot_ok_def)
  qed (use assms in blast)
qed

lemma mark_maps [simp]:
  "map ev_id (mark_outbox_running now sn db) = map ev_id db"
  "map ev_id (mark_outbox_succeeded now i db) = map ev_id db"
  "map ev_id (mark_outbox_failed env now sn e db) = map ev_id db"
  "map ev_idempotency_key (mark_outbox_running now sn db) = map ev_idempotency_key db"
  "map ev_idempotency_key (mark_outbox_succeeded now i db) = map ev_idempotency_key db"
  "map ev_idempotency_key (mark_outbox_failed env now sn e db) = map ev_idempotency_key db"
  by (simp_all add: mark_outbox_running_def mark_outbox_succeeded_def mark_outbox_failed_def Let_def)

lemma enqueue_ok:
  assumes "\<forall>e\<in>set db. event_ok env e" and "distinct (map ev_id db)" and "distinct (map ev_idempotency_key db)"
    and "get_outbox_event_by_id i db = None" and "0 < oe_max_attempts env"
    and "db' = fst (enqueue_outbox_event env now i ty aty aid backend payload operation db)"
  shows "(\<forall>e\<in>set db'. event_ok env e) \<and> distinct (map ev_id db') \<and> distinct (map ev_idempotency_key db')"
  using assms
  by (cases rule: enqueue_cases [of ty aty aid operation db env now i backend payload])
    (auto simp: create_outbox_event_def event_ok_def outbox_status_defs get_event_None
      get_outbox_event_by_idempotency_key_def find_None_iff)

lemma in_remove1: "x \<in> set (remove1 y ys) \<Longrightarrow> x \<in> set ys"
  using set_remove1_subset by fastforce

lemma outbox_step_ok:
  assumes "outbox_step env s s'" and "0 < oe_max_attempts env" and "outbox_ok env s"
  shows "outbox_ok env s'"
  using assms
proof (induction rule: outbox_step.induct)
  case (os_enqueue new_id db L A now ty aty aid backend payload operation)
  then show ?case using enqueue_ok [of db env new_id] by (simp add: outbox_ok_def)
next
  case (os_load i db sn L A)
  then obtain e where "e \<in> set db" "sn = snapshot_outbox_event e" "ev_status e \<in> {OUTBOX_PENDING, OUTBOX_FAILED}"
    by (auto simp: load_outbox_event_snapshot_def dest!: get_eventD)
  moreover have "event_ok env e" using os_load \<open>e \<in> set db\<close> by (simp add: outbox_ok_def)
  ultimately have "snapshot_ok env sn" by (auto simp: event_ok_def snapshot_ok_def)
  with os_load show ?case by (simp add: outbox_ok_def)
next
  case (os_start sn L db A now)
  then show ?case using mark_running_ok [of db env sn now]
    by (auto simp: outbox_ok_def dest: in_remove1)
next
  case (os_succeed sn A db L now)
  then show ?case using mark_succeeded_ok [of db env now "sn_id sn"]
    by (auto simp: outbox_ok_def dest: in_remove1)
next
  case (os_fail sn A db L now e)
  then show ?case using mark_failed_ok [of db env sn now e]
    by (auto simp: outbox_ok_def dest: in_remove1)
next
  case (os_crash db L A sn sn')
  then show ?case by (auto simp: outbox_ok_def dest: in_remove1)
qed

lemma outbox_reach_ok:
  assumes "(outbox_step env)\<^sup>*\<^sup>* ([], [], []) s" and "0 < oe_max_attempts env"
  shows "outbox_ok env s"
  using assms(1)
proof (induction rule: rtranclp_induct)
  case base
  then show ?case by (simp add: outbox_ok_def)
next
  case (step s s')
  then show ?case using outbox_step_ok assms(2) by blast
qed


subsection \<open>One processing of one event\<close>

lemma process_other:
  assumes "process_outbox_event_by_id env h t0 t1 i s = (s', r)" and "j \<noteq> i"
  shows "get_outbox_event_by_id j (fst s') = get_outbox_event_by_id j (fst s)"
  using assms
  by (auto simp: process_outbox_event_by_id_def load_outbox_event_snapshot_def Let_def
      mark_outbox_running_def mark_outbox_failed_def mark_outbox_succeeded_def
      dest!: get_eventD split: option.splits if_splits prod.splits sum.splits)

text \<open>The event after a processing that was not skipped.\<close>

definition delivered :: "outbox_env \<Rightarrow> instant \<Rightarrow> outbox_event \<Rightarrow> json result \<Rightarrow> outbox_event \<Rightarrow> bool" where
  "delivered env t1 e res e' \<longleftrightarrow>
     ev_attempt_count e' = ev_attempt_count e + 1 \<and> ev_max_attempts e' = ev_max_attempts e \<and>
     ev_target_backend e' = ev_target_backend e \<and>
     (case res of
        Inr v \<Rightarrow> ev_status e' = OUTBOX_SUCCEEDED \<and> ev_next_attempt_at e' = None \<and> ev_last_error e' = None
      | Inl err \<Rightarrow>
          ev_status e' = failure_status env (snapshot_outbox_event e) err \<and>
          ev_next_attempt_at e' = (if ev_status e' = OUTBOX_DEAD_LETTER then None
            else Some (calculate_next_attempt_at env t1 (ev_attempt_count e + 1))) \<and>
          ev_last_error e' = Some (bounded_error_detail env (snapshot_outbox_event e) err))"

lemma mark_running_find:
  "get_outbox_event_by_id (sn_id sn) (mark_outbox_running t sn db) =
     map_option (apply_event_update OUTBOX_RUNNING (Some (sn_attempt_count sn + 1)) None (Some t) None None True)
       (get_outbox_event_by_id (sn_id sn) db)"
  by (simp add: mark_outbox_running_def)

lemma delivered_succeeded:
  "delivered env t1 e (Inr v)
     (apply_event_update OUTBOX_SUCCEEDED None None None (Some t1) None True
       (apply_event_update OUTBOX_RUNNING (Some (ev_attempt_count e + 1)) None (Some t0) None None True e))"
  by (simp add: delivered_def outbox_status_defs)

lemma delivered_failed:
  fixes env err e
  defines "st \<equiv> failure_status env (snapshot_outbox_event e) err"
  shows "delivered env t1 e (Inl err)
     (apply_event_update st (Some (ev_attempt_count e + 1))
       (if st = OUTBOX_DEAD_LETTER then None else Some (calculate_next_attempt_at env t1 (ev_attempt_count e + 1)))
       None None (Some (bounded_error_detail env (snapshot_outbox_event e) err)) False
       (apply_event_update OUTBOX_RUNNING (Some (ev_attempt_count e + 1)) None (Some t0) None None True e))"
  by (simp add: delivered_def st_def [symmetric] OUTBOX_DEAD_LETTER_def)

lemma process_open:
  assumes "get_outbox_event_by_id i (fst s) = Some e" and "ev_status e \<in> {OUTBOX_PENDING, OUTBOX_FAILED}"
    and "h (snapshot_outbox_event e) (snd s) = (w', res)"
  shows "\<exists>e' db'. fst (process_outbox_event_by_id env h t0 t1 i s) = (db', w') \<and>
      get_outbox_event_by_id i db' = Some e' \<and> delivered env t1 e res e'"
proof -
  have id: "ev_id e = i" using get_eventD [OF assms(1)] by simp
  have run: "get_outbox_event_by_id i (mark_outbox_running t0 (snapshot_outbox_event e) (fst s)) =
      Some (apply_event_update OUTBOX_RUNNING (Some (ev_attempt_count e + 1)) None (Some t0) None None True e)"
    using mark_running_find [of "snapshot_outbox_event e" t0 "fst s"] assms(1) id by simp
  show ?thesis
  proof (cases res)
    case (Inl err)
    then show ?thesis
      using assms id run delivered_failed [of env t1 e err t0]
      by (auto simp: process_outbox_event_by_id_def load_outbox_event_snapshot_def mark_outbox_failed_def Let_def)
  next
    case (Inr v)
    then show ?thesis
      using assms id run delivered_succeeded [of env t1 e v t0]
      by (auto simp: process_outbox_event_by_id_def load_outbox_event_snapshot_def mark_outbox_succeeded_def Let_def)
  qed
qed

lemma process_result:
  assumes "get_outbox_event_by_id i (fst s) = Some e" and "ev_status e \<in> {OUTBOX_PENDING, OUTBOX_FAILED}"
    and "h (snapshot_outbox_event e) (snd s) = (w', res)"
  shows "snd (process_outbox_event_by_id env h t0 t1 i s) =
    (case res of Inl err \<Rightarrow> Inl err | Inr v \<Rightarrow> Inr (OutboxDone i v))"
  using assms get_eventD [OF assms(1)]
  by (auto simp: process_outbox_event_by_id_def load_outbox_event_snapshot_def Let_def split: sum.splits)

lemma process_closed:
  assumes "get_outbox_event_by_id i (fst s) = Some e" and "ev_status e \<notin> {OUTBOX_PENDING, OUTBOX_FAILED}"
  shows "process_outbox_event_by_id env h t0 t1 i s = (s, Inr (OutboxSkipped i (ev_status e)))"
  using assms get_eventD [OF assms(1)]
  by (simp add: process_outbox_event_by_id_def load_outbox_event_snapshot_def)

subsection \<open>Dispatching a batch\<close>

lemma dispatch_loop_counts:
  "dispatch_loop p ids s = (s', d, f) \<Longrightarrow> d + f = length ids"
  by (induction ids arbitrary: s s' d f) (auto split: prod.splits sum.splits)

lemma dispatch_loop_state: "fst (dispatch_loop p (i # ids) s) = fst (dispatch_loop p ids (fst (p i s)))"
  by (simp add: split_beta split: sum.split)

lemma dispatch_loop_other:
  "j \<notin> set ids \<Longrightarrow>
   get_outbox_event_by_id j (fst (fst (dispatch_loop (\<lambda>i. process_outbox_event_by_id env h (a i) (b i) i) ids s)))
     = get_outbox_event_by_id j (fst s)"
proof (induction ids arbitrary: s)
  case (Cons i ids)
  obtain s1 r where p: "process_outbox_event_by_id env h (a i) (b i) i s = (s1, r)" by fastforce
  show ?case
    using Cons process_other [OF p, of j] by (simp add: p split_beta split: sum.split)
qed simp

lemma delivered_not_due:
  assumes "delivered env t1 e res e'" and "now \<le> t1" and "0 < oe_retry_delay env"
  shows "\<not> dispatchable tb (Some now) e'"
proof -
  have "0 < oe_retry_delay env * max 1 (ev_attempt_count e + 1)"
    using assms(3) by (intro mult_pos_pos) auto
  then have "0 < seconds (oe_retry_delay env * max 1 (ev_attempt_count e + 1))" by simp
  then have "now < calculate_next_attempt_at env t1 (ev_attempt_count e + 1)"
    using assms(2) unfolding calculate_next_attempt_at_def by linarith
  then show ?thesis
    using assms(1)
    by (cases res) (auto simp: delivered_def dispatchable_def outbox_status_defs failure_status_def Let_def
        split: if_splits)
qed

lemma dispatch_loop_not_due:
  assumes "distinct ids" and "i \<in> set ids" and "get_outbox_event_by_id i (fst s) = Some e"
    and "ev_status e \<in> {OUTBOX_PENDING, OUTBOX_FAILED}" and "now \<le> b i" and "0 < oe_retry_delay env"
  shows "\<exists>e'. get_outbox_event_by_id i
      (fst (fst (dispatch_loop (\<lambda>i. process_outbox_event_by_id env h (a i) (b i) i) ids s))) = Some e' \<and>
      ev_attempt_count e' = ev_attempt_count e + 1 \<and> \<not> dispatchable tb (Some now) e'"
  using assms(1-3)
proof (induction ids arbitrary: s)
  case (Cons j ids)
  obtain s1 r where p: "process_outbox_event_by_id env h (a j) (b j) j s = (s1, r)" by fastforce
  show ?case
  proof (cases "j = i")
    case True
    obtain w' res where h: "h (snapshot_outbox_event e) (snd s) = (w', res)" by fastforce
    obtain e' where e': "get_outbox_event_by_id i (fst s1) = Some e'" "delivered env (b i) e res e'"
      using process_open [of i s e h w' res env "a i" "b i"] h Cons.prems(3) assms(4) p True by auto
    moreover have "\<not> dispatchable tb (Some now) e'" using delivered_not_due e'(2) assms(5,6) by blast
    moreover have "ev_attempt_count e' = ev_attempt_count e + 1" using e'(2) by (simp add: delivered_def)
    moreover have "i \<notin> set ids" using Cons.prems(1) True by simp
    ultimately show ?thesis
      using dispatch_loop_other [of i ids env h a b s1] p True
      by (simp add: dispatch_loop_state del: dispatch_loop.simps)
  next
    case False
    then have "get_outbox_event_by_id i (fst s1) = Some e" using process_other [OF p] Cons.prems(3) by simp
    then show ?thesis
      using Cons.IH [of s1] Cons.prems False by (simp add: p split_beta split: sum.split)
  qed
qed simp


subsection \<open>Repeated delivery of an event that keeps failing\<close>

definition redeliver ::
  "outbox_env \<Rightarrow> (outbox_snapshot \<Rightarrow> ('w, json) action) \<Rightarrow> string \<Rightarrow> instant list \<Rightarrow> outbox_db \<times> 'w \<Rightarrow> outbox_db \<times> 'w" where
  "redeliver env h i ts s = foldl (\<lambda>s t. fst (process_outbox_event_by_id env h t t i s)) s ts"

lemma failure_status_failing:
  assumes "is_retryable err \<or> sn_target_backend sn \<noteq> oe_memory_target env"
  shows "failure_status env sn err =
    (if sn_attempt_count sn + 1 \<ge> sn_max_attempts sn then OUTBOX_DEAD_LETTER else OUTBOX_FAILED)"
  using assms by (auto simp: failure_status_def should_dead_letter_def Let_def)

text \<open>How often an event that always fails is attempted, and its row after \<open>k\<close> deliveries.\<close>

definition attempt_limit :: "outbox_env \<Rightarrow> outbox_event \<Rightarrow> bool \<Rightarrow> nat" where
  "attempt_limit env e retryable =
     (if ev_target_backend e = oe_memory_target env \<and> \<not> retryable then 1 else nat (ev_max_attempts e))"

definition exhaustion_at :: "outbox_event \<Rightarrow> nat \<Rightarrow> nat \<Rightarrow> outbox_event \<Rightarrow> bool" where
  "exhaustion_at e n k e' \<longleftrightarrow>
     ev_target_backend e' = ev_target_backend e \<and> ev_max_attempts e' = ev_max_attempts e \<and>
     ev_attempt_count e' = int (min k n) \<and>
     ev_status e' = (if n \<le> k then OUTBOX_DEAD_LETTER else if k = 0 then OUTBOX_PENDING else OUTBOX_FAILED)"

lemma redeliver_step:
  assumes "get_outbox_event_by_id i (fst s) = Some e'" and "exhaustion_at e n k e'" and "0 < ev_max_attempts e"
    and fails: "\<And>sn w. h sn w = (Suc w, Inl (err sn w))"
    and retry: "\<And>sn w. is_retryable (err sn w) \<longleftrightarrow> retryable" and n: "n = attempt_limit env e retryable"
    and "snd s = min k n"
  shows "\<exists>e''. get_outbox_event_by_id i (fst (fst (process_outbox_event_by_id env h t t i s))) = Some e'' \<and>
      exhaustion_at e n (Suc k) e'' \<and>
      snd (fst (process_outbox_event_by_id env h t t i s)) = min (Suc k) n"
proof (cases "n \<le> k")
  case True
  then have "ev_status e' \<notin> {OUTBOX_PENDING, OUTBOX_FAILED}"
    using assms(2) outbox_status_distinct by (simp add: exhaustion_at_def)
  from process_closed [where env = env and h = h and ?t0.0 = t and ?t1.0 = t, OF assms(1) this] True assms(1,2,7) show ?thesis
    by (auto simp: exhaustion_at_def)
next
  case False
  then have st: "ev_status e' \<in> {OUTBOX_PENDING, OUTBOX_FAILED}"
    using assms(2) by (simp add: exhaustion_at_def)
  obtain e'' db' where e'': "fst (process_outbox_event_by_id env h t t i s) = (db', Suc (snd s))"
      "get_outbox_event_by_id i db' = Some e''"
      "delivered env t e' (Inl (err (snapshot_outbox_event e') (snd s))) e''"
    using process_open [where env = env and h = h and ?t0.0 = t and ?t1.0 = t, OF assms(1) st fails] by blast
  have "failure_status env (snapshot_outbox_event e') (err (snapshot_outbox_event e') (snd s)) =
      (if n \<le> Suc k then OUTBOX_DEAD_LETTER else OUTBOX_FAILED)"
    using assms(2,3) False retry [of "snapshot_outbox_event e'" "snd s"] unfolding n
    by (auto simp: failure_status_def should_dead_letter_def exhaustion_at_def attempt_limit_def Let_def split: if_splits)
  then have "exhaustion_at e n (Suc k) e''"
    using e''(3) assms(2) False by (auto simp: delivered_def exhaustion_at_def)
  then show ?thesis using e'' assms(7) False by auto
qed

lemma redeliver_exhausts:
  assumes "get_outbox_event_by_id i db = Some e" and "ev_status e = OUTBOX_PENDING"
    and "ev_attempt_count e = 0" and "0 < ev_max_attempts e"
    and "\<And>sn w. h sn w = (Suc w, Inl (err sn w))"
    and "\<And>sn w. is_retryable (err sn w) \<longleftrightarrow> retryable" and n: "n = attempt_limit env e retryable"
  shows "\<exists>e'. get_outbox_event_by_id i (fst (redeliver env h i ts (db, 0))) = Some e' \<and>
      exhaustion_at e n (length ts) e' \<and>
      snd (redeliver env h i ts (db, 0)) = min (length ts) n"
proof (induction ts rule: rev_induct)
  case Nil
  then show ?case using assms by (simp add: redeliver_def exhaustion_at_def attempt_limit_def)
next
  case (snoc t ts)
  then obtain e' where "get_outbox_event_by_id i (fst (redeliver env h i ts (db, 0))) = Some e'"
      "exhaustion_at e n (length ts) e'"
      "snd (redeliver env h i ts (db, 0)) = min (length ts) n" by blast
  from redeliver_step [where h = h and err = err and env = env and t = t, OF this(1,2) assms(4-7) this(3)]
  show ?case by (simp add: redeliver_def)
qed

subsection \<open>Properties\<close>

definition sample_env :: outbox_env where
  "sample_env = \<lparr>oe_max_attempts = 3, oe_retry_delay = 60, oe_memory_target = ''memory_agent'',
     oe_vector_batch = 64, oe_iso = py_str_int, oe_dump_time = py_str_int, oe_sha256 = (\<lambda>s. s)\<rparr>"

definition sample_event :: "string \<Rightarrow> string \<Rightarrow> int \<Rightarrow> outbox_event" where
  "sample_event i status attempts =
     (create_outbox_event 0 i ''document.graph.sync'' ''document'' ''d1'' ''neo4j''
       [(''document_id'', JStr ''d1'')] i status 3)\<lparr>ev_attempt_count := attempts\<rparr>"

text \<open>
  C30. Enqueueing is idempotent per operation: repeating it with the same event type, aggregate and
  operation, whatever the payload, backend, clock, settings and generated id, leaves the table as it is
  and returns the event stored the first time.
\<close>

theorem outbox_enqueue_idempotent:
  "enqueue_outbox_event env' now' i' ty aty aid backend' payload' operation
      (fst (enqueue_outbox_event env now i ty aty aid backend payload operation db)) =
    enqueue_outbox_event env now i ty aty aid backend payload operation db"
proof -
  let ?new = "create_outbox_event now i ty aty aid backend payload
      (build_outbox_idempotency_key ty aty aid operation) ''pending'' (oe_max_attempts env)"
  let ?new' = "create_outbox_event now' i' ty aty aid backend' payload'
      (build_outbox_idempotency_key ty aty aid operation) ''pending'' (oe_max_attempts env')"
  obtain db' e b where put: "create_outbox_event_if_missing ?new db = (db', e, b)"
    by (metis prod_cases3)
  then have "create_outbox_event_if_missing ?new' db' = (db', e, False)"
    by (rule outbox_store.put_replay) (simp add: create_outbox_event_def)
  with put show ?thesis by (simp add: enqueue_outbox_event_def Let_def)
qed

lemma colon_split:
  "CHR '':'' \<notin> set a \<Longrightarrow> CHR '':'' \<notin> set b \<Longrightarrow> a @ '':'' @ u = b @ '':'' @ v \<Longrightarrow> a = b \<and> u = v"
proof (induction a arbitrary: b)
  case Nil
  then show ?case by (cases b) auto
next
  case (Cons c a)
  then show ?case by (cases b) auto
qed

text \<open>
  The idempotency key tells operations apart: when the event types, aggregate types and aggregate
  ids contain no colon (as those of the program do), two enqueue calls have the same key only if all
  four parts agree.
\<close>

lemma outbox_key_injective:
  assumes "build_outbox_idempotency_key ty aty aid operation = build_outbox_idempotency_key ty' aty' aid' operation'"
    and "\<forall>s\<in>{ty, aty, aid, ty', aty', aid'}. CHR '':'' \<notin> set s"
  shows "ty = ty' \<and> aty = aty' \<and> aid = aid' \<and> operation = operation'"
  using assms colon_split unfolding build_outbox_idempotency_key_def by (metis insertCI)

text \<open>
  C32. Under any interleaving of producers and workers, crashes included, every event has been attempted
  at most its maximum number of times, an event open for dispatch strictly fewer, its status is one of
  the five, and there is one event per id and per idempotency key.
\<close>

theorem outbox_attempts_bounded:
  assumes "(outbox_step env)\<^sup>*\<^sup>* ([], [], []) (db, L, A)" and "0 < oe_max_attempts env"
  shows "distinct (map ev_id db) \<and> distinct (map ev_idempotency_key db) \<and>
    (\<forall>e\<in>set db. 0 \<le> ev_attempt_count e \<and> ev_attempt_count e \<le> ev_max_attempts e \<and>
       ev_status e \<in> {OUTBOX_PENDING, OUTBOX_RUNNING, OUTBOX_SUCCEEDED, OUTBOX_FAILED, OUTBOX_DEAD_LETTER} \<and>
       (ev_status e \<in> {OUTBOX_PENDING, OUTBOX_FAILED} \<longrightarrow> ev_attempt_count e < ev_max_attempts e))"
  using outbox_reach_ok [OF assms] by (auto simp: outbox_ok_def event_ok_def)

lemma sample_enqueue:
  "enqueue_outbox_event sample_env 0 ''e1'' ''t'' ''a'' ''x'' ''neo4j'' [] ''op'' [] =
    ([create_outbox_event 0 ''e1'' ''t'' ''a'' ''x'' ''neo4j'' [] ''t:a:x:op'' ''pending'' 3],
     create_outbox_event 0 ''e1'' ''t'' ''a'' ''x'' ''neo4j'' [] ''t:a:x:op'' ''pending'' 3)"
  by (simp add: enqueue_outbox_event_def create_outbox_event_if_missing_def sample_env_def
      get_outbox_event_by_idempotency_key_def build_outbox_idempotency_key_def create_outbox_event_def Let_def)

lemma sample_start_step:
  "outbox_step sample_env ([], [], [])
     ([create_outbox_event 0 ''e1'' ''t'' ''a'' ''x'' ''neo4j'' [] ''t:a:x:op'' ''pending'' 3], [], [])"
  using os_enqueue [of "''e1''" "[]" sample_env "[]" "[]" 0 "''t''" "''a''" "''x''" "''neo4j''" "[]" "''op''"]
  by (simp add: sample_enqueue get_outbox_event_by_id_def)

theorem outbox_attempts_bounded_witness:
  "\<exists>db e. outbox_step sample_env ([], [], []) (db, [], []) \<and> e \<in> set db \<and>
     ev_status e = OUTBOX_PENDING \<and> ev_attempt_count e < ev_max_attempts e"
proof -
  let ?e = "create_outbox_event 0 ''e1'' ''t'' ''a'' ''x'' ''neo4j'' [] ''t:a:x:op'' ''pending'' 3"
  have st: "ev_status ?e = OUTBOX_PENDING" by (simp add: create_outbox_event_def OUTBOX_PENDING_def)
  have "ev_attempt_count ?e < ev_max_attempts ?e"
    using outbox_attempts_bounded [OF r_into_rtranclp, OF sample_start_step] st
    by (auto simp: sample_env_def)
  with st show ?thesis using sample_start_step by (intro exI [of _ "[?e]"] exI [of _ ?e]) simp
qed

text \<open>What an attempt leaves, without the functions of the program.\<close>

lemma delivered_explicit:
  "delivered env t1 e res e' \<longleftrightarrow>
     ev_attempt_count e' = ev_attempt_count e + 1 \<and> ev_max_attempts e' = ev_max_attempts e \<and>
     ev_target_backend e' = ev_target_backend e \<and>
     (case res of
        Inr v \<Rightarrow> ev_status e' = ''succeeded'' \<and> ev_next_attempt_at e' = None \<and> ev_last_error e' = None
      | Inl err \<Rightarrow>
          (if ev_max_attempts e \<le> ev_attempt_count e + 1 \<or>
              ev_target_backend e = oe_memory_target env \<and> \<not> (\<exists>m code. err = MemoryAgentRetryable m code)
           then ev_status e' = ''dead_letter'' \<and> ev_next_attempt_at e' = None
           else ev_status e' = ''failed'' \<and>
             ev_next_attempt_at e' = Some (t1 + 1000000 * (oe_retry_delay env * max 1 (ev_attempt_count e + 1)))) \<and>
          ev_last_error e' = Some (if ev_target_backend e = oe_memory_target env
             then take 2000 (case business_message err of Some m \<Rightarrow> m | None \<Rightarrow> ''memory agent delivery failed'')
             else error_text err))"
proof (cases res)
  case (Inl err)
  have "is_retryable err \<longleftrightarrow> (\<exists>m code. err = MemoryAgentRetryable m code)" by (cases err) (simp_all add: is_retryable_def)
  then show ?thesis
    by (auto simp: Inl delivered_def failure_status_def should_dead_letter_def bounded_error_detail_def calculate_next_attempt_at_def
        seconds_def MAX_MEMORY_AGENT_ERROR_LENGTH_def outbox_status_defs Let_def)
next
  case (Inr v)
  then show ?thesis by (simp add: delivered_def outbox_status_defs)
qed

text \<open>
  C34. Processing one event. An unknown id raises; an event that is neither pending nor failed is skipped without running
  the handler; a pending or failed event is attempted once and its attempts grow by one. Success clears the error and the
  next attempt. A failure makes it a dead letter with no next attempt when the maximum of attempts is reached, or when
  the event is for the memory agent and the error is not a retryable one; otherwise it stays failed, due again after the
  retry delay times the attempts made. The stored error is that of the handler, for the memory agent its message cut
  to 2000 characters or a fixed text. Other events are untouched.
\<close>

theorem outbox_process_outcome:
  "(get_outbox_event_by_id i db = None \<longrightarrow>
      process_outbox_event_by_id env h t0 t1 i (db, w) =
        ((db, w), Inl (BusinessException ''outbox event not found'' 4046 404))) \<and>
   (\<forall>e. get_outbox_event_by_id i db = Some e \<longrightarrow>
      (if ev_status e = ''pending'' \<or> ev_status e = ''failed'' then
         (\<exists>e' db'. fst (process_outbox_event_by_id env h t0 t1 i (db, w)) =
             (db', fst (h (snapshot_outbox_event e) w)) \<and>
           get_outbox_event_by_id i db' = Some e' \<and> ev_attempt_count e' = ev_attempt_count e + 1 \<and>
           (case snd (h (snapshot_outbox_event e) w) of
              Inr v \<Rightarrow> snd (process_outbox_event_by_id env h t0 t1 i (db, w)) = Inr (OutboxDone i v) \<and>
                ev_status e' = ''succeeded'' \<and> ev_next_attempt_at e' = None \<and> ev_last_error e' = None
            | Inl err \<Rightarrow> snd (process_outbox_event_by_id env h t0 t1 i (db, w)) = Inl err \<and>
                (if ev_max_attempts e \<le> ev_attempt_count e + 1 \<or>
                    ev_target_backend e = oe_memory_target env \<and> \<not> (\<exists>m code. err = MemoryAgentRetryable m code)
                 then ev_status e' = ''dead_letter'' \<and> ev_next_attempt_at e' = None
                 else ev_status e' = ''failed'' \<and>
                   ev_next_attempt_at e' = Some (t1 + 1000000 * (oe_retry_delay env * max 1 (ev_attempt_count e + 1)))) \<and>
                ev_last_error e' = Some (if ev_target_backend e = oe_memory_target env
                   then take 2000 (case business_message err of Some m \<Rightarrow> m | None \<Rightarrow> ''memory agent delivery failed'')
                   else error_text err)))
       else process_outbox_event_by_id env h t0 t1 i (db, w) =
         ((db, w), Inr (OutboxSkipped i (ev_status e))))) \<and>
   (\<forall>j. j \<noteq> i \<longrightarrow> get_outbox_event_by_id j (fst (fst (process_outbox_event_by_id env h t0 t1 i (db, w)))) =
      get_outbox_event_by_id j db)"
  (is "?missing \<and> (\<forall>e. ?found e \<longrightarrow> ?attempt e) \<and> ?others")
proof (intro conjI allI impI)
  assume "get_outbox_event_by_id i db = None"
  then show "process_outbox_event_by_id env h t0 t1 i (db, w) = ((db, w), Inl (BusinessException ''outbox event not found'' 4046 404))"
    by (simp add: process_outbox_event_by_id_def load_outbox_event_snapshot_def)
next
  fix e assume e: "?found e"
  have status: "ev_status e \<in> {OUTBOX_PENDING, OUTBOX_FAILED} \<longleftrightarrow> ev_status e = ''pending'' \<or> ev_status e = ''failed''"
    by (simp add: outbox_status_defs)
  show "?attempt e"
  proof (cases "ev_status e \<in> {OUTBOX_PENDING, OUTBOX_FAILED}")
    case True
    obtain w' res where h: "h (snapshot_outbox_event e) w = (w', res)" by fastforce
    obtain e' db' where "fst (process_outbox_event_by_id env h t0 t1 i (db, w)) = (db', w')"
        "get_outbox_event_by_id i db' = Some e'" "delivered env t1 e res e'"
      using process_open [of i "(db, w)" e h w' res env t0 t1] e True h by auto
    moreover have "snd (process_outbox_event_by_id env h t0 t1 i (db, w)) = (case res of Inl err \<Rightarrow> Inl err | Inr v \<Rightarrow> Inr (OutboxDone i v))"
      using process_result [of i "(db, w)" e h w' res env t0 t1] e True h by simp
    ultimately show ?thesis
      using True unfolding status delivered_explicit h fst_conv snd_conv by (cases res) simp_all
  next
    case False
    then show ?thesis using process_closed [of i "(db, w)" e env h t0 t1] e status by simp
  qed
next
  fix j assume "j \<noteq> i"
  then show "get_outbox_event_by_id j (fst (fst (process_outbox_event_by_id env h t0 t1 i (db, w)))) =
      get_outbox_event_by_id j db"
    using process_other [of env h t0 t1 i "(db, w)" _ _ j] by (metis fst_conv prod.collapse)
qed

theorem outbox_process_outcome_witness:
  "(\<exists>e'. get_outbox_event_by_id ''e1'' (fst (fst (process_outbox_event_by_id sample_env (\<lambda>_. araise (ValueError ''x'')) 5 6 ''e1''
        ([sample_event ''e1'' ''pending'' 0], ())))) = Some e' \<and>
      ev_status e' = ''failed'' \<and> ev_next_attempt_at e' = Some 60000006 \<and> ev_last_error e' = Some ''x'') \<and>
   (\<exists>e'. get_outbox_event_by_id ''e1'' (fst (fst (process_outbox_event_by_id sample_env
        (\<lambda>_. araise (MemoryAgentPermanentFailure ''bad'' 400)) 5 6 ''e1''
        ([(sample_event ''e1'' ''pending'' 0)\<lparr>ev_target_backend := ''memory_agent''\<rparr>], ())))) = Some e' \<and>
      ev_status e' = ''dead_letter'' \<and> ev_next_attempt_at e' = None \<and> ev_last_error e' = Some ''bad'')"
  using outbox_process_outcome [of "''e1''" "[sample_event ''e1'' ''pending'' 0]" sample_env "\<lambda>_. araise (ValueError ''x'')" 5 6 "()"]
    outbox_process_outcome [of "''e1''" "[(sample_event ''e1'' ''pending'' 0)\<lparr>ev_target_backend := ''memory_agent''\<rparr>]" sample_env
      "\<lambda>_. araise (MemoryAgentPermanentFailure ''bad'' 400)" 5 6 "()"]
  by (auto simp: get_outbox_event_by_id_def sample_event_def create_outbox_event_def sample_env_def araise_def error_text_def business_message_def)

text \<open>
  A dispatch processes each event it matched: the counts add up to the batch, which respects the limit,
  and with a positive retry delay no matched event is still due at the time of the dispatch, so that a
  second dispatch at that time delivers none of them again.
\<close>

theorem outbox_dispatch_once:
  assumes "dispatch_pending_outbox_events env h now clock batch tb (db, w) = ((db', w'), matched, d, f)"
    and "distinct (map ev_id db)" and "0 < oe_retry_delay env" and "\<forall>i. now \<le> snd (clock i)"
  shows "matched = d + f \<and> matched \<le> batch \<and>
    (\<forall>e\<in>set (list_dispatchable_outbox_events batch tb (Some now) db).
       \<exists>e'. get_outbox_event_by_id (ev_id e) db' = Some e' \<and>
         ev_attempt_count e' = ev_attempt_count e + 1 \<and> \<not> dispatchable tb (Some now) e')"
proof -
  let ?es = "list_dispatchable_outbox_events batch tb (Some now) db"
  let ?loop = "dispatch_loop (\<lambda>i. process_outbox_event_by_id env h (fst (clock i)) (snd (clock i)) i) (map ev_id ?es) (db, w)"
  have loop: "?loop = ((db', w'), d, f)" and m: "matched = length ?es"
    using assms(1) by (auto simp: dispatch_pending_outbox_events_def Let_def split: prod.splits)
  have "distinct (map ev_id ?es)"
    unfolding list_dispatchable_outbox_events_def by (rule distinct_order_limit [OF assms(2)])
  moreover have "e \<in> set db \<and> ev_status e \<in> {OUTBOX_PENDING, OUTBOX_FAILED}" if "e \<in> set ?es" for e
    using that set_order_limit [of ev_created_at batch "filter (dispatchable tb (Some now)) db"]
    by (auto simp: list_dispatchable_outbox_events_def dispatchable_def outbox_status_defs)
  moreover have "get_outbox_event_by_id (ev_id e) db = Some e" if "e \<in> set db" for e
    using find_distinct_key [OF assms(2) that] by (simp add: get_outbox_event_by_id_def)
  ultimately have "\<forall>e\<in>set ?es. \<exists>e'. get_outbox_event_by_id (ev_id e) db' = Some e' \<and>
      ev_attempt_count e' = ev_attempt_count e + 1 \<and> \<not> dispatchable tb (Some now) e'"
    using dispatch_loop_not_due [of "map ev_id ?es" _ "(db, w)" _ now "\<lambda>i. snd (clock i)" env h
        "\<lambda>i. fst (clock i)" tb] loop assms(3,4) by auto
  moreover have "length ?es \<le> batch"
    by (simp add: list_dispatchable_outbox_events_def length_order_limit)
  ultimately show ?thesis using dispatch_loop_counts [OF loop] m by simp
qed

theorem outbox_dispatch_once_witness:
  "case dispatch_pending_outbox_events sample_env (\<lambda>_. areturn JNull) 5 (\<lambda>_. (5, 6)) 10 None
     ([sample_event ''e1'' ''pending'' 0, sample_event ''e2'' ''succeeded'' 1], ())
   of ((db', _), matched, d, f) \<Rightarrow> matched = d + f \<and> matched \<le> 10"
proof -
  obtain db' w' m d f where r: "dispatch_pending_outbox_events sample_env (\<lambda>_. areturn JNull) 5 (\<lambda>_. (5, 6)) 10 None
     ([sample_event ''e1'' ''pending'' 0, sample_event ''e2'' ''succeeded'' 1], ()) = ((db', w'), m, d, f)"
    by (metis prod.collapse)
  have "m = d + f \<and> m \<le> 10"
    using outbox_dispatch_once [OF r]
    by (simp add: sample_event_def create_outbox_event_def sample_env_def)
  with r show ?thesis by simp
qed


text \<open>
  C38. An event whose handler always fails is attempted once per processing up to its limit, and not once more: the
  limit is one attempt for an event of the memory agent whose error is not retryable, and the maximum of attempts
  for a retryable error or any other target. After n processings the handler has run min n limit times, the attempts
  counter says so, and from the limit on the event is a dead letter.
\<close>

theorem outbox_exhaustion:
  assumes "get_outbox_event_by_id i db = Some e" and "ev_status e = OUTBOX_PENDING"
    and "ev_attempt_count e = 0" and "0 < ev_max_attempts e"
    and "\<And>sn w. h sn w = (Suc w, Inl (err sn w))"
    and "\<And>sn w. (\<exists>m code. err sn w = MemoryAgentRetryable m code) \<longleftrightarrow> retryable"
    and "limit = (if ev_target_backend e = oe_memory_target env \<and> \<not> retryable then 1 else nat (ev_max_attempts e))"
  shows "snd (redeliver env h i ts (db, 0)) = min (length ts) limit \<and>
    (\<exists>e'. get_outbox_event_by_id i (fst (redeliver env h i ts (db, 0))) = Some e' \<and>
      ev_attempt_count e' = int (min (length ts) limit) \<and>
      ev_status e' = (if limit \<le> length ts then ''dead_letter'' else if ts = [] then ''pending'' else ''failed''))"
proof -
  have "is_retryable (err sn w) \<longleftrightarrow> retryable" for sn w
    using assms(6) [of sn w] by (cases "err sn w") (simp_all add: is_retryable_def)
  from redeliver_exhausts [where h = h and err = err and env = env and ts = ts and n = limit, OF assms(1-5) this] assms(7)
  show ?thesis by (auto simp: exhaustion_at_def attempt_limit_def outbox_status_defs)
qed

theorem outbox_exhaustion_witness:
  "snd (redeliver sample_env (\<lambda>_ w. (Suc w, Inl (ValueError ''x''))) ''e1'' [1, 2, 3, 4, 5]
     ([sample_event ''e1'' ''pending'' 0], 0)) = 3 \<and>
   snd (redeliver sample_env (\<lambda>_ w. (Suc w, Inl (MemoryAgentPermanentFailure ''bad'' 400))) ''e1'' [1, 2, 3, 4, 5]
     ([(sample_event ''e1'' ''pending'' 0)\<lparr>ev_target_backend := ''memory_agent''\<rparr>], 0)) = 1"
proof -
  let ?e = "(sample_event ''e1'' ''pending'' 0)\<lparr>ev_target_backend := ''memory_agent''\<rparr>"
  have "get_outbox_event_by_id ''e1'' [sample_event ''e1'' ''pending'' 0] = Some (sample_event ''e1'' ''pending'' 0)"
    "get_outbox_event_by_id ''e1'' [?e] = Some ?e"
    by (simp_all add: get_outbox_event_by_id_def sample_event_def create_outbox_event_def)
  from outbox_exhaustion [where h = "\<lambda>_ w. (Suc w, Inl (ValueError ''x''))" and err = "\<lambda>_ _. ValueError ''x''"
      and env = sample_env and ts = "[1, 2, 3, 4, 5]" and retryable = False, OF this(1)]
    outbox_exhaustion [where h = "\<lambda>_ w. (Suc w, Inl (MemoryAgentPermanentFailure ''bad'' 400))"
      and err = "\<lambda>_ _. MemoryAgentPermanentFailure ''bad'' 400"
      and env = sample_env and ts = "[1, 2, 3, 4, 5]" and retryable = False, OF this(2)]
  show ?thesis by (simp add: sample_event_def create_outbox_event_def outbox_status_defs sample_env_def)
qed

text \<open>
  Success is not final under concurrent workers: the status check and the write of the running status
  are separate transactions, so there is a reachable state where an event is succeeded and a later one
  where the same event has gone back to running (a second worker that had loaded it before) and from there
  to failed, open for another delivery.
\<close>

theorem outbox_success_overwritten:
  "\<exists>s1 s2 s3. (outbox_step sample_env)\<^sup>*\<^sup>* ([], [], []) s1 \<and>
     outbox_step sample_env s1 s2 \<and> outbox_step sample_env s2 s3 \<and>
     map_option ev_status (get_outbox_event_by_id ''e1'' (fst s1)) = Some OUTBOX_SUCCEEDED \<and>
     map_option ev_status (get_outbox_event_by_id ''e1'' (fst s2)) = Some OUTBOX_RUNNING \<and>
     map_option ev_status (get_outbox_event_by_id ''e1'' (fst s3)) = Some OUTBOX_FAILED"
proof -
  let ?e = "create_outbox_event 0 ''e1'' ''t'' ''a'' ''x'' ''neo4j'' [] ''t:a:x:op'' ''pending'' 3"
  let ?sn = "snapshot_outbox_event ?e"
  let ?db1 = "mark_outbox_running 1 ?sn [?e]"
  let ?db2 = "mark_outbox_succeeded 2 (sn_id ?sn) ?db1"
  let ?db3 = "mark_outbox_running 3 ?sn ?db2"
  let ?db4 = "mark_outbox_failed sample_env 4 ?sn (ValueError ''x'') ?db3"
  let ?step = "outbox_step sample_env"
  have find: "get_outbox_event_by_id ''e1'' [?e] = Some ?e" and id: "sn_id ?sn = ''e1''"
    by (simp_all add: get_outbox_event_by_id_def create_outbox_event_def)
  have load: "?step ([?e], L, []) ([?e], ?sn # L, [])" for L
    using find by (intro os_load [where i = "''e1''"])
      (simp_all add: load_outbox_event_snapshot_def create_outbox_event_def OUTBOX_PENDING_def)
  have s2: "?step ([?e], [?sn, ?sn], []) (?db1, [?sn], [?sn])"
    using os_start [of ?sn "[?sn, ?sn]" sample_env "[?e]" "[]" 1] by simp
  have s3: "?step (?db1, [?sn], [?sn]) (?db2, [?sn], [])"
    using os_succeed [of ?sn "[?sn]" sample_env ?db1 "[?sn]" 2] by simp
  have s4: "?step (?db2, [?sn], []) (?db3, [], [?sn])"
    using os_start [of ?sn "[?sn]" sample_env ?db2 "[]" 3] by simp
  have s5: "?step (?db3, [], [?sn]) (?db4, [], [])"
    using os_fail [of ?sn "[?sn]" sample_env ?db3 "[]" 4 "ValueError ''x''"] by simp
  have "?step\<^sup>*\<^sup>* ([], [], []) (?db2, [?sn], [])"
    using sample_start_step load [of "[]"] load [of "[?sn]"] s2 s3
    by (meson rtranclp.rtrancl_refl rtranclp.rtrancl_into_rtrancl)
  moreover have "map_option ev_status (get_outbox_event_by_id ''e1'' ?db2) = Some OUTBOX_SUCCEEDED"
    "map_option ev_status (get_outbox_event_by_id ''e1'' ?db3) = Some OUTBOX_RUNNING"
    "map_option ev_status (get_outbox_event_by_id ''e1'' ?db4) = Some OUTBOX_FAILED"
    using find id failure_status_failing [of "ValueError ''x''" ?sn sample_env]
    by (simp_all add: mark_outbox_running_def mark_outbox_succeeded_def mark_outbox_failed_def Let_def
        option.map_comp comp_def sample_env_def create_outbox_event_def)
  ultimately show ?thesis using s4 s5 by (metis fst_conv)
qed

end
