(* ===== verification/RunEvents.thy ===== *)
theory RunEvents
  imports Tables
begin

text \<open>
  Agent runs and their event log: \<open>memoria/run_models.py\<close> (statuses and records),
  \<open>memoria/models/automation.py\<close> (the durable row), \<open>memoria/events.py\<close> (events) and
  \<open>memoria/persistence/runtime_events.py\<close> (the per-run append-only log with its cursor).
\<close>

subsection \<open>Runs (memoria/run_models.py)\<close>

datatype agent_run_status = QUEUED | RUN_RUNNING | COMPLETED | RUN_FAILED | ABORTING | ABORTED

definition run_status_value :: "agent_run_status \<Rightarrow> string" where
  "run_status_value s =
     (case s of QUEUED \<Rightarrow> ''queued'' | RUN_RUNNING \<Rightarrow> ''running'' | COMPLETED \<Rightarrow> ''completed''
      | RUN_FAILED \<Rightarrow> ''failed'' | ABORTING \<Rightarrow> ''aborting'' | ABORTED \<Rightarrow> ''aborted'')"

definition TERMINAL_AGENT_RUN_STATUSES :: "agent_run_status list" where
  "TERMINAL_AGENT_RUN_STATUSES = [COMPLETED, RUN_FAILED, ABORTED]"

record agent_run_record =
  ar_run_id :: string
  ar_trace_id :: string
  ar_session_id :: string
  ar_user_id :: int
  ar_client_request_id :: string
  ar_question :: string
  ar_top_k :: int
  ar_answer_mode :: string
  ar_execution_mode :: string
  ar_status :: agent_run_status
  ar_trigger_type :: string
  ar_trigger_id :: "string option"
  ar_attempt_count :: int
  ar_max_attempts :: int
  ar_created_at :: instant
  ar_started_at :: "instant option"
  ar_completed_at :: "instant option"
  ar_error :: "string option"
  ar_last_event_id :: "string option"
  ar_last_event_sequence :: int
  ar_queue_wait_ms :: "int option"

definition create_run_record ::
  "instant \<Rightarrow> string \<Rightarrow> string \<Rightarrow> string \<Rightarrow> int \<Rightarrow> string \<Rightarrow> string \<Rightarrow> int \<Rightarrow> string \<Rightarrow> string \<Rightarrow> string \<Rightarrow> string option
   \<Rightarrow> int \<Rightarrow> agent_run_record" where
  "create_run_record now uid run_id session_id user_id request_id question top_k answer_mode execution_mode
       trigger_type trigger_id maxa =
     \<lparr>ar_run_id = run_id, ar_trace_id = ''trace_'' @ uid, ar_session_id = session_id, ar_user_id = user_id,
      ar_client_request_id = request_id, ar_question = question, ar_top_k = top_k,
      ar_answer_mode = answer_mode, ar_execution_mode = execution_mode, ar_status = QUEUED,
      ar_trigger_type = trigger_type, ar_trigger_id = trigger_id, ar_attempt_count = 0,
      ar_max_attempts = maxa, ar_created_at = now, ar_started_at = None, ar_completed_at = None,
      ar_error = None, ar_last_event_id = None, ar_last_event_sequence = 0, ar_queue_wait_ms = None\<rparr>"

record durable_run =
  dr_run_id :: string
  dr_trace_id :: string
  dr_session_id :: string
  dr_user_id :: int
  dr_client_request_id :: string
  dr_question :: string
  dr_top_k :: int
  dr_answer_mode :: string
  dr_execution_mode :: string
  dr_status :: agent_run_status
  dr_trigger_type :: string
  dr_trigger_id :: "string option"
  dr_attempt_count :: int
  dr_max_attempts :: int
  dr_started_at :: "instant option"
  dr_completed_at :: "instant option"
  dr_heartbeat_at :: "instant option"
  dr_error :: "string option"
  dr_last_event_id :: "string option"
  dr_last_event_sequence :: int
  dr_queue_wait_ms :: "int option"
  dr_created_at :: instant
  dr_updated_at :: instant

definition get_durable_run :: "string \<Rightarrow> durable_run list \<Rightarrow> durable_run option" where
  "get_durable_run run_id db = find (\<lambda>r. dr_run_id r = run_id) db"

subsection \<open>Events (memoria/events.py)\<close>

datatype agent_event_type = LIFECYCLE | ASSISTANT | TOOL | COMPACTION | ERROR

datatype agent_run_event_type =
    EV_RUN_QUEUED | EV_RUN_STARTED | EV_RUN_CONTROL_ACCEPTED | EV_QUERY_REWRITTEN | EV_RETRIEVAL_STARTED
  | EV_RETRIEVAL_SOURCE_COMPLETED | EV_EVIDENCE_SELECTED | EV_COORDINATOR_COMPLETED | EV_ROLE_STARTED
  | EV_ROLE_COMPLETED | EV_ROLE_FAILED | EV_JUDGE_COMPLETED | EV_ANSWER_STARTED | EV_ANSWER_DELTA
  | EV_CITATION_RESOLVED | EV_GROUNDING_DECIDED | EV_ANSWER_COMPLETED | EV_TOOL_STARTED
  | EV_TOOL_COMPLETED | EV_CONTEXT_COMPACTED | EV_RUN_FAILED | EV_RUN_CANCELLED

record agent_event =
  ae_type :: agent_event_type
  ae_name :: agent_run_event_type
  ae_schema_version :: string
  ae_run_id :: "string option"
  ae_sequence :: "int option"
  ae_created_at :: instant
  ae_agent_role :: string
  ae_phase :: string
  ae_content :: string
  ae_tool :: string
  ae_error :: string
  ae_metadata :: "(string \<times> json) list"

definition legacy_event_name :: "agent_event_type \<Rightarrow> string \<Rightarrow> agent_run_event_type" where
  "legacy_event_name ty phase =
     (if ty = ASSISTANT then EV_ANSWER_DELTA
      else if ty = TOOL then (if phase \<in> {''start'', ''started''} then EV_TOOL_STARTED else EV_TOOL_COMPLETED)
      else if ty = COMPACTION then EV_CONTEXT_COMPACTED
      else if ty = ERROR \<or> phase = ''error'' then EV_RUN_FAILED
      else if phase \<in> {''aborted'', ''cancelled''} then EV_RUN_CANCELLED
      else if phase = ''queued'' then EV_RUN_QUEUED
      else if phase = ''start'' then EV_RUN_STARTED
      else if phase = ''end'' then EV_ANSWER_COMPLETED
      else if ends_with ''retrieve'' phase \<or> ends_with ''retrieve_started'' phase then EV_RETRIEVAL_STARTED
      else if ends_with ''retrieve_completed'' phase then EV_RETRIEVAL_SOURCE_COMPLETED
      else if ends_with ''generate'' phase \<or> ends_with ''generate_started'' phase then EV_ANSWER_STARTED
      else if ends_with ''citations'' phase \<or> ends_with ''citations_completed'' phase then EV_CITATION_RESOLVED
      else if ends_with ''grounding'' phase \<or> ends_with ''grounding_completed'' phase then EV_GROUNDING_DECIDED
      else EV_RUN_STARTED)"

definition pop_optional_string :: "string \<Rightarrow> (string \<times> json) list \<Rightarrow> string option \<times> (string \<times> json) list" where
  "pop_optional_string key kvs =
     ((case jget key kvs of Some (JStr s) \<Rightarrow> if s = [] then None else Some s | _ \<Rightarrow> None),
      filter (\<lambda>kv. fst kv \<noteq> key) kvs)"

definition new_event ::
  "instant \<Rightarrow> agent_event_type \<Rightarrow> agent_run_event_type \<Rightarrow> string option \<Rightarrow> string \<Rightarrow> (string \<times> json) list \<Rightarrow> agent_event" where
  "new_event now ty name run_id phase metadata =
     \<lparr>ae_type = ty, ae_name = name, ae_schema_version = ''2'', ae_run_id = run_id, ae_sequence = None,
      ae_created_at = now, ae_agent_role = ''memory_agent'', ae_phase = phase, ae_content = [],
      ae_tool = [], ae_error = [], ae_metadata = metadata\<rparr>"

definition event_lifecycle :: "instant \<Rightarrow> string \<Rightarrow> (string \<times> json) list \<Rightarrow> agent_event" where
  "event_lifecycle now phase metadata =
     (let (run_id, rest) = pop_optional_string ''run_id'' metadata
      in new_event now LIFECYCLE (legacy_event_name LIFECYCLE phase) run_id phase rest)"

definition event_assistant_delta :: "instant \<Rightarrow> string \<Rightarrow> (string \<times> json) list \<Rightarrow> agent_event" where
  "event_assistant_delta now content metadata =
     (let (run_id, rest) = pop_optional_string ''run_id'' metadata
      in (new_event now ASSISTANT EV_ANSWER_DELTA run_id ''stream'' rest)\<lparr>ae_content := content\<rparr>)"

definition event_tool :: "instant \<Rightarrow> string \<Rightarrow> string \<Rightarrow> (string \<times> json) list \<Rightarrow> agent_event" where
  "event_tool now phase tool metadata =
     (let (run_id, rest) = pop_optional_string ''run_id'' metadata
      in (new_event now TOOL
            (if phase \<in> {''start'', ''started''} then EV_TOOL_STARTED else EV_TOOL_COMPLETED)
            run_id phase rest)\<lparr>ae_tool := tool\<rparr>)"

definition event_compaction :: "instant \<Rightarrow> string \<Rightarrow> (string \<times> json) list \<Rightarrow> agent_event" where
  "event_compaction now phase metadata =
     (let (run_id, rest) = pop_optional_string ''run_id'' metadata
      in new_event now COMPACTION EV_CONTEXT_COMPACTED run_id phase rest)"

definition event_error :: "instant \<Rightarrow> string \<Rightarrow> (string \<times> json) list \<Rightarrow> agent_event" where
  "event_error now err metadata =
     (let (run_id, rest) = pop_optional_string ''run_id'' metadata
      in (new_event now ERROR EV_RUN_FAILED run_id ''error'' rest)\<lparr>ae_error := err\<rparr>)"

definition event_rag_progress ::
  "instant \<Rightarrow> agent_run_event_type \<Rightarrow> string \<Rightarrow> string option \<Rightarrow> (string \<times> json) list \<Rightarrow> agent_event" where
  "event_rag_progress now name phase run_id metadata =
     (let (role, rest) = pop_optional_string ''agent_role'' metadata
      in (new_event now LIFECYCLE name run_id phase rest)
           \<lparr>ae_agent_role := (case role of None \<Rightarrow> ''memory_agent'' | Some r \<Rightarrow> r)\<rparr>)"

definition with_delivery :: "instant \<Rightarrow> string \<Rightarrow> int \<Rightarrow> agent_event \<Rightarrow> agent_event" where
  "with_delivery now run_id seq e =
     e\<lparr>ae_run_id := Some run_id, ae_sequence := Some seq, ae_created_at := now\<rparr>"

subsection \<open>The event log (memoria/persistence/runtime_events.py)\<close>

text \<open>
  The payload column holds \<open>delivered.to_stream_dict()\<close>, from which \<open>AgentEvent.model_validate\<close> rebuilds
  the event; the model keeps the event itself. \<open>eid\<close> is \<open>uuid4().hex\<close>.
\<close>

record runtime_event_row =
  re_id :: string
  re_event_type :: agent_run_event_type
  re_schema_version :: string
  re_sequence :: "int option"
  re_agent_role :: string
  re_phase :: "string option"
  re_occurred_at :: instant
  re_trace_id :: string
  re_run_id :: string
  re_session_id :: string
  re_user_id :: int
  re_loop_index :: "int option"
  re_tool_call_id :: "string option"
  re_duration_ms :: "int option"
  re_input_tokens :: "int option"
  re_output_tokens :: "int option"
  re_error_kind :: "string option"
  re_selected_capability_ids :: "string list"
  re_payload :: agent_event

record stored_event =
  se_event_id :: string
  se_event :: agent_event

definition metadata_string :: "agent_event \<Rightarrow> string \<Rightarrow> string option" where
  "metadata_string e key =
     (case jget key (ae_metadata e) of Some (JStr s) \<Rightarrow> if s = [] then None else Some s | _ \<Rightarrow> None)"

definition metadata_int :: "agent_event \<Rightarrow> string \<Rightarrow> int option" where
  "metadata_int e key = (case jget key (ae_metadata e) of Some (JInt n) \<Rightarrow> Some n | _ \<Rightarrow> None)"

definition metadata_string_list :: "agent_event \<Rightarrow> string \<Rightarrow> string list" where
  "metadata_string_list e key =
     (case jget key (ae_metadata e) of
        Some (JList xs) \<Rightarrow> List.map_filter (\<lambda>v. case v of JStr s \<Rightarrow> Some s | _ \<Rightarrow> None) xs
      | _ \<Rightarrow> [])"

definition append_durable_runtime_event ::
  "instant \<Rightarrow> string \<Rightarrow> string \<Rightarrow> agent_event \<Rightarrow> durable_run list \<times> runtime_event_row list
   \<Rightarrow> ((durable_run list \<times> runtime_event_row list) \<times> stored_event) result" where
  "append_durable_runtime_event now eid run_id event s =
     (case get_durable_run run_id (fst s) of
        None \<Rightarrow> Inl (RuntimeError ''durable agent run not found for event'')
      | Some run \<Rightarrow>
          let seq = dr_last_event_sequence run + 1;
              d = with_delivery now run_id seq event;
              row = \<lparr>re_id = ''event_'' @ eid, re_event_type = ae_name d,
                re_schema_version = ae_schema_version d, re_sequence = Some seq,
                re_agent_role = ae_agent_role d, re_phase = (if ae_phase d = [] then None else Some (ae_phase d)),
                re_occurred_at = ae_created_at d,
                re_trace_id = (case metadata_string d ''trace_id'' of Some t \<Rightarrow> t | None \<Rightarrow> dr_trace_id run),
                re_run_id = run_id, re_session_id = dr_session_id run, re_user_id = dr_user_id run,
                re_loop_index = metadata_int d ''loop_index'',
                re_tool_call_id = metadata_string d ''tool_call_id'',
                re_duration_ms = metadata_int d ''duration_ms'',
                re_input_tokens = metadata_int d ''input_tokens'',
                re_output_tokens = metadata_int d ''output_tokens'',
                re_error_kind = (case metadata_string d ''error_kind'' of Some k \<Rightarrow> Some k
                   | None \<Rightarrow> metadata_string d ''error_type''),
                re_selected_capability_ids = metadata_string_list d ''selected_capability_ids'',
                re_payload = d\<rparr>
          in Inr ((update_where (\<lambda>r. dr_run_id r = run_id)
                     (\<lambda>r. r\<lparr>dr_last_event_sequence := seq, dr_last_event_id := Some (py_str_int seq),
                           dr_updated_at := now\<rparr>) (fst s),
                   snd s @ [row]),
                  \<lparr>se_event_id = py_str_int seq, se_event = d\<rparr>))"

definition replayed_event :: "string \<Rightarrow> int \<Rightarrow> runtime_event_row \<Rightarrow> stored_event" where
  "replayed_event run_id seq row =
     \<lparr>se_event_id = py_str_int seq,
      se_event = (if ae_sequence (re_payload row) \<noteq> Some seq \<or> ae_run_id (re_payload row) \<noteq> Some run_id
        then (re_payload row)\<lparr>ae_run_id := Some run_id, ae_sequence := Some seq,
               ae_created_at := re_occurred_at row\<rparr>
        else re_payload row)\<rparr>"

definition list_durable_runtime_events :: "string \<Rightarrow> int \<Rightarrow> runtime_event_row list \<Rightarrow> stored_event list" where
  "list_durable_runtime_events run_id after_sequence rows =
     map (\<lambda>row. replayed_event run_id (the (re_sequence row)) row)
       (sort_key (\<lambda>row. the (re_sequence row))
         (filter (\<lambda>row. re_run_id row = run_id \<and>
            (case re_sequence row of None \<Rightarrow> False | Some n \<Rightarrow> n > after_sequence)) rows))"

definition partition_dash :: "string \<Rightarrow> string" where
  "partition_dash s = takeWhile (\<lambda>c. c \<noteq> CHR ''-'') s"

definition parse_event_sequence :: "string option \<Rightarrow> int result" where
  "parse_event_sequence v =
     (case v of
        None \<Rightarrow> Inr 0
      | Some s \<Rightarrow>
          if s = [] then Inr 0
          else (case py_int (partition_dash s) of
              None \<Rightarrow> Inl (ValueError ''event cursor must be a positive integer'')
            | Some n \<Rightarrow> if n < 0 then Inl (ValueError ''event cursor must be a positive integer'') else Inr n))"

subsection \<open>The log of a run is gap-free\<close>

definition run_rows :: "string \<Rightarrow> runtime_event_row list \<Rightarrow> runtime_event_row list" where
  "run_rows i rows = filter (\<lambda>row. re_run_id row = i) rows"

definition log_ok :: "durable_run list \<times> runtime_event_row list \<Rightarrow> bool" where
  "log_ok s \<longleftrightarrow>
     (\<forall>i. case get_durable_run i (fst s) of
        None \<Rightarrow> run_rows i (snd s) = []
      | Some r \<Rightarrow> map re_sequence (run_rows i (snd s)) = map Some [1..dr_last_event_sequence r] \<and>
                  0 \<le> dr_last_event_sequence r)"

lemma upto_snoc: "0 \<le> n \<Longrightarrow> [1..n + 1] = [1..n] @ [n + 1 :: int]"
  using upto_rec2 [of 1 "n + 1"] by simp

lemma get_runD: "get_durable_run i db = Some r \<Longrightarrow> dr_run_id r = i \<and> r \<in> set db"
  by (auto simp: get_durable_run_def dest: find_SomeD)

lemma get_run_update:
  assumes "\<And>r. dr_run_id (f r) = dr_run_id r"
  shows "get_durable_run i (update_where P f db) =
    map_option (\<lambda>r. if P r then f r else r) (get_durable_run i db)"
  unfolding get_durable_run_def by (rule find_update_where) (simp add: assms)

lemma append_cases:
  assumes "append_durable_runtime_event now eid i event s = Inr (s', stored)"
  obtains run row where "get_durable_run i (fst s) = Some run"
    and "snd s' = snd s @ [row]" and "re_run_id row = i"
    and "re_sequence row = Some (dr_last_event_sequence run + 1)"
    and "fst s' = update_where (\<lambda>r. dr_run_id r = i)
      (\<lambda>r. r\<lparr>dr_last_event_sequence := dr_last_event_sequence run + 1,
            dr_last_event_id := Some (py_str_int (dr_last_event_sequence run + 1)), dr_updated_at := now\<rparr>) (fst s)"
    and "re_payload row = with_delivery now i (dr_last_event_sequence run + 1) event"
    and "stored = \<lparr>se_event_id = py_str_int (dr_last_event_sequence run + 1), se_event = re_payload row\<rparr>"
  using assms by (auto simp: append_durable_runtime_event_def Let_def split: option.splits)

lemma run_rows_snoc [simp]:
  "run_rows i (rows @ [row]) = run_rows i rows @ (if re_run_id row = i then [row] else [])"
  by (simp add: run_rows_def)

text \<open>Appending keeps the log gap-free.\<close>

lemma append_log_ok:
  assumes "append_durable_runtime_event now eid j event s = Inr (s', stored)" and "log_ok s"
  shows "log_ok s'"
proof -
  obtain run row where a: "get_durable_run j (fst s) = Some run" "snd s' = snd s @ [row]" "re_run_id row = j"
    "re_sequence row = Some (dr_last_event_sequence run + 1)"
    "fst s' = update_where (\<lambda>r. dr_run_id r = j)
      (\<lambda>r. r\<lparr>dr_last_event_sequence := dr_last_event_sequence run + 1,
            dr_last_event_id := Some (py_str_int (dr_last_event_sequence run + 1)), dr_updated_at := now\<rparr>) (fst s)"
    using append_cases [OF assms(1)] by metis
  have id: "dr_run_id run = j" using get_runD [OF a(1)] by simp
  show ?thesis
    unfolding log_ok_def
  proof
    fix i
    show "case get_durable_run i (fst s') of None \<Rightarrow> run_rows i (snd s') = []
      | Some r \<Rightarrow> map re_sequence (run_rows i (snd s')) = map Some [1..dr_last_event_sequence r] \<and>
          0 \<le> dr_last_event_sequence r"
    proof (cases "i = j")
      case True
      have "map re_sequence (run_rows j (snd s)) = map Some [1..dr_last_event_sequence run]"
        "0 \<le> dr_last_event_sequence run"
        using assms(2) [unfolded log_ok_def, rule_format, of j] a(1) by simp_all
      then show ?thesis using a id True by (simp add: get_run_update upto_snoc)
    next
      case False
      have "get_durable_run i (fst s') = get_durable_run i (fst s)"
        using a(5) False get_runD [of i "fst s"]
        by (cases "get_durable_run i (fst s)") (simp_all add: get_run_update)
      moreover have "run_rows i (snd s') = run_rows i (snd s)" using a(2,3) False by simp
      ultimately show ?thesis using assms(2) [unfolded log_ok_def, rule_format, of i]
        by (simp split: option.splits)
    qed
  qed
qed

lemma filter_upto: "0 \<le> c \<Longrightarrow> filter (\<lambda>n. c < n) [1..m] = [c + 1..m :: int]"
proof (cases "c \<le> m")
  case True
  assume "0 \<le> c"
  then have "[1..m] = [1..c] @ [c + 1..m]"
    using True upto_split2 [of 1 c m] by (cases "c = 0") auto
  then show ?thesis by (auto simp: filter_empty_conv)
next
  case False
  then show ?thesis by (auto simp: filter_empty_conv)
qed

lemma replayed_id_seq [simp]: "se_event_id (replayed_event i n row) = py_str_int n"
  "ae_sequence (se_event (replayed_event i n row)) = Some n"
  "ae_run_id (se_event (replayed_event i n row)) = Some i"
  by (auto simp: replayed_event_def)

lemma list_events_sequences:
  assumes "map re_sequence (run_rows i rows) = map Some [1..m]" and "0 \<le> c"
  shows "map (\<lambda>e. ae_sequence (se_event e)) (list_durable_runtime_events i c rows) = map Some [c + 1..m]"
proof -
  let ?p = "\<lambda>row. case re_sequence row of None \<Rightarrow> False | Some n \<Rightarrow> c < n"
  have rows: "filter (\<lambda>row. re_run_id row = i \<and> ?p row) rows = filter ?p (run_rows i rows)"
    by (simp add: run_rows_def conj_commute)
  have "map re_sequence (filter ?p (run_rows i rows)) =
      filter (\<lambda>q. case q of None \<Rightarrow> False | Some n \<Rightarrow> c < n) (map re_sequence (run_rows i rows))"
    by (simp add: filter_map comp_def)
  also have "\<dots> = map Some [c + 1..m]"
    using assms by (simp add: filter_map comp_def filter_upto)
  finally have seqs: "map re_sequence (filter ?p (run_rows i rows)) = map Some [c + 1..m]" .
  then have "map the (map re_sequence (filter ?p (run_rows i rows))) = [c + 1..m]"
    by (simp add: comp_def)
  then have keys: "map (\<lambda>row. the (re_sequence row)) (filter ?p (run_rows i rows)) = [c + 1..m]"
    by (simp add: comp_def)
  then have "sort_key (\<lambda>row. the (re_sequence row)) (filter ?p (run_rows i rows)) = filter ?p (run_rows i rows)"
    by (intro sort_key_id_if_sorted) simp
  then have "map (\<lambda>e. ae_sequence (se_event e)) (list_durable_runtime_events i c rows) =
      map Some (map (\<lambda>row. the (re_sequence row)) (filter ?p (run_rows i rows)))"
    unfolding list_durable_runtime_events_def rows by (simp add: comp_def)
  then show ?thesis by (simp only: keys)
qed

subsection \<open>Properties\<close>

definition sample_run :: "string \<Rightarrow> agent_run_status \<Rightarrow> durable_run" where
  "sample_run i status =
     \<lparr>dr_run_id = i, dr_trace_id = ''t'', dr_session_id = ''s1'', dr_user_id = 7,
      dr_client_request_id = i, dr_question = ''q'', dr_top_k = 4, dr_answer_mode = ''kb_qa'',
      dr_execution_mode = ''single'', dr_status = status, dr_trigger_type = ''user'', dr_trigger_id = None,
      dr_attempt_count = 0, dr_max_attempts = 3, dr_started_at = None, dr_completed_at = None,
      dr_heartbeat_at = None, dr_error = None, dr_last_event_id = None, dr_last_event_sequence = 0,
      dr_queue_wait_ms = None, dr_created_at = 0, dr_updated_at = 0\<rparr>"

text \<open>
  C39. Event ids are cursors: the id of a delivered event, plain or followed by a dash and a suffix as
  Redis writes its ids, parses back to its sequence; an absent cursor means the beginning, and no cursor
  parses to a negative sequence.
\<close>

theorem event_cursor_roundtrip:
  "parse_event_sequence (Some (py_str_int (int n))) = Inr (int n) \<and>
   parse_event_sequence (Some (py_str_int (int n) @ ''-'' @ suffix)) = Inr (int n) \<and>
   parse_event_sequence None = Inr 0 \<and>
   parse_event_sequence v \<noteq> Inr (- 1 - int m)"
proof -
  have nodash: "CHR ''-'' \<notin> set (digits_of n)"
    using digits_of_digits [of n] digit_no_space by (auto simp: list_all_iff)
  then have "partition_dash (digits_of n) = digits_of n" "partition_dash (digits_of n @ ''-'' @ suffix) = digits_of n"
    unfolding partition_dash_def by (auto simp: takeWhile_eq_all_conv takeWhile_append)
  then show ?thesis
    by (auto simp: parse_event_sequence_def py_str_int_def py_int_digits_of split: option.splits if_splits)
qed

end
