(* ===== verification/RunStore.thy ===== *)
theory RunStore
  imports RunEvents
begin

text \<open>
  The process-local store of agent runs, \<open>AgentRunStore\<close> of \<open>memoria/persistence/runs.py\<close>, on its
  in-memory backend: records, abort flags, the request index that makes creation idempotent, and the
  per-session FIFO with its expiring lease. \<open>digest\<close> is the SHA-256 hex digest, \<open>ttl\<close> the setting
  \<open>AGENT_SESSION_LEASE_SECONDS\<close>, \<open>now\<close> the monotonic clock. The Redis scripts are not modelled.
\<close>

record run_store =
  rs_records :: "string \<rightharpoonup> agent_run_record"
  rs_aborts :: "string set"
  rs_request_runs :: "string \<rightharpoonup> string"
  rs_queues :: "string \<Rightarrow> string list"
  rs_leases :: "string \<rightharpoonup> string \<times> instant"

definition empty_store :: run_store where
  "empty_store = \<lparr>rs_records = (\<lambda>_. None), rs_aborts = {}, rs_request_runs = (\<lambda>_. None),
     rs_queues = (\<lambda>_. []), rs_leases = (\<lambda>_. None)\<rparr>"

definition request_key :: "(string \<Rightarrow> string) \<Rightarrow> int \<Rightarrow> string \<Rightarrow> string \<Rightarrow> string" where
  "request_key digest user_id session_id request_id =
     ''mneme:agent-request:'' @ digest (py_str_int user_id @ '':'' @ session_id @ '':'' @ request_id)"

definition record_request_key :: "(string \<Rightarrow> string) \<Rightarrow> agent_run_record \<Rightarrow> string" where
  "record_request_key digest r = request_key digest (ar_user_id r) (ar_session_id r) (ar_client_request_id r)"

definition store_create :: "agent_run_record \<Rightarrow> run_store \<Rightarrow> run_store" where
  "store_create r st = st\<lparr>rs_records := (rs_records st)(ar_run_id r \<mapsto> r)\<rparr>"

definition create_or_get_and_enqueue ::
  "(string \<Rightarrow> string) \<Rightarrow> agent_run_record \<Rightarrow> run_store \<Rightarrow> run_store \<times> agent_run_record \<times> bool" where
  "create_or_get_and_enqueue digest r st =
     (let key = record_request_key digest r;
          fresh = (st\<lparr>rs_records := (rs_records st)(ar_run_id r \<mapsto> r),
                      rs_request_runs := (rs_request_runs st)(key \<mapsto> ar_run_id r),
                      rs_queues := (rs_queues st)(ar_session_id r := rs_queues st (ar_session_id r) @ [ar_run_id r])\<rparr>,
                   r, True)
      in case rs_request_runs st key of
           None \<Rightarrow> fresh
         | Some i \<Rightarrow> if i = [] then fresh
             else (case rs_records st i of None \<Rightarrow> fresh | Some existing \<Rightarrow> (st, existing, False)))"

definition claim_session_turn ::
  "int \<Rightarrow> instant \<Rightarrow> string \<Rightarrow> string \<Rightarrow> string \<Rightarrow> run_store \<Rightarrow> run_store \<times> bool" where
  "claim_session_turn ttl now session_id run_id token st =
     (case rs_queues st session_id of
        [] \<Rightarrow> (st, False)
      | head # _ \<Rightarrow>
          if head \<noteq> run_id then (st, False)
          else (case rs_leases st session_id of
              Some (owner, expires) \<Rightarrow>
                if expires > now \<and> owner \<noteq> token then (st, False)
                else (st\<lparr>rs_leases := (rs_leases st)(session_id \<mapsto> (token, now + seconds ttl))\<rparr>, True)
            | None \<Rightarrow> (st\<lparr>rs_leases := (rs_leases st)(session_id \<mapsto> (token, now + seconds ttl))\<rparr>, True)))"

definition enqueue_session_turn :: "string \<Rightarrow> string \<Rightarrow> run_store \<Rightarrow> run_store" where
  "enqueue_session_turn session_id ticket st =
     st\<lparr>rs_queues := (rs_queues st)(session_id := rs_queues st session_id @ [ticket])\<rparr>"

definition renew_session_lease :: "int \<Rightarrow> instant \<Rightarrow> string \<Rightarrow> string \<Rightarrow> run_store \<Rightarrow> run_store \<times> bool" where
  "renew_session_lease ttl now session_id token st =
     (case rs_leases st session_id of
        Some (owner, expires) \<Rightarrow>
          if owner \<noteq> token then (st, False)
          else (st\<lparr>rs_leases := (rs_leases st)(session_id \<mapsto> (token, now + seconds ttl))\<rparr>, True)
      | None \<Rightarrow> (st, False))"

definition remove_from_session_queue :: "string \<Rightarrow> string \<Rightarrow> run_store \<Rightarrow> run_store" where
  "remove_from_session_queue session_id run_id st =
     st\<lparr>rs_queues := (rs_queues st)(session_id := remove1 run_id (rs_queues st session_id))\<rparr>"

definition release_session_turn :: "string \<Rightarrow> string \<Rightarrow> string \<Rightarrow> run_store \<Rightarrow> run_store" where
  "release_session_turn session_id run_id token st =
     (case rs_leases st session_id of
        Some (owner, expires) \<Rightarrow>
          if owner \<noteq> token then st
          else remove_from_session_queue session_id run_id
            (st\<lparr>rs_leases := (rs_leases st)(session_id := None)\<rparr>)
      | None \<Rightarrow> remove_from_session_queue session_id run_id st)"

definition store_get :: "string \<Rightarrow> run_store \<Rightarrow> agent_run_record option" where
  "store_get run_id st = rs_records st run_id"

definition store_save :: "agent_run_record \<Rightarrow> run_store \<Rightarrow> run_store" where
  "store_save r st = st\<lparr>rs_records := (rs_records st)(ar_run_id r \<mapsto> r)\<rparr>"

definition request_abort :: "string \<Rightarrow> run_store \<Rightarrow> run_store" where
  "request_abort run_id st = st\<lparr>rs_aborts := insert run_id (rs_aborts st)\<rparr>"

definition transition_to_aborting :: "string \<Rightarrow> run_store \<Rightarrow> run_store \<times> agent_run_record option" where
  "transition_to_aborting run_id st =
     (case rs_records st run_id of
        None \<Rightarrow> (st, None)
      | Some r \<Rightarrow>
          if ar_status r \<notin> set TERMINAL_AGENT_RUN_STATUSES
          then (st\<lparr>rs_records := (rs_records st)(run_id \<mapsto> r\<lparr>ar_status := ABORTING\<rparr>),
                   rs_aborts := insert run_id (rs_aborts st)\<rparr>, Some (r\<lparr>ar_status := ABORTING\<rparr>))
          else (st, Some r))"

definition is_abort_requested :: "string \<Rightarrow> run_store \<Rightarrow> bool" where
  "is_abort_requested run_id st \<longleftrightarrow> run_id \<in> rs_aborts st"

text \<open>\<open>append_event\<close>: the durable log first, then the cursor of the cached record.\<close>

definition append_event ::
  "instant \<Rightarrow> string \<Rightarrow> string \<Rightarrow> agent_event \<Rightarrow> (durable_run list \<times> runtime_event_row list) \<times> run_store
   \<Rightarrow> (((durable_run list \<times> runtime_event_row list) \<times> run_store) \<times> stored_event) result" where
  "append_event now eid run_id event s =
     ebind (append_durable_runtime_event now eid run_id event (fst s)) (\<lambda>(log, stored).
       Inr ((log, (case store_get run_id (snd s) of
                None \<Rightarrow> snd s
              | Some r \<Rightarrow> store_save (r\<lparr>ar_last_event_id := Some (se_event_id stored),
                  ar_last_event_sequence := the (ae_sequence (se_event stored))\<rparr>) (snd s))),
            stored))"

definition list_events ::
  "string \<Rightarrow> string option \<Rightarrow> runtime_event_row list \<Rightarrow> stored_event list result" where
  "list_events run_id after_id rows =
     ebind (parse_event_sequence after_id) (\<lambda>c. Inr (list_durable_runtime_events run_id c rows))"

subsection \<open>Everybody else's steps\<close>

text \<open>
  What other workers, API calls and the recovery job can do to the store while the worker with token
  \<open>t\<close> holds the lease of session \<open>s\<close> until \<open>until\<close>: their clock has not reached \<open>until\<close>, and their tokens,
  being fresh random values, differ from \<open>t\<close>.
\<close>

inductive others_step :: "int \<Rightarrow> string \<Rightarrow> instant \<Rightarrow> run_store \<Rightarrow> run_store \<Rightarrow> bool" for ttl t until where
  oth_create: "others_step ttl t until st (store_create r st)"
| oth_submit: "create_or_get_and_enqueue digest r st = (st', r', b) \<Longrightarrow> others_step ttl t until st st'"
| oth_claim: "now < until \<Longrightarrow> t' \<noteq> t \<Longrightarrow> claim_session_turn ttl now s run t' st = (st', b) \<Longrightarrow> others_step ttl t until st st'"
| oth_ticket: "others_step ttl t until st (enqueue_session_turn s ticket st)"
| oth_renew: "t' \<noteq> t \<Longrightarrow> renew_session_lease ttl now s t' st = (st', b) \<Longrightarrow> others_step ttl t until st st'"
| oth_release: "t' \<noteq> t \<Longrightarrow> others_step ttl t until st (release_session_turn s run t' st)"
| oth_remove: "others_step ttl t until st (remove_from_session_queue s run st)"
| oth_save: "others_step ttl t until st (store_save r st)"
| oth_abort: "others_step ttl t until st (request_abort run st)"
| oth_aborting: "transition_to_aborting run st = (st', r') \<Longrightarrow> others_step ttl t until st st'"

lemma others_keep_lease:
  assumes "others_step ttl t until st st'" and "rs_leases st s = Some (t, e)" and "until \<le> e"
  shows "rs_leases st' s = Some (t, e)"
  using assms
  by (induction rule: others_step.induct)
    (auto simp: store_create_def create_or_get_and_enqueue_def claim_session_turn_def
      enqueue_session_turn_def renew_session_lease_def release_session_turn_def
      remove_from_session_queue_def store_save_def request_abort_def transition_to_aborting_def Let_def
      split: option.splits list.splits if_splits prod.splits)

lemma others_reach_lease:
  assumes "(others_step ttl t until)\<^sup>*\<^sup>* st st'" and "rs_leases st s = Some (t, e)" and "until \<le> e"
  shows "rs_leases st' s = Some (t, e)"
  using assms(1)
proof (induction rule: rtranclp_induct)
  case (step st1 st2)
  then show ?case using others_keep_lease assms(3) by blast
qed (rule assms(2))

lemma claim_success:
  "claim_session_turn ttl now s run t st = (st', True) \<Longrightarrow>
   rs_leases st' s = Some (t, now + seconds ttl) \<and> (\<exists>q. rs_queues st s = run # q)"
  by (auto simp: claim_session_turn_def split: list.splits option.splits if_splits prod.splits)

subsection \<open>Properties\<close>

text \<open>
  C12. One worker per session: after a successful claim of a session's turn, which only the head of the
  session's queue can make, whatever others do before the lease expires, every claim of that session
  under another token fails and changes nothing.
\<close>

theorem session_turn_exclusive:
  assumes "claim_session_turn ttl now s run t st = (st1, True)"
    and "(others_step ttl t (now + seconds ttl))\<^sup>*\<^sup>* st1 st2"
    and "t' \<noteq> t" and "later < now + seconds ttl"
  shows "claim_session_turn ttl later s run' t' st2 = (st2, False) \<and> (\<exists>q. rs_queues st s = run # q)"
proof -
  have "rs_leases st2 s = Some (t, now + seconds ttl)"
    using others_reach_lease [OF assms(2)] claim_success [OF assms(1)] by blast
  with assms(3,4) have "claim_session_turn ttl later s run' t' st2 = (st2, False)"
    by (simp add: claim_session_turn_def split: list.split)
  with claim_success [OF assms(1)] show ?thesis by blast
qed

lemma sample_claim:
  "claim_session_turn 30 0 ''s'' ''r1'' ''a'' (enqueue_session_turn ''s'' ''r1'' empty_store) =
    ((enqueue_session_turn ''s'' ''r1'' empty_store)\<lparr>rs_leases := [''s'' \<mapsto> (''a'', seconds 30)]\<rparr>, True)"
  by (simp add: claim_session_turn_def enqueue_session_turn_def empty_store_def)

theorem session_turn_exclusive_witness:
  "\<exists>st1. claim_session_turn 30 0 ''s'' ''r1'' ''a'' (enqueue_session_turn ''s'' ''r1'' empty_store) = (st1, True) \<and>
     snd (claim_session_turn 30 5 ''s'' ''r2'' ''b'' (remove_from_session_queue ''s'' ''r1'' st1)) = False"
proof -
  let ?st1 = "(enqueue_session_turn ''s'' ''r1'' empty_store)\<lparr>rs_leases := [''s'' \<mapsto> (''a'', seconds 30)]\<rparr>"
  have step: "(others_step 30 ''a'' (0 + seconds 30))\<^sup>*\<^sup>* ?st1 (remove_from_session_queue ''s'' ''r1'' ?st1)"
    by (intro r_into_rtranclp oth_remove)
  have "claim_session_turn 30 5 ''s'' ''r2'' ''b'' (remove_from_session_queue ''s'' ''r1'' ?st1) =
      (remove_from_session_queue ''s'' ''r1'' ?st1, False)"
    using session_turn_exclusive [OF sample_claim step, of "''b''" 5 "''r2''"] by (simp add: seconds_def)
  then show ?thesis using sample_claim by auto
qed

text \<open>
  Submitting a run is idempotent per user, session and client request: a second submission, whatever
  its run id and contents, returns the run stored first, creates nothing and queues nothing.
\<close>

theorem run_submit_idempotent:
  assumes "create_or_get_and_enqueue digest r st = (st1, stored, created)" and "ar_run_id r \<noteq> []"
    and "ar_user_id r' = ar_user_id r" and "ar_session_id r' = ar_session_id r"
    and "ar_client_request_id r' = ar_client_request_id r"
  shows "create_or_get_and_enqueue digest r' st1 = (st1, stored, False)"
proof -
  have key: "record_request_key digest r' = record_request_key digest r"
    using assms(3-5) by (simp add: record_request_key_def)
  show ?thesis
    using assms(1,2) unfolding create_or_get_and_enqueue_def key Let_def
    by (auto split: option.splits if_splits)
qed

definition sample_record :: "string \<Rightarrow> agent_run_record" where
  "sample_record i = create_run_record 0 ''u'' i ''s1'' 7 ''req'' ''q'' 4 ''kb_qa'' ''single'' ''user'' None 3"

theorem run_submit_idempotent_witness:
  "case create_or_get_and_enqueue (\<lambda>s. s) (sample_record ''r1'') empty_store of
     (st1, stored, created) \<Rightarrow> create_or_get_and_enqueue (\<lambda>s. s) (sample_record ''r2'') st1 = (st1, stored, False)"
proof -
  obtain st1 stored created
    where c: "create_or_get_and_enqueue (\<lambda>s. s) (sample_record ''r1'') empty_store = (st1, stored, created)"
    by (metis prod_cases3)
  from run_submit_idempotent [OF c, of "sample_record ''r2''"] c show ?thesis
    by (simp add: sample_record_def create_run_record_def)
qed

text \<open>
  An abort request never regresses a terminal run: a completed, failed or aborted record is returned
  unchanged and no abort flag is set; any other record becomes aborting with its flag; other runs, the
  queues and the leases are untouched.
\<close>

theorem abort_respects_terminal:
  assumes "transition_to_aborting i st = (st', ro)"
  shows "(case rs_records st i of
      None \<Rightarrow> st' = st \<and> ro = None
    | Some r \<Rightarrow> if ar_status r \<in> {COMPLETED, RUN_FAILED, ABORTED} then st' = st \<and> ro = Some r
        else is_abort_requested i st' \<and> store_get i st' = ro \<and> map_option ar_status ro = Some ABORTING) \<and>
    (\<forall>j. j \<noteq> i \<longrightarrow> store_get j st' = store_get j st \<and> (is_abort_requested j st' \<longleftrightarrow> is_abort_requested j st)) \<and>
    rs_queues st' = rs_queues st \<and> rs_leases st' = rs_leases st"
  using assms
  by (auto simp: transition_to_aborting_def TERMINAL_AGENT_RUN_STATUSES_def store_get_def
      is_abort_requested_def split: option.splits if_splits)

theorem abort_respects_terminal_witness:
  "fst (transition_to_aborting ''r1'' (store_create ((sample_record ''r1'')\<lparr>ar_status := COMPLETED\<rparr>) empty_store))
     = store_create ((sample_record ''r1'')\<lparr>ar_status := COMPLETED\<rparr>) empty_store"
proof -
  let ?st = "store_create ((sample_record ''r1'')\<lparr>ar_status := COMPLETED\<rparr>) empty_store"
  obtain st' ro where t: "transition_to_aborting ''r1'' ?st = (st', ro)" by fastforce
  have "rs_records ?st ''r1'' = Some ((sample_record ''r1'')\<lparr>ar_status := COMPLETED\<rparr>)"
    by (simp add: store_create_def sample_record_def create_run_record_def)
  with abort_respects_terminal [OF t] t show ?thesis by simp
qed

text \<open>
  A lease that has expired can still be renewed by its former owner: renewal compares the token but not
  the expiry, so the former owner's late renewal succeeds and the head of the queue is locked out again.
\<close>

theorem expired_lease_renewable:
  assumes "rs_leases st s = Some (t, e)" and "e \<le> now" and "0 < ttl" and "t' \<noteq> t" and "rs_queues st s = run # q"
  shows "snd (claim_session_turn ttl now s run t' st) = True \<and>
    snd (renew_session_lease ttl now s t st) = True \<and>
    snd (claim_session_turn ttl now s run t' (fst (renew_session_lease ttl now s t st))) = False"
  using assms seconds_pos [of ttl] by (simp add: claim_session_turn_def renew_session_lease_def)

theorem expired_lease_renewable_witness:
  "snd (renew_session_lease 30 (seconds 40) ''s'' ''a''
     (empty_store\<lparr>rs_leases := [''s'' \<mapsto> (''a'', seconds 30)], rs_queues := (\<lambda>_. [''r2''])\<rparr>)) = True"
  using expired_lease_renewable [of "empty_store\<lparr>rs_leases := [''s'' \<mapsto> (''a'', seconds 30)], rs_queues := (\<lambda>_. [''r2''])\<rparr>"
      "''s''" "''a''" "seconds 30" "seconds 40" 30 "''b''" "''r2''" "[]"]
  by (simp add: seconds_def)

end
