(* ===== verification/Automation.thy ===== *)
theory Automation
  imports Outbox RunStore
begin

text \<open>
  The automation tables of \<open>memoria/persistence/automation.py\<close> and
  \<open>memoria/models/automation.py\<close>: durable runs, heartbeat jobs, notifications and tool approvals, with
  the two producers of \<open>memoria/automation/service.py\<close> that write the Outbox. Create-or-get operations
  interpret \<open>idem_store\<close>.
\<close>

subsection \<open>Durable runs\<close>

definition durable_run_to_record :: "durable_run \<Rightarrow> agent_run_record" where
  "durable_run_to_record r =
     \<lparr>ar_run_id = dr_run_id r, ar_trace_id = dr_trace_id r, ar_session_id = dr_session_id r,
      ar_user_id = dr_user_id r, ar_client_request_id = dr_client_request_id r, ar_question = dr_question r,
      ar_top_k = dr_top_k r, ar_answer_mode = dr_answer_mode r, ar_execution_mode = dr_execution_mode r,
      ar_status = dr_status r, ar_trigger_type = dr_trigger_type r, ar_trigger_id = dr_trigger_id r,
      ar_attempt_count = dr_attempt_count r, ar_max_attempts = dr_max_attempts r,
      ar_created_at = dr_created_at r, ar_started_at = dr_started_at r, ar_completed_at = dr_completed_at r,
      ar_error = dr_error r, ar_last_event_id = dr_last_event_id r,
      ar_last_event_sequence = dr_last_event_sequence r, ar_queue_wait_ms = dr_queue_wait_ms r\<rparr>"

definition durable_row :: "instant \<Rightarrow> agent_run_record \<Rightarrow> durable_run" where
  "durable_row now r =
     \<lparr>dr_run_id = ar_run_id r, dr_trace_id = ar_trace_id r, dr_session_id = ar_session_id r,
      dr_user_id = ar_user_id r, dr_client_request_id = ar_client_request_id r, dr_question = ar_question r,
      dr_top_k = ar_top_k r, dr_answer_mode = ar_answer_mode r, dr_execution_mode = ar_execution_mode r,
      dr_status = ar_status r, dr_trigger_type = ar_trigger_type r, dr_trigger_id = ar_trigger_id r,
      dr_attempt_count = ar_attempt_count r, dr_max_attempts = ar_max_attempts r, dr_started_at = None,
      dr_completed_at = None, dr_heartbeat_at = None, dr_error = None, dr_last_event_id = None,
      dr_last_event_sequence = 0, dr_queue_wait_ms = None, dr_created_at = ar_created_at r,
      dr_updated_at = now\<rparr>"

definition run_request :: "durable_run \<Rightarrow> int \<times> string \<times> string" where
  "run_request r = (dr_user_id r, dr_session_id r, dr_client_request_id r)"

definition insert_durable_run :: "durable_run \<Rightarrow> durable_run list \<Rightarrow> durable_run list \<times> durable_run \<times> bool" where
  "insert_durable_run row db =
     (case find (\<lambda>r. run_request r = run_request row) db of
        None \<Rightarrow> (db @ [row], row, True)
      | Some existing \<Rightarrow> (db, existing, False))"

definition create_or_get_durable_run ::
  "instant \<Rightarrow> agent_run_record \<Rightarrow> durable_run list \<Rightarrow> durable_run list \<times> durable_run \<times> bool" where
  "create_or_get_durable_run now r db = insert_durable_run (durable_row now r) db"

definition dr_flush :: "instant \<Rightarrow> durable_run \<Rightarrow> durable_run \<Rightarrow> durable_run" where
  "dr_flush now old new = (if new = old then old else new\<lparr>dr_updated_at := now\<rparr>)"

definition saved_row :: "instant \<Rightarrow> agent_run_record \<Rightarrow> bool \<Rightarrow> durable_run \<Rightarrow> durable_run" where
  "saved_row now r touch row =
     (let r1 = row\<lparr>dr_status := ar_status r, dr_started_at := ar_started_at r,
                   dr_completed_at := ar_completed_at r, dr_error := ar_error r\<rparr>;
          r2 = (if ar_last_event_sequence r \<ge> dr_last_event_sequence row
                then r1\<lparr>dr_last_event_id := ar_last_event_id r, dr_last_event_sequence := ar_last_event_sequence r\<rparr>
                else r1);
          r3 = r2\<lparr>dr_queue_wait_ms := ar_queue_wait_ms r, dr_attempt_count := ar_attempt_count r\<rparr>
      in if touch then r3\<lparr>dr_heartbeat_at := Some now\<rparr> else r3)"

definition save_durable_run :: "instant \<Rightarrow> agent_run_record \<Rightarrow> bool \<Rightarrow> durable_run list \<Rightarrow> durable_run list" where
  "save_durable_run now r touch db =
     update_where (\<lambda>q. dr_run_id q = ar_run_id r) (\<lambda>q. dr_flush now q (saved_row now r touch q)) db"

definition run_is_stale :: "instant \<Rightarrow> durable_run \<Rightarrow> bool" where
  "run_is_stale stale_before r \<longleftrightarrow>
     dr_status r = QUEUED \<and> dr_updated_at r < stale_before \<or>
     dr_status r = RUN_RUNNING \<and>
       (case dr_heartbeat_at r of None \<Rightarrow> True | Some h \<Rightarrow> h < stale_before) \<or>
     dr_status r = ABORTING \<and> dr_updated_at r < stale_before"

definition list_recoverable_runs :: "instant \<Rightarrow> nat \<Rightarrow> durable_run list \<Rightarrow> durable_run list" where
  "list_recoverable_runs stale_before batch db =
     order_limit dr_created_at batch
       (filter (\<lambda>r. dr_attempt_count r < dr_max_attempts r \<and> run_is_stale stale_before r) db)"

definition list_exhausted_runs :: "instant \<Rightarrow> nat \<Rightarrow> durable_run list \<Rightarrow> durable_run list" where
  "list_exhausted_runs stale_before batch db =
     order_limit dr_created_at batch
       (filter (\<lambda>r. dr_attempt_count r \<ge> dr_max_attempts r \<and> run_is_stale stale_before r) db)"

subsection \<open>Heartbeat jobs\<close>

record heartbeat_job =
  hb_id :: string
  hb_user_id :: int
  hb_name :: string
  hb_prompt :: string
  hb_answer_mode :: string
  hb_knowledge_base_id :: "string option"
  hb_session_id :: "string option"
  hb_enabled :: bool
  hb_every_seconds :: int
  hb_active_timezone :: string
  hb_active_start :: string
  hb_active_end :: string
  hb_isolated_session :: bool
  hb_light_context :: bool
  hb_silent_success :: bool
  hb_event_types :: "string list"
  hb_next_run_at :: instant
  hb_last_run_at :: "instant option"
  hb_last_run_id :: "string option"
  hb_last_status :: "string option"
  hb_created_at :: instant

definition create_heartbeat_job :: "heartbeat_job \<Rightarrow> heartbeat_job list \<Rightarrow> heartbeat_job list" where
  "create_heartbeat_job job db = db @ [job]"

definition get_heartbeat_job :: "string \<Rightarrow> int option \<Rightarrow> heartbeat_job list \<Rightarrow> heartbeat_job option" where
  "get_heartbeat_job job_id user_id db =
     find (\<lambda>j. hb_id j = job_id \<and> (case user_id of None \<Rightarrow> True | Some u \<Rightarrow> hb_user_id j = u)) db"

definition list_heartbeat_jobs :: "int \<Rightarrow> heartbeat_job list \<Rightarrow> heartbeat_job list" where
  "list_heartbeat_jobs user_id db = sort_key (\<lambda>j. - hb_created_at j) (filter (\<lambda>j. hb_user_id j = user_id) db)"

definition claim_job :: "instant \<Rightarrow> heartbeat_job \<Rightarrow> heartbeat_job" where
  "claim_job now j =
     j\<lparr>hb_last_run_at := Some now, hb_next_run_at := now + seconds (hb_every_seconds j),
       hb_last_status := Some ''dispatching''\<rparr>"

definition claim_due_heartbeat_jobs ::
  "instant \<Rightarrow> nat \<Rightarrow> heartbeat_job list \<Rightarrow> heartbeat_job list \<times> heartbeat_job list" where
  "claim_due_heartbeat_jobs now batch db =
     (let picked = order_limit hb_next_run_at batch (filter (\<lambda>j. hb_enabled j \<and> hb_next_run_at j \<le> now) db)
      in (update_where (\<lambda>j. hb_id j \<in> set (map hb_id picked)) (claim_job now) db, map (claim_job now) picked))"

definition list_stuck_heartbeat_jobs :: "instant \<Rightarrow> nat \<Rightarrow> heartbeat_job list \<Rightarrow> heartbeat_job list" where
  "list_stuck_heartbeat_jobs stale_before batch db =
     order_limit (\<lambda>j. the (hb_last_run_at j)) batch
       (filter (\<lambda>j. hb_enabled j \<and> hb_last_status j = Some ''dispatching'' \<and>
          (case hb_last_run_at j of None \<Rightarrow> False | Some t \<Rightarrow> t < stale_before)) db)"

definition list_event_heartbeat_jobs :: "int \<Rightarrow> string \<Rightarrow> heartbeat_job list \<Rightarrow> heartbeat_job list" where
  "list_event_heartbeat_jobs user_id event_type db =
     filter (\<lambda>j. hb_enabled j \<and> event_type \<in> set (hb_event_types j)) (list_heartbeat_jobs user_id db)"

subsection \<open>Notifications\<close>

record notification =
  nt_id :: string
  nt_user_id :: int
  nt_kind :: string
  nt_title :: string
  nt_body :: string
  nt_action_url :: "string option"
  nt_source_run_id :: "string option"
  nt_idempotency_key :: string
  nt_metadata :: "(string \<times> json) list"
  nt_read_at :: "instant option"
  nt_created_at :: instant

definition insert_notification :: "notification \<Rightarrow> notification list \<Rightarrow> notification list \<times> notification \<times> bool" where
  "insert_notification n db =
     (case find (\<lambda>m. nt_idempotency_key m = nt_idempotency_key n) db of
        None \<Rightarrow> (db @ [n], n, True)
      | Some existing \<Rightarrow> (db, existing, False))"

definition create_notification_if_missing ::
  "instant \<Rightarrow> string \<Rightarrow> int \<Rightarrow> string \<Rightarrow> string \<Rightarrow> string \<Rightarrow> string option \<Rightarrow> string option \<Rightarrow> string
   \<Rightarrow> (string \<times> json) list \<Rightarrow> notification list \<Rightarrow> notification list \<times> notification" where
  "create_notification_if_missing now nid user_id kind title body action_url source_run_id key metadata db =
     (case insert_notification
        \<lparr>nt_id = nid, nt_user_id = user_id, nt_kind = kind, nt_title = title, nt_body = body,
         nt_action_url = action_url, nt_source_run_id = source_run_id, nt_idempotency_key = key,
         nt_metadata = metadata, nt_read_at = None, nt_created_at = now\<rparr> db of
        (db', n, created) \<Rightarrow> (db', n))"

definition list_notifications :: "int \<Rightarrow> nat \<Rightarrow> notification list \<Rightarrow> notification list" where
  "list_notifications user_id batch db =
     order_limit (\<lambda>n. - nt_created_at n) batch (filter (\<lambda>n. nt_user_id n = user_id) db)"

definition count_unread_notifications :: "int \<Rightarrow> notification list \<Rightarrow> nat" where
  "count_unread_notifications user_id db =
     length (filter (\<lambda>n. nt_user_id n = user_id \<and> nt_read_at n = None) db)"

definition mark_notification_read ::
  "instant \<Rightarrow> string \<Rightarrow> int \<Rightarrow> notification list \<Rightarrow> notification list \<times> notification option" where
  "mark_notification_read now nid user_id db =
     (case find (\<lambda>n. nt_id n = nid \<and> nt_user_id n = user_id) db of
        None \<Rightarrow> (db, None)
      | Some n \<Rightarrow> (update_where (\<lambda>m. nt_id m = nid \<and> nt_user_id m = user_id) (nt_read_at_update (\<lambda>_. Some now)) db,
                   Some (n\<lparr>nt_read_at := Some now\<rparr>)))"

subsection \<open>Tool approvals\<close>

record tool_approval =
  ta_id :: string
  ta_user_id :: int
  ta_run_id :: "string option"
  ta_action_name :: string
  ta_risk_level :: string
  ta_action_summary :: string
  ta_arguments :: "(string \<times> json) list"
  ta_status :: string
  ta_apply_enabled :: bool
  ta_idempotency_key :: string
  ta_decided_at :: "instant option"
  ta_decision_reason :: "string option"
  ta_created_at :: instant

definition create_or_get_tool_approval ::
  "tool_approval \<Rightarrow> tool_approval list \<Rightarrow> tool_approval list \<times> tool_approval \<times> bool" where
  "create_or_get_tool_approval a db =
     (case find (\<lambda>b. ta_idempotency_key b = ta_idempotency_key a) db of
        None \<Rightarrow> (db @ [a], a, True)
      | Some existing \<Rightarrow> (db, existing, False))"

definition get_tool_approval :: "string \<Rightarrow> int \<Rightarrow> tool_approval list \<Rightarrow> tool_approval option" where
  "get_tool_approval approval_id user_id db = find (\<lambda>a. ta_id a = approval_id \<and> ta_user_id a = user_id) db"

definition list_tool_approvals :: "int \<Rightarrow> tool_approval list \<Rightarrow> tool_approval list" where
  "list_tool_approvals user_id db = sort_key (\<lambda>a. - ta_created_at a) (filter (\<lambda>a. ta_user_id a = user_id) db)"

interpretation durable_runs: idem_store "\<lambda>db. db" run_request insert_durable_run
  by unfold_locales (auto simp: insert_durable_run_def)

interpretation notifications: idem_store "\<lambda>db. db" nt_idempotency_key insert_notification
  by unfold_locales (auto simp: insert_notification_def)

interpretation approvals: idem_store "\<lambda>db. db" ta_idempotency_key create_or_get_tool_approval
  by unfold_locales (auto simp: create_or_get_tool_approval_def)

subsection \<open>Producers of automation/service.py\<close>

definition HEARTBEAT_OK :: string where "HEARTBEAT_OK = ''HEARTBEAT_OK''"

text \<open>\<open>local_time zone t\<close> is the \<open>HH:MM\<close> of the instant in the time zone.\<close>

definition heartbeat_is_active :: "(string \<Rightarrow> instant \<Rightarrow> string) \<Rightarrow> instant \<Rightarrow> heartbeat_job \<Rightarrow> bool" where
  "heartbeat_is_active local_time now job =
     (let current = local_time (hb_active_timezone job) now
      in if hb_active_start job \<le> hb_active_end job
         then hb_active_start job \<le> current \<and> current < hb_active_end job
         else current \<ge> hb_active_start job \<or> current < hb_active_end job)"

definition emit_domain_event ::
  "outbox_env \<Rightarrow> instant \<Rightarrow> string \<Rightarrow> string \<Rightarrow> int \<Rightarrow> string \<Rightarrow> string \<Rightarrow> string \<Rightarrow> (string \<times> json) list \<Rightarrow> outbox_db
   \<Rightarrow> outbox_db" where
  "emit_domain_event env now new_id event_type user_id aggregate_type aggregate_id operation_id payload db =
     fst (enqueue_outbox_event env now new_id event_type aggregate_type aggregate_id ''internal_hook''
       ((''user_id'', (case jget ''user_id'' payload of None \<Rightarrow> JInt user_id | Some v \<Rightarrow> v))
          # filter (\<lambda>kv. fst kv \<noteq> ''user_id'') payload) operation_id db)"

definition finish_heartbeat_run ::
  "outbox_env \<Rightarrow> instant \<Rightarrow> string \<Rightarrow> agent_run_record \<Rightarrow> string \<Rightarrow> heartbeat_job list \<times> outbox_db
   \<Rightarrow> heartbeat_job list \<times> outbox_db" where
  "finish_heartbeat_run env now new_id r answer s =
     (if ar_trigger_type r \<noteq> ''heartbeat'' \<or> \<not> truthy (ar_trigger_id r) then s
      else (case get_heartbeat_job (the (ar_trigger_id r)) None (fst s) of
          None \<Rightarrow> s
        | Some job \<Rightarrow>
            let jobs = update_where (\<lambda>j. hb_id j = hb_id job)
                  (hb_last_status_update (\<lambda>_. Some (run_status_value (ar_status r)))) (fst s);
                body = (if ar_status r \<noteq> COMPLETED
                  then ''Heartbeat failed: '' @ (if truthy (ar_error r) then the (ar_error r) else ''unknown error'')
                  else py_strip answer)
            in if hb_silent_success job \<and> (body = [] \<or> body = HEARTBEAT_OK) then (jobs, snd s)
               else (jobs, fst (enqueue_outbox_event env now new_id ''notification.deliver'' ''heartbeat_job''
                 (hb_id job) ''in_app''
                 [(''user_id'', JInt (ar_user_id r)), (''kind'', JStr ''heartbeat''), (''title'', JStr (hb_name job)),
                  (''body'', JStr (take 8000 body)), (''action_url'', JStr ''/?view=ai''),
                  (''source_run_id'', JStr (ar_run_id r)),
                  (''metadata'', JObj [(''heartbeat_job_id'', JStr (hb_id job)), (''session_id'', JStr (ar_session_id r))])]
                 (ar_run_id r) (snd s)))))"

end
