(* ===== verification/Runs.thy ===== *)
theory Runs
  imports Automation
begin

text \<open>
  The lifecycle of agent runs across the database, the event log, the Outbox and the process-local store:
  submission (\<open>memoria/run_submission.py\<close>), recovery (\<open>memoria/tasks/runs.py\<close>), the steps of a worker
  (\<open>memoria/run_service.py\<close>) and heartbeat dispatch (\<open>memoria/automation/service.py\<close>,
  \<open>memoria/tasks/heartbeats.py\<close>). The answer stream itself is outside; a worker is modelled by the
  steps it takes before and after it.
\<close>

record run_sys =
  ry_runs :: "durable_run list"
  ry_rows :: "runtime_event_row list"
  ry_jobs :: "heartbeat_job list"
  ry_outbox :: outbox_db
  ry_store :: run_store

text \<open>Settings of the run lifecycle; \<open>rc_digest\<close> is SHA-256, \<open>rc_fresh\<close> makes the ids of a clock reading.\<close>

record run_cfg =
  rc_outbox :: outbox_env
  rc_digest :: "string \<Rightarrow> string"
  rc_fresh :: "instant \<Rightarrow> string \<Rightarrow> string"
  rc_stale_seconds :: int
  rc_batch :: nat
  rc_lease_seconds :: int
  rc_max_attempts :: int

definition append_run_event ::
  "run_cfg \<Rightarrow> instant \<Rightarrow> string \<Rightarrow> agent_event \<Rightarrow> run_sys \<Rightarrow> run_sys result" where
  "append_run_event cfg now run_id event s =
     ebind (append_event now (rc_fresh cfg now run_id) run_id event ((ry_runs s, ry_rows s), ry_store s))
       (\<lambda>(((runs, rows), st), stored). Inr (s\<lparr>ry_runs := runs, ry_rows := rows, ry_store := st\<rparr>))"

fun fold_result :: "('x \<Rightarrow> 's \<Rightarrow> 's result) \<Rightarrow> 'x list \<Rightarrow> 's \<Rightarrow> 's result" where
  "fold_result f [] s = Inr s"
| "fold_result f (x # xs) s = ebind (f x s) (fold_result f xs)"

subsection \<open>Submission (memoria/run_submission.py)\<close>

text \<open>The result is the state, the record, whether it was created, and the task published, if any.\<close>

definition submit_agent_run ::
  "run_cfg \<Rightarrow> instant \<Rightarrow> agent_run_record \<Rightarrow> run_sys
   \<Rightarrow> (run_sys \<times> agent_run_record \<times> bool \<times> string list) result" where
  "submit_agent_run cfg now r s =
     (let (runs, durable, durable_created) = create_or_get_durable_run now r (ry_runs s);
          rec = durable_run_to_record durable;
          s1 = s\<lparr>ry_runs := runs\<rparr>
      in if ar_status rec \<in> set TERMINAL_AGENT_RUN_STATUSES then
           Inr (if store_get (ar_run_id rec) (ry_store s1) = None
                then s1\<lparr>ry_store := store_create rec (ry_store s1)\<rparr> else s1, rec, False, [])
         else let (st, cached, cache_created) = create_or_get_and_enqueue (rc_digest cfg) rec (ry_store s1);
                  s2 = s1\<lparr>ry_store := st\<rparr>
           in ebind
             (if cache_created
              then append_run_event cfg now (ar_run_id cached)
                (event_lifecycle now ''queued''
                  [(''trace_id'', JStr (ar_trace_id cached)), (''run_id'', JStr (ar_run_id cached)),
                   (''session_id'', JStr (ar_session_id cached)), (''user_id'', JInt (ar_user_id cached)),
                   (''loop_index'', JInt 0), (''loop_reason'', JStr ''session_fifo'')]) s2
              else Inr s2)
             (\<lambda>s3. Inr (s3, cached, durable_created \<and> cache_created,
                if ar_status cached = QUEUED then [ar_run_id cached] else [])))"

subsection \<open>Recovery (memoria/tasks/runs.py)\<close>

definition exhaust_row :: "instant \<Rightarrow> durable_run \<Rightarrow> durable_run" where
  "exhaust_row now r =
     (let abort_requested = (dr_status r = ABORTING)
      in r\<lparr>dr_status := (if abort_requested then ABORTED else RUN_FAILED),
           dr_error := (if abort_requested then None else Some ''agent run attempts exhausted''),
           dr_completed_at := Some now, dr_updated_at := now\<rparr>)"

definition requeue_row :: "instant \<Rightarrow> durable_run \<Rightarrow> durable_run" where
  "requeue_row now r =
     (if dr_status r \<noteq> ABORTING
      then r\<lparr>dr_status := QUEUED, dr_started_at := None, dr_heartbeat_at := None, dr_updated_at := now\<rparr>
      else r\<lparr>dr_updated_at := now\<rparr>)"

definition emit_exhausted :: "run_cfg \<Rightarrow> instant \<Rightarrow> durable_run \<Rightarrow> outbox_db \<Rightarrow> outbox_db" where
  "emit_exhausted cfg now r db =
     (if dr_status r = ABORTING then db
      else emit_domain_event (rc_outbox cfg) now (rc_fresh cfg now (dr_run_id r)) ''agent.run.failed''
        (dr_user_id r) ''agent_run'' (dr_run_id r) (dr_run_id r)
        [(''run_id'', JStr (dr_run_id r)), (''session_id'', JStr (dr_session_id r)),
         (''error_code'', JStr ''AGENT_RUN_ATTEMPTS_EXHAUSTED''), (''trigger_type'', JStr (dr_trigger_type r)),
         (''trigger_id'', jstr_opt (dr_trigger_id r))] db)"

text \<open>The database transaction of a recovery: the new tables, the exhausted and the requeued records.\<close>

definition recover_runs_transaction ::
  "run_cfg \<Rightarrow> instant \<Rightarrow> run_sys \<Rightarrow> run_sys \<times> agent_run_record list \<times> agent_run_record list" where
  "recover_runs_transaction cfg now s =
     (let stale_before = now - seconds (rc_stale_seconds cfg);
          exhausted = list_exhausted_runs stale_before (rc_batch cfg) (ry_runs s);
          runs1 = update_where (\<lambda>r. dr_run_id r \<in> set (map dr_run_id exhausted)) (exhaust_row now) (ry_runs s);
          outbox1 = foldl (\<lambda>db r. emit_exhausted cfg now r db) (ry_outbox s) exhausted;
          stale = list_recoverable_runs stale_before (rc_batch cfg) runs1;
          runs2 = update_where (\<lambda>r. dr_run_id r \<in> set (map dr_run_id stale)) (requeue_row now) runs1
      in (s\<lparr>ry_runs := runs2, ry_outbox := outbox1\<rparr>,
          map (\<lambda>r. durable_run_to_record (exhaust_row now r)) exhausted,
          map (\<lambda>r. durable_run_to_record (requeue_row now r)) stale))"

definition settle_exhausted :: "run_cfg \<Rightarrow> instant \<Rightarrow> agent_run_record \<Rightarrow> run_sys \<Rightarrow> run_sys result" where
  "settle_exhausted cfg now r s =
     ebind
       (case store_get (ar_run_id r) (ry_store s) of
          None \<Rightarrow> Inr s
        | Some cached \<Rightarrow>
            let s1 = s\<lparr>ry_store := store_save (cached\<lparr>ar_status := ar_status r, ar_error := ar_error r,
                  ar_completed_at := ar_completed_at r, ar_attempt_count := ar_attempt_count r\<rparr>) (ry_store s)\<rparr>
            in if ar_status r = ABORTED then
                 append_run_event cfg now (ar_run_id r)
                   (event_lifecycle now ''aborted'' [(''loop_reason'', JStr ''recovered_abort_intent'')]) s1
               else ebind
                 (append_run_event cfg now (ar_run_id r)
                   (event_error now ''Agent run attempts exhausted.''
                     [(''error_type'', JStr ''AgentRunAttemptsExhausted''),
                      (''loop_reason'', JStr ''recovery_attempts_exhausted'')]) s1)
                 (append_run_event cfg now (ar_run_id r)
                   (event_lifecycle now ''error'' [(''loop_reason'', JStr ''recovery_attempts_exhausted'')])))
       (\<lambda>s2. Inr (s2\<lparr>ry_store := remove_from_session_queue (ar_session_id r) (ar_run_id r) (ry_store s2)\<rparr>))"

definition settle_requeued :: "run_cfg \<Rightarrow> agent_run_record \<Rightarrow> run_sys \<Rightarrow> run_sys" where
  "settle_requeued cfg r s =
     (case store_get (ar_run_id r) (ry_store s) of
        None \<Rightarrow> s\<lparr>ry_store := fst (create_or_get_and_enqueue (rc_digest cfg) r (ry_store s))\<rparr>
      | Some cached \<Rightarrow> s\<lparr>ry_store := store_save (cached\<lparr>ar_status := ar_status r, ar_started_at := None,
            ar_attempt_count := ar_attempt_count r\<rparr>) (ry_store s)\<rparr>)"

text \<open>The result is the state and the runs published to the worker queue.\<close>

definition recover_agent_runs :: "run_cfg \<Rightarrow> instant \<Rightarrow> run_sys \<Rightarrow> (run_sys \<times> string list \<times> nat) result" where
  "recover_agent_runs cfg now s =
     (let (s1, exhausted, requeued) = recover_runs_transaction cfg now s
      in ebind (fold_result (settle_exhausted cfg now) exhausted s1) (\<lambda>s2.
           Inr (foldl (\<lambda>s r. settle_requeued cfg r s) s2 requeued, map ar_run_id requeued,
                length requeued + length exhausted)))"

subsection \<open>Workers (memoria/run_service.py)\<close>

definition save_record ::
  "run_cfg \<Rightarrow> instant \<Rightarrow> agent_run_record \<Rightarrow> bool \<Rightarrow> string \<Rightarrow> run_sys \<Rightarrow> run_sys" where
  "save_record cfg now r touch answer s =
     (let s1 = s\<lparr>ry_store := store_save r (ry_store s), ry_runs := save_durable_run now r touch (ry_runs s)\<rparr>;
          s2 = (if ar_status r = RUN_FAILED
                then s1\<lparr>ry_outbox := emit_domain_event (rc_outbox cfg) now (rc_fresh cfg now (ar_run_id r))
                  ''agent.run.failed'' (ar_user_id r) ''agent_run'' (ar_run_id r) (ar_run_id r)
                  [(''run_id'', JStr (ar_run_id r)), (''session_id'', JStr (ar_session_id r)),
                   (''trigger_type'', JStr (ar_trigger_type r)), (''trigger_id'', jstr_opt (ar_trigger_id r))]
                  (ry_outbox s1)\<rparr> else s1)
      in if ar_status r \<in> set TERMINAL_AGENT_RUN_STATUSES \<and> ar_trigger_type r = ''heartbeat''
         then (case finish_heartbeat_run (rc_outbox cfg) now (rc_fresh cfg now (''n'' @ ar_run_id r)) r answer
                 (ry_jobs s2, ry_outbox s2) of
             (jobs, outbox) \<Rightarrow> s2\<lparr>ry_jobs := jobs, ry_outbox := outbox\<rparr>)
         else s2)"

definition mark_aborted :: "run_cfg \<Rightarrow> instant \<Rightarrow> agent_run_record \<Rightarrow> string \<Rightarrow> run_sys \<Rightarrow> run_sys result" where
  "mark_aborted cfg now r reason s =
     (let r1 = r\<lparr>ar_status := ABORTED, ar_completed_at := Some now\<rparr>
      in ebind (append_run_event cfg now (ar_run_id r)
           (event_lifecycle now ''aborted'' [(''loop_index'', JInt 0), (''loop_reason'', JStr reason)]) s)
         (\<lambda>s1. Inr (save_record cfg now
            (case store_get (ar_run_id r) (ry_store s1) of Some latest \<Rightarrow> latest | None \<Rightarrow> r1) False [] s1)))"

text \<open>One round of \<open>_wait_for_session_turn\<close>: give up, hold the turn, or sleep and try again.\<close>

datatype turn_poll = PollGiveUp | PollClaimed agent_run_record | PollSleep

definition poll_session_turn ::
  "run_cfg \<Rightarrow> instant \<Rightarrow> instant \<Rightarrow> agent_run_record \<Rightarrow> string \<Rightarrow> run_sys \<Rightarrow> (run_sys \<times> turn_poll) result" where
  "poll_session_turn cfg started now r token s =
     (if is_abort_requested (ar_run_id r) (ry_store s) then
        (let latest = store_get (ar_run_id r) (ry_store s);
             r1 = (case latest of Some l \<Rightarrow> l | None \<Rightarrow> r)
         in if latest \<noteq> None \<and> ar_started_at r1 \<noteq> None then Inr (s, PollGiveUp)
            else ebind (mark_aborted cfg now r1 ''abort_while_queued'' s) (\<lambda>s1.
              Inr (s1\<lparr>ry_store := remove_from_session_queue (ar_session_id r1) (ar_run_id r1) (ry_store s1)\<rparr>,
                   PollGiveUp)))
      else (case claim_session_turn (rc_lease_seconds cfg) now (ar_session_id r) (ar_run_id r) token (ry_store s) of
          (st, True) \<Rightarrow>
            Inr (s\<lparr>ry_store := st\<rparr>, PollClaimed (r\<lparr>ar_queue_wait_ms := Some ((now - started) div 1000)\<rparr>))
        | (st, False) \<Rightarrow>
            (case store_get (ar_run_id r) st of
               Some latest \<Rightarrow>
                 if ar_status latest \<in> set TERMINAL_AGENT_RUN_STATUSES
                 then Inr (s\<lparr>ry_store := remove_from_session_queue (ar_session_id r) (ar_run_id r) st\<rparr>, PollGiveUp)
                 else Inr (s\<lparr>ry_store := st\<rparr>, PollSleep)
             | None \<Rightarrow>
                 Inr (s\<lparr>ry_store := remove_from_session_queue (ar_session_id r) (ar_run_id r) st\<rparr>, PollGiveUp))))"

text \<open>
  The start of \<open>execute_agent_run\<close>: what a delivered task finds. \<open>ExecIgnored\<close>: nothing to do,
  \<open>ExecAborted\<close>: the abort intent was carried out, \<open>ExecWaiting\<close>: the record waits for its turn.
\<close>

datatype exec_entry = ExecIgnored | ExecAborted | ExecWaiting agent_run_record

definition load_agent_run :: "run_cfg \<Rightarrow> string \<Rightarrow> run_sys \<Rightarrow> run_sys \<times> agent_run_record option" where
  "load_agent_run cfg run_id s =
     (case store_get run_id (ry_store s) of
        Some r \<Rightarrow> (s, Some r)
      | None \<Rightarrow> (case get_durable_run run_id (ry_runs s) of
          None \<Rightarrow> (s, None)
        | Some durable \<Rightarrow>
            let r = durable_run_to_record durable
            in if ar_status r \<notin> set TERMINAL_AGENT_RUN_STATUSES
               then (case create_or_get_and_enqueue (rc_digest cfg) r (ry_store s) of
                   (st, r', created) \<Rightarrow> (s\<lparr>ry_store := st\<rparr>, Some r'))
               else (s, Some r)))"

definition enter_agent_run :: "run_cfg \<Rightarrow> instant \<Rightarrow> string \<Rightarrow> run_sys \<Rightarrow> (run_sys \<times> exec_entry) result" where
  "enter_agent_run cfg now run_id s =
     (case load_agent_run cfg run_id s of
        (s1, None) \<Rightarrow> Inr (s1, ExecIgnored)
      | (s1, Some r) \<Rightarrow>
          if ar_status r \<in> set TERMINAL_AGENT_RUN_STATUSES then Inr (s1, ExecIgnored)
          else if ar_status r = ABORTING then
            ebind (mark_aborted cfg now r ''recovered_abort_intent'' s1) (\<lambda>s2.
              Inr (s2\<lparr>ry_store := remove_from_session_queue (ar_session_id r) (ar_run_id r) (ry_store s2)\<rparr>,
                   ExecAborted))
          else Inr (s1, ExecWaiting r))"

text \<open>After the turn is claimed: a last look at the abort flag, then the attempt is counted and saved.\<close>

definition begin_agent_run ::
  "run_cfg \<Rightarrow> instant \<Rightarrow> string \<Rightarrow> agent_run_record \<Rightarrow> run_sys \<Rightarrow> (run_sys \<times> agent_run_record option) result" where
  "begin_agent_run cfg now token r s =
     (if is_abort_requested (ar_run_id r) (ry_store s) then
        ebind (mark_aborted cfg now r ''abort_before_start'' s) (\<lambda>s1.
          Inr (s1\<lparr>ry_store := release_session_turn (ar_session_id r) (ar_run_id r) token (ry_store s1)\<rparr>, None))
      else let r1 = r\<lparr>ar_status := RUN_RUNNING, ar_attempt_count := ar_attempt_count r + 1,
                     ar_started_at := Some now\<rparr>
           in Inr (save_record cfg now r1 True [] s, Some r1))"

definition final_status_of :: "agent_event list \<Rightarrow> agent_run_status option" where
  "final_status_of events =
     foldl (\<lambda>final e. if ae_name e = EV_ANSWER_COMPLETED then Some COMPLETED
        else if ae_name e = EV_RUN_FAILED then Some RUN_FAILED
        else if ae_name e = EV_RUN_CANCELLED then Some ABORTED else final) None events"

definition answer_of :: "agent_event list \<Rightarrow> string" where
  "answer_of events = concat (map ae_content (filter (\<lambda>e. ae_type e = ASSISTANT) events))"

text \<open>
  How the answer stream ended: with its events, or interrupted by the user's abort, by the loss of the
  lease, by a cancellation from the runtime (re-raised after the final save), or by an exception.
\<close>

datatype stream_end =
    StreamDone
  | StreamAborted
  | StreamLeaseLost
  | StreamCancelled
  | StreamRaised py_error

definition stream_outcome :: "agent_event list \<Rightarrow> stream_end \<Rightarrow> agent_run_status \<times> string option" where
  "stream_outcome events ending =
     (case ending of
        StreamDone \<Rightarrow> (case final_status_of events of
            Some st \<Rightarrow> (st, None)
          | None \<Rightarrow> (RUN_FAILED, Some ''agent run ended without a terminal event''))
      | StreamAborted \<Rightarrow> (ABORTED, None)
      | StreamLeaseLost \<Rightarrow> (RUN_FAILED, Some ''agent run lost its session lease'')
      | StreamCancelled \<Rightarrow> (case final_status_of events of Some st \<Rightarrow> st | None \<Rightarrow> RUN_FAILED, None)
      | StreamRaised e \<Rightarrow> (RUN_FAILED, Some (error_text e)))"

definition ending_events :: "instant \<Rightarrow> (py_error \<Rightarrow> string) \<Rightarrow> stream_end \<Rightarrow> agent_event list" where
  "ending_events now type_name ending =
     (case ending of
        StreamDone \<Rightarrow> []
      | StreamCancelled \<Rightarrow> []
      | StreamAborted \<Rightarrow> [event_lifecycle now ''aborted'' [(''reason'', JStr ''abort_during_execution''),
          (''loop_index'', JInt 0), (''loop_reason'', JStr ''abort_during_execution'')]]
      | StreamLeaseLost \<Rightarrow>
          [event_error now ''Agent run lost its session lease.'' [(''error_type'', JStr ''SessionLeaseLost''),
             (''loop_index'', JInt 0), (''loop_reason'', JStr ''session_lease_lost'')],
           event_lifecycle now ''error'' [(''reason'', JStr ''session_lease_lost''), (''loop_index'', JInt 0),
             (''loop_reason'', JStr ''session_lease_lost'')]]
      | StreamRaised e \<Rightarrow>
          [event_error now ''Agent run failed.'' [(''error_type'', JStr (type_name e)),
             (''loop_index'', JInt 0), (''loop_reason'', JStr ''background_execution_error'')],
           event_lifecycle now ''error'' [(''reason'', JStr ''background_execution_error''), (''loop_index'', JInt 0),
             (''loop_reason'', JStr ''background_execution_error'')]])"

text \<open>
  The stream's events are appended as they come; an append that raises ends the stream with that exception, and what was
  stored before decides the answer. The error of the record starts from its stored value, which only the
  failing endings overwrite. Then, in any case, the turn is released and the latest record saved. A
  cancellation is raised again after that, as is an exception of the last events.
\<close>

datatype worker_exit = WorkerReturned | WorkerCancelled | WorkerRaised py_error

text \<open>The state, the events that were stored, and the exception that stopped the appending.\<close>

fun append_events ::
  "run_cfg \<Rightarrow> instant \<Rightarrow> string \<Rightarrow> agent_event list \<Rightarrow> run_sys \<Rightarrow> run_sys \<times> agent_event list \<times> py_error option" where
  "append_events cfg now run_id [] s = (s, [], None)"
| "append_events cfg now run_id (e # es) s =
     (case append_run_event cfg now run_id e s of
        Inl err \<Rightarrow> (s, [], Some err)
      | Inr s1 \<Rightarrow> (case append_events cfg now run_id es s1 of (s2, kept, failed) \<Rightarrow> (s2, e # kept, failed)))"

definition finish_agent_run ::
  "run_cfg \<Rightarrow> instant \<Rightarrow> (py_error \<Rightarrow> string) \<Rightarrow> string \<Rightarrow> agent_run_record \<Rightarrow> agent_event list \<Rightarrow> stream_end
   \<Rightarrow> run_sys \<Rightarrow> run_sys \<times> worker_exit" where
  "finish_agent_run cfg now type_name token r events ending s =
     (let (s1, stored, failed) = append_events cfg now (ar_run_id r) events s;
          ended = (case failed of None \<Rightarrow> ending | Some e \<Rightarrow> StreamRaised e);
          (s2, _, failed_again) = append_events cfg now (ar_run_id r) (ending_events now type_name ended) s1;
          (status, err) = stream_outcome stored ended;
          err' = (case ended of
             StreamDone \<Rightarrow> (if final_status_of stored = None then err else ar_error r)
           | StreamCancelled \<Rightarrow> ar_error r
           | _ \<Rightarrow> err);
          s3 = s2\<lparr>ry_store := release_session_turn (ar_session_id r) (ar_run_id r) token (ry_store s2)\<rparr>
      in (case store_get (ar_run_id r) (ry_store s3) of
            None \<Rightarrow> s3
          | Some latest \<Rightarrow> save_record cfg now
              (latest\<lparr>ar_status := status, ar_error := err', ar_completed_at := Some now\<rparr>) False (answer_of stored) s3,
          case failed_again of
            Some e \<Rightarrow> WorkerRaised e
          | None \<Rightarrow> if ended = StreamCancelled then WorkerCancelled else WorkerReturned))"

subsection \<open>Abort and control requests (memoria/api/runs.py)\<close>

definition require_owned_run :: "string \<Rightarrow> int \<Rightarrow> run_sys \<Rightarrow> agent_run_record result" where
  "require_owned_run run_id user_id s =
     ebind
       (case store_get run_id (ry_store s) of
          Some r \<Rightarrow> Inr r
        | None \<Rightarrow> (case get_durable_run run_id (ry_runs s) of
            None \<Rightarrow> Inl (BusinessException ''agent run not found'' 4051 404)
          | Some durable \<Rightarrow> Inr (durable_run_to_record durable)))
       (\<lambda>r. if ar_user_id r \<noteq> user_id
            then Inl (BusinessException ''agent run does not belong to current user'' 4052 403) else Inr r)"

definition request_run_abort ::
  "run_cfg \<Rightarrow> instant \<Rightarrow> agent_run_record \<Rightarrow> run_sys \<Rightarrow> (run_sys \<times> agent_run_record) result" where
  "request_run_abort cfg now r s =
     (if ar_status r \<in> set TERMINAL_AGENT_RUN_STATUSES then Inr (s, r)
      else let was_queued = (ar_started_at r = None);
               (st, transitioned) = transition_to_aborting (ar_run_id r) (ry_store s);
               r1 = (case transitioned of Some t \<Rightarrow> t | None \<Rightarrow> r\<lparr>ar_status := ABORTING\<rparr>);
               s1 = s\<lparr>ry_store := st\<rparr>
           in ebind
             (if was_queued then
                let r2 = r1\<lparr>ar_status := ABORTED, ar_completed_at := Some now\<rparr>;
                    s2 = s1\<lparr>ry_store := remove_from_session_queue (ar_session_id r2) (ar_run_id r2)
                       (store_save r2 (ry_store s1))\<rparr>
                in ebind
                  (append_run_event cfg now (ar_run_id r2)
                    (event_rag_progress now EV_RUN_CANCELLED ''cancelled'' (Some (ar_run_id r2))
                      [(''loop_index'', JInt 0), (''loop_reason'', JStr ''abort_while_queued'')]) s2)
                  (\<lambda>s3. Inr (s3, case store_get (ar_run_id r2) (ry_store s3) of Some l \<Rightarrow> l | None \<Rightarrow> r2))
              else Inr (s1, r1))
             (\<lambda>(s4, r4). Inr (s4\<lparr>ry_runs := save_durable_run now r4 False (ry_runs s4)\<rparr>, r4)))"

subsection \<open>Heartbeat dispatch (memoria/automation/service.py, memoria/tasks/heartbeats.py)\<close>

definition set_job :: "heartbeat_job \<Rightarrow> run_sys \<Rightarrow> run_sys" where
  "set_job job s = s\<lparr>ry_jobs := update_where (\<lambda>j. hb_id j = hb_id job) (\<lambda>_. job) (ry_jobs s)\<rparr>"

text \<open>The session of a heartbeat is created in the chat tables, outside this state; its id is \<open>sid\<close>.\<close>

definition ensure_heartbeat_session :: "string \<Rightarrow> heartbeat_job \<Rightarrow> heartbeat_job \<times> string" where
  "ensure_heartbeat_session sid job =
     (if truthy (hb_session_id job) then (job, the (hb_session_id job))
      else (job\<lparr>hb_session_id := Some (''heartbeat_chat_'' @ take 16 sid)\<rparr>, ''heartbeat_chat_'' @ take 16 sid))"

definition dispatch_heartbeat_job ::
  "run_cfg \<Rightarrow> (string \<Rightarrow> instant \<Rightarrow> string) \<Rightarrow> instant \<Rightarrow> string \<Rightarrow> heartbeat_job \<Rightarrow> string \<Rightarrow> bool \<Rightarrow> run_sys
   \<Rightarrow> (run_sys \<times> agent_run_record option) result" where
  "dispatch_heartbeat_job cfg local_time now uid job occurrence force s =
     (if \<not> hb_enabled job \<or> (\<not> force \<and> \<not> heartbeat_is_active local_time now job)
      then Inr (set_job (job\<lparr>hb_last_status :=
             Some (if hb_enabled job then ''outside_active_hours'' else ''disabled'')\<rparr>) s, None)
      else let (job1, session_id) = ensure_heartbeat_session uid job;
               r = create_run_record now uid (''run_'' @ uid) session_id (hb_user_id job)
                 (take 128 (''heartbeat:'' @ hb_id job @ '':'' @ occurrence)) (hb_prompt job)
                 (if hb_light_context job then 4 else 8) (hb_answer_mode job) ''single'' ''heartbeat''
                 (Some (hb_id job)) (rc_max_attempts cfg)
           in ebind (submit_agent_run cfg now r (set_job job1 s)) (\<lambda>(s1, submitted, created, published).
                Inr (set_job (job1\<lparr>hb_last_run_id := Some (ar_run_id submitted), hb_last_status := Some ''queued''\<rparr>) s1,
                     Some submitted)))"

text \<open>\<open>uid i\<close> makes the fresh ids of the dispatch of job \<open>i\<close>.\<close>

fun dispatch_jobs ::
  "run_cfg \<Rightarrow> (string \<Rightarrow> instant \<Rightarrow> string) \<Rightarrow> instant \<Rightarrow> (string \<Rightarrow> string) \<Rightarrow> string list \<Rightarrow> run_sys
   \<Rightarrow> (run_sys \<times> nat) result" where
  "dispatch_jobs cfg local_time now uid [] s = Inr (s, 0)"
| "dispatch_jobs cfg local_time now uid (i # is) s =
     (case get_heartbeat_job i None (ry_jobs s) of
        None \<Rightarrow> dispatch_jobs cfg local_time now uid is s
      | Some job \<Rightarrow>
          ebind (dispatch_heartbeat_job cfg local_time now (uid i) job
              (''scheduled:'' @ py_str_int ((case hb_last_run_at job of Some t \<Rightarrow> t | None \<Rightarrow> now) div 1000000))
              False s)
            (\<lambda>(s1, run). ebind (dispatch_jobs cfg local_time now uid is s1)
              (\<lambda>(s2, n). Inr (s2, n + (if run = None then 0 else 1)))))"

definition dispatch_due_heartbeat_jobs ::
  "run_cfg \<Rightarrow> (string \<Rightarrow> instant \<Rightarrow> string) \<Rightarrow> instant \<Rightarrow> (string \<Rightarrow> string) \<Rightarrow> nat \<Rightarrow> run_sys \<Rightarrow> (run_sys \<times> nat) result" where
  "dispatch_due_heartbeat_jobs cfg local_time now uid batch s =
     (let stuck = list_stuck_heartbeat_jobs (now - seconds (rc_stale_seconds cfg)) batch (ry_jobs s);
          (jobs, claimed) = claim_due_heartbeat_jobs now batch (ry_jobs s)
      in dispatch_jobs cfg local_time now uid (uniq (map hb_id stuck @ map hb_id claimed)) (s\<lparr>ry_jobs := jobs\<rparr>))"

subsection \<open>Lemmas on the tables\<close>

lemma row_steps_id [simp]:
  "dr_run_id (exhaust_row now r) = dr_run_id r" "dr_run_id (requeue_row now r) = dr_run_id r"
  "dr_run_id (saved_row now a t r) = dr_run_id r"
  by (simp_all add: exhaust_row_def requeue_row_def saved_row_def Let_def)

lemma dr_flush_id [simp]: "dr_run_id (dr_flush now q r) = dr_run_id r"
  by (simp add: dr_flush_def)

lemma exhausted_not_stale: "\<not> run_is_stale b (exhaust_row now r)"
  by (simp add: run_is_stale_def exhaust_row_def Let_def)

lemma requeued_not_stale: "run_is_stale b r \<Longrightarrow> b' \<le> now \<Longrightarrow> \<not> run_is_stale b' (requeue_row now r)"
  by (auto simp: run_is_stale_def requeue_row_def)

lemma listed_exhausted:
  "r \<in> set (list_exhausted_runs b n db) \<Longrightarrow> r \<in> set db \<and> run_is_stale b r \<and> dr_attempt_count r \<ge> dr_max_attempts r"
  unfolding list_exhausted_runs_def
  using set_order_limit [of dr_created_at n "filter (\<lambda>r. dr_attempt_count r \<ge> dr_max_attempts r \<and> run_is_stale b r) db"]
  by auto

lemma listed_recoverable:
  "r \<in> set (list_recoverable_runs b n db) \<Longrightarrow> r \<in> set db \<and> run_is_stale b r \<and> dr_attempt_count r < dr_max_attempts r"
  unfolding list_recoverable_runs_def
  using set_order_limit [of dr_created_at n "filter (\<lambda>r. dr_attempt_count r < dr_max_attempts r \<and> run_is_stale b r) db"]
  by auto

lemma get_run_distinct:
  "distinct (map dr_run_id db) \<Longrightarrow> r \<in> set db \<Longrightarrow> get_durable_run (dr_run_id r) db = Some r"
  unfolding get_durable_run_def by (rule find_distinct_key)

text \<open>What the transaction does to one row.\<close>

lemma recover_row_cases:
  assumes "recover_runs_transaction cfg now s = (s', ex, rq)" and "distinct (map dr_run_id (ry_runs s))"
    and "get_durable_run i (ry_runs s) = Some r"
  obtains (exhausted) "i \<in> ar_run_id ` set ex" and "i \<notin> ar_run_id ` set rq" and "run_is_stale (now - seconds (rc_stale_seconds cfg)) r"
      and "dr_attempt_count r \<ge> dr_max_attempts r" and "get_durable_run i (ry_runs s') = Some (exhaust_row now r)"
    | (requeued) "i \<notin> ar_run_id ` set ex" and "i \<in> ar_run_id ` set rq" and "run_is_stale (now - seconds (rc_stale_seconds cfg)) r"
      and "dr_attempt_count r < dr_max_attempts r" and "get_durable_run i (ry_runs s') = Some (requeue_row now r)"
    | (untouched) "i \<notin> ar_run_id ` set ex" and "i \<notin> ar_run_id ` set rq" and "get_durable_run i (ry_runs s') = Some r"
proof -
  let ?b = "now - seconds (rc_stale_seconds cfg)"
  let ?ex = "list_exhausted_runs ?b (rc_batch cfg) (ry_runs s)"
  let ?runs1 = "update_where (\<lambda>r. dr_run_id r \<in> set (map dr_run_id ?ex)) (exhaust_row now) (ry_runs s)"
  let ?rq = "list_recoverable_runs ?b (rc_batch cfg) ?runs1"
  have s': "ry_runs s' = update_where (\<lambda>r. dr_run_id r \<in> set (map dr_run_id ?rq)) (requeue_row now) ?runs1"
    and ex: "ar_run_id ` set ex = dr_run_id ` set ?ex" and rq: "ar_run_id ` set rq = dr_run_id ` set ?rq"
    using assms(1) by (auto simp: recover_runs_transaction_def Let_def durable_run_to_record_def image_image)
  have id: "dr_run_id r = i" using get_runD [OF assms(3)] by simp
  have d1: "distinct (map dr_run_id ?runs1)" using assms(2) by (simp add: map_update_where)
  have g1: "get_durable_run i ?runs1 = Some (if i \<in> dr_run_id ` set ?ex then exhaust_row now r else r)"
    using assms(3) id by (simp add: get_run_update)
  have g2: "get_durable_run i (ry_runs s') =
      Some ((if i \<in> dr_run_id ` set ?rq then requeue_row now else id) (if i \<in> dr_run_id ` set ?ex then exhaust_row now r else r))"
  proof -
    have "get_durable_run i (ry_runs s') = map_option
        (\<lambda>r. if dr_run_id r \<in> set (map dr_run_id ?rq) then requeue_row now r else r) (get_durable_run i ?runs1)"
      unfolding s' by (rule get_run_update) simp
    then show ?thesis unfolding g1 using id by simp
  qed
  have exr: "run_is_stale ?b r \<and> dr_attempt_count r \<ge> dr_max_attempts r" if "i \<in> dr_run_id ` set ?ex"
  proof -
    from that obtain p where p: "p \<in> set ?ex" "dr_run_id p = i" by blast
    have "p = r" using get_run_distinct [OF assms(2), of p] listed_exhausted [OF p(1)] p(2) assms(3) by simp
    then show ?thesis using listed_exhausted [OF p(1)] by simp
  qed
  let ?r1 = "if i \<in> dr_run_id ` set ?ex then exhaust_row now r else r"
  have rqr: "run_is_stale ?b ?r1 \<and> dr_attempt_count ?r1 < dr_max_attempts ?r1" if "i \<in> dr_run_id ` set ?rq"
  proof -
    from that obtain p where p: "p \<in> set ?rq" "dr_run_id p = i" by blast
    have "Some p = Some ?r1"
      using get_run_distinct [OF d1 conjunct1 [OF listed_recoverable [OF p(1)]]] g1 unfolding p(2) by simp
    then have "p = ?r1" by (rule option.inject [THEN iffD1])
    then show ?thesis using conjunct2 [OF listed_recoverable [OF p(1)]] by (simp only:)
  qed
  define E where "E = dr_run_id ` set ?ex"
  define R where "R = dr_run_id ` set ?rq"
  have sets: "ar_run_id ` set ex = E" "ar_run_id ` set rq = R"
    unfolding E_def R_def ex rq by (rule refl)+
  note g = g2 [folded E_def R_def] and exr = exr [folded E_def] and rqr = rqr [folded E_def R_def]
  consider "i \<in> E" "i \<notin> R" | "i \<notin> E" "i \<in> R" | "i \<notin> E" "i \<notin> R"
    using rqr exhausted_not_stale by (metis (full_types))
  then show thesis
  proof cases
    case 1
    then show thesis using exr g sets by (intro exhausted) simp_all
  next
    case 2
    then show thesis using rqr g sets by (intro requeued) simp_all
  next
    case 3
    then show thesis using g sets by (intro untouched) simp_all
  qed
qed


subsection \<open>Lemmas on events and saves\<close>

text \<open>What appending an event leaves alone: everything but the log cursor of the run and its cached record.\<close>

definition same_coordination :: "run_sys \<Rightarrow> run_sys \<Rightarrow> bool" where
  "same_coordination s s' \<longleftrightarrow>
     ry_jobs s' = ry_jobs s \<and> ry_outbox s' = ry_outbox s \<and>
     rs_aborts (ry_store s') = rs_aborts (ry_store s) \<and> rs_queues (ry_store s') = rs_queues (ry_store s) \<and>
     rs_leases (ry_store s') = rs_leases (ry_store s) \<and>
     rs_request_runs (ry_store s') = rs_request_runs (ry_store s) \<and>
     map dr_run_id (ry_runs s') = map dr_run_id (ry_runs s) \<and>
     map dr_status (ry_runs s') = map dr_status (ry_runs s) \<and>
     map run_request (ry_runs s') = map run_request (ry_runs s) \<and>
     (\<forall>j. map_option (\<lambda>r. (ar_run_id r, ar_status r, ar_session_id r)) (store_get j (ry_store s')) =
          map_option (\<lambda>r. (ar_run_id r, ar_status r, ar_session_id r)) (store_get j (ry_store s)))"

lemma same_coordination_refl [simp]: "same_coordination s s"
  by (simp add: same_coordination_def)

lemma same_coordination_trans: "same_coordination s s' \<Longrightarrow> same_coordination s' s'' \<Longrightarrow> same_coordination s s''"
  by (simp add: same_coordination_def)

definition keyed_store :: "run_store \<Rightarrow> bool" where
  "keyed_store st \<longleftrightarrow> (\<forall>i r. store_get i st = Some r \<longrightarrow> ar_run_id r = i)"

lemma append_run_event_same:
  assumes "append_run_event cfg now i e s = Inr s'" and "keyed_store (ry_store s)"
  shows "same_coordination s s' \<and> keyed_store (ry_store s')"
proof -
  obtain runs rows st stored where a: "append_durable_runtime_event now (rc_fresh cfg now i) i e (ry_runs s, ry_rows s)
      = Inr ((runs, rows), stored)"
    and st: "st = (case store_get i (ry_store s) of None \<Rightarrow> ry_store s
        | Some r \<Rightarrow> store_save (r\<lparr>ar_last_event_id := Some (se_event_id stored),
            ar_last_event_sequence := the (ae_sequence (se_event stored))\<rparr>) (ry_store s))"
    and s': "s' = s\<lparr>ry_runs := runs, ry_rows := rows, ry_store := st\<rparr>"
    using assms(1) by (auto simp: append_run_event_def append_event_def split: prod.splits cong: option.case_cong)
  have "map dr_run_id runs = map dr_run_id (ry_runs s)" "map dr_status runs = map dr_status (ry_runs s)"
    "map run_request runs = map run_request (ry_runs s)"
  proof -
    obtain run :: durable_run where "runs = update_where (\<lambda>r. dr_run_id r = i)
      (\<lambda>r. r\<lparr>dr_last_event_sequence := dr_last_event_sequence run + 1,
            dr_last_event_id := Some (py_str_int (dr_last_event_sequence run + 1)), dr_updated_at := now\<rparr>) (ry_runs s)"
    proof (cases rule: append_cases [OF a])
      case (1 run row)
      then show thesis by (intro that [of run]) simp
    qed
    then show "map dr_run_id runs = map dr_run_id (ry_runs s)" "map dr_status runs = map dr_status (ry_runs s)"
      "map run_request runs = map run_request (ry_runs s)"
      by (simp_all add: map_update_where run_request_def)
  qed
  then show ?thesis
    using assms(2) unfolding s' st same_coordination_def keyed_store_def
    by (auto simp: store_save_def store_get_def split: option.splits)
qed

lemma append_events_same:
  "append_events cfg now i es s = (s', kept, failed) \<Longrightarrow> keyed_store (ry_store s) \<Longrightarrow>
   same_coordination s s' \<and> keyed_store (ry_store s')"
proof (induction es arbitrary: s kept)
  case (Cons e es)
  show ?case
  proof (cases "append_run_event cfg now i e s")
    case (Inl err)
    then show ?thesis using Cons.prems by simp
  next
    case (Inr s1)
    have a: "same_coordination s s1" "keyed_store (ry_store s1)"
      using append_run_event_same [OF Inr Cons.prems(2)] by blast+
    obtain d where "append_events cfg now i es s1 = (s', d, failed)"
      using Cons.prems(1) Inr by (auto split: prod.splits)
    from Cons.IH [OF this a(2)] show ?thesis using same_coordination_trans [OF a(1)] by blast
  qed
qed simp

lemma get_run_exists: "get_durable_run i runs \<noteq> None \<longleftrightarrow> i \<in> set (map dr_run_id runs)"
  by (auto simp: get_durable_run_def find_None_iff)

lemma append_run_event_returns:
  assumes "i \<in> set (map dr_run_id (ry_runs s))"
  shows "\<exists>s'. append_run_event cfg now i e s = Inr s'"
proof -
  obtain run where "get_durable_run i (ry_runs s) = Some run"
    using assms get_run_exists by blast
  then obtain log stored where "append_durable_runtime_event now (rc_fresh cfg now i) i e (ry_runs s, ry_rows s) = Inr (log, stored)"
    by (simp add: append_durable_runtime_event_def Let_def)
  then show ?thesis by (cases log) (simp add: append_run_event_def append_event_def)
qed

lemma append_events_complete:
  "i \<in> set (map dr_run_id (ry_runs s)) \<Longrightarrow> keyed_store (ry_store s) \<Longrightarrow>
   \<exists>s'. append_events cfg now i es s = (s', es, None)"
proof (induction es arbitrary: s)
  case (Cons e es)
  obtain s1 where 1: "append_run_event cfg now i e s = Inr s1"
    using append_run_event_returns [OF Cons.prems(1)] by blast
  have "same_coordination s s1" "keyed_store (ry_store s1)"
    using append_run_event_same [OF 1 Cons.prems(2)] by blast+
  then show ?case using Cons.IH [of s1] Cons.prems(1) 1 by (auto simp: same_coordination_def simp del: set_map)
qed simp

lemma get_run_status:
  assumes "map dr_run_id runs' = map dr_run_id runs" and "map dr_status runs' = map dr_status runs"
  shows "map_option dr_status (get_durable_run i runs') = map_option dr_status (get_durable_run i runs)"
  using assms
proof (induction runs arbitrary: runs')
  case (Cons r runs)
  then obtain r' rs where "runs' = r' # rs" "dr_run_id r' = dr_run_id r" "dr_status r' = dr_status r"
      "map dr_run_id rs = map dr_run_id runs" "map dr_status rs = map dr_status runs"
    by (cases runs') simp_all
  then show ?case using Cons.IH [of rs] by (simp add: get_durable_run_def)
qed (simp add: get_durable_run_def)

lemma save_durable_status:
  "map_option dr_status (get_durable_run (ar_run_id r) (save_durable_run now r touch db)) =
     map_option (\<lambda>_. ar_status r) (get_durable_run (ar_run_id r) db)"
proof -
  have "dr_status (dr_flush now q (saved_row now r touch q)) = ar_status r" for q
  proof -
    have "dr_status (saved_row now r touch q) = ar_status r" by (simp add: saved_row_def Let_def)
    then show ?thesis by (auto simp: dr_flush_def)
  qed
  then show ?thesis
    unfolding save_durable_run_def
    by (cases "get_durable_run (ar_run_id r) db") (auto simp: get_run_update dest: get_runD)
qed

lemma save_record_simps [simp]:
  "ry_store (save_record cfg now r touch a s) = store_save r (ry_store s)"
  "ry_runs (save_record cfg now r touch a s) = save_durable_run now r touch (ry_runs s)"
  "ry_rows (save_record cfg now r touch a s) = ry_rows s"
  by (simp_all add: save_record_def Let_def split: prod.split)

subsection \<open>Properties\<close>

definition sample_cfg :: run_cfg where
  "sample_cfg = \<lparr>rc_outbox = sample_env, rc_digest = (\<lambda>s. s), rc_fresh = (\<lambda>t i. i), rc_stale_seconds = 60,
     rc_batch = 10, rc_lease_seconds = 30, rc_max_attempts = 3\<rparr>"

definition sample_sys :: "durable_run list \<Rightarrow> run_store \<Rightarrow> run_sys" where
  "sample_sys runs st = \<lparr>ry_runs = runs, ry_rows = [], ry_jobs = [], ry_outbox = [], ry_store = st\<rparr>"

text \<open>What recovery is to look for: a run that is not finished and has shown no sign of life since the limit.\<close>

definition overdue :: "instant \<Rightarrow> durable_run \<Rightarrow> bool" where
  "overdue limit r \<longleftrightarrow> dr_status r \<notin> {COMPLETED, RUN_FAILED, ABORTED} \<and>
     (case if dr_status r = RUN_RUNNING then dr_heartbeat_at r else Some (dr_updated_at r) of
        None \<Rightarrow> True | Some seen \<Rightarrow> seen < limit)"

lemma stale_overdue: "run_is_stale limit r \<longleftrightarrow> overdue limit r"
  by (cases "dr_status r") (simp_all add: run_is_stale_def overdue_def)

text \<open>What a batch leaves out was created after what it took.\<close>

lemma order_limit_full:
  assumes "x \<in> set rows" and "x \<notin> set (order_limit k n rows)"
  shows "length (order_limit k n rows) = n \<and> (\<forall>y\<in>set (order_limit k n rows). k y \<le> k x)"
proof -
  let ?s = "sort_key k rows"
  have x: "x \<in> set (drop n ?s)"
    using assms append_take_drop_id [of n ?s] unfolding order_limit_def by (metis Un_iff set_append set_sort)
  then have "n < length ?s" by (cases "n < length ?s") auto
  moreover have "sorted (map k (take n ?s @ drop n ?s))" by simp
  then have "\<forall>y\<in>set (take n ?s). k y \<le> k x" using x unfolding map_append sorted_append by auto
  ultimately show ?thesis by (simp add: order_limit_def)
qed

lemma recovery_selects:
  assumes "recover_runs_transaction cfg now s = (s', ex, rq)" and "get_durable_run i (ry_runs s) = Some r"
    and "overdue (now - seconds (rc_stale_seconds cfg)) r" and "i \<notin> ar_run_id ` set ex" and "i \<notin> ar_run_id ` set rq"
  shows "if dr_max_attempts r \<le> dr_attempt_count r
    then length ex = rc_batch cfg \<and> (\<forall>x\<in>set ex. ar_created_at x \<le> dr_created_at r)
    else length rq = rc_batch cfg \<and> (\<forall>x\<in>set rq. ar_created_at x \<le> dr_created_at r)"
proof -
  let ?b = "now - seconds (rc_stale_seconds cfg)"
  let ?E = "filter (\<lambda>r. dr_attempt_count r \<ge> dr_max_attempts r \<and> run_is_stale ?b r) (ry_runs s)"
  let ?ex = "order_limit dr_created_at (rc_batch cfg) ?E"
  let ?runs1 = "update_where (\<lambda>r. dr_run_id r \<in> set (map dr_run_id ?ex)) (exhaust_row now) (ry_runs s)"
  let ?R = "filter (\<lambda>r. dr_attempt_count r < dr_max_attempts r \<and> run_is_stale ?b r) ?runs1"
  let ?rq = "order_limit dr_created_at (rc_batch cfg) ?R"
  have ex: "ex = map (\<lambda>r. durable_run_to_record (exhaust_row now r)) ?ex"
    and rq: "rq = map (\<lambda>r. durable_run_to_record (requeue_row now r)) ?rq"
    using assms(1) by (auto simp: recover_runs_transaction_def Let_def list_exhausted_runs_def list_recoverable_runs_def)
  have fields: "ar_run_id (durable_run_to_record (exhaust_row now q)) = dr_run_id q"
    "ar_created_at (durable_run_to_record (exhaust_row now q)) = dr_created_at q"
    "ar_run_id (durable_run_to_record (requeue_row now q)) = dr_run_id q"
    "ar_created_at (durable_run_to_record (requeue_row now q)) = dr_created_at q" for q
    by (simp_all add: durable_run_to_record_def exhaust_row_def requeue_row_def Let_def)
  have r: "r \<in> set (ry_runs s)" "dr_run_id r = i" using get_runD [OF assms(2)] by simp_all
  have stale: "run_is_stale ?b r" using assms(3) by (simp add: stale_overdue)
  have notin: "i \<notin> dr_run_id ` set ?ex" "i \<notin> dr_run_id ` set ?rq"
    using assms(4,5) unfolding ex rq by (simp_all add: image_image fields)
  show ?thesis
  proof (cases "dr_max_attempts r \<le> dr_attempt_count r")
    case True
    have "r \<in> set ?E" using r(1) True stale by simp
    moreover have "r \<notin> set ?ex" using notin(1) r(2) by blast
    ultimately have "length ?ex = rc_batch cfg \<and> (\<forall>y\<in>set ?ex. dr_created_at y \<le> dr_created_at r)" by (rule order_limit_full)
    then show ?thesis using True unfolding ex by (simp add: fields)
  next
    case False
    have "r = (if dr_run_id r \<in> set (map dr_run_id ?ex) then exhaust_row now r else r)" using notin(1) r(2) by simp
    then have "r \<in> set ?runs1" unfolding set_update_where by (rule image_eqI) (rule r(1))
    then have "r \<in> set ?R" using False stale by simp
    moreover have "r \<notin> set ?rq" using notin(2) r(2) by blast
    ultimately have "length ?rq = rc_batch cfg \<and> (\<forall>y\<in>set ?rq. dr_created_at y \<le> dr_created_at r)" by (rule order_limit_full)
    then show ?thesis using False unfolding rq by (simp add: fields)
  qed
qed

text \<open>
  C17. A recovery scan decides every overdue run, oldest first. An overdue run that is left out was not created before any
  run of its group in a full batch; only overdue runs are picked. With its attempts exhausted a picked run
  becomes terminal (aborted when an abort was pending, failed with the exhaustion error otherwise), else it
  is put back to the queue (or stays aborting); the two groups are disjoint, a picked run is not overdue again for
  any limit up to this scan's clock, and the row of every other run is unchanged.
\<close>

theorem recovery_decides_once:
  assumes "recover_runs_transaction cfg now s = (s', exhausted, requeued)"
    and "distinct (map dr_run_id (ry_runs s))" and "get_durable_run i (ry_runs s) = Some r" and "limit' \<le> now"
  shows "\<exists>r'. get_durable_run i (ry_runs s') = Some r' \<and>
    (if i \<in> ar_run_id ` set exhausted then
       i \<notin> ar_run_id ` set requeued \<and> dr_attempt_count r \<ge> dr_max_attempts r \<and>
       overdue (now - seconds (rc_stale_seconds cfg)) r \<and> \<not> overdue limit' r' \<and>
       (dr_status r', dr_error r') =
         (if dr_status r = ABORTING then (ABORTED, None) else (RUN_FAILED, Some ''agent run attempts exhausted''))
     else if i \<in> ar_run_id ` set requeued then
       dr_attempt_count r < dr_max_attempts r \<and>
       overdue (now - seconds (rc_stale_seconds cfg)) r \<and> \<not> overdue limit' r' \<and>
       dr_status r' = (if dr_status r = ABORTING then ABORTING else QUEUED)
     else r' = r \<and>
       (overdue (now - seconds (rc_stale_seconds cfg)) r \<longrightarrow>
         (if dr_max_attempts r \<le> dr_attempt_count r
          then length exhausted = rc_batch cfg \<and> (\<forall>x\<in>set exhausted. ar_created_at x \<le> dr_created_at r)
          else length requeued = rc_batch cfg \<and> (\<forall>x\<in>set requeued. ar_created_at x \<le> dr_created_at r))))"
  using assms(1-3)
proof (cases rule: recover_row_cases)
  case exhausted
  then show ?thesis by (simp add: exhausted_not_stale flip: stale_overdue) (simp add: exhaust_row_def)
next
  case requeued
  then show ?thesis using requeued_not_stale [OF requeued(3) assms(4)] by (simp flip: stale_overdue) (simp add: requeue_row_def)
next
  case untouched
  then show ?thesis using recovery_selects [OF assms(1,3)] by simp
qed

theorem recovery_decides_once_witness:
  "case recover_runs_transaction sample_cfg (seconds 100)
      (sample_sys [(sample_run ''r1'' ABORTING)\<lparr>dr_attempt_count := 3\<rparr>, sample_run ''r2'' QUEUED] empty_store) of
     (s', ex, rq) \<Rightarrow> map ar_run_id ex = [''r1''] \<and> map ar_run_id rq = [''r2''] \<and>
       (\<exists>r'. get_durable_run ''r1'' (ry_runs s') = Some r' \<and> dr_status r' = ABORTED)"
proof -
  let ?r = "(sample_run ''r1'' ABORTING)\<lparr>dr_attempt_count := 3\<rparr>"
  let ?s = "sample_sys [?r, sample_run ''r2'' QUEUED] empty_store"
  obtain s' ex rq where t: "recover_runs_transaction sample_cfg (seconds 100) ?s = (s', ex, rq)"
    by (metis prod_cases3)
  have g: "get_durable_run ''r1'' (ry_runs ?s) = Some ?r"
    by (simp add: sample_sys_def get_durable_run_def sample_run_def)
  have "map ar_run_id (fst (snd (recover_runs_transaction sample_cfg (seconds 100) ?s))) = [''r1'']"
    "map ar_run_id (snd (snd (recover_runs_transaction sample_cfg (seconds 100) ?s))) = [''r2'']" by code_simp+
  then have picks: "map ar_run_id ex = [''r1'']" "map ar_run_id rq = [''r2'']" by (simp_all add: t)
  then have i: "''r1'' \<in> ar_run_id ` set ex" by (cases ex) auto
  have "distinct (map dr_run_id (ry_runs ?s))" by (simp add: sample_sys_def sample_run_def)
  from recovery_decides_once [OF t this g, of "seconds 50"] i
  have "\<exists>r'. get_durable_run ''r1'' (ry_runs s') = Some r' \<and> dr_status r' = ABORTED"
    by (auto simp: sample_run_def seconds_def)
  then show ?thesis using t picks by simp
qed

text \<open>The outcome, from the last event of the stream that ends a run.\<close>

definition ends_run :: "agent_event \<Rightarrow> bool" where
  "ends_run e \<longleftrightarrow> ae_name e \<in> {EV_ANSWER_COMPLETED, EV_RUN_FAILED, EV_RUN_CANCELLED}"

lemma final_status_last:
  "final_status_of events = (let ends = filter ends_run events in if ends = [] then None
     else Some (if ae_name (last ends) = EV_ANSWER_COMPLETED then COMPLETED
       else if ae_name (last ends) = EV_RUN_CANCELLED then ABORTED else RUN_FAILED))"
  unfolding final_status_of_def
  by (induction events rule: rev_induct) (auto simp: ends_run_def Let_def)

lemma outcome_explicit:
  "fst (stream_outcome events ending) = (case ending of
     StreamAborted \<Rightarrow> ABORTED | StreamLeaseLost \<Rightarrow> RUN_FAILED | StreamRaised _ \<Rightarrow> RUN_FAILED
   | _ \<Rightarrow> (let ends = filter (\<lambda>e. ae_name e \<in> {EV_ANSWER_COMPLETED, EV_RUN_FAILED, EV_RUN_CANCELLED}) events in
       if ends = [] then RUN_FAILED else if ae_name (last ends) = EV_ANSWER_COMPLETED then COMPLETED
       else if ae_name (last ends) = EV_RUN_CANCELLED then ABORTED else RUN_FAILED))"
  using final_status_last [of events] unfolding ends_run_def
  by (auto simp: stream_outcome_def Let_def split: stream_end.split)

definition stored_as :: "instant \<Rightarrow> string \<Rightarrow> agent_event \<Rightarrow> runtime_event_row \<Rightarrow> bool" where
  "stored_as now i e row \<longleftrightarrow> re_run_id row = i \<and>
     re_payload row = e\<lparr>ae_run_id := Some i, ae_sequence := re_sequence row, ae_created_at := now\<rparr>"

lemma append_run_event_stored:
  "append_run_event cfg now i e s = Inr s' \<Longrightarrow> \<exists>row. ry_rows s' = ry_rows s @ [row] \<and> stored_as now i e row"
  by (auto simp: append_run_event_def append_event_def append_durable_runtime_event_def Let_def with_delivery_def stored_as_def split: option.splits)

lemma append_events_stored:
  "append_events cfg now i es s = (s', kept, failed) \<Longrightarrow> \<exists>new. ry_rows s' = ry_rows s @ new \<and> list_all2 (stored_as now i) kept new"
proof (induction es arbitrary: s kept)
  case (Cons e es)
  show ?case
  proof (cases "append_run_event cfg now i e s")
    case (Inr s1)
    obtain d where d: "append_events cfg now i es s1 = (s', d, failed)" "kept = e # d"
      using Cons.prems Inr by (auto split: prod.splits)
    obtain row where row: "ry_rows s1 = ry_rows s @ [row]" "stored_as now i e row" using append_run_event_stored [OF Inr] by blast
    obtain new where "ry_rows s' = ry_rows s1 @ new" "list_all2 (stored_as now i) d new" using Cons.IH [OF d(1)] by blast
    then show ?thesis using row d(2) by (intro exI [of _ "row # new"]) simp
  qed (use Cons.prems in simp)
qed simp

text \<open>
  C19. What a finished worker leaves behind: for a run with a durable row and a cached record, when the answer
  stream has ended, in whatever way, its events and those of the ending are appended to the log in order, and the
  cached and the durable record both carry the terminal status: aborted after the user's abort, failed after a lost lease
  or an exception, otherwise what the last completed, failed or cancelled event says, and failed without one.
  Unless the lease meanwhile belongs to another token, it is gone and the run has left the session's queue;
  another worker's lease and the queue are not touched. The worker returns, or raises the cancellation again when it
  was cancelled by the runtime.
\<close>

theorem finished_run_terminal:
  assumes "get_durable_run (ar_run_id r) (ry_runs s) = Some durable"
    and "keyed_store (ry_store s)" and "store_get (ar_run_id r) (ry_store s) = Some cached"
  shows "\<exists>s'. finish_agent_run cfg now type_name token r events ending s =
        (s', if ending = StreamCancelled then WorkerCancelled else WorkerReturned) \<and>
      (let st = (case ending of
          StreamAborted \<Rightarrow> ABORTED | StreamLeaseLost \<Rightarrow> RUN_FAILED | StreamRaised _ \<Rightarrow> RUN_FAILED
        | _ \<Rightarrow> (let ends = filter (\<lambda>e. ae_name e \<in> {EV_ANSWER_COMPLETED, EV_RUN_FAILED, EV_RUN_CANCELLED}) events in
            if ends = [] then RUN_FAILED else if ae_name (last ends) = EV_ANSWER_COMPLETED then COMPLETED
            else if ae_name (last ends) = EV_RUN_CANCELLED then ABORTED else RUN_FAILED)) in
      map_option ar_status (store_get (ar_run_id r) (ry_store s')) = Some st \<and>
      map_option dr_status (get_durable_run (ar_run_id r) (ry_runs s')) = Some st \<and>
      (\<exists>new. ry_rows s' = ry_rows s @ new \<and> list_all2 (\<lambda>e row. re_run_id row = ar_run_id r \<and>
         re_payload row = e\<lparr>ae_run_id := Some (ar_run_id r), ae_sequence := re_sequence row, ae_created_at := now\<rparr>)
         (events @ ending_events now type_name ending) new) \<and>
      (if \<exists>other expires. rs_leases (ry_store s) (ar_session_id r) = Some (other, expires) \<and> other \<noteq> token
       then rs_leases (ry_store s') = rs_leases (ry_store s) \<and> rs_queues (ry_store s') = rs_queues (ry_store s)
       else rs_leases (ry_store s') = (rs_leases (ry_store s))(ar_session_id r := None) \<and>
         rs_queues (ry_store s') = (rs_queues (ry_store s))(ar_session_id r :=
           remove1 (ar_run_id r) (rs_queues (ry_store s) (ar_session_id r)))))"
proof -
  let ?i = "ar_run_id r" and ?st = "fst (stream_outcome events ending)"
  have i: "?i \<in> set (map dr_run_id (ry_runs s))" using assms(1) get_run_exists by (metis option.discI)
  obtain s1 where 1: "append_events cfg now ?i events s = (s1, events, None)"
    using append_events_complete [OF i assms(2)] by blast
  have same1: "same_coordination s s1" and keyed1: "keyed_store (ry_store s1)"
    using append_events_same [OF 1 assms(2)] by blast+
  have i1: "?i \<in> set (map dr_run_id (ry_runs s1))" using same1 i by (simp add: same_coordination_def del: set_map)
  obtain s2 where 2: "append_events cfg now ?i (ending_events now type_name ending) s1 = (s2, ending_events now type_name ending, None)"
    using append_events_complete [OF i1 keyed1] by blast
  have "same_coordination s1 s2" and keyed: "keyed_store (ry_store s2)"
    using append_events_same [OF 2 keyed1] by blast+
  then have same: "same_coordination s s2" using same_coordination_trans [OF same1] by blast
  have rows: "\<exists>new. ry_rows s2 = ry_rows s @ new \<and> list_all2 (stored_as now ?i) (events @ ending_events now type_name ending) new"
    using append_events_stored [OF 1] append_events_stored [OF 2] by (auto intro: list_all2_appendI)
  obtain latest where latest: "store_get ?i (ry_store s2) = Some latest"
    using same assms(3) by (cases "store_get ?i (ry_store s2)") (auto simp: same_coordination_def dest!: spec [of _ ?i])
  have id: "ar_run_id latest = ?i" using keyed latest by (simp add: keyed_store_def)
  let ?st2 = "release_session_turn (ar_session_id r) ?i token (ry_store s2)"
  have get2: "store_get j ?st2 = store_get j (ry_store s2)" for j
    by (auto simp: release_session_turn_def remove_from_session_queue_def store_get_def split: option.split)
  obtain err s' where fin: "finish_agent_run cfg now type_name token r events ending s =
        (s', if ending = StreamCancelled then WorkerCancelled else WorkerReturned)"
    and s': "s' = save_record cfg now (latest\<lparr>ar_status := ?st, ar_error := err, ar_completed_at := Some now\<rparr>) False
      (answer_of events) (s2\<lparr>ry_store := ?st2\<rparr>)"
    using 1 2 latest get2 by (simp add: finish_agent_run_def Let_def split_beta)
  have "map_option dr_status (get_durable_run ?i (ry_runs s')) = map_option (\<lambda>_. ?st) (get_durable_run ?i (ry_runs s2))"
    using save_durable_status [of "latest\<lparr>ar_status := ?st, ar_error := err, ar_completed_at := Some now\<rparr>" now False "ry_runs s2"] id
    by (simp add: s')
  also have "\<dots> = Some ?st"
    using get_run_status [of "ry_runs s2" "ry_runs s" ?i] same assms(1)
    by (cases "get_durable_run ?i (ry_runs s2)") (auto simp: same_coordination_def)
  finally have durable: "map_option dr_status (get_durable_run ?i (ry_runs s')) = Some ?st" .
  have store: "ry_store s' = store_save (latest\<lparr>ar_status := ?st, ar_error := err, ar_completed_at := Some now\<rparr>) ?st2"
    and "ry_rows s' = ry_rows s2" by (simp_all add: s')
  moreover have "map_option ar_status (store_get ?i (ry_store s')) = Some ?st" using id by (simp add: store store_save_def store_get_def)
  moreover have "if \<exists>other expires. rs_leases (ry_store s) (ar_session_id r) = Some (other, expires) \<and> other \<noteq> token
       then rs_leases (ry_store s') = rs_leases (ry_store s) \<and> rs_queues (ry_store s') = rs_queues (ry_store s)
       else rs_leases (ry_store s') = (rs_leases (ry_store s))(ar_session_id r := None) \<and>
         rs_queues (ry_store s') = (rs_queues (ry_store s))(ar_session_id r := remove1 ?i (rs_queues (ry_store s) (ar_session_id r)))"
    using same unfolding store same_coordination_def
    by (auto simp: store_save_def release_session_turn_def remove_from_session_queue_def fun_eq_iff split: option.splits if_splits)
  ultimately show ?thesis
    using fin durable rows unfolding outcome_explicit [symmetric] stored_as_def [abs_def] by (auto simp: Let_def)
qed

theorem finished_run_terminal_witness:
  "\<exists>s'. finish_agent_run sample_cfg 9 (\<lambda>_. ''E'') ''a'' (sample_record ''r1'') [] StreamCancelled
      (sample_sys [sample_run ''r1'' RUN_RUNNING]
        ((store_create (sample_record ''r1'') empty_store)\<lparr>rs_leases := [''s1'' \<mapsto> (''a'', 99)]\<rparr>)) = (s', WorkerCancelled) \<and>
     map_option ar_status (store_get ''r1'' (ry_store s')) = Some RUN_FAILED \<and> rs_leases (ry_store s') ''s1'' = None"
proof -
  let ?st = "(store_create (sample_record ''r1'') empty_store)\<lparr>rs_leases := [''s1'' \<mapsto> (''a'', 99)]\<rparr>"
  let ?s = "sample_sys [sample_run ''r1'' RUN_RUNNING] ?st"
  have rid: "ar_run_id (sample_record ''r1'') = ''r1''" "ar_session_id (sample_record ''r1'') = ''s1''"
    by (simp_all add: sample_record_def create_run_record_def)
  have "get_durable_run (ar_run_id (sample_record ''r1'')) (ry_runs ?s) = Some (sample_run ''r1'' RUN_RUNNING)"
    "keyed_store (ry_store ?s)" "store_get (ar_run_id (sample_record ''r1'')) (ry_store ?s) = Some (sample_record ''r1'')"
    by (auto simp: keyed_store_def store_get_def store_create_def sample_sys_def empty_store_def rid
        get_durable_run_def sample_run_def split: if_splits)
  from finished_run_terminal [OF this, of sample_cfg 9 "\<lambda>_. ''E''" "''a''" "[]" StreamCancelled] show ?thesis
    by (auto simp: rid Let_def sample_sys_def)
qed

text \<open>
  C20. An abort that is carried out before the run starts is not persisted: the ABORTED status is set on the
  worker's copy, but what is saved afterwards is the record read back from the store, so both the cached
  and the durable record keep the status the cached one had (aborting, for a recovered abort).
\<close>

theorem mark_aborted_status_lost:
  assumes "mark_aborted cfg now r reason s = Inr s'" and "keyed_store (ry_store s)"
    and "store_get (ar_run_id r) (ry_store s) = Some cached"
  shows "map_option ar_status (store_get (ar_run_id r) (ry_store s')) = Some (ar_status cached) \<and>
    map_option dr_status (get_durable_run (ar_run_id r) (ry_runs s')) =
      map_option (\<lambda>_. ar_status cached) (get_durable_run (ar_run_id r) (ry_runs s))"
proof -
  obtain s1 where a: "append_run_event cfg now (ar_run_id r)
      (event_lifecycle now ''aborted'' [(''loop_index'', JInt 0), (''loop_reason'', JStr reason)]) s = Inr s1"
    using assms(1) by (auto simp: mark_aborted_def Let_def)
  have same: "same_coordination s s1" and keyed: "keyed_store (ry_store s1)"
    using append_run_event_same [OF a assms(2)] by blast+
  obtain latest where latest: "store_get (ar_run_id r) (ry_store s1) = Some latest" "ar_status latest = ar_status cached"
    using same assms(3) unfolding same_coordination_def
    by (cases "store_get (ar_run_id r) (ry_store s1)") (auto dest!: spec [of _ "ar_run_id r"])
  have id: "ar_run_id latest = ar_run_id r" using keyed latest by (simp add: keyed_store_def)
  have s': "s' = save_record cfg now latest False [] s1"
    using assms(1) a latest by (simp add: mark_aborted_def Let_def)
  show ?thesis
    using save_durable_status [of latest now False "ry_runs s1"] id latest(2) same
      get_run_status [of "ry_runs s1" "ry_runs s" "ar_run_id r"]
    by (cases "get_durable_run (ar_run_id r) (ry_runs s1)"; cases "get_durable_run (ar_run_id r) (ry_runs s)")
      (auto simp: s' store_save_def store_get_def same_coordination_def)
qed


lemma mark_aborted_returns:
  "ar_run_id r \<in> set (map dr_run_id (ry_runs s)) \<Longrightarrow> \<exists>s'. mark_aborted cfg now r reason s = Inr s'"
  using append_run_event_returns [of "ar_run_id r" s cfg now] by (fastforce simp: mark_aborted_def Let_def)

theorem mark_aborted_status_lost_witness:
  "\<exists>s'. mark_aborted sample_cfg 9 ((sample_record ''r1'')\<lparr>ar_status := ABORTING\<rparr>) ''recovered_abort_intent''
       (sample_sys [sample_run ''r1'' ABORTING] (store_create ((sample_record ''r1'')\<lparr>ar_status := ABORTING\<rparr>) empty_store)) = Inr s' \<and>
     map_option ar_status (store_get ''r1'' (ry_store s')) = Some ABORTING \<and>
     map_option dr_status (get_durable_run ''r1'' (ry_runs s')) = Some ABORTING"
proof -
  let ?r = "(sample_record ''r1'')\<lparr>ar_status := ABORTING\<rparr>"
  let ?s = "sample_sys [sample_run ''r1'' ABORTING] (store_create ?r empty_store)"
  have rid: "ar_run_id ?r = ''r1''" by (simp add: sample_record_def create_run_record_def)
  obtain s' where m: "mark_aborted sample_cfg 9 ?r ''recovered_abort_intent'' ?s = Inr s'"
  proof -
    have "ar_run_id ?r \<in> set (map dr_run_id (ry_runs ?s))"
      by (simp add: rid) (simp add: sample_sys_def sample_run_def)
    from mark_aborted_returns [OF this] that show thesis by blast
  qed
  have "keyed_store (ry_store ?s)" "store_get (ar_run_id ?r) (ry_store ?s) = Some ?r"
    by (auto simp: keyed_store_def store_get_def store_create_def sample_sys_def empty_store_def
        sample_record_def create_run_record_def split: if_splits)
  from mark_aborted_status_lost [OF m this] m rid show ?thesis
    by (auto simp: sample_sys_def get_durable_run_def sample_run_def)
qed

text \<open>
  Heartbeats are claimed once: a claim takes only enabled jobs that are due, within the batch limit,
  each claimed job is stamped with the time and moved a period ahead, so that it is not due again at that
  time; jobs that were not claimed are unchanged.
\<close>

theorem heartbeat_claim_once:
  assumes "claim_due_heartbeat_jobs now batch db = (db', claimed)" and "distinct (map hb_id db)"
    and "j \<in> set db" and "0 < hb_every_seconds j"
  shows "length claimed \<le> batch \<and>
    (\<exists>j'. get_heartbeat_job (hb_id j) None db' = Some j' \<and>
      (if hb_id j \<in> hb_id ` set claimed
       then hb_enabled j \<and> hb_next_run_at j \<le> now \<and> hb_last_run_at j' = Some now \<and>
            hb_next_run_at j' = now + seconds (hb_every_seconds j) \<and> \<not> hb_next_run_at j' \<le> now
       else j' = j))"
proof -
  let ?P = "\<lambda>j. hb_enabled j \<and> hb_next_run_at j \<le> now"
  let ?picked = "order_limit hb_next_run_at batch (filter ?P db)"
  have db': "db' = update_where (\<lambda>j. hb_id j \<in> set (map hb_id ?picked)) (claim_job now) db"
    and claimed: "claimed = map (claim_job now) ?picked"
    using assms(1) by (auto simp: claim_due_heartbeat_jobs_def Let_def)
  have ids: "hb_id ` set claimed = hb_id ` set ?picked"
    by (simp add: claimed image_image claim_job_def)
  have get: "get_heartbeat_job (hb_id j) None db = Some j"
    using find_distinct_key [OF assms(2,3)] by (simp add: get_heartbeat_job_def)
  have get': "get_heartbeat_job (hb_id j) None db' = Some (if hb_id j \<in> hb_id ` set ?picked then claim_job now j else j)"
  proof -
    have "get_heartbeat_job (hb_id j) None db' =
        map_option (\<lambda>r. if hb_id r \<in> set (map hb_id ?picked) then claim_job now r else r) (get_heartbeat_job (hb_id j) None db)"
      unfolding get_heartbeat_job_def db' by (rule find_update_where) (simp add: claim_job_def)
    then show ?thesis by (simp add: get)
  qed
  have due: "?P j" if "hb_id j \<in> hb_id ` set ?picked"
  proof -
    from that obtain p where "p \<in> set ?picked" "hb_id p = hb_id j" by auto
    moreover have "p \<in> set db \<and> ?P p" using set_order_limit [of hb_next_run_at batch "filter ?P db"] calculation by auto
    ultimately show ?thesis using distinct_key_unique [OF assms(2) _ assms(3)] by metis
  qed
  have "length claimed \<le> batch" by (simp add: claimed length_order_limit)
  moreover have "0 < seconds (hb_every_seconds j)" using assms(4) by simp
  ultimately show ?thesis
    using get' due unfolding ids by (simp add: claim_job_def)
qed

definition sample_job :: "string \<Rightarrow> instant \<Rightarrow> heartbeat_job" where
  "sample_job i due =
     \<lparr>hb_id = i, hb_user_id = 7, hb_name = ''n'', hb_prompt = ''p'', hb_answer_mode = ''general_chat'',
      hb_knowledge_base_id = None, hb_session_id = None, hb_enabled = True, hb_every_seconds = 3600,
      hb_active_timezone = ''UTC'', hb_active_start = ''22:00'', hb_active_end = ''06:00'',
      hb_isolated_session = True, hb_light_context = True, hb_silent_success = True, hb_event_types = [],
      hb_next_run_at = due, hb_last_run_at = None, hb_last_run_id = None, hb_last_status = None, hb_created_at = 0\<rparr>"

theorem heartbeat_claim_once_witness:
  "case claim_due_heartbeat_jobs 5 10 [sample_job ''j1'' 4, sample_job ''j2'' 9] of
     (db', claimed) \<Rightarrow> length claimed \<le> 10 \<and> (\<exists>j'. get_heartbeat_job ''j1'' None db' = Some j')"
proof -
  obtain db' claimed where c: "claim_due_heartbeat_jobs 5 10 [sample_job ''j1'' 4, sample_job ''j2'' 9] = (db', claimed)"
    by fastforce
  from heartbeat_claim_once [OF c, of "sample_job ''j1'' 4"] c show ?thesis
    by (auto simp: sample_job_def)
qed

text \<open>
  A heartbeat window that crosses midnight is the complement of the window read the other way round: for
  distinct bounds, exactly one of the windows start-end and end-start contains any given time.
\<close>

theorem heartbeat_window_complement:
  assumes "hb_active_start job \<noteq> hb_active_end job"
  shows "heartbeat_is_active local_time now job \<longleftrightarrow>
    \<not> heartbeat_is_active local_time now
        (job\<lparr>hb_active_start := hb_active_end job, hb_active_end := hb_active_start job\<rparr>)"
  using assms by (auto simp: heartbeat_is_active_def Let_def not_le not_less)

theorem heartbeat_window_complement_witness:
  "heartbeat_is_active (\<lambda>_ _. ''23:30'') 0 (sample_job ''j1'' 0) \<longleftrightarrow>
    \<not> heartbeat_is_active (\<lambda>_ _. ''23:30'') 0 ((sample_job ''j1'' 0)\<lparr>hb_active_start := ''06:00'', hb_active_end := ''22:00''\<rparr>)"
  using heartbeat_window_complement [of "sample_job ''j1'' 0" "\<lambda>_ _. ''23:30''" 0] by (simp add: sample_job_def)

end
