(* ===== verification/RunLog.thy ===== *)
theory RunLog
  imports Runs
begin

text \<open>
  The event log over the whole lifecycle of agent runs. \<open>run_step\<close> interleaves every operation of the theory \<open>Runs\<close>
  (submission, recovery, the steps of workers, aborts, heartbeat dispatch) for any number of workers that hold copies
  of records; \<open>save_durable_run\<close> writes the sequence of a run from such a copy under its guard. The invariant
  \<open>logged\<close>: the log of each run is gap-free, its rows carry their number and run id, and no row, cached record or copy
  is ahead of it; every operation keeps it and only adds rows at the end (\<open>advances\<close>).
\<close>

subsection \<open>Steps of the lifecycle\<close>

text \<open>
  A state is the system with the copies of records that requests and workers hold; a copy stays in hand after the
  stored record has moved on. \<open>Log_copied\<close> and \<open>Log_saved\<close> are the two halves of what the lease monitor does;
  \<open>Log_cached\<close> and \<open>Log_row_saved\<close> are the two writes of \<open>_save_record\<close>, which others may interleave.
\<close>

inductive run_step :: "run_cfg \<Rightarrow> run_sys \<times> agent_run_record list \<Rightarrow> run_sys \<times> agent_run_record list \<Rightarrow> bool" for cfg where
  Log_submitted: "r = create_run_record t uid i sid user req q k mode ex ty tid maxa \<Longrightarrow>
    submit_agent_run cfg now r s = Inr (s', r', created, published) \<Longrightarrow> run_step cfg (s, C) (s', r' # C)"
| Log_recovered: "recover_agent_runs cfg now s = Inr (s', published, n) \<Longrightarrow> run_step cfg (s, C) (s', C)"
| Log_entered: "enter_agent_run cfg now i s = Inr (s', found) \<Longrightarrow>
    run_step cfg (s, C) (s', case found of ExecWaiting r \<Rightarrow> r # C | _ \<Rightarrow> C)"
| Log_polled: "r \<in> set C \<Longrightarrow> poll_session_turn cfg started now r token s = Inr (s', poll) \<Longrightarrow>
    run_step cfg (s, C) (s', case poll of PollClaimed r' \<Rightarrow> r' # C | _ \<Rightarrow> C)"
| Log_begun: "r \<in> set C \<Longrightarrow> begin_agent_run cfg now token r s = Inr (s', found) \<Longrightarrow>
    run_step cfg (s, C) (s', case found of Some r' \<Rightarrow> r' # C | None \<Rightarrow> C)"
| Log_event: "append_run_event cfg now i e s = Inr s' \<Longrightarrow> run_step cfg (s, C) (s', C)"
| Log_finished: "r \<in> set C \<Longrightarrow> finish_agent_run cfg now type_name token r events ending s = (s', x) \<Longrightarrow>
    run_step cfg (s, C) (s', C)"
| Log_copied: "store_get i (ry_store s) = Some r \<Longrightarrow> run_step cfg (s, C) (s, r # C)"
| Log_saved: "r \<in> set C \<Longrightarrow> run_step cfg (s, C) (save_record cfg now r touch answer s, C)"
| Log_cached: "r \<in> set C \<Longrightarrow> run_step cfg (s, C) (s\<lparr>ry_store := store_save r (ry_store s)\<rparr>, C)"
| Log_row_saved: "r \<in> set C \<Longrightarrow> run_step cfg (s, C) (s\<lparr>ry_runs := save_durable_run now r touch (ry_runs s)\<rparr>, C)"
| Log_renewed: "renew_session_lease ttl now sid token (ry_store s) = (st, b) \<Longrightarrow> run_step cfg (s, C) (s\<lparr>ry_store := st\<rparr>, C)"
| Log_required: "require_owned_run i user s = Inr r \<Longrightarrow> run_step cfg (s, C) (s, r # C)"
| Log_aborted: "r \<in> set C \<Longrightarrow> request_run_abort cfg now r s = Inr (s', r') \<Longrightarrow> run_step cfg (s, C) (s', r' # C)"
| Log_heartbeats: "dispatch_due_heartbeat_jobs cfg local_time now uids batch s = Inr (s', n) \<Longrightarrow> run_step cfg (s, C) (s', C)"

definition no_runs :: "heartbeat_job list \<Rightarrow> run_sys" where
  "no_runs jobs = \<lparr>ry_runs = [], ry_rows = [], ry_jobs = jobs, ry_outbox = [], ry_store = empty_store\<rparr>"

definition run_reachable :: "run_cfg \<Rightarrow> run_sys \<times> agent_run_record list \<Rightarrow> bool" where
  "run_reachable cfg w \<longleftrightarrow> (\<exists>jobs. (run_step cfg)\<^sup>*\<^sup>* (no_runs jobs, []) w)"

subsection \<open>The log\<close>

definition last_sequence :: "string \<Rightarrow> run_sys \<Rightarrow> int" where
  "last_sequence i s = (case get_durable_run i (ry_runs s) of None \<Rightarrow> 0 | Some r \<Rightarrow> dr_last_event_sequence r)"

definition up_to_date :: "run_sys \<Rightarrow> agent_run_record \<Rightarrow> bool" where
  "up_to_date s r \<longleftrightarrow> ar_last_event_sequence r \<le> last_sequence (ar_run_id r) s"

definition stamped :: "runtime_event_row \<Rightarrow> bool" where
  "stamped row \<longleftrightarrow> (\<exists>n. re_sequence row = Some n \<and> ae_sequence (re_payload row) = Some n) \<and>
     ae_run_id (re_payload row) = Some (re_run_id row)"

text \<open>No cached record and no copy is ahead of the log.\<close>

definition cache_ok :: "run_sys \<Rightarrow> run_store \<Rightarrow> bool" where
  "cache_ok s st \<longleftrightarrow> keyed_store st \<and> (\<forall>i r. store_get i st = Some r \<longrightarrow> up_to_date s r)"

definition bounded_rows :: "run_sys \<Rightarrow> bool" where
  "bounded_rows s \<longleftrightarrow> (\<forall>q\<in>set (ry_runs s). dr_last_event_sequence q \<le> last_sequence (dr_run_id q) s)"

definition logged :: "run_sys \<Rightarrow> bool" where
  "logged s \<longleftrightarrow> log_ok (ry_runs s, ry_rows s) \<and> list_all stamped (ry_rows s) \<and> bounded_rows s \<and> cache_ok s (ry_store s)"

definition log_grows :: "run_sys \<Rightarrow> run_sys \<Rightarrow> bool" where
  "log_grows s s' \<longleftrightarrow> (\<forall>i. last_sequence i s \<le> last_sequence i s') \<and> (\<exists>new. ry_rows s' = ry_rows s @ new)"

definition advances :: "run_sys \<Rightarrow> run_sys \<Rightarrow> bool" where
  "advances s s' \<longleftrightarrow> (logged s \<longrightarrow> logged s' \<and> log_grows s s')"

lemma log_grows_refl: "log_grows s s"
  by (simp add: log_grows_def)

lemma log_grows_trans: "log_grows a b \<Longrightarrow> log_grows b c \<Longrightarrow> log_grows a c"
  unfolding log_grows_def by (metis append.assoc order_trans)

lemma advances_refl [simp]: "advances s s"
  by (simp add: advances_def log_grows_refl)

lemma advances_trans: "advances a b \<Longrightarrow> advances b c \<Longrightarrow> advances a c"
  unfolding advances_def using log_grows_trans by blast

lemma up_to_date_grows: "log_grows s s' \<Longrightarrow> up_to_date s r \<Longrightarrow> up_to_date s' r"
  unfolding log_grows_def up_to_date_def using order_trans by blast

lemma advances_up_to_date: "advances s s' \<Longrightarrow> logged s \<Longrightarrow> up_to_date s r \<Longrightarrow> up_to_date s' r"
  unfolding advances_def using up_to_date_grows by blast

subsection \<open>Writes\<close>

text \<open>Jobs, Outbox and coordination of the store leave the log alone.\<close>

lemma last_sequence_other [simp]:
  "last_sequence i (s\<lparr>ry_jobs := j\<rparr>) = last_sequence i s" "last_sequence i (s\<lparr>ry_outbox := ob\<rparr>) = last_sequence i s"
  "last_sequence i (s\<lparr>ry_store := st\<rparr>) = last_sequence i s" "last_sequence i (s\<lparr>ry_rows := rows\<rparr>) = last_sequence i s"
  by (simp_all add: last_sequence_def)

lemma up_to_date_other [simp]:
  "up_to_date (s\<lparr>ry_jobs := j\<rparr>) = up_to_date s" "up_to_date (s\<lparr>ry_outbox := ob\<rparr>) = up_to_date s"
  "up_to_date (s\<lparr>ry_store := st\<rparr>) = up_to_date s"
  by (simp_all add: up_to_date_def fun_eq_iff)

lemma cache_ok_other [simp]:
  "cache_ok (s\<lparr>ry_jobs := j\<rparr>) = cache_ok s" "cache_ok (s\<lparr>ry_outbox := ob\<rparr>) = cache_ok s" "cache_ok (s\<lparr>ry_store := st'\<rparr>) = cache_ok s"
  by (simp_all add: cache_ok_def fun_eq_iff)

lemma bounded_rows_other [simp]:
  "bounded_rows (s\<lparr>ry_jobs := j\<rparr>) = bounded_rows s" "bounded_rows (s\<lparr>ry_outbox := ob\<rparr>) = bounded_rows s"
  "bounded_rows (s\<lparr>ry_store := st\<rparr>) = bounded_rows s"
  by (simp_all add: bounded_rows_def)

lemma advances_other [simp]: "advances s (s\<lparr>ry_jobs := j\<rparr>)" "advances s (s\<lparr>ry_outbox := ob\<rparr>)"
  by (simp_all add: advances_def logged_def log_grows_def)

lemma advances_store: "(logged s \<Longrightarrow> cache_ok s st) \<Longrightarrow> advances s (s\<lparr>ry_store := st\<rparr>)"
  by (auto simp: advances_def logged_def log_grows_def)

lemma logged_cache: "logged s \<Longrightarrow> cache_ok s (ry_store s)"
  by (simp add: logged_def)

lemma cacheD: "cache_ok s st \<Longrightarrow> store_get i st = Some r \<Longrightarrow> up_to_date s r \<and> ar_run_id r = i"
  by (auto simp: cache_ok_def keyed_store_def)

lemma cache_same_records: "cache_ok s st \<Longrightarrow> rs_records st' = rs_records st \<Longrightarrow> cache_ok s st'"
  by (simp add: cache_ok_def keyed_store_def store_get_def)

lemma cache_save: "cache_ok s st \<Longrightarrow> up_to_date s r \<Longrightarrow> cache_ok s (store_save r st)"
  by (auto simp: cache_ok_def keyed_store_def store_get_def store_save_def)

lemma cache_create: "cache_ok s st \<Longrightarrow> up_to_date s r \<Longrightarrow> cache_ok s (store_create r st)"
  by (auto simp: cache_ok_def keyed_store_def store_get_def store_create_def)

lemma cache_enqueue:
  assumes "create_or_get_and_enqueue digest r st = (st', r', b)" and "cache_ok s st" and "up_to_date s r"
  shows "cache_ok s st' \<and> up_to_date s r'"
  using assms
  by (auto simp: create_or_get_and_enqueue_def Let_def cache_ok_def keyed_store_def store_get_def split: option.splits if_splits)

lemma cache_turns [simp]:
  "rs_records (remove_from_session_queue sid i st) = rs_records st" "rs_records (release_session_turn sid i t st) = rs_records st"
  by (simp_all add: remove_from_session_queue_def release_session_turn_def split: option.split)

lemma cache_claims:
  "claim_session_turn ttl now sid i t st = (st', b) \<Longrightarrow> rs_records st' = rs_records st"
  "renew_session_lease ttl now sid t st = (st', b) \<Longrightarrow> rs_records st' = rs_records st"
  by (auto simp: claim_session_turn_def renew_session_lease_def split: list.splits option.splits if_splits)

lemma cache_aborting:
  assumes "transition_to_aborting i st = (st', found)" and "cache_ok s st"
  shows "cache_ok s st' \<and> (\<forall>r. found = Some r \<longrightarrow> up_to_date s r)"
  using assms by (auto simp: transition_to_aborting_def cache_ok_def keyed_store_def store_get_def up_to_date_def split: option.splits if_splits)

lemma advances_save: "(logged s \<Longrightarrow> up_to_date s r) \<Longrightarrow> advances s (s\<lparr>ry_store := store_save r (ry_store s)\<rparr>)"
  by (rule advances_store) (rule cache_save [OF logged_cache])

lemma advances_dequeue: "advances s (s\<lparr>ry_store := remove_from_session_queue sid i (ry_store s)\<rparr>)"
  "advances s (s\<lparr>ry_store := release_session_turn sid i t (ry_store s)\<rparr>)"
  by (rule advances_store, rule cache_same_records [OF logged_cache], assumption, simp)+

text \<open>Changes of the rows of runs that keep their ids and sequences.\<close>

lemma update_keeps_sequences:
  assumes "\<And>r. dr_run_id (f r) = dr_run_id r"
    and "\<And>r. logged s \<Longrightarrow> P r \<Longrightarrow> dr_last_event_sequence r \<le> last_sequence (dr_run_id r) s \<Longrightarrow>
      dr_last_event_sequence (f r) \<le> last_sequence (dr_run_id r) s"
    and "\<And>r. logged s \<Longrightarrow> P r \<Longrightarrow> get_durable_run (dr_run_id r) (ry_runs s) = Some r \<Longrightarrow>
      dr_last_event_sequence (f r) = dr_last_event_sequence r"
  shows "advances s (s\<lparr>ry_runs := update_where P f (ry_runs s)\<rparr>)"
proof (cases "logged s")
  case True
  let ?s' = "s\<lparr>ry_runs := update_where P f (ry_runs s)\<rparr>"
  have get: "map_option dr_last_event_sequence (get_durable_run i (update_where P f (ry_runs s))) =
      map_option dr_last_event_sequence (get_durable_run i (ry_runs s))" for i
    using get_run_update [of f i P "ry_runs s"] assms(1) assms(3) [OF True] get_runD [of i "ry_runs s"]
    by (cases "get_durable_run i (ry_runs s)") simp_all
  have last: "last_sequence i ?s' = last_sequence i s" for i
    using get [of i] by (auto simp: last_sequence_def split: option.splits)
  have "log_ok (ry_runs ?s', ry_rows ?s')"
    unfolding log_ok_def
  proof
    fix i
    show "case get_durable_run i (fst (ry_runs ?s', ry_rows ?s')) of None \<Rightarrow> run_rows i (snd (ry_runs ?s', ry_rows ?s')) = []
        | Some r \<Rightarrow> map re_sequence (run_rows i (snd (ry_runs ?s', ry_rows ?s'))) = map Some [1..dr_last_event_sequence r] \<and>
          0 \<le> dr_last_event_sequence r"
      using get [of i] True [unfolded logged_def log_ok_def, THEN conjunct1, rule_format, of i] by (auto split: option.splits)
  qed
  moreover have "bounded_rows ?s'"
    using True assms(1) assms(2) [OF True] unfolding bounded_rows_def last by (auto simp: logged_def bounded_rows_def set_update_where)
  ultimately show ?thesis
    using True last by (simp add: advances_def logged_def log_grows_def cache_ok_def up_to_date_def)
qed (simp add: advances_def)

lemma saved_row_sequence:
  "ar_last_event_sequence r \<le> n \<Longrightarrow> dr_last_event_sequence q \<le> n \<Longrightarrow> dr_last_event_sequence (dr_flush now q (saved_row now r touch q)) \<le> n"
  "ar_last_event_sequence r \<le> dr_last_event_sequence q \<Longrightarrow> dr_last_event_sequence (dr_flush now q (saved_row now r touch q)) = dr_last_event_sequence q"
  by (simp_all add: dr_flush_def saved_row_def Let_def)

lemma advances_save_durable:
  assumes "logged s \<Longrightarrow> up_to_date s r"
  shows "advances s (s\<lparr>ry_runs := save_durable_run now r touch (ry_runs s)\<rparr>)"
  unfolding save_durable_run_def
proof (rule update_keeps_sequences)
  fix q :: durable_run assume "logged s" "dr_run_id q = ar_run_id r" "dr_last_event_sequence q \<le> last_sequence (dr_run_id q) s"
  then show "dr_last_event_sequence (dr_flush now q (saved_row now r touch q)) \<le> last_sequence (dr_run_id q) s"
    using assms by (simp add: saved_row_sequence(1) up_to_date_def)
next
  fix q :: durable_run assume "logged s" "dr_run_id q = ar_run_id r" "get_durable_run (dr_run_id q) (ry_runs s) = Some q"
  then have "ar_last_event_sequence r \<le> dr_last_event_sequence q" using assms by (simp add: up_to_date_def last_sequence_def)
  then show "dr_last_event_sequence (dr_flush now q (saved_row now r touch q)) = dr_last_event_sequence q" by (rule saved_row_sequence(2))
qed simp

lemma row_up_to_date:
  "logged s \<Longrightarrow> q \<in> set (ry_runs s) \<Longrightarrow> up_to_date s (durable_run_to_record q)"
  by (simp add: logged_def bounded_rows_def up_to_date_def durable_run_to_record_def)

lemma cached_up_to_date: "logged s \<Longrightarrow> store_get i (ry_store s) = Some r \<Longrightarrow> up_to_date s r"
  using cacheD logged_cache by blast

lemma up_to_date_fields [simp]:
  "up_to_date s (r\<lparr>ar_status := st\<rparr>) = up_to_date s r" "up_to_date s (r\<lparr>ar_error := er\<rparr>) = up_to_date s r"
  "up_to_date s (r\<lparr>ar_completed_at := c\<rparr>) = up_to_date s r" "up_to_date s (r\<lparr>ar_started_at := c\<rparr>) = up_to_date s r"
  "up_to_date s (r\<lparr>ar_attempt_count := n\<rparr>) = up_to_date s r" "up_to_date s (r\<lparr>ar_queue_wait_ms := w\<rparr>) = up_to_date s r"
  by (simp_all add: up_to_date_def)

subsection \<open>Operations\<close>

lemma append_logged:
  assumes a: "append_durable_runtime_event now eid i e (ry_runs s, ry_rows s) = Inr ((runs, rows), stored)" and "logged s"
    and st: "st = (case store_get i (ry_store s) of None \<Rightarrow> ry_store s
        | Some r \<Rightarrow> store_save (r\<lparr>ar_last_event_id := Some (se_event_id stored),
            ar_last_event_sequence := the (ae_sequence (se_event stored))\<rparr>) (ry_store s))"
  shows "logged (s\<lparr>ry_runs := runs, ry_rows := rows, ry_store := st\<rparr>) \<and> log_grows s (s\<lparr>ry_runs := runs, ry_rows := rows, ry_store := st\<rparr>)"
  using a
proof (cases rule: append_cases)
  case (1 run row)
  let ?s' = "s\<lparr>ry_runs := runs, ry_rows := rows, ry_store := st\<rparr>" and ?n = "dr_last_event_sequence run + 1"
  have runs: "runs = update_where (\<lambda>r. dr_run_id r = i) (\<lambda>r. r\<lparr>dr_last_event_sequence := ?n,
      dr_last_event_id := Some (py_str_int ?n), dr_updated_at := now\<rparr>) (ry_runs s)" using 1 by simp
  have run: "get_durable_run i (ry_runs s) = Some run" "dr_run_id run = i" using 1 get_runD by auto
  have last: "last_sequence j ?s' = (if j = i then ?n else last_sequence j s)" for j
    using run get_runD [of j "ry_runs s"]
    by (cases "get_durable_run j (ry_runs s)") (auto simp: last_sequence_def runs get_run_update)
  have at: "last_sequence i s = dr_last_event_sequence run" using run by (simp add: last_sequence_def)
  have grows: "log_grows s ?s'" using 1 last at by (simp add: log_grows_def)
  have "log_ok (ry_runs ?s', ry_rows ?s')"
    using append_log_ok [OF a] assms(2) by (simp add: logged_def)
  moreover have "list_all stamped (ry_rows ?s')"
    using 1 assms(2) by (simp add: logged_def stamped_def with_delivery_def)
  moreover have "bounded_rows ?s'"
    using assms(2) unfolding bounded_rows_def last by (auto simp: logged_def bounded_rows_def runs set_update_where)
  moreover have "cache_ok ?s' st"
  proof -
    have old: "cache_ok s (ry_store s)" using assms(2) by (rule logged_cache)
    have "up_to_date ?s' r" if "store_get j st = Some r" for j r
    proof (cases "j = i \<and> store_get i (ry_store s) \<noteq> None")
      case True
      then obtain q where q: "store_get i (ry_store s) = Some q" by blast
      have "ar_run_id q = i" using cacheD [OF old q] by blast
      then show ?thesis using that q True 1 last st
        by (auto simp: store_save_def store_get_def up_to_date_def with_delivery_def)
    next
      case False
      then have "store_get j (ry_store s) = Some r"
        using that st cacheD [OF old] by (auto simp: store_save_def store_get_def split: option.splits)
      then show ?thesis using cacheD [OF old] up_to_date_grows [OF grows] by blast
    qed
    moreover have "keyed_store st"
      using old st by (auto simp: cache_ok_def keyed_store_def store_save_def store_get_def split: option.splits)
    ultimately show ?thesis by (simp add: cache_ok_def)
  qed
  ultimately show ?thesis using grows by (simp add: logged_def)
qed

lemma append_run_event_cases:
  assumes "append_run_event cfg now i e s = Inr s'"
  obtains runs rows stored st where "append_durable_runtime_event now (rc_fresh cfg now i) i e (ry_runs s, ry_rows s) = Inr ((runs, rows), stored)"
    and "st = (case store_get i (ry_store s) of None \<Rightarrow> ry_store s
        | Some r \<Rightarrow> store_save (r\<lparr>ar_last_event_id := Some (se_event_id stored),
            ar_last_event_sequence := the (ae_sequence (se_event stored))\<rparr>) (ry_store s))"
    and "s' = s\<lparr>ry_runs := runs, ry_rows := rows, ry_store := st\<rparr>"
  using assms by (auto simp: append_run_event_def append_event_def split: prod.splits cong: option.case_cong)

lemma advances_append: "append_run_event cfg now i e s = Inr s' \<Longrightarrow> advances s s'"
  by (erule append_run_event_cases) (use append_logged in \<open>simp add: advances_def\<close>)

lemma advances_appends: "append_events cfg now i es s = (s', kept, failed) \<Longrightarrow> advances s s'"
proof (induction es arbitrary: s kept)
  case (Cons e es)
  then show ?case
    by (auto split: sum.splits prod.splits dest!: advances_append intro: advances_trans)
qed simp

lemma create_or_get_advances:
  assumes "create_or_get_durable_run now r (ry_runs s) = (runs, d, b)"
  shows "advances s (s\<lparr>ry_runs := runs\<rparr>) \<and> (logged s \<longrightarrow> up_to_date (s\<lparr>ry_runs := runs\<rparr>) (durable_run_to_record d))"
proof (cases "find (\<lambda>q. run_request q = run_request (durable_row now r)) (ry_runs s)")
  case (Some q)
  then have "runs = ry_runs s" "d = q" "q \<in> set (ry_runs s)"
    using assms by (auto simp: create_or_get_durable_run_def insert_durable_run_def dest: find_SomeD)
  then show ?thesis using row_up_to_date by simp
next
  case None
  then have runs: "runs = ry_runs s @ [durable_row now r]" and d: "d = durable_row now r"
    using assms by (auto simp: create_or_get_durable_run_def insert_durable_run_def)
  let ?s' = "s\<lparr>ry_runs := runs\<rparr>"
  have zero: "dr_last_event_sequence d = 0" by (simp add: d durable_row_def)
  have last: "last_sequence i ?s' = last_sequence i s" for i
    using zero by (auto simp: last_sequence_def runs d get_durable_run_def find_app split: option.split)
  have nonneg: "0 \<le> last_sequence i s" if "logged s" for i
    using that [unfolded logged_def log_ok_def, THEN conjunct1, rule_format, of i]
    by (auto simp: last_sequence_def split: option.splits)
  have "logged ?s'" if l: "logged s"
  proof -
    have "log_ok (ry_runs ?s', ry_rows ?s')"
      unfolding log_ok_def
    proof
      fix i
      show "case get_durable_run i (fst (ry_runs ?s', ry_rows ?s')) of None \<Rightarrow> run_rows i (snd (ry_runs ?s', ry_rows ?s')) = []
          | Some r \<Rightarrow> map re_sequence (run_rows i (snd (ry_runs ?s', ry_rows ?s'))) = map Some [1..dr_last_event_sequence r] \<and>
            0 \<le> dr_last_event_sequence r"
        using zero l [unfolded logged_def log_ok_def, THEN conjunct1, rule_format, of i]
        by (auto simp: runs d get_durable_run_def find_app split: option.splits)
    qed
    then show ?thesis
      using l nonneg [OF l] last zero by (simp add: logged_def bounded_rows_def cache_ok_def up_to_date_def runs d)
  qed
  then show ?thesis
    using last nonneg zero by (simp add: advances_def log_grows_def up_to_date_def durable_run_to_record_def)
qed

text \<open>Chains: the next operation may use that the state before it is logged.\<close>

lemma advances_then: "advances a b \<Longrightarrow> (logged b \<Longrightarrow> advances b c) \<Longrightarrow> advances a c"
  unfolding advances_def using log_grows_trans by blast

lemma submit_advances:
  assumes "submit_agent_run cfg now r s = Inr (s', r', created, published)"
  shows "advances s s' \<and> (logged s \<longrightarrow> up_to_date s' r')"
proof -
  obtain runs d b where 1: "create_or_get_durable_run now r (ry_runs s) = (runs, d, b)" by (metis prod_cases3)
  let ?s1 = "s\<lparr>ry_runs := runs\<rparr>" and ?rec = "durable_run_to_record d"
  have a1: "advances s ?s1" and u1: "logged s \<Longrightarrow> up_to_date ?s1 ?rec" using create_or_get_advances [OF 1] by blast+
  have l1: "logged s \<Longrightarrow> logged ?s1" using a1 by (simp add: advances_def)
  show ?thesis
  proof (cases "ar_status ?rec \<in> set TERMINAL_AGENT_RUN_STATUSES")
    case True
    have "advances s (?s1\<lparr>ry_store := store_create ?rec (ry_store ?s1)\<rparr>)"
    proof (cases "logged s")
      case l: True
      show ?thesis
        by (rule advances_trans [OF a1], rule advances_store, rule cache_create)
          (use logged_cache [OF l1 [OF l]] u1 [OF l] in simp_all)
    qed (simp add: advances_def)
    then show ?thesis using assms 1 True a1 u1 by (auto simp: submit_agent_run_def Let_def split: if_splits)
  next
    case False
    obtain st c new where 2: "create_or_get_and_enqueue (rc_digest cfg) ?rec (ry_store ?s1) = (st, c, new)" by (metis prod_cases3)
    let ?s2 = "?s1\<lparr>ry_store := st\<rparr>"
    have c2: "cache_ok ?s1 st \<and> up_to_date ?s1 c" if "logged s"
      using cache_enqueue [OF 2 logged_cache [OF l1 [OF that]] u1 [OF that]] .
    have a2: "advances s ?s2"
    proof (cases "logged s")
      case True
      show ?thesis by (rule advances_trans [OF a1], rule advances_store) (use c2 [OF True] in simp)
    qed (simp add: advances_def)
    have "advances ?s2 s'" "r' = c"
      using assms 1 2 False by (auto simp: submit_agent_run_def Let_def split: if_splits dest: advances_append)
    then show ?thesis
      using advances_trans [OF a2] c2 a2 advances_up_to_date [of ?s2 s' c] by (auto simp: advances_def)
  qed
qed

lemma advances_exhaust: "advances s (s\<lparr>ry_runs := update_where P (exhaust_row now) (ry_runs s)\<rparr>)"
  by (rule update_keeps_sequences) (simp_all add: exhaust_row_def Let_def)

lemma advances_requeue: "advances s (s\<lparr>ry_runs := update_where P (requeue_row now) (ry_runs s)\<rparr>)"
  by (rule update_keeps_sequences) (simp_all add: requeue_row_def)

lemma recovery_transaction_advances:
  assumes "recover_runs_transaction cfg now s = (s', ex, rq)"
  shows "advances s s' \<and> (logged s \<longrightarrow> (\<forall>r\<in>set rq. up_to_date s' r))"
proof -
  let ?ex = "list_exhausted_runs (now - seconds (rc_stale_seconds cfg)) (rc_batch cfg) (ry_runs s)"
  let ?s1 = "s\<lparr>ry_runs := update_where (\<lambda>r. dr_run_id r \<in> set (map dr_run_id ?ex)) (exhaust_row now) (ry_runs s)\<rparr>"
  let ?rq = "list_recoverable_runs (now - seconds (rc_stale_seconds cfg)) (rc_batch cfg) (ry_runs ?s1)"
  let ?s2 = "?s1\<lparr>ry_runs := update_where (\<lambda>r. dr_run_id r \<in> set (map dr_run_id ?rq)) (requeue_row now) (ry_runs ?s1)\<rparr>"
  obtain ob where s': "s' = ?s2\<lparr>ry_outbox := ob\<rparr>" and rq: "rq = map (\<lambda>r. durable_run_to_record (requeue_row now r)) ?rq"
    using assms by (auto simp: recover_runs_transaction_def Let_def)
  have a1: "advances s ?s1" and a2: "advances ?s1 ?s2" by (rule advances_exhaust, rule advances_requeue)
  have "up_to_date s' r" if l: "logged s" and r: "r \<in> set rq" for r
  proof -
    obtain q where q: "q \<in> set ?rq" "r = durable_run_to_record (requeue_row now q)" using r rq by auto
    have l1: "logged ?s1" using a1 l by (simp add: advances_def)
    have "up_to_date ?s1 (durable_run_to_record q)"
      using row_up_to_date [OF l1] conjunct1 [OF listed_recoverable [OF q(1)]] by blast
    then have "up_to_date ?s1 r" by (simp add: q(2) up_to_date_def durable_run_to_record_def requeue_row_def)
    then show ?thesis using advances_up_to_date [OF a2 l1] by (simp add: s')
  qed
  moreover have "advances s s'" unfolding s' by (rule advances_trans [OF advances_trans [OF a1 a2] advances_other(2)])
  ultimately show ?thesis by blast
qed

lemma settle_exhausted_advances:
  assumes "settle_exhausted cfg now r s = Inr s'"
  shows "advances s s'"
proof (cases "store_get (ar_run_id r) (ry_store s)")
  case None
  then show ?thesis using assms advances_dequeue by (auto simp: settle_exhausted_def)
next
  case (Some cached)
  let ?s1 = "s\<lparr>ry_store := store_save (cached\<lparr>ar_status := ar_status r, ar_error := ar_error r,
                  ar_completed_at := ar_completed_at r, ar_attempt_count := ar_attempt_count r\<rparr>) (ry_store s)\<rparr>"
  have a1: "advances s ?s1" by (rule advances_save) (simp add: cached_up_to_date [OF _ Some])
  obtain s2 where a2: "advances ?s1 s2" and s': "s' = s2\<lparr>ry_store := remove_from_session_queue (ar_session_id r) (ar_run_id r) (ry_store s2)\<rparr>"
    using assms Some by (auto simp: settle_exhausted_def Let_def split: if_splits dest!: advances_append intro: advances_trans)
  show ?thesis unfolding s' by (rule advances_trans [OF advances_trans [OF a1 a2] advances_dequeue(1)])
qed

lemma settle_requeued_advances:
  assumes "logged s \<Longrightarrow> up_to_date s r"
  shows "advances s (settle_requeued cfg r s)"
proof (cases "logged s")
  case True
  obtain st r' b where c: "create_or_get_and_enqueue (rc_digest cfg) r (ry_store s) = (st, r', b)" by (metis prod_cases3)
  have "advances s (s\<lparr>ry_store := st\<rparr>)"
    by (rule advances_store) (use cache_enqueue [OF c logged_cache [OF True]] assms [OF True] in simp)
  moreover have "advances s (s\<lparr>ry_store := store_save (cached\<lparr>ar_status := ar_status r, ar_started_at := None,
      ar_attempt_count := ar_attempt_count r\<rparr>) (ry_store s)\<rparr>)" if "store_get (ar_run_id r) (ry_store s) = Some cached" for cached
    by (rule advances_save) (simp add: cached_up_to_date [OF _ that])
  ultimately show ?thesis using c by (simp add: settle_requeued_def split: option.split)
qed (simp add: advances_def)

lemma recover_advances:
  assumes "recover_agent_runs cfg now s = Inr (s', published, n)"
  shows "advances s s'"
proof -
  obtain s1 ex rq where t: "recover_runs_transaction cfg now s = (s1, ex, rq)" by (metis prod_cases3)
  obtain s2 where f: "fold_result (settle_exhausted cfg now) ex s1 = Inr s2"
    and s': "s' = foldl (\<lambda>s r. settle_requeued cfg r s) s2 rq"
    using assms t by (auto simp: recover_agent_runs_def)
  have "fold_result (settle_exhausted cfg now) xs a = Inr b \<Longrightarrow> advances a b" for xs a b
    by (induction xs arbitrary: a) (auto dest!: settle_exhausted_advances intro: advances_trans)
  from this [OF f] have a2: "advances s1 s2" .
  have a3: "(logged a \<Longrightarrow> \<forall>r\<in>set xs. up_to_date a r) \<Longrightarrow> advances a (foldl (\<lambda>s r. settle_requeued cfg r s) a xs)" for xs a
  proof (induction xs arbitrary: a)
    case (Cons x xs)
    have 1: "advances a (settle_requeued cfg x a)" by (rule settle_requeued_advances) (use Cons.prems in simp)
    show ?case
    proof (cases "logged a")
      case True
      have "\<forall>r\<in>set xs. up_to_date (settle_requeued cfg x a) r"
        using Cons.prems [OF True] advances_up_to_date [OF 1 True] by simp
      then show ?thesis using advances_trans [OF 1 Cons.IH] by simp
    qed (simp add: advances_def)
  qed simp
  note tr = recovery_transaction_advances [OF t]
  show ?thesis
  proof (cases "logged s")
    case True
    have l1: "logged s1" using tr True by (simp add: advances_def)
    have "\<forall>r\<in>set rq. up_to_date s2 r" using tr True advances_up_to_date [OF a2 l1] by blast
    then show ?thesis unfolding s' using advances_trans [OF conjunct1 [OF tr] advances_trans [OF a2 a3]] by blast
  qed (simp add: advances_def)
qed

lemma save_record_advances:
  assumes "logged s \<Longrightarrow> up_to_date s r"
  shows "advances s (save_record cfg now r touch answer s)"
proof -
  let ?s0 = "s\<lparr>ry_store := store_save r (ry_store s)\<rparr>"
  let ?s1 = "?s0\<lparr>ry_runs := save_durable_run now r touch (ry_runs ?s0)\<rparr>"
  have a0: "advances s ?s0" by (rule advances_save) (rule assms)
  have "advances s ?s1"
  proof (cases "logged s")
    case True
    show ?thesis by (rule advances_trans [OF a0], rule advances_save_durable) (use assms [OF True] in simp)
  qed (simp add: advances_def)
  moreover have "\<exists>j ob. save_record cfg now r touch answer s = ?s1\<lparr>ry_jobs := j, ry_outbox := ob\<rparr>"
  proof -
    let ?t = "save_record cfg now r touch answer s"
    have "?t = ?s1\<lparr>ry_jobs := ry_jobs ?t, ry_outbox := ry_outbox ?t\<rparr>"
      by (rule run_sys.equality) simp_all
    then show ?thesis by blast
  qed
  ultimately show ?thesis using advances_trans [OF _ advances_trans [OF advances_other(1) advances_other(2)]] by fastforce
qed

lemma mark_aborted_advances:
  assumes "mark_aborted cfg now r reason s = Inr s'" and "logged s \<Longrightarrow> up_to_date s r"
  shows "advances s s'"
proof -
  let ?r1 = "r\<lparr>ar_status := ABORTED, ar_completed_at := Some now\<rparr>"
  obtain s1 where a: "append_run_event cfg now (ar_run_id r)
      (event_lifecycle now ''aborted'' [(''loop_index'', JInt 0), (''loop_reason'', JStr reason)]) s = Inr s1"
    and s': "s' = save_record cfg now (case store_get (ar_run_id r) (ry_store s1) of Some latest \<Rightarrow> latest | None \<Rightarrow> ?r1) False [] s1"
    using assms(1) by (auto simp: mark_aborted_def Let_def)
  show ?thesis
  proof (cases "logged s")
    case True
    have "up_to_date s1 r" using advances_up_to_date [OF advances_append [OF a] True assms(2) [OF True]] .
    then show ?thesis unfolding s'
      by (intro advances_trans [OF advances_append [OF a]] save_record_advances)
        (auto simp: cached_up_to_date split: option.split)
  qed (simp add: advances_def)
qed

lemma poll_advances:
  assumes "poll_session_turn cfg started now r token s = Inr (s', poll)" and "logged s \<Longrightarrow> up_to_date s r"
  shows "advances s s' \<and> (\<forall>r'. poll = PollClaimed r' \<longrightarrow> logged s \<longrightarrow> up_to_date s' r')"
proof (cases "is_abort_requested (ar_run_id r) (ry_store s)")
  case True
  let ?r1 = "case store_get (ar_run_id r) (ry_store s) of Some l \<Rightarrow> l | None \<Rightarrow> r"
  have u: "logged s \<Longrightarrow> up_to_date s ?r1" using assms(2) by (auto simp: cached_up_to_date split: option.split)
  have "advances s s'"
    using assms(1) True mark_aborted_advances [OF _ u, of cfg now "''abort_while_queued''"]
    by (auto simp: poll_session_turn_def Let_def split: if_splits intro: advances_trans advances_dequeue)
  then show ?thesis using assms(1) True by (auto simp: poll_session_turn_def Let_def split: if_splits)
next
  case False
  obtain st b where c: "claim_session_turn (rc_lease_seconds cfg) now (ar_session_id r) (ar_run_id r) token (ry_store s) = (st, b)"
    by fastforce
  have rec: "rs_records st = rs_records (ry_store s)" using cache_claims(1) [OF c] .
  have "advances s (s\<lparr>ry_store := st'\<rparr>)" if "rs_records st' = rs_records (ry_store s)" for st'
    by (rule advances_store, rule cache_same_records [OF logged_cache], assumption, rule that)
  then show ?thesis
    using assms False c rec by (auto simp: poll_session_turn_def split: bool.splits option.splits if_splits)
qed

lemma load_advances:
  assumes "load_agent_run cfg i s = (s', found)"
  shows "advances s s' \<and> (\<forall>r. found = Some r \<longrightarrow> logged s \<longrightarrow> up_to_date s' r)"
proof (cases "store_get i (ry_store s)")
  case (Some r)
  then show ?thesis using assms cached_up_to_date by (auto simp: load_agent_run_def)
next
  case None
  show ?thesis
  proof (cases "get_durable_run i (ry_runs s)")
    case (Some d)
    let ?r = "durable_run_to_record d"
    have u: "logged s \<Longrightarrow> up_to_date s ?r" using row_up_to_date get_runD [OF Some] by blast
    obtain st r' b where c: "create_or_get_and_enqueue (rc_digest cfg) ?r (ry_store s) = (st, r', b)" by (metis prod_cases3)
    have k: "logged s \<Longrightarrow> cache_ok s st \<and> up_to_date s r'" using cache_enqueue [OF c logged_cache] u by blast
    then have "advances s (s\<lparr>ry_store := st\<rparr>)" by (intro advances_store) simp
    then show ?thesis using assms None Some c k u by (auto simp: load_agent_run_def Let_def split: if_splits)
  qed (use assms None in \<open>simp add: load_agent_run_def\<close>)
qed

lemma enter_advances:
  assumes "enter_agent_run cfg now i s = Inr (s', found)"
  shows "advances s s' \<and> (\<forall>r. found = ExecWaiting r \<longrightarrow> logged s \<longrightarrow> up_to_date s' r)"
proof -
  obtain s1 got where l: "load_agent_run cfg i s = (s1, got)" by fastforce
  note a1 = load_advances [OF l]
  show ?thesis
  proof (cases got)
    case (Some r)
    show ?thesis
    proof (cases "logged s \<and> ar_status r \<notin> set TERMINAL_AGENT_RUN_STATUSES \<and> ar_status r = ABORTING")
      case True
      have u: "up_to_date s1 r" using a1 Some True by simp
      obtain s2 where m: "mark_aborted cfg now r ''recovered_abort_intent'' s1 = Inr s2"
        and s': "s' = s2\<lparr>ry_store := remove_from_session_queue (ar_session_id r) (ar_run_id r) (ry_store s2)\<rparr>"
        and found: "found = ExecAborted"
        using assms l Some True by (auto simp: enter_agent_run_def)
      show ?thesis unfolding s' found
        using advances_trans [OF conjunct1 [OF a1] advances_trans [OF mark_aborted_advances [OF m u] advances_dequeue(1)]] by simp
    next
      case False
      then show ?thesis using assms l Some a1 by (cases "logged s") (auto simp: enter_agent_run_def advances_def split: if_splits)
    qed
  qed (use assms l a1 in \<open>auto simp: enter_agent_run_def\<close>)
qed

lemma begin_advances:
  assumes "begin_agent_run cfg now token r s = Inr (s', found)" and "logged s \<Longrightarrow> up_to_date s r"
  shows "advances s s' \<and> (\<forall>r'. found = Some r' \<longrightarrow> logged s \<longrightarrow> up_to_date s' r')"
proof (cases "is_abort_requested (ar_run_id r) (ry_store s)")
  case True
  then show ?thesis
    using assms(1) mark_aborted_advances [OF _ assms(2), of cfg now "''abort_before_start''"]
    by (auto simp: begin_agent_run_def intro: advances_trans advances_dequeue)
next
  case False
  let ?r1 = "r\<lparr>ar_status := RUN_RUNNING, ar_attempt_count := ar_attempt_count r + 1, ar_started_at := Some now\<rparr>"
  have s': "s' = save_record cfg now ?r1 True [] s" "found = Some ?r1"
    using assms(1) False by (auto simp: begin_agent_run_def Let_def)
  have u: "logged s \<Longrightarrow> up_to_date s ?r1" using assms(2) by simp
  have "advances s s'" unfolding s' by (rule save_record_advances) (rule u)
  then show ?thesis using advances_up_to_date [of s s' ?r1] u s'(2) by auto
qed

lemma finish_advances:
  assumes "finish_agent_run cfg now type_name token r events ending s = (s', x)"
  shows "advances s s'"
proof -
  obtain s1 kept failed where 1: "append_events cfg now (ar_run_id r) events s = (s1, kept, failed)" by (metis prod_cases3)
  let ?ended = "case failed of None \<Rightarrow> ending | Some e \<Rightarrow> StreamRaised e"
  obtain s2 kept2 failed2 where 2: "append_events cfg now (ar_run_id r) (ending_events now type_name ?ended) s1 = (s2, kept2, failed2)"
    by (metis prod_cases3)
  let ?s3 = "s2\<lparr>ry_store := release_session_turn (ar_session_id r) (ar_run_id r) token (ry_store s2)\<rparr>"
  have a3: "advances s ?s3"
    by (rule advances_trans [OF advances_appends [OF 1] advances_trans [OF advances_appends [OF 2] advances_dequeue(2)]])
  show ?thesis
  proof (cases "store_get (ar_run_id r) (ry_store ?s3)")
    case None
    then show ?thesis using assms 1 2 a3 by (auto simp: finish_agent_run_def Let_def split_beta)
  next
    case (Some latest)
    obtain st er answer where s': "s' = save_record cfg now (latest\<lparr>ar_status := st, ar_error := er, ar_completed_at := Some now\<rparr>) False answer ?s3"
      using assms 1 2 Some by (auto simp: finish_agent_run_def Let_def split_beta)
    show ?thesis unfolding s'
      by (rule advances_trans [OF a3], rule save_record_advances) (use cached_up_to_date [OF _ Some] in simp)
  qed
qed

lemma require_up_to_date:
  "require_owned_run i user s = Inr r \<Longrightarrow> logged s \<Longrightarrow> up_to_date s r"
  by (auto simp: require_owned_run_def cached_up_to_date row_up_to_date dest!: get_runD split: option.splits if_splits)

lemma abort_advances:
  assumes "request_run_abort cfg now r s = Inr (s', r')" and u: "logged s \<Longrightarrow> up_to_date s r"
  shows "advances s s' \<and> (logged s \<longrightarrow> up_to_date s' r')"
proof (cases "logged s \<and> ar_status r \<notin> set TERMINAL_AGENT_RUN_STATUSES")
  case False
  then show ?thesis using assms by (auto simp: request_run_abort_def advances_def log_grows_refl)
next
  case True
  obtain st tr where t: "transition_to_aborting (ar_run_id r) (ry_store s) = (st, tr)" by fastforce
  obtain r1 where r1: "r1 = (case tr of Some t \<Rightarrow> t | None \<Rightarrow> r\<lparr>ar_status := ABORTING\<rparr>)" by blast
  let ?r2 = "r1\<lparr>ar_status := ABORTED, ar_completed_at := Some now\<rparr>"
  let ?s1 = "s\<lparr>ry_store := st\<rparr>"
  let ?s2 = "?s1\<lparr>ry_store := remove_from_session_queue (ar_session_id ?r2) (ar_run_id ?r2) (store_save ?r2 (ry_store ?s1))\<rparr>"
  note c = cache_aborting [OF t logged_cache [OF conjunct1 [OF True]]]
  have a1: "advances s ?s1" by (rule advances_store) (use c in blast)
  have l1: "logged ?s1" using a1 True by (simp add: advances_def)
  have u1: "up_to_date ?s1 r1" using c u True unfolding r1 by (simp split: option.split)
  obtain s4 r4 where s4: "s' = s4\<lparr>ry_runs := save_durable_run now r4 False (ry_runs s4)\<rparr>" "r' = r4"
    and d: "if ar_started_at r = None
      then append_run_event cfg now (ar_run_id ?r2) (event_rag_progress now EV_RUN_CANCELLED ''cancelled'' (Some (ar_run_id ?r2))
            [(''loop_index'', JInt 0), (''loop_reason'', JStr ''abort_while_queued'')]) ?s2 = Inr s4 \<and>
          r4 = (case store_get (ar_run_id ?r2) (ry_store s4) of Some l \<Rightarrow> l | None \<Rightarrow> ?r2)
      else s4 = ?s1 \<and> r4 = r1"
  proof -
    from assms(1) True t have "\<exists>q. (if ar_started_at r = None then ebind (append_run_event cfg now (ar_run_id ?r2)
            (event_rag_progress now EV_RUN_CANCELLED ''cancelled'' (Some (ar_run_id ?r2))
              [(''loop_index'', JInt 0), (''loop_reason'', JStr ''abort_while_queued'')]) ?s2)
          (\<lambda>s3. Inr (s3, case store_get (ar_run_id ?r2) (ry_store s3) of Some l \<Rightarrow> l | None \<Rightarrow> ?r2))
        else Inr (?s1, r1)) = Inr q \<and> (s', r') = (case q of (s4, r4) \<Rightarrow> (s4\<lparr>ry_runs := save_durable_run now r4 False (ry_runs s4)\<rparr>, r4))"
      unfolding request_run_abort_def Let_def t split r1 [symmetric] by (simp only: if_False ebind_Inr_iff) (force split: prod.splits)
    then obtain q where q: "(if ar_started_at r = None then ebind (append_run_event cfg now (ar_run_id ?r2)
            (event_rag_progress now EV_RUN_CANCELLED ''cancelled'' (Some (ar_run_id ?r2))
              [(''loop_index'', JInt 0), (''loop_reason'', JStr ''abort_while_queued'')]) ?s2)
          (\<lambda>s3. Inr (s3, case store_get (ar_run_id ?r2) (ry_store s3) of Some l \<Rightarrow> l | None \<Rightarrow> ?r2))
        else Inr (?s1, r1)) = Inr q" "(s', r') = (case q of (s4, r4) \<Rightarrow> (s4\<lparr>ry_runs := save_durable_run now r4 False (ry_runs s4)\<rparr>, r4))"
      by blast
    obtain s4 r4 where qq: "q = (s4, r4)" by fastforce
    show thesis by (rule that [of r4 s4]) (use q qq in \<open>auto split: if_splits\<close>)
  qed
  have a4: "advances ?s1 s4 \<and> up_to_date s4 r4"
  proof (cases "ar_started_at r = None")
    case True
    have a2: "advances ?s1 ?s2"
    proof (rule advances_store)
      show "cache_ok ?s1 (remove_from_session_queue (ar_session_id ?r2) (ar_run_id ?r2) (store_save ?r2 (ry_store ?s1)))"
        by (rule cache_same_records [OF cache_save [OF logged_cache [OF l1]]]) (use u1 in simp_all)
    qed
    have a3: "advances ?s2 s4" using d [unfolded if_P [OF True], THEN conjunct1] by (rule advances_append)
    note a24 = advances_trans [OF a2 a3]
    have l4: "logged s4" using a24 l1 by (simp add: advances_def)
    have "up_to_date s4 ?r2" using advances_up_to_date [OF a24 l1, of ?r2] u1 by simp
    then show ?thesis using a24 d True cached_up_to_date [OF l4] by (simp split: option.split)
  qed (use d u1 in simp)
  have "advances s4 s'" unfolding s4(1) by (rule advances_save_durable) (use a4 in blast)
  moreover have "logged s4" using a4 l1 by (simp add: advances_def)
  ultimately show ?thesis
    using advances_trans [OF advances_trans [OF a1 conjunct1 [OF a4]]] advances_up_to_date a4 s4(2) by blast
qed

lemma dispatch_job_advances:
  assumes "dispatch_heartbeat_job cfg local_time now uid job occurrence force s = Inr (s', run)"
  shows "advances s s'"
proof -
  have set_job: "advances a (set_job j a)" for a j by (simp add: set_job_def)
  show ?thesis
  proof (cases "\<not> hb_enabled job \<or> (\<not> force \<and> \<not> heartbeat_is_active local_time now job)")
    case True
    then show ?thesis using assms set_job by (auto simp: dispatch_heartbeat_job_def)
  next
    case False
    then obtain job1 r s1 r1 created published job2 where
      "submit_agent_run cfg now r (set_job job1 s) = Inr (s1, r1, created, published)" "s' = set_job job2 s1"
      using assms unfolding dispatch_heartbeat_job_def Let_def split_beta ebind_Inr_iff if_not_P [OF False] by auto
    then show ?thesis using advances_trans [OF set_job advances_trans [OF _ set_job]] submit_advances by blast
  qed
qed

lemma dispatch_jobs_advances:
  "dispatch_jobs cfg local_time now uid is s = Inr (s', n) \<Longrightarrow> advances s s'"
proof (induction "is" arbitrary: s n)
  case (Cons i "is")
  show ?case
  proof (cases "get_heartbeat_job i None (ry_jobs s)")
    case (Some job)
    obtain s1 run m where "dispatch_heartbeat_job cfg local_time now (uid i) job
        (''scheduled:'' @ py_str_int ((case hb_last_run_at job of Some t \<Rightarrow> t | None \<Rightarrow> now) div 1000000)) False s = Inr (s1, run)"
      and "dispatch_jobs cfg local_time now uid is s1 = Inr (s', m)"
      using Cons.prems Some by auto
    then show ?thesis using advances_trans [OF dispatch_job_advances Cons.IH] by blast
  qed (use Cons in simp)
qed simp

lemma heartbeats_advance:
  assumes "dispatch_due_heartbeat_jobs cfg local_time now uid batch s = Inr (s', n)"
  shows "advances s s'"
proof -
  obtain jobs claimed where c: "claim_due_heartbeat_jobs now batch (ry_jobs s) = (jobs, claimed)" by fastforce
  obtain "is" where "dispatch_jobs cfg local_time now uid is (s\<lparr>ry_jobs := jobs\<rparr>) = Inr (s', n)"
    using assms c by (auto simp: dispatch_due_heartbeat_jobs_def Let_def)
  from advances_trans [OF advances_other(1) dispatch_jobs_advances [OF this]] show ?thesis .
qed

subsection \<open>The invariant\<close>

definition copies_logged :: "run_sys \<times> agent_run_record list \<Rightarrow> bool" where
  "copies_logged w \<longleftrightarrow> logged (fst w) \<and> (\<forall>r\<in>set (snd w). up_to_date (fst w) r)"

lemma copies_advance:
  assumes "copies_logged (s, C)" and "advances s s'" and "\<And>r. r \<in> set C' \<Longrightarrow> r \<notin> set C \<Longrightarrow> up_to_date s' r"
  shows "copies_logged (s', C') \<and> log_grows s s'"
  using assms advances_up_to_date [OF assms(2)] by (auto simp: copies_logged_def advances_def)

lemma run_step_logged:
  assumes "run_step cfg w w'" and "copies_logged w"
  shows "copies_logged w' \<and> log_grows (fst w) (fst w')"
proof -
  have l: "logged (fst w)" and u: "r \<in> set (snd w) \<Longrightarrow> up_to_date (fst w) r" for r
    using assms(2) by (auto simp: copies_logged_def)
  show ?thesis
    using assms(1)
  proof cases
    case (Log_submitted r t uid i sid user req q k mode ex ty tid maxa now s s' r' created published C)
    note a = submit_advances [OF Log_submitted(4)]
    show ?thesis unfolding Log_submitted(1,2) fst_conv
      by (rule copies_advance [OF assms(2) [unfolded Log_submitted(1)] conjunct1 [OF a]]) (use a l Log_submitted(1) in auto)
  next
    case (Log_recovered now s s' published n C)
    show ?thesis unfolding Log_recovered(1,2) fst_conv
      by (rule copies_advance [OF assms(2) [unfolded Log_recovered(1)] recover_advances [OF Log_recovered(3)]]) simp
  next
    case (Log_entered now i s s' found C)
    note a = enter_advances [OF Log_entered(3)]
    show ?thesis unfolding Log_entered(1,2) fst_conv
      by (rule copies_advance [OF assms(2) [unfolded Log_entered(1)] conjunct1 [OF a]])
        (use a l Log_entered(1) in \<open>auto split: exec_entry.splits\<close>)
  next
    case (Log_polled r C started now token s s' poll)
    have "logged s \<Longrightarrow> up_to_date s r" using u Log_polled by simp
    note a = poll_advances [OF Log_polled(4) this]
    show ?thesis unfolding Log_polled(1,2) fst_conv
      by (rule copies_advance [OF assms(2) [unfolded Log_polled(1)] conjunct1 [OF a]])
        (use a l Log_polled(1) in \<open>auto split: turn_poll.splits\<close>)
  next
    case (Log_begun r C now token s s' found)
    have "logged s \<Longrightarrow> up_to_date s r" using u Log_begun by simp
    note a = begin_advances [OF Log_begun(4) this]
    show ?thesis unfolding Log_begun(1,2) fst_conv
      by (rule copies_advance [OF assms(2) [unfolded Log_begun(1)] conjunct1 [OF a]])
        (use a l Log_begun(1) in \<open>auto split: option.splits\<close>)
  next
    case (Log_event now i e s s' C)
    show ?thesis unfolding Log_event(1,2) fst_conv
      by (rule copies_advance [OF assms(2) [unfolded Log_event(1)] advances_append [OF Log_event(3)]]) simp
  next
    case (Log_finished r C now type_name token events ending s s' x)
    show ?thesis unfolding Log_finished(1,2) fst_conv
      by (rule copies_advance [OF assms(2) [unfolded Log_finished(1)] finish_advances [OF Log_finished(4)]]) simp
  next
    case (Log_copied i s r C)
    show ?thesis unfolding Log_copied(1,2) fst_conv
      by (rule copies_advance [OF assms(2) [unfolded Log_copied(1)] advances_refl])
        (use l Log_copied cached_up_to_date in auto)
  next
    case (Log_saved r C now touch answer s)
    show ?thesis unfolding Log_saved(1,2) fst_conv
      by (rule copies_advance [OF assms(2) [unfolded Log_saved(1)] save_record_advances]) (use u Log_saved in simp_all)
  next
    case (Log_cached r C s)
    show ?thesis unfolding Log_cached(1,2) fst_conv
      by (rule copies_advance [OF assms(2) [unfolded Log_cached(1)] advances_save]) (use u Log_cached in simp_all)
  next
    case (Log_row_saved r C s now touch)
    show ?thesis unfolding Log_row_saved(1,2) fst_conv
      by (rule copies_advance [OF assms(2) [unfolded Log_row_saved(1)] advances_save_durable]) (use u Log_row_saved in simp_all)
  next
    case (Log_renewed ttl now sid token s st b C)
    have "advances s (s\<lparr>ry_store := st\<rparr>)"
      by (rule advances_store, rule cache_same_records [OF logged_cache], assumption) (rule cache_claims(2) [OF Log_renewed(3)])
    then show ?thesis unfolding Log_renewed(1,2) fst_conv
      by (rule copies_advance [OF assms(2) [unfolded Log_renewed(1)]]) simp
  next
    case (Log_required i user s r C)
    show ?thesis unfolding Log_required(1,2) fst_conv
      by (rule copies_advance [OF assms(2) [unfolded Log_required(1)] advances_refl])
        (use l Log_required require_up_to_date in auto)
  next
    case (Log_aborted r C now s s' r')
    have "logged s \<Longrightarrow> up_to_date s r" using u Log_aborted by simp
    note a = abort_advances [OF Log_aborted(4) this]
    show ?thesis unfolding Log_aborted(1,2) fst_conv
      by (rule copies_advance [OF assms(2) [unfolded Log_aborted(1)] conjunct1 [OF a]]) (use a l Log_aborted(1) in auto)
  next
    case (Log_heartbeats local_time now uids batch s s' n C)
    show ?thesis unfolding Log_heartbeats(1,2) fst_conv
      by (rule copies_advance [OF assms(2) [unfolded Log_heartbeats(1)] heartbeats_advance [OF Log_heartbeats(3)]]) simp
  qed
qed

lemma run_steps_logged:
  assumes "(run_step cfg)\<^sup>*\<^sup>* w w'" and "copies_logged w"
  shows "copies_logged w' \<and> log_grows (fst w) (fst w')"
  using assms(1)
proof (induction rule: rtranclp_induct)
  case (step w1 w2)
  then show ?case using run_step_logged log_grows_trans by blast
qed (simp add: assms(2) log_grows_refl)

lemma run_reachable_logged: "run_reachable cfg w \<Longrightarrow> copies_logged w"
proof -
  have "copies_logged (no_runs jobs, [])" for jobs
    by (simp add: copies_logged_def logged_def no_runs_def log_ok_def get_durable_run_def run_rows_def cache_ok_def
        keyed_store_def store_get_def empty_store_def bounded_rows_def)
  then show "run_reachable cfg w \<Longrightarrow> copies_logged w" unfolding run_reachable_def using run_steps_logged by blast
qed

subsection \<open>Replay\<close>

lemma logged_rows:
  assumes "logged s" and "get_durable_run i (ry_runs s) = Some r"
  shows "map re_sequence (run_rows i (ry_rows s)) = map Some [1..dr_last_event_sequence r]" and "0 \<le> dr_last_event_sequence r"
  using assms unfolding logged_def log_ok_def by (auto dest!: spec [of _ i])

lemma listed_rows:
  assumes "map re_sequence (run_rows i rows) = map Some [1..m]"
  shows "list_durable_runtime_events i c rows =
    map (\<lambda>row. replayed_event i (the (re_sequence row)) row) (filter (\<lambda>row. c < the (re_sequence row)) (run_rows i rows))"
proof -
  have some: "re_sequence row \<noteq> None" if "row \<in> set (run_rows i rows)" for row
  proof -
    have "re_sequence row \<in> set (map Some [1..m])" using that assms [symmetric] by simp
    then show ?thesis by auto
  qed
  have "filter (\<lambda>row. re_run_id row = i \<and> (case re_sequence row of None \<Rightarrow> False | Some n \<Rightarrow> n > c)) rows =
      filter (\<lambda>row. case re_sequence row of None \<Rightarrow> False | Some n \<Rightarrow> n > c) (run_rows i rows)"
    by (simp add: run_rows_def conj_commute)
  also have "\<dots> = filter (\<lambda>row. c < the (re_sequence row)) (run_rows i rows)"
    by (rule filter_cong) (auto split: option.splits dest!: some)
  finally have rows: "filter (\<lambda>row. re_run_id row = i \<and> (case re_sequence row of None \<Rightarrow> False | Some n \<Rightarrow> n > c)) rows =
      filter (\<lambda>row. c < the (re_sequence row)) (run_rows i rows)" .
  have "map (\<lambda>row. the (re_sequence row)) (run_rows i rows) = map the (map re_sequence (run_rows i rows))" by simp
  also have "\<dots> = [1..m]" unfolding assms by (simp add: comp_def)
  finally have "sorted (map (\<lambda>row. the (re_sequence row)) (run_rows i rows))" by simp
  then have "sort_key (\<lambda>row. the (re_sequence row)) (filter (\<lambda>row. c < the (re_sequence row)) (run_rows i rows)) =
      filter (\<lambda>row. c < the (re_sequence row)) (run_rows i rows)"
    by (intro sort_key_id_if_sorted sorted_filter)
  then show ?thesis unfolding list_durable_runtime_events_def rows by simp
qed

lemma replayed_payload:
  "stamped row \<Longrightarrow> re_run_id row = i \<Longrightarrow>
   replayed_event i (the (re_sequence row)) row = \<lparr>se_event_id = py_str_int (the (re_sequence row)), se_event = re_payload row\<rparr>"
  by (auto simp: stamped_def replayed_event_def)

lemma list_grows:
  assumes "logged s" "logged s'" "log_grows s s'" and "get_durable_run i (ry_runs s) = Some r"
  shows "\<exists>later. list_durable_runtime_events i c (ry_rows s') = list_durable_runtime_events i c (ry_rows s) @ later"
proof (cases "get_durable_run i (ry_runs s')")
  case (Some r')
  obtain new where "ry_rows s' = ry_rows s @ new" using assms(3) by (auto simp: log_grows_def)
  then show ?thesis
    unfolding listed_rows [OF logged_rows(1) [OF assms(1,4)]] listed_rows [OF logged_rows(1) [OF assms(2) Some]]
    by (simp add: run_rows_def)
next
  case None
  obtain new where "ry_rows s' = ry_rows s @ new" using assms(3) by (auto simp: log_grows_def)
  moreover have "run_rows i (ry_rows s') = []"
    using assms(2) None unfolding logged_def log_ok_def by (auto dest!: spec [of _ i])
  ultimately have "run_rows i (ry_rows s) = []" by (simp add: run_rows_def)
  then have "list_durable_runtime_events i c (ry_rows s) = []"
    using listed_rows [OF logged_rows(1) [OF assms(1,4)]] by simp
  then show ?thesis by simp
qed

lemma append_returns:
  assumes "get_durable_run i (ry_runs s) = Some r"
  shows "\<exists>tables stored. append_durable_runtime_event now eid i e (ry_runs s, ry_rows s) = Inr (tables, stored) \<and>
    se_event stored = e\<lparr>ae_run_id := Some i, ae_sequence := Some (dr_last_event_sequence r + 1), ae_created_at := now\<rparr>"
  using assms by (simp add: append_durable_runtime_event_def Let_def with_delivery_def)

lemma append_listed_last:
  assumes "logged s" and "append_durable_runtime_event now eid i e (ry_runs s, ry_rows s) = Inr (tables, stored)"
    and "get_durable_run i (ry_runs s) = Some r" and "c \<le> dr_last_event_sequence r"
  shows "list_durable_runtime_events i c (snd tables) = list_durable_runtime_events i c (ry_rows s) @ [stored]"
proof -
  note old = logged_rows [OF assms(1,3)]
  from assms(2) show ?thesis
  proof (cases rule: append_cases)
    case (1 run row)
    then have run: "run = r" using assms(3) by simp
    have "map re_sequence (run_rows i (snd tables)) = map Some [1..dr_last_event_sequence r + 1]"
      using 1 run old by (simp add: upto_snoc)
    moreover have "replayed_event i (the (re_sequence row)) row = stored"
      using 1 run by (simp add: replayed_event_def with_delivery_def)
    ultimately show ?thesis
      unfolding listed_rows [OF old(1)] using 1 run assms(4) listed_rows [of i "snd tables" _ c] by simp
  qed
qed

text \<open>
  C15. Replay from a cursor is complete, in order and stable. After any history of the run lifecycle (submissions,
  recoveries, workers with stale copies, saves, aborts, heartbeats), listing the events of a run after sequence c gives
  the stored payloads of exactly the events c+1 up to the run's last sequence, each once, in order, under its own number
  and stamped with the run's id. Appending an event always succeeds and makes precisely that event the end of the
  listing, and whatever happens later only adds events at the end.
\<close>

theorem event_replay_complete:
  assumes "run_reachable cfg (s, C)" and "get_durable_run i (ry_runs s) = Some r" and "0 \<le> c"
    and "(run_step cfg)\<^sup>*\<^sup>* (s, C) (s', C')"
  shows "let listed = list_durable_runtime_events i c (ry_rows s) in
    listed = map (\<lambda>row. \<lparr>se_event_id = py_str_int (the (re_sequence row)), se_event = re_payload row\<rparr>)
      (filter (\<lambda>row. re_run_id row = i \<and> c < the (re_sequence row)) (ry_rows s)) \<and>
    map se_event_id listed = map py_str_int [c + 1..dr_last_event_sequence r] \<and>
    map (\<lambda>e. ae_sequence (se_event e)) listed = map Some [c + 1..dr_last_event_sequence r] \<and>
    (\<forall>e\<in>set listed. ae_run_id (se_event e) = Some i) \<and>
    (\<exists>later. list_durable_runtime_events i c (ry_rows s') = listed @ later) \<and>
    (\<exists>tables stored. append_durable_runtime_event now eid i e (ry_runs s, ry_rows s) = Inr (tables, stored) \<and>
      se_event stored = e\<lparr>ae_run_id := Some i, ae_sequence := Some (dr_last_event_sequence r + 1), ae_created_at := now\<rparr> \<and>
      (c \<le> dr_last_event_sequence r \<longrightarrow> list_durable_runtime_events i c (snd tables) = listed @ [stored]))"
proof -
  let ?listed = "list_durable_runtime_events i c (ry_rows s)"
  have "copies_logged (s, C)" using run_reachable_logged [OF assms(1)] .
  then have l: "logged s" "logged s'" "log_grows s s'"
    using run_steps_logged [OF assms(4)] by (simp_all add: copies_logged_def)
  note rows = logged_rows(1) [OF l(1) assms(2)]
  have stamps: "stamped row" if "row \<in> set (ry_rows s)" for row using l(1) that by (simp add: logged_def list_all_iff)
  have split: "filter (\<lambda>row. re_run_id row = i \<and> c < the (re_sequence row)) (ry_rows s) =
      filter (\<lambda>row. c < the (re_sequence row)) (run_rows i (ry_rows s))" by (simp add: run_rows_def conj_commute)
  have payloads: "?listed = map (\<lambda>row. \<lparr>se_event_id = py_str_int (the (re_sequence row)), se_event = re_payload row\<rparr>)
      (filter (\<lambda>row. re_run_id row = i \<and> c < the (re_sequence row)) (ry_rows s))"
    unfolding listed_rows [OF rows] split
    by (rule map_cong [OF refl], rule replayed_payload) (auto simp: run_rows_def stamps)
  have seqs: "map (\<lambda>e. ae_sequence (se_event e)) ?listed = map Some [c + 1..dr_last_event_sequence r]"
    by (rule list_events_sequences [OF rows assms(3)])
  have "map se_event_id ?listed = map (\<lambda>e. py_str_int (the (ae_sequence (se_event e)))) ?listed"
    by (simp add: list_durable_runtime_events_def)
  also have "\<dots> = map (\<lambda>q. py_str_int (the q)) (map (\<lambda>e. ae_sequence (se_event e)) ?listed)" by simp
  also have "\<dots> = map py_str_int [c + 1..dr_last_event_sequence r]" unfolding seqs by simp
  finally have ids: "map se_event_id ?listed = map py_str_int [c + 1..dr_last_event_sequence r]" .
  have "\<forall>e\<in>set ?listed. ae_run_id (se_event e) = Some i" by (auto simp: list_durable_runtime_events_def)
  with payloads seqs ids list_grows [OF l assms(2)] append_returns [OF assms(2)] append_listed_last [OF l(1) _ assms(2)]
  show ?thesis unfolding Let_def by blast
qed

theorem event_replay_complete_witness:
  "case submit_agent_run sample_cfg 5 (sample_record ''r1'') (no_runs []) of
     Inl _ \<Rightarrow> False
   | Inr (s, r, created, published) \<Rightarrow>
       map se_event_id (list_durable_runtime_events ''r1'' 0 (ry_rows s)) = [''1''] \<and>
       (\<exists>tables stored. append_durable_runtime_event 9 ''e'' ''r1'' (event_assistant_delta 8 ''hello'' []) (ry_runs s, ry_rows s) = Inr (tables, stored) \<and>
         ae_content (se_event stored) = ''hello'' \<and>
         list_durable_runtime_events ''r1'' 0 (snd tables) = list_durable_runtime_events ''r1'' 0 (ry_rows s) @ [stored])"
proof -
  let ?sub = "submit_agent_run sample_cfg 5 (sample_record ''r1'') (no_runs [])"
  have v: "case ?sub of Inl _ \<Rightarrow> False
    | Inr (s, _) \<Rightarrow> map_option dr_last_event_sequence (get_durable_run ''r1'' (ry_runs s)) = Some 1" by code_simp
  then obtain s r created published where sub: "?sub = Inr (s, r, created, published)"
    by (auto split: sum.splits)
  then obtain d where d: "get_durable_run ''r1'' (ry_runs s) = Some d" "dr_last_event_sequence d = 1" using v by auto
  have "run_step sample_cfg (no_runs [], []) (s, [r])"
    by (rule Log_submitted [OF sample_record_def [of "''r1''"] sub])
  then have reach: "run_reachable sample_cfg (s, [r])" unfolding run_reachable_def by blast
  have one: "py_str_int 1 = ''1''" by code_simp
  have hello: "ae_content (event_assistant_delta 8 ''hello'' []) = ''hello''"
    by (simp add: event_assistant_delta_def pop_optional_string_def)
  from event_replay_complete [OF reach d(1) order_refl rtranclp.rtrancl_refl, of 9 "''e''" "event_assistant_delta 8 ''hello'' []"] d(2) hello
  show ?thesis unfolding sub by (auto simp: Let_def one)
qed

end
