(* ===== verification/Fences.thy ===== *)
theory Fences
  imports Tables
begin

text \<open>
  Source deletion fences: \<open>memoria/server/services/deletion_fences.py\<close> and its table. A deletion event
  raises the fence of each source it names; an event at or below a fence of its sources is late and is
  blocked. \<open>digest\<close> is SHA-256 of the compact JSON of its argument. Batches of 1000 keys per statement
  are one fold over the sources.
\<close>

record agent_envelope =
  en_event_id :: string
  en_event_type :: string
  en_occurred_at :: instant
  en_owner_id :: int
  en_knowledge_base_id :: "string option"
  en_payload :: "(string \<times> json) list"

datatype fence_source = FenceSource (fs_type: string) (fs_id: string)

record 'k deletion_fence =
  df_fence_key :: 'k
  df_owner_id :: int
  df_knowledge_base_id :: "string option"
  df_source_type :: string
  df_source_id :: string
  df_deleted_at :: instant
  df_delete_event_id :: string

definition fence_key :: "(json \<Rightarrow> 'k) \<Rightarrow> int \<Rightarrow> string option \<Rightarrow> fence_source \<Rightarrow> 'k" where
  "fence_key digest owner kb source =
     digest (JList [JStr ''mneme:source-deletion-fence'', JInt 1, JInt owner, jstr_opt kb,
       JStr (fs_type source), JStr (fs_id source)])"

definition event_order :: "instant \<Rightarrow> string \<Rightarrow> instant \<times> string" where
  "event_order occurred_at event_id = (occurred_at, event_id)"

definition fence_order :: "'k deletion_fence \<Rightarrow> instant \<times> string" where
  "fence_order f = event_order (df_deleted_at f) (df_delete_event_id f)"

definition sources_with_knowledge_base :: "agent_envelope \<Rightarrow> fence_source list \<Rightarrow> fence_source list" where
  "sources_with_knowledge_base event sources =
     uniq (sources @ (case en_knowledge_base_id event of None \<Rightarrow> [] | Some kb \<Rightarrow> [FenceSource ''knowledge_base'' kb]))"

definition event_is_blocked_by_deletion ::
  "(json \<Rightarrow> 'k) \<Rightarrow> agent_envelope \<Rightarrow> fence_source list \<Rightarrow> 'k deletion_fence list \<Rightarrow> bool" where
  "event_is_blocked_by_deletion digest event sources rows =
     (let keys = map (fence_key digest (en_owner_id event) (en_knowledge_base_id event))
            (sources_with_knowledge_base event sources)
      in list_ex (\<lambda>f. df_fence_key f \<in> set keys \<and>
            fence_order f \<ge> event_order (en_occurred_at event) (en_event_id event)) rows)"

definition fence_of :: "(json \<Rightarrow> 'k) \<Rightarrow> agent_envelope \<Rightarrow> fence_source \<Rightarrow> 'k deletion_fence" where
  "fence_of digest event source =
     \<lparr>df_fence_key = fence_key digest (en_owner_id event) (en_knowledge_base_id event) source,
      df_owner_id = en_owner_id event, df_knowledge_base_id = en_knowledge_base_id event,
      df_source_type = fs_type source, df_source_id = fs_id source,
      df_deleted_at = en_occurred_at event, df_delete_event_id = en_event_id event\<rparr>"

text \<open>The INSERT ... ON CONFLICT DO UPDATE ... WHERE of one source.\<close>

definition upsert_fence :: "'k deletion_fence \<Rightarrow> 'k deletion_fence list \<Rightarrow> 'k deletion_fence list" where
  "upsert_fence new rows =
     (case find (\<lambda>f. df_fence_key f = df_fence_key new) rows of
        None \<Rightarrow> rows @ [new]
      | Some old \<Rightarrow>
          if df_deleted_at new > df_deleted_at old \<or>
             df_deleted_at new = df_deleted_at old \<and> df_delete_event_id new > df_delete_event_id old
          then update_where (\<lambda>f. df_fence_key f = df_fence_key new)
            (\<lambda>f. f\<lparr>df_deleted_at := df_deleted_at new, df_delete_event_id := df_delete_event_id new\<rparr>) rows
          else rows)"

definition advance_deletion_fences ::
  "(json \<Rightarrow> 'k) \<Rightarrow> agent_envelope \<Rightarrow> fence_source \<Rightarrow> fence_source list \<Rightarrow> 'k deletion_fence list
   \<Rightarrow> 'k deletion_fence list \<times> bool" where
  "advance_deletion_fences digest event primary additional rows =
     (let key = fence_key digest (en_owner_id event) (en_knowledge_base_id event) primary;
          current = find (\<lambda>f. df_fence_key f = key) rows;
          incoming = event_order (en_occurred_at event) (en_event_id event)
      in if (case current of None \<Rightarrow> False | Some f \<Rightarrow> fence_order f \<ge> incoming) then (rows, False)
         else (foldl (\<lambda>rows s. upsert_fence (fence_of digest event s) rows) rows (uniq (primary # additional)), True))"

subsection \<open>Fences as a monotone map\<close>

definition fence_at :: "'k \<Rightarrow> 'k deletion_fence list \<Rightarrow> (instant \<times> string) option" where
  "fence_at k rows = map_option fence_order (find (\<lambda>f. df_fence_key f = k) rows)"

definition event_stamp :: "agent_envelope \<Rightarrow> instant \<times> string" where
  "event_stamp e = event_order (en_occurred_at e) (en_event_id e)"

lemma upsert_newer:
  "(df_deleted_at new > df_deleted_at old \<or>
    df_deleted_at new = df_deleted_at old \<and> df_delete_event_id new > df_delete_event_id old)
   \<longleftrightarrow> fence_order old < fence_order new"
  by (auto simp: fence_order_def event_order_def less_prod_def)

lemma fence_at_upsert:
  "fence_at k (upsert_fence new rows) =
     (if k = df_fence_key new
      then Some (case fence_at k rows of None \<Rightarrow> fence_order new | Some old \<Rightarrow> max old (fence_order new))
      else fence_at k rows)"
proof (cases "find (\<lambda>f. df_fence_key f = df_fence_key new) rows")
  case None
  then show ?thesis by (auto simp: upsert_fence_def fence_at_def find_app split: option.splits)
next
  case (Some old)
  let ?f = "\<lambda>f. f\<lparr>df_deleted_at := df_deleted_at new, df_delete_event_id := df_delete_event_id new\<rparr>"
  have upd: "find (\<lambda>f. df_fence_key f = k) (update_where (\<lambda>f. df_fence_key f = df_fence_key new) ?f rows) =
      map_option (\<lambda>r. if df_fence_key r = df_fence_key new then ?f r else r) (find (\<lambda>f. df_fence_key f = k) rows)"
    by (rule find_update_where) simp
  have key: "df_fence_key old = df_fence_key new" using Some by (auto dest: find_SomeD)
  have ord: "fence_order (?f old) = fence_order new" by (simp add: fence_order_def)
  have other: "df_fence_key r = k" if "find (\<lambda>f. df_fence_key f = k) rows = Some r" for r
    using that by (auto dest: find_SomeD)
  show ?thesis
  proof (cases "fence_order old < fence_order new")
    case True
    then have "upsert_fence new rows = update_where (\<lambda>f. df_fence_key f = df_fence_key new) ?f rows"
      using Some upsert_newer by (auto simp: upsert_fence_def)
    moreover have "fence_at k (update_where (\<lambda>f. df_fence_key f = df_fence_key new) ?f rows) =
        (if k = df_fence_key new then Some (fence_order new) else fence_at k rows)"
    proof (cases "k = df_fence_key new")
      case True
      then show ?thesis using upd Some key ord by (simp add: fence_at_def)
    next
      case False
      have "map_option (\<lambda>r. if df_fence_key r = df_fence_key new then ?f r else r)
          (find (\<lambda>f. df_fence_key f = k) rows) = find (\<lambda>f. df_fence_key f = k) rows"
      proof (cases "find (\<lambda>f. df_fence_key f = k) rows")
        case (Some r)
        then have "df_fence_key r \<noteq> df_fence_key new" using other [OF Some] False by simp
        then show ?thesis using Some by simp
      qed simp
      then show ?thesis using False unfolding fence_at_def upd by simp
    qed
    moreover have "fence_at (df_fence_key new) rows = Some (fence_order old)"
      using Some by (simp add: fence_at_def)
    ultimately show ?thesis using True less_imp_le [OF True] by (simp add: max_def)
  next
    case False
    then have "upsert_fence new rows = rows"
      using Some upsert_newer by (auto simp: upsert_fence_def)
    then show ?thesis using Some False by (auto simp: fence_at_def max_def)
  qed
qed

lemma distinct_upsert:
  "distinct (map df_fence_key rows) \<Longrightarrow> distinct (map df_fence_key (upsert_fence new rows))"
  by (auto simp: upsert_fence_def map_update_where find_None_iff split: option.split)

definition raise_to :: "instant \<times> string \<Rightarrow> (instant \<times> string) option \<Rightarrow> (instant \<times> string) option" where
  "raise_to t c = Some (case c of None \<Rightarrow> t | Some old \<Rightarrow> max old t)"

lemma raise_to_idem [simp]: "raise_to t (raise_to t c) = raise_to t c"
  by (auto simp: raise_to_def split: option.split)

lemma fence_of_simps [simp]:
  "df_fence_key (fence_of digest e s) = fence_key digest (en_owner_id e) (en_knowledge_base_id e) s"
  "fence_order (fence_of digest e s) = event_stamp e"
  by (simp_all add: fence_of_def fence_order_def event_stamp_def)

lemma fence_at_fold:
  "fence_at k (foldl (\<lambda>rows s. upsert_fence (fence_of digest e s) rows) rows ss) =
     (if k \<in> fence_key digest (en_owner_id e) (en_knowledge_base_id e) ` set ss
      then raise_to (event_stamp e) (fence_at k rows) else fence_at k rows)"
proof (induction ss arbitrary: rows)
  case (Cons s ss)
  show ?case
    unfolding foldl_Cons Cons.IH fence_at_upsert
    by (auto simp: raise_to_def [symmetric])
qed simp

lemma distinct_fold:
  "distinct (map df_fence_key rows) \<Longrightarrow>
   distinct (map df_fence_key (foldl (\<lambda>rows s. upsert_fence (fence_of digest e s) rows) rows ss))"
  by (induction ss arbitrary: rows) (simp_all add: distinct_upsert)

lemma blocked_iff:
  assumes "distinct (map df_fence_key rows)"
  shows "event_is_blocked_by_deletion digest e sources rows \<longleftrightarrow>
    (\<exists>s\<in>set (sources_with_knowledge_base e sources). \<exists>t.
       fence_at (fence_key digest (en_owner_id e) (en_knowledge_base_id e) s) rows = Some t \<and> event_stamp e \<le> t)"
    (is "?L \<longleftrightarrow> ?R")
proof
  assume ?L
  then obtain f s where f: "f \<in> set rows" "s \<in> set (sources_with_knowledge_base e sources)"
      "df_fence_key f = fence_key digest (en_owner_id e) (en_knowledge_base_id e) s" "event_stamp e \<le> fence_order f"
    by (auto simp: event_is_blocked_by_deletion_def Let_def list_ex_iff event_stamp_def)
  have "fence_at (df_fence_key f) rows = Some (fence_order f)"
    using find_distinct_key [OF assms f(1)] by (simp add: fence_at_def)
  with f show ?R by (intro bexI [of _ s] exI [of _ "fence_order f"]) simp_all
next
  assume ?R
  then show ?L
    by (auto simp: event_is_blocked_by_deletion_def Let_def list_ex_iff event_stamp_def fence_at_def
        dest!: find_SomeD)
qed

subsection \<open>Sequences of deletions\<close>

text \<open>A deletion command is the event with its primary and additional sources.\<close>

type_synonym deletion = "agent_envelope \<times> fence_source \<times> fence_source list"

definition process_deletions :: "(json \<Rightarrow> 'k) \<Rightarrow> deletion list \<Rightarrow> 'k deletion_fence list \<Rightarrow> 'k deletion_fence list" where
  "process_deletions digest ds rows =
     foldl (\<lambda>rows (e, p, add). fst (advance_deletion_fences digest e p add rows)) rows ds"

lemma advance_cases:
  obtains (older) t where "fence_at (fence_key digest (en_owner_id e) (en_knowledge_base_id e) p) rows = Some t"
      and "event_stamp e \<le> t" and "advance_deletion_fences digest e p add rows = (rows, False)"
    | (newest) "snd (advance_deletion_fences digest e p add rows)"
      and "\<And>k. fence_at k (fst (advance_deletion_fences digest e p add rows)) =
        (if k \<in> fence_key digest (en_owner_id e) (en_knowledge_base_id e) ` set (p # add)
         then raise_to (event_stamp e) (fence_at k rows) else fence_at k rows)"
proof (cases "case find (\<lambda>f. df_fence_key f = fence_key digest (en_owner_id e) (en_knowledge_base_id e) p) rows of
    None \<Rightarrow> False | Some f \<Rightarrow> fence_order f \<ge> event_stamp e")
  case True
  then obtain f where "find (\<lambda>f. df_fence_key f = fence_key digest (en_owner_id e) (en_knowledge_base_id e) p) rows = Some f"
      "fence_order f \<ge> event_stamp e"
    by (auto split: option.splits)
  then show thesis
    by (intro older [of "fence_order f"])
      (simp_all add: fence_at_def advance_deletion_fences_def event_stamp_def)
next
  case False
  then have "advance_deletion_fences digest e p add rows =
      (foldl (\<lambda>rows s. upsert_fence (fence_of digest e s) rows) rows (uniq (p # add)), True)"
    by (simp add: advance_deletion_fences_def event_stamp_def [symmetric] Let_def del: uniq.simps)
  then show thesis by (intro newest) (simp_all add: fence_at_fold del: uniq.simps)
qed

lemma advance_distinct:
  "distinct (map df_fence_key rows) \<Longrightarrow> distinct (map df_fence_key (fst (advance_deletion_fences digest e p add rows)))"
  by (simp add: advance_deletion_fences_def Let_def distinct_fold del: uniq.simps split: option.split)

lemma advance_monotone:
  "fence_at k rows = Some t \<Longrightarrow> \<exists>t'. fence_at k (fst (advance_deletion_fences digest e p add rows)) = Some t' \<and> t \<le> t'"
  by (cases rule: advance_cases [of digest e p rows add]) (auto simp: raise_to_def simp del: split_paired_Ex)

lemma advance_primary:
  "\<exists>t. fence_at (fence_key digest (en_owner_id e) (en_knowledge_base_id e) p)
      (fst (advance_deletion_fences digest e p add rows)) = Some t \<and> event_stamp e \<le> t"
  by (cases rule: advance_cases [of digest e p rows add]) (auto simp: raise_to_def simp del: split_paired_Ex split: option.split)

lemma advance_bounded:
  assumes "fence_at k (fst (advance_deletion_fences digest e p add rows)) = Some t"
  shows "t = event_stamp e \<or> fence_at k rows = Some t"
  using assms
  by (cases rule: advance_cases [of digest e p rows add])
    (auto simp: raise_to_def max_def split: if_splits option.splits)

lemma process_snoc:
  "process_deletions digest (ds @ [(e, p, add)]) rows =
     fst (advance_deletion_fences digest e p add (process_deletions digest ds rows))"
  by (simp add: process_deletions_def)

lemma process_distinct:
  "distinct (map df_fence_key rows) \<Longrightarrow> distinct (map df_fence_key (process_deletions digest ds rows))"
  by (induction ds rule: rev_induct) (auto simp: process_snoc process_deletions_def [where ds = "[]"] advance_distinct)

lemma process_monotone:
  "fence_at k rows = Some t \<Longrightarrow> \<exists>t'. fence_at k (process_deletions digest ds rows) = Some t' \<and> t \<le> t'"
proof (induction ds rule: rev_induct)
  case (snoc d ds)
  obtain e p add where d: "d = (e, p, add)" by (cases d)
  obtain t1 where "fence_at k (process_deletions digest ds rows) = Some t1" "t \<le> t1" using snoc by blast
  then show ?case using advance_monotone unfolding d process_snoc by (meson order_trans)
qed (simp add: process_deletions_def)

lemma process_bounded:
  "fence_at k (process_deletions digest ds rows) = Some t \<Longrightarrow>
   fence_at k rows = Some t \<or> t \<in> (\<lambda>(e, p, add). event_stamp e) ` set ds"
proof (induction ds rule: rev_induct)
  case (snoc d ds)
  obtain e p add where d: "d = (e, p, add)" by (cases d)
  have "t = event_stamp e \<or> fence_at k (process_deletions digest ds rows) = Some t"
    by (rule advance_bounded [OF snoc.prems [unfolded d process_snoc]])
  then show ?case using snoc.IH by (auto simp: d)
qed (simp add: process_deletions_def)

subsection \<open>Properties\<close>

text \<open>
  C23. Deleted sources stay deleted: once a deletion has been processed, and whatever deletions follow in any
  order, every event of the same owner and knowledge base that names the deleted source and is not newer
  than the deletion is blocked; a replay of the deletion itself does not lift the block.
\<close>

theorem late_events_stay_blocked:
  assumes "distinct (map df_fence_key rows)"
    and "en_owner_id late = en_owner_id e" and "en_knowledge_base_id late = en_knowledge_base_id e"
    and "p \<in> set sources" and "event_stamp late \<le> event_stamp e"
  shows "event_is_blocked_by_deletion digest late sources
    (process_deletions digest ds (fst (advance_deletion_fences digest e p add rows)))"
proof -
  let ?rows1 = "fst (advance_deletion_fences digest e p add rows)"
  let ?k = "fence_key digest (en_owner_id e) (en_knowledge_base_id e) p"
  obtain t where "fence_at ?k (process_deletions digest ds ?rows1) = Some t" "event_stamp e \<le> t"
    using advance_primary process_monotone by (metis order_trans)
  moreover have "distinct (map df_fence_key (process_deletions digest ds ?rows1))"
    by (intro process_distinct advance_distinct assms(1))
  moreover have "p \<in> set (sources_with_knowledge_base late sources)"
    using assms(4) by (simp add: sources_with_knowledge_base_def)
  ultimately show ?thesis
    using assms(2,3,5) by (auto simp: blocked_iff simp del: split_paired_Ex intro: order_trans)
qed

definition sample_envelope :: "string \<Rightarrow> instant \<Rightarrow> agent_envelope" where
  "sample_envelope i t = \<lparr>en_event_id = i, en_event_type = ''document.deleted'', en_occurred_at = t,
     en_owner_id = 7, en_knowledge_base_id = Some ''kb1'', en_payload = []\<rparr>"

theorem late_events_stay_blocked_witness:
  "event_is_blocked_by_deletion id (sample_envelope ''e0'' 5) [FenceSource ''document'' ''d1'']
     (process_deletions id [(sample_envelope ''e2'' 3, FenceSource ''document'' ''d1'', [])]
       (fst (advance_deletion_fences id (sample_envelope ''e1'' 9) (FenceSource ''document'' ''d1'') [] [])))"
  by (rule late_events_stay_blocked) (simp_all add: sample_envelope_def event_stamp_def event_order_def)

text \<open>
  Fences block nothing else: an event newer than every deletion processed so far passes, so a source that
  is created again after its deletion is usable; and while no deletion has been processed nothing is blocked.
\<close>

theorem newer_events_pass:
  assumes "\<forall>(e, p, add)\<in>set ds. event_stamp e < event_stamp fresh"
  shows "\<not> event_is_blocked_by_deletion digest fresh sources (process_deletions digest ds [])"
proof
  assume "event_is_blocked_by_deletion digest fresh sources (process_deletions digest ds [])"
  moreover have "distinct (map df_fence_key (process_deletions digest ds []))" by (rule process_distinct) simp
  ultimately obtain k t where "fence_at k (process_deletions digest ds []) = Some t" "event_stamp fresh \<le> t"
    by (auto simp: blocked_iff simp del: split_paired_Ex)
  moreover have "t \<in> (\<lambda>(e, p, add). event_stamp e) ` set ds"
    using process_bounded [OF calculation(1)] by (simp add: fence_at_def)
  ultimately show False using assms by fastforce
qed

theorem newer_events_pass_witness:
  "\<not> event_is_blocked_by_deletion id (sample_envelope ''e3'' 12) [FenceSource ''document'' ''d1'']
     (process_deletions id [(sample_envelope ''e1'' 9, FenceSource ''document'' ''d1'', [])] [])"
  by (rule newer_events_pass) (simp add: sample_envelope_def event_stamp_def event_order_def)

end
