(* ===== verification/MemoryModel.thy ===== *)
theory MemoryModel
  imports Tables Patterns "HOL-Library.Word"
begin

text \<open>
  Governed memory: identities (\<open>memoria/server/memory/identity.py\<close>), sensitivity
  (\<open>memory/sensitivity.py\<close>), the persistence policy (\<open>memory/policy.py\<close>), the tables
  (\<open>models/canonical_memory.py\<close> and its siblings) and the scoped repository
  (\<open>repositories/memories.py\<close>).

  The code under the library is an argument, the record \<open>memory_env\<close>: SHA-256 as hexadecimal text and
  as bytes, compact JSON, random ids (the sequence \<open>me_uuid\<close>, drawn in order), the embedding service,
  the clocks of the application and of the database. Row locks are implicit, since an operation is one
  transaction; the advisory slot locks it takes are recorded in \<open>md_locks\<close>. Confidences are reals.
\<close>

record memory_env =
  me_hexdigest :: "string \<Rightarrow> string"
  me_digest :: "string \<Rightarrow> 8 word list"
  me_dumps :: "json \<Rightarrow> string"
  me_uuid :: "nat \<Rightarrow> string"
  me_embed :: "string \<Rightarrow> string \<Rightarrow> string \<Rightarrow> real list option"
  me_now :: instant
  me_server_now :: instant

subsection \<open>Identities\<close>

definition canonical_identity :: "memory_env \<Rightarrow> string \<Rightarrow> json list \<Rightarrow> string" where
  "canonical_identity env tag vs = me_dumps env (JList [JStr tag, JInt 1, JList vs])"

definition normalize_memory_text :: "string \<Rightarrow> string" where
  "normalize_memory_text v = casefold (py_join '' '' (py_split (py_strip v)))"

definition memory_fingerprint :: "memory_env \<Rightarrow> string \<Rightarrow> string \<Rightarrow> string \<Rightarrow> string" where
  "memory_fingerprint env subject pred v =
     me_hexdigest env (py_join [CHR 0x1F]
       [normalize_memory_text subject, normalize_memory_text pred, normalize_memory_text v])"

definition evidence_identity ::
  "memory_env \<Rightarrow> int \<Rightarrow> string option \<Rightarrow> string \<Rightarrow> string \<Rightarrow> string \<Rightarrow> string \<Rightarrow> string" where
  "evidence_identity env owner kb source_type source_id source_version content_hash =
     me_hexdigest env (canonical_identity env ''mneme:evidence-identity''
       [JInt owner, jstr_opt kb, JStr source_type, JStr source_id, JStr source_version, JStr content_hash])"

definition memory_slot_lock_key ::
  "memory_env \<Rightarrow> int \<Rightarrow> string option \<Rightarrow> string \<Rightarrow> string \<Rightarrow> string \<Rightarrow> int" where
  "memory_slot_lock_key env owner kb mtype subject pred =
     sint (word_rcat (take 8 (me_digest env (canonical_identity env ''mneme:memory-slot-lock''
       [JInt owner, jstr_opt kb, JStr mtype, JStr subject, JStr pred]))) :: 64 word)"

subsection \<open>Sensitivity and policy\<close>

datatype sensitivity = SUnknown | SLow | SSensitive | SSecret

definition SECRET_SIGNALS :: "string list" where
  "SECRET_SIGNALS =
     [''credential'', ''secret'', ''password'', ''api_key'', ''token'', ''access_token'', ''refresh_token'',
      ''auth_token'', ''client_secret'', ''private_key'']"

definition word_pattern :: "rx list \<Rightarrow> rx" where
  "word_pattern rs = rx_seq [WordB, rx_alt rs, WordB]"

definition SENSITIVE_PATTERNS :: "rx list" where
  "SENSITIVE_PATTERNS =
     [word_pattern [LitI ''social security'', LitI ''ssn'', LitI ''passport'', LitI ''national id''],
      word_pattern [Seq (LitI ''diagnos'') (Alt (LitI ''is'') (LitI ''ed'')), LitI ''medical'', LitI ''medication'',
        LitI ''disease'', Seq (LitI ''pregnan'') (Cls is_word_char 0 None), LitI ''disability'', LitI ''mental health''],
      word_pattern [LitI ''bank account'', LitI ''credit card'', LitI ''routing number'', LitI ''iban'',
        LitI ''income'', LitI ''salary'', LitI ''debt'', LitI ''credit score''],
      word_pattern [LitI ''login'', LitI ''authentication'', LitI ''two-factor'', LitI ''2fa''],
      word_pattern [rx_seq [LitI ''politic'', Alt (LitI ''al'') (LitI ''s''),
          Opt (rx_alt [LitI '' belief'', LitI '' view'', LitI '' affiliation''])],
        LitI ''party membership'', LitI ''voting preference''],
      word_pattern [LitI ''religion'', LitI ''religious belief'', LitI ''faith'',
        Seq (LitI ''christian'') (Opt (LitI ''ity'')), LitI ''muslim'', LitI ''islam'', LitI ''jewish'', LitI ''judaism'',
        Seq (LitI ''hindu'') (Opt (LitI ''ism'')), Seq (LitI ''buddhis'') (Alt (LitI ''m'') (LitI ''t'')),
        Seq (LitI ''atheis'') (Alt (LitI ''m'') (LitI ''t''))],
      word_pattern [LitI ''sexual orientation'', LitI ''gay'', LitI ''lesbian'', LitI ''bisexual'', LitI ''transgender'',
        rx_seq [LitI ''lgbt'', Opt (LitI ''q''), Opt (Lit ''+'')]],
      word_pattern [LitI ''race'', LitI ''racial identity'', LitI ''ethnicity'', LitI ''ethnic origin'', LitI ''national origin''],
      word_pattern [LitI ''trade union'', LitI ''labor union'', LitI ''union membership''],
      word_pattern [LitI ''underage'', LitI ''minor''],
      word_pattern [LitI ''home address'', LitI ''residential address'', LitI ''precise location'',
        Seq (LitI ''gps coordinate'') (Opt (LitI ''s'')), LitI ''latitude'', LitI ''longitude''],
      word_pattern [LitI ''biometric'', LitI ''facial recognition'', LitI ''genetic'', LitI ''dna profile'']]"

definition classify_sensitivity :: "string list \<Rightarrow> string list \<Rightarrow> sensitivity" where
  "classify_sensitivity texts signals =
     (if list_ex contains_secret texts \<or> list_ex (\<lambda>s. s \<in> set SECRET_SIGNALS) signals then SSecret
      else if signals \<noteq> [] \<or> list_ex (\<lambda>t. list_ex (\<lambda>p. rx_search p t) SENSITIVE_PATTERNS) texts then SSensitive
      else SLow)"

datatype policy_decision = Promote | Pending | Reject

definition AUTO_PROMOTION_CONFIDENCE :: real where "AUTO_PROMOTION_CONFIDENCE = 85 / 100"

definition classify_candidate :: "sensitivity \<Rightarrow> real \<Rightarrow> bool \<Rightarrow> bool \<Rightarrow> policy_decision result" where
  "classify_candidate sensitivity confidence explicit_request has_conflict =
     (if sensitivity = SUnknown then Inl (ValueError ''unsupported sensitivity'')
      else if sensitivity = SSecret then Inr Reject
      else if \<not> (0 \<le> confidence \<and> confidence \<le> 1) then Inl (ValueError ''confidence must be between 0 and 1'')
      else if explicit_request then Inr Promote
      else if has_conflict \<or> sensitivity = SSensitive \<or> confidence < AUTO_PROMOTION_CONFIDENCE then Inr Pending
      else Inr Promote)"

subsection \<open>Tables\<close>

datatype memory_status = MActive | MSuperseded | MInvalidated
datatype candidate_status = CPending | CPromoted | CRejected | CExpired

definition MEMORY_TYPES :: "string list" where
  "MEMORY_TYPES = [''preference'', ''profile_fact'', ''project_context'', ''decision'', ''goal'', ''constraint'']"

record canonical_memory =
  cm_memory_id :: string
  cm_owner_id :: int
  cm_knowledge_base_id :: "string option"
  cm_memory_type :: string
  cm_subject :: string
  cm_predicate :: string
  cm_value :: string
  cm_fingerprint :: string
  cm_confidence :: real
  cm_sensitivity :: sensitivity
  cm_status :: memory_status
  cm_active_revision_id :: string

record memory_revision =
  mr_revision_id :: string
  mr_memory_id :: string
  mr_owner_id :: int
  mr_knowledge_base_id :: "string option"
  mr_subject :: string
  mr_predicate :: string
  mr_value :: string
  mr_fingerprint :: string
  mr_embedding :: "real list option"
  mr_valid_from :: instant
  mr_valid_to :: "instant option"
  mr_reason :: string
  mr_actor :: string

record memory_candidate =
  mc_candidate_id :: string
  mc_owner_id :: int
  mc_knowledge_base_id :: "string option"
  mc_memory_type :: string
  mc_subject :: string
  mc_predicate :: string
  mc_value :: string
  mc_fingerprint :: string
  mc_confidence :: real
  mc_sensitivity :: sensitivity
  mc_status :: candidate_status
  mc_extraction_provenance :: "(string \<times> json) list"
  mc_conflicting_memory_id :: "string option"
  mc_conflicting_revision_id :: "string option"
  mc_decided_at :: "instant option"

record memory_evidence =
  ev_evidence_id :: string
  ev_identity_hash :: string
  ev_owner_id :: int
  ev_knowledge_base_id :: "string option"
  ev_source_type :: string
  ev_source_id :: string
  ev_source_document_id :: "string option"
  ev_source_version :: string
  ev_minimum_text :: string
  ev_content_hash :: string
  ev_occurred_at :: instant

record memory_audit =
  ma_audit_id :: string
  ma_owner_id :: int
  ma_knowledge_base_id :: "string option"
  ma_action :: string
  ma_target_type :: string
  ma_target_id :: string
  ma_actor_id :: string
  ma_reason :: string
  ma_confirmation_jti :: "string option"

text \<open>
  The database, with the number of ids drawn so far and the advisory locks the transaction holds.
\<close>

record memory_db =
  md_memories :: "canonical_memory list"
  md_revisions :: "memory_revision list"
  md_candidates :: "memory_candidate list"
  md_evidence :: "memory_evidence list"
  md_candidate_evidence :: "(string \<times> string) list"
  md_revision_evidence :: "(string \<times> string) list"
  md_audits :: "memory_audit list"
  md_locks :: "int list"
  md_ids :: nat

text \<open>The constraints of the tables that their keys do not give.\<close>

definition active_identity :: "canonical_memory \<Rightarrow> int \<times> string option \<times> string" where
  "active_identity m = (cm_owner_id m, cm_knowledge_base_id m, cm_fingerprint m)"

definition active_memories :: "memory_db \<Rightarrow> canonical_memory list" where
  "active_memories db = filter (\<lambda>m. cm_status m = MActive) (md_memories db)"

definition open_revisions :: "memory_db \<Rightarrow> memory_revision list" where
  "open_revisions db = filter (\<lambda>r. mr_valid_to r = None) (md_revisions db)"

definition unit_interval :: "real \<Rightarrow> bool" where
  "unit_interval x \<longleftrightarrow> 0 \<le> x \<and> x \<le> 1"

definition db_flush :: "(memory_db, unit) tx" where
  "db_flush db =
     (if \<not> distinct (map active_identity (active_memories db))
      then Inl (IntegrityError ''uq_canonical_memories_active_fingerprint'')
      else if \<not> distinct (map mr_memory_id (open_revisions db))
      then Inl (IntegrityError ''uq_memory_revisions_open_memory'')
      else if \<not> list_all (\<lambda>r. case mr_valid_to r of None \<Rightarrow> True | Some t \<Rightarrow> mr_valid_from r \<le> t) (md_revisions db)
      then Inl (IntegrityError ''ck_memory_revisions_valid_interval'')
      else if \<not> list_all (\<lambda>m. unit_interval (cm_confidence m)) (md_memories db)
      then Inl (IntegrityError ''ck_canonical_memories_confidence'')
      else if \<not> distinct (map ma_confirmation_jti (filter (\<lambda>a. ma_confirmation_jti a \<noteq> None) (md_audits db)))
      then Inl (IntegrityError ''uq_memory_action_audit_confirmation_jti'')
      else Inr ((), db))"

subsection \<open>The repository\<close>

definition new_id :: "memory_env \<Rightarrow> (memory_db, string) tx" where
  "new_id env db = Inr (me_uuid env (md_ids db), db\<lparr>md_ids := Suc (md_ids db)\<rparr>)"

definition lock_memory_slot :: "int \<Rightarrow> (memory_db, unit) tx" where
  "lock_memory_slot key = tmodify (\<lambda>db. db\<lparr>md_locks := md_locks db @ [key]\<rparr>)"

definition load_candidate_for_update :: "string \<Rightarrow> int \<Rightarrow> string option \<Rightarrow> memory_db \<Rightarrow> memory_candidate option" where
  "load_candidate_for_update cid owner kb db =
     find (\<lambda>c. mc_candidate_id c = cid \<and> mc_owner_id c = owner \<and> mc_knowledge_base_id c = kb) (md_candidates db)"

definition load_memory_for_update :: "string \<Rightarrow> int \<Rightarrow> string option \<Rightarrow> memory_db \<Rightarrow> canonical_memory option" where
  "load_memory_for_update mid owner kb db =
     find (\<lambda>m. cm_memory_id m = mid \<and> cm_owner_id m = owner \<and> cm_knowledge_base_id m = kb) (md_memories db)"

definition find_active_memory :: "int \<Rightarrow> string option \<Rightarrow> string \<Rightarrow> memory_db \<Rightarrow> canonical_memory option" where
  "find_active_memory owner kb fp db =
     find (\<lambda>m. cm_owner_id m = owner \<and> cm_knowledge_base_id m = kb \<and> cm_fingerprint m = fp \<and>
       cm_status m = MActive) (md_memories db)"

definition find_conflicting_memory ::
  "int \<Rightarrow> string option \<Rightarrow> string \<Rightarrow> string \<Rightarrow> string \<Rightarrow> string \<Rightarrow> memory_db \<Rightarrow> canonical_memory option" where
  "find_conflicting_memory owner kb mtype subject pred fp db =
     find (\<lambda>m. cm_owner_id m = owner \<and> cm_knowledge_base_id m = kb \<and> cm_memory_type m = mtype \<and>
       cm_subject m = subject \<and> cm_predicate m = pred \<and> cm_fingerprint m \<noteq> fp \<and> cm_status m = MActive)
       (md_memories db)"

definition load_active_revision ::
  "canonical_memory \<Rightarrow> int \<Rightarrow> string option \<Rightarrow> memory_db \<Rightarrow> memory_revision result" where
  "load_active_revision m owner kb db =
     (case find (\<lambda>r. mr_revision_id r = cm_active_revision_id m \<and> mr_memory_id r = cm_memory_id m \<and>
         mr_owner_id r = owner \<and> mr_knowledge_base_id r = kb \<and> mr_valid_to r = None) (md_revisions db) of
        None \<Rightarrow> Inl (ValueError ''active revision is missing, closed, or outside owner scope'')
      | Some r \<Rightarrow> Inr r)"

definition validate_evidence_scope ::
  "string list \<Rightarrow> int \<Rightarrow> string option \<Rightarrow> memory_db \<Rightarrow> string list result" where
  "validate_evidence_scope ids owner kb db =
     (let requested = uniq ids;
          scoped = map ev_evidence_id (filter (\<lambda>e. ev_evidence_id e \<in> set requested \<and> ev_owner_id e = owner \<and>
            ev_knowledge_base_id e = kb) (md_evidence db))
      in if requested = [] then Inr []
         else if set scoped \<noteq> set requested then Inl (ValueError ''evidence is missing or outside owner scope'')
         else Inr requested)"

text \<open>INSERT ... ON CONFLICT DO NOTHING ... RETURNING for every id; the number of rows it returned.\<close>

fun associate :: "string \<Rightarrow> string list \<Rightarrow> (string \<times> string) list \<Rightarrow> (string \<times> string) list \<times> nat" where
  "associate key [] rows = (rows, 0)"
| "associate key (i # ids) rows =
     (if (key, i) \<in> set rows then associate key ids rows
      else (case associate key ids (rows @ [(key, i)]) of (rows', n) \<Rightarrow> (rows', Suc n)))"

definition attach_candidate_evidence :: "string \<Rightarrow> string list \<Rightarrow> int \<Rightarrow> string option \<Rightarrow> (memory_db, nat) tx" where
  "attach_candidate_evidence cid ids owner kb db =
     (case load_candidate_for_update cid owner kb db of
        None \<Rightarrow> Inl (ValueError ''candidate is missing or outside owner scope'')
      | Some _ \<Rightarrow> ebind (validate_evidence_scope ids owner kb db) (\<lambda>scoped.
          case associate cid scoped (md_candidate_evidence db) of
            (rows, n) \<Rightarrow> Inr (n, db\<lparr>md_candidate_evidence := rows\<rparr>)))"

definition attach_revision_evidence :: "string \<Rightarrow> string list \<Rightarrow> int \<Rightarrow> string option \<Rightarrow> (memory_db, nat) tx" where
  "attach_revision_evidence rid ids owner kb db =
     (case find (\<lambda>r. mr_revision_id r = rid \<and> mr_owner_id r = owner \<and> mr_knowledge_base_id r = kb)
         (md_revisions db) of
        None \<Rightarrow> Inl (ValueError ''revision is missing or outside owner scope'')
      | Some _ \<Rightarrow> ebind (validate_evidence_scope ids owner kb db) (\<lambda>scoped.
          case associate rid scoped (md_revision_evidence db) of
            (rows, n) \<Rightarrow> Inr (n, db\<lparr>md_revision_evidence := rows\<rparr>)))"

definition candidate_evidence_ids :: "string \<Rightarrow> int \<Rightarrow> string option \<Rightarrow> memory_db \<Rightarrow> string list result" where
  "candidate_evidence_ids cid owner kb db =
     (case load_candidate_for_update cid owner kb db of
        None \<Rightarrow> Inl (ValueError ''candidate is missing or outside owner scope'')
      | Some _ \<Rightarrow> Inr (map snd (filter (\<lambda>(c, e). c = cid) (md_candidate_evidence db))))"

subsection \<open>Cascades\<close>

definition drop_evidence :: "string list \<Rightarrow> memory_db \<Rightarrow> memory_db" where
  "drop_evidence ids db = db\<lparr>md_evidence := delete_where (\<lambda>e. ev_evidence_id e \<in> set ids) (md_evidence db),
     md_candidate_evidence := delete_where (\<lambda>l. snd l \<in> set ids) (md_candidate_evidence db),
     md_revision_evidence := delete_where (\<lambda>l. snd l \<in> set ids) (md_revision_evidence db)\<rparr>"

definition drop_candidates :: "string list \<Rightarrow> memory_db \<Rightarrow> memory_db" where
  "drop_candidates ids db = db\<lparr>md_candidates := delete_where (\<lambda>c. mc_candidate_id c \<in> set ids) (md_candidates db),
     md_candidate_evidence := delete_where (\<lambda>l. fst l \<in> set ids) (md_candidate_evidence db)\<rparr>"

text \<open>\<open>fk_memory_candidates_conflicting_revision\<close> is ON DELETE SET NULL on both columns.\<close>

definition refers_to :: "memory_revision list \<Rightarrow> memory_candidate \<Rightarrow> bool" where
  "refers_to gone c \<longleftrightarrow> list_ex (\<lambda>r. mc_conflicting_revision_id c = Some (mr_revision_id r) \<and>
     mc_conflicting_memory_id c = Some (mr_memory_id r)) gone"

definition clear_conflict :: "memory_candidate \<Rightarrow> memory_candidate" where
  "clear_conflict c = c\<lparr>mc_conflicting_memory_id := None, mc_conflicting_revision_id := None\<rparr>"

definition drop_revisions :: "(memory_revision \<Rightarrow> bool) \<Rightarrow> memory_db \<Rightarrow> memory_db" where
  "drop_revisions P db =
     (let gone = filter P (md_revisions db)
      in db\<lparr>md_revisions := delete_where P (md_revisions db),
        md_candidates := update_where (refers_to gone) clear_conflict (md_candidates db),
        md_revision_evidence := delete_where (\<lambda>l. fst l \<in> set (map mr_revision_id gone)) (md_revision_evidence db)\<rparr>)"

definition drop_memory :: "string \<Rightarrow> memory_db \<Rightarrow> memory_db" where
  "drop_memory mid db = drop_revisions (\<lambda>r. mr_memory_id r = mid)
     (db\<lparr>md_memories := delete_where (\<lambda>m. cm_memory_id m = mid) (md_memories db)\<rparr>)"

subsection \<open>Hard deletion\<close>

definition hard_delete_memory :: "string \<Rightarrow> int \<Rightarrow> string option \<Rightarrow> (memory_db, bool) tx" where
  "hard_delete_memory mid owner kb db =
     (case load_memory_for_update mid owner kb db of
        None \<Rightarrow> Inr (False, db)
      | Some m \<Rightarrow> ebind (load_active_revision m owner kb db) (\<lambda>_.
          let fps = map mr_fingerprint (filter (\<lambda>r. mr_memory_id r = mid \<and> mr_owner_id r = owner \<and>
                mr_knowledge_base_id r = kb) (md_revisions db));
              gone = map mc_candidate_id (filter (\<lambda>c. mc_owner_id c = owner \<and> mc_knowledge_base_id c = kb \<and>
                (mc_conflicting_memory_id c = Some mid \<or> mc_fingerprint c \<in> set fps)) (md_candidates db))
          in tbind db_flush (\<lambda>_. treturn True) (drop_memory mid (drop_candidates gone db))))"

subsection \<open>Normalisation\<close>

lemma char_code_eq: "c = d \<longleftrightarrow> (of_char c :: nat) = of_char d"
  by simp

lemma is_space_code:
  "is_space c \<longleftrightarrow> (let n = of_char c :: nat in n = 32 \<or> 9 \<le> n \<and> n \<le> 13 \<or> 28 \<le> n \<and> n \<le> 31)"
  unfolding is_space_def Let_def less_eq_char_def char_code_eq [of c "CHR 0x20"] by simp

lemma lower_char_code:
  "(of_char (lower_char c) :: nat) = (let n = of_char c in if 65 \<le> n \<and> n \<le> 90 then n + 32 else n)"
  by (simp add: lower_char_def less_eq_char_def Let_def)

lemma lower_char_space [simp]: "is_space (lower_char c) = is_space c"
  unfolding is_space_code lower_char_code Let_def by auto

lemma lower_char_idem [simp]: "lower_char (lower_char c) = lower_char c"
  unfolding char_code_eq lower_char_code Let_def by simp

lemma split_acc_lower: "split_acc (map lower_char w) (map lower_char s) = map (map lower_char) (split_acc w s)"
  by (induction w s rule: split_acc.induct) auto

lemma py_split_casefold: "py_split (casefold s) = map casefold (py_split s)"
  using split_acc_lower [of "[]" s] by (simp add: py_split_def casefold_def [abs_def])

lemma py_join_casefold: "casefold (py_join '' '' ws) = py_join '' '' (map casefold ws)"
  by (induction "'' ''" ws rule: py_join.induct) (simp_all add: casefold_def lower_char_def less_eq_char_def)

lemma split_acc_trailing: "list_all is_space t \<Longrightarrow> split_acc w (s @ t) = split_acc w s"
proof (induction w s rule: split_acc.induct)
  case (1 w)
  then show ?case
  proof (induction t arbitrary: w)
    case (Cons c t)
    then show ?case using Cons.IH [of "[]"] by simp
  qed simp
qed auto

lemma split_acc_leading: "split_acc [] (dropWhile is_space s) = split_acc [] s"
  by (induction s) auto

lemma py_split_strip [simp]: "py_split (py_strip s) = py_split s"
proof -
  let ?u = "dropWhile is_space s"
  have u: "?u = py_strip s @ rev (takeWhile is_space (rev ?u))"
    unfolding py_strip_def by (metis rev_append rev_rev_ident takeWhile_dropWhile_id)
  have "list_all is_space (rev (takeWhile is_space (rev ?u)))"
    by (auto simp: list_all_iff dest: set_takeWhileD)
  then have "split_acc [] ?u = split_acc [] (py_strip s)"
    by (subst u) (rule split_acc_trailing)
  then show ?thesis by (simp add: py_split_def split_acc_leading)
qed

lemma normalize_normalize [simp]:
  "normalize_memory_text (normalize_memory_text v) = normalize_memory_text v"
proof -
  have "list_all is_word (map casefold (py_split v))"
    using py_split_words [of v] by (auto simp: list_all_iff is_word_def casefold_def)
  then have "py_split (normalize_memory_text v) = map casefold (py_split v)"
    by (simp add: normalize_memory_text_def py_join_casefold py_split_join)
  moreover have "casefold (casefold w) = casefold w" for w by (simp add: casefold_def)
  ultimately show ?thesis by (simp add: normalize_memory_text_def [of "normalize_memory_text v"] py_join_casefold comp_def)
      (simp add: normalize_memory_text_def py_join_casefold)
qed
end
