(* ===== verification/Reconcile.thy ===== *)
theory Reconcile
  imports MemoryModel
begin

text \<open>
  Reconciliation of candidates with canonical memory: \<open>memoria/server/memory/reconciliation.py\<close> and the
  commands of the user on one memory or candidate, \<open>services/memory_commands.py\<close>. Every operation is one
  transaction (\<open>tx\<close>). Their properties are in the theory Governance.
\<close>

record evidence_input =
  ei_source_type :: string
  ei_source_id :: string
  ei_source_version :: string
  ei_minimum_text :: string
  ei_content_hash :: string
  ei_occurred_at :: instant
  ei_source_document_id :: "string option"

record reconciliation_result =
  rr_decision :: policy_decision
  rr_candidate :: "memory_candidate option"
  rr_memory :: "canonical_memory option"
  rr_reinforced :: bool

subsection \<open>Helpers\<close>

definition evidence_row :: "memory_env \<Rightarrow> string \<Rightarrow> int \<Rightarrow> string option \<Rightarrow> evidence_input \<Rightarrow> memory_evidence" where
  "evidence_row env eid owner kb item =
     \<lparr>ev_evidence_id = eid,
      ev_identity_hash = evidence_identity env owner kb (ei_source_type item) (ei_source_id item)
        (ei_source_version item) (ei_content_hash item),
      ev_owner_id = owner, ev_knowledge_base_id = kb, ev_source_type = ei_source_type item,
      ev_source_id = ei_source_id item, ev_source_document_id = ei_source_document_id item,
      ev_source_version = ei_source_version item, ev_minimum_text = ei_minimum_text item,
      ev_content_hash = ei_content_hash item, ev_occurred_at = ei_occurred_at item\<rparr>"

text \<open>The checks on the stored row of an input: its scope, then its document.\<close>

definition accept_evidence :: "string option \<Rightarrow> evidence_input \<Rightarrow> memory_evidence \<Rightarrow> (memory_db, memory_evidence) tx" where
  "accept_evidence kb item e =
     (if ev_knowledge_base_id e \<noteq> kb then tfail (ValueError ''evidence identity resolved outside owner scope'')
      else (case ei_source_document_id item of
          None \<Rightarrow> treturn e
        | Some d \<Rightarrow>
            if ev_source_document_id e = None then
              tbind (tmodify (\<lambda>db. db\<lparr>md_evidence := update_where (\<lambda>r. ev_evidence_id r = ev_evidence_id e)
                  (\<lambda>r. r\<lparr>ev_source_document_id := Some d\<rparr>) (md_evidence db)\<rparr>)) (\<lambda>_.
              treturn (e\<lparr>ev_source_document_id := Some d\<rparr>))
            else if ev_source_document_id e \<noteq> Some d then
              tfail (EvidenceProvenanceError ''evidence identity resolved outside document scope'')
            else treturn e))"

text \<open>One input: insert unless the identity is stored, read the stored row, check it.\<close>

definition persist_one :: "memory_env \<Rightarrow> int \<Rightarrow> string option \<Rightarrow> evidence_input \<Rightarrow> (memory_db, memory_evidence) tx" where
  "persist_one env owner kb item =
     tbind (new_id env) (\<lambda>eid.
       let row = evidence_row env eid owner kb item in
       tbind (tmodify (\<lambda>db. db\<lparr>md_evidence := fst (insert_if_absent ev_identity_hash row (md_evidence db))\<rparr>)) (\<lambda>_.
       tbind (tget (\<lambda>db. find (\<lambda>e. ev_identity_hash e = ev_identity_hash row \<and> ev_owner_id e = owner)
         (md_evidence db))) (\<lambda>found.
       case found of
         None \<Rightarrow> tfail (RuntimeError ''evidence upsert did not return a durable row'')
       | Some e \<Rightarrow> accept_evidence kb item e)))"

fun persist_evidence ::
  "memory_env \<Rightarrow> int \<Rightarrow> string option \<Rightarrow> evidence_input list \<Rightarrow> (memory_db, memory_evidence list) tx" where
  "persist_evidence env owner kb [] = treturn []"
| "persist_evidence env owner kb (item # items) =
     tbind (persist_one env owner kb item) (\<lambda>e.
     tbind (persist_evidence env owner kb items) (\<lambda>es. treturn (e # es)))"

definition combined_confidence :: "real \<Rightarrow> real \<Rightarrow> real" where
  "combined_confidence current additional = min 1 (1 - (1 - current) * (1 - additional))"

definition sensitivity_rank :: "sensitivity \<Rightarrow> nat result" where
  "sensitivity_rank s =
     (case s of SLow \<Rightarrow> Inr 0 | SUnknown \<Rightarrow> Inr 1 | SSensitive \<Rightarrow> Inr 2 | SSecret \<Rightarrow> Inl (KeyError ''secret''))"

definition combined_sensitivity :: "sensitivity \<Rightarrow> sensitivity \<Rightarrow> sensitivity result" where
  "combined_sensitivity current additional =
     ebind (sensitivity_rank current) (\<lambda>c. ebind (sensitivity_rank additional) (\<lambda>a.
       Inr (if a > c then additional else current)))"

definition set_memory :: "canonical_memory \<Rightarrow> (memory_db, unit) tx" where
  "set_memory m = tmodify (\<lambda>db. db\<lparr>md_memories :=
     update_where (\<lambda>q. cm_memory_id q = cm_memory_id m) (\<lambda>_. m) (md_memories db)\<rparr>)"

definition set_candidate :: "memory_candidate \<Rightarrow> (memory_db, unit) tx" where
  "set_candidate c = tmodify (\<lambda>db. db\<lparr>md_candidates :=
     update_where (\<lambda>q. mc_candidate_id q = mc_candidate_id c) (\<lambda>_. c) (md_candidates db)\<rparr>)"

definition create_memory ::
  "memory_env \<Rightarrow> int \<Rightarrow> string option \<Rightarrow> string \<Rightarrow> string \<Rightarrow> string \<Rightarrow> string \<Rightarrow> string \<Rightarrow> real \<Rightarrow> sensitivity
   \<Rightarrow> string \<Rightarrow> string \<Rightarrow> string list \<Rightarrow> (memory_db, canonical_memory) tx" where
  "create_memory env owner kb mtype subject pred v fp confidence sensitivity reason actor evidence_ids =
     tbind (new_id env) (\<lambda>memory_id. tbind (new_id env) (\<lambda>revision_id.
     let memory = \<lparr>cm_memory_id = memory_id, cm_owner_id = owner, cm_knowledge_base_id = kb, cm_memory_type = mtype,
           cm_subject = subject, cm_predicate = pred, cm_value = v, cm_fingerprint = fp, cm_confidence = confidence,
           cm_sensitivity = sensitivity, cm_status = MActive, cm_active_revision_id = revision_id\<rparr>;
         revision = \<lparr>mr_revision_id = revision_id, mr_memory_id = memory_id, mr_owner_id = owner,
           mr_knowledge_base_id = kb, mr_subject = subject, mr_predicate = pred, mr_value = v, mr_fingerprint = fp,
           mr_embedding = me_embed env subject pred v, mr_valid_from = me_server_now env, mr_valid_to = None,
           mr_reason = reason, mr_actor = actor\<rparr>
     in tbind (tmodify (\<lambda>db. db\<lparr>md_memories := md_memories db @ [memory]\<rparr>)) (\<lambda>_.
        tbind db_flush (\<lambda>_.
        tbind (tmodify (\<lambda>db. db\<lparr>md_revisions := md_revisions db @ [revision]\<rparr>)) (\<lambda>_.
        tbind db_flush (\<lambda>_.
        tbind (attach_revision_evidence revision_id evidence_ids owner kb) (\<lambda>_.
        treturn memory)))))))"

subsection \<open>Revision\<close>

text \<open>The writes of a revision: close the old one, store the new one, point the memory at it.\<close>

definition write_revision ::
  "memory_env \<Rightarrow> canonical_memory \<Rightarrow> memory_revision \<Rightarrow> string \<Rightarrow> string \<Rightarrow> string \<Rightarrow> string \<Rightarrow> string \<Rightarrow> sensitivity
   \<Rightarrow> string list \<Rightarrow> real option \<Rightarrow> int \<Rightarrow> string option \<Rightarrow> (memory_db, canonical_memory) tx" where
  "write_revision env memory old_revision ns np nv reason actor sensitivity scoped_ids confidence owner kb =
     tbind (tmodify (\<lambda>db. db\<lparr>md_revisions := update_where (\<lambda>r. mr_revision_id r = mr_revision_id old_revision)
       (\<lambda>r. r\<lparr>mr_valid_to := Some (me_now env)\<rparr>) (md_revisions db)\<rparr>)) (\<lambda>_.
     tbind db_flush (\<lambda>_.
     let fp = memory_fingerprint env ns np nv in
     tbind (new_id env) (\<lambda>revision_id.
     let revision = \<lparr>mr_revision_id = revision_id, mr_memory_id = cm_memory_id memory, mr_owner_id = owner,
           mr_knowledge_base_id = kb, mr_subject = ns, mr_predicate = np, mr_value = nv, mr_fingerprint = fp,
           mr_embedding = me_embed env ns np nv, mr_valid_from = me_now env, mr_valid_to = None,
           mr_reason = reason, mr_actor = actor\<rparr>;
         revised = memory\<lparr>cm_subject := ns, cm_predicate := np, cm_value := nv, cm_fingerprint := fp,
           cm_sensitivity := sensitivity, cm_active_revision_id := revision_id, cm_status := MActive,
           cm_confidence := (case confidence of None \<Rightarrow> cm_confidence memory | Some c \<Rightarrow> c)\<rparr>
     in tbind (tmodify (\<lambda>db. db\<lparr>md_revisions := md_revisions db @ [revision]\<rparr>)) (\<lambda>_.
        tbind db_flush (\<lambda>_.
        tbind (attach_revision_evidence revision_id scoped_ids owner kb) (\<lambda>_.
        tbind (set_memory revised) (\<lambda>_.
        tbind db_flush (\<lambda>_.
        treturn revised))))))))"

definition revise_memory ::
  "memory_env \<Rightarrow> string \<Rightarrow> int \<Rightarrow> string option \<Rightarrow> string \<Rightarrow> string \<Rightarrow> string \<Rightarrow> string \<Rightarrow> string \<Rightarrow> sensitivity
   \<Rightarrow> string list \<Rightarrow> real option \<Rightarrow> (memory_db, canonical_memory) tx" where
  "revise_memory env mid owner kb subject pred v reason actor sensitivity evidence_ids confidence =
     tbind (tguard (sensitivity \<noteq> SSecret) (ValueError ''secret values cannot be persisted as memory'')) (\<lambda>_.
     tbind (tguard (case confidence of None \<Rightarrow> True | Some c \<Rightarrow> 0 \<le> c \<and> c \<le> 1)
       (ValueError ''confidence must be between 0 and 1'')) (\<lambda>_.
     let ns = normalize_memory_text subject; np = normalize_memory_text pred; nv = normalize_memory_text v in
     tbind (tget (load_memory_for_update mid owner kb)) (\<lambda>scoped.
     case scoped of None \<Rightarrow> tfail (LookupError ''memory not found in owner scope'')
     | Some scoped_memory \<Rightarrow>
     tbind (lock_memory_slot (memory_slot_lock_key env owner kb (cm_memory_type scoped_memory) ns np)) (\<lambda>_.
     tbind (tget (load_memory_for_update mid owner kb)) (\<lambda>loaded.
     case loaded of None \<Rightarrow> tfail (LookupError ''memory not found in owner scope'')
     | Some memory \<Rightarrow>
     tbind (tlift (load_active_revision memory owner kb)) (\<lambda>old_revision.
     tbind (tlift (validate_evidence_scope evidence_ids owner kb)) (\<lambda>scoped_ids.
     write_revision env memory old_revision ns np nv reason actor sensitivity scoped_ids confidence owner kb)))))))"

subsection \<open>Reinforcement and reconciliation\<close>

text \<open>Support of an active memory by more evidence; the number of links that are new.\<close>

definition reinforce ::
  "canonical_memory \<Rightarrow> memory_revision \<Rightarrow> string list \<Rightarrow> real \<Rightarrow> sensitivity \<Rightarrow> int \<Rightarrow> string option
   \<Rightarrow> (memory_db, canonical_memory \<times> nat) tx" where
  "reinforce memory revision evidence_ids confidence sensitivity owner kb =
     tbind (attach_revision_evidence (mr_revision_id revision) evidence_ids owner kb) (\<lambda>attached.
     if attached \<noteq> 0 then
       (case combined_sensitivity (cm_sensitivity memory) sensitivity of
          Inl e \<Rightarrow> tfail e
        | Inr s \<Rightarrow>
            let m = memory\<lparr>cm_confidence := combined_confidence (cm_confidence memory) confidence, cm_sensitivity := s\<rparr>
            in tbind (set_memory m) (\<lambda>_. tbind db_flush (\<lambda>_. treturn (m, attached))))
     else treturn (memory, attached))"

definition active_revision_of ::
  "canonical_memory option \<Rightarrow> int \<Rightarrow> string option \<Rightarrow> memory_db \<Rightarrow> memory_revision option result" where
  "active_revision_of m owner kb db =
     (case m of None \<Rightarrow> Inr None | Some q \<Rightarrow> ebind (load_active_revision q owner kb db) (\<lambda>r. Inr (Some r)))"

text \<open>The second half of \<open>reconcile_candidate\<close>: reinforce, or store the candidate and promote it.\<close>

definition candidate_row ::
  "memory_env \<Rightarrow> string \<Rightarrow> int \<Rightarrow> string option \<Rightarrow> string \<Rightarrow> string \<Rightarrow> string \<Rightarrow> string \<Rightarrow> string \<Rightarrow> real \<Rightarrow> sensitivity
   \<Rightarrow> (string \<times> json) list \<Rightarrow> policy_decision \<Rightarrow> canonical_memory option \<Rightarrow> memory_revision option \<Rightarrow> memory_candidate" where
  "candidate_row env cid owner kb mtype ns np nv fp confidence sensitivity provenance decision conflict conflict_revision =
     \<lparr>mc_candidate_id = cid, mc_owner_id = owner, mc_knowledge_base_id = kb,
      mc_memory_type = mtype, mc_subject = ns, mc_predicate = np, mc_value = nv, mc_fingerprint = fp,
      mc_confidence = confidence, mc_sensitivity = sensitivity,
      mc_status = (if decision = Promote then CPromoted else CPending), mc_extraction_provenance = provenance,
      mc_conflicting_memory_id = map_option cm_memory_id conflict,
      mc_conflicting_revision_id = map_option mr_revision_id conflict_revision,
      mc_decided_at = (if decision = Promote then Some (me_now env) else None)\<rparr>"

definition store_candidate ::
  "memory_env \<Rightarrow> int \<Rightarrow> string option \<Rightarrow> (string \<Rightarrow> memory_candidate) \<Rightarrow> string list \<Rightarrow> (memory_db, memory_candidate) tx" where
  "store_candidate env owner kb row evidence_ids =
     tbind (new_id env) (\<lambda>cid.
     tbind (tmodify (\<lambda>db. db\<lparr>md_candidates := md_candidates db @ [row cid]\<rparr>)) (\<lambda>_.
     tbind db_flush (\<lambda>_.
     tbind (attach_candidate_evidence cid evidence_ids owner kb) (\<lambda>_. treturn (row cid)))))"

definition settle_candidate ::
  "memory_env \<Rightarrow> int \<Rightarrow> string option \<Rightarrow> string \<Rightarrow> string \<Rightarrow> string \<Rightarrow> string \<Rightarrow> string \<Rightarrow> real \<Rightarrow> sensitivity
   \<Rightarrow> (string \<times> json) list \<Rightarrow> bool \<Rightarrow> string \<Rightarrow> policy_decision \<Rightarrow> canonical_memory option \<Rightarrow> memory_revision option
   \<Rightarrow> canonical_memory option \<Rightarrow> memory_revision option \<Rightarrow> string list \<Rightarrow> (memory_db, reconciliation_result) tx" where
  "settle_candidate env owner kb mtype ns np nv fp confidence sensitivity provenance explicit_request actor
      decision compatible compatible_revision conflict conflict_revision evidence_ids =
     (case (if decision = Promote then compatible else None) of
       Some memory \<Rightarrow> (case compatible_revision of
           None \<Rightarrow> tfail (ValueError ''canonical memory has no active revision'')
         | Some revision \<Rightarrow>
             tbind (reinforce memory revision evidence_ids confidence sensitivity owner kb) (\<lambda>(m, attached).
             treturn \<lparr>rr_decision = Promote, rr_candidate = None, rr_memory = Some m, rr_reinforced = (attached > 0)\<rparr>))
     | None \<Rightarrow>
         tbind (store_candidate env owner kb (\<lambda>cid. candidate_row env cid owner kb mtype ns np nv fp confidence sensitivity
           provenance decision conflict conflict_revision) evidence_ids) (\<lambda>candidate.
         if decision = Pending then
           treturn \<lparr>rr_decision = Pending, rr_candidate = Some candidate, rr_memory = None, rr_reinforced = False\<rparr>
         else
           tbind (case conflict of
               Some c \<Rightarrow> revise_memory env (cm_memory_id c) owner kb ns np nv ''explicit_request_replacement'' actor
                 sensitivity evidence_ids (Some confidence)
             | None \<Rightarrow> create_memory env owner kb mtype ns np nv fp confidence sensitivity
                 (if explicit_request then ''explicit_request'' else ''automatic_promotion'') actor evidence_ids) (\<lambda>memory.
           treturn \<lparr>rr_decision = decision, rr_candidate = Some candidate, rr_memory = Some memory, rr_reinforced = False\<rparr>)))"

definition reconcile_candidate ::
  "memory_env \<Rightarrow> int \<Rightarrow> string option \<Rightarrow> string \<Rightarrow> string \<Rightarrow> string \<Rightarrow> string \<Rightarrow> real \<Rightarrow> sensitivity
   \<Rightarrow> evidence_input list \<Rightarrow> (string \<times> json) list \<Rightarrow> bool \<Rightarrow> string \<Rightarrow> (memory_db, reconciliation_result) tx" where
  "reconcile_candidate env owner kb mtype subject pred v confidence sensitivity evidence provenance explicit_request actor =
     tbind (tlift (\<lambda>_. classify_candidate sensitivity confidence explicit_request False)) (\<lambda>preliminary.
     if preliminary = Reject then treturn \<lparr>rr_decision = Reject, rr_candidate = None, rr_memory = None, rr_reinforced = False\<rparr>
     else
     tbind (tguard (0 \<le> confidence \<and> confidence \<le> 1) (ValueError ''confidence must be between 0 and 1'')) (\<lambda>_.
     tbind (tguard (mtype \<in> set MEMORY_TYPES) (ValueError ''unsupported memory type'')) (\<lambda>_.
     let ns = normalize_memory_text subject; np = normalize_memory_text pred; nv = normalize_memory_text v;
         fp = memory_fingerprint env ns np nv in
     tbind (lock_memory_slot (memory_slot_lock_key env owner kb mtype ns np)) (\<lambda>_.
     tbind (tget (find_active_memory owner kb fp)) (\<lambda>compatible.
     tbind (tlift (active_revision_of compatible owner kb)) (\<lambda>compatible_revision.
     tbind (tget (\<lambda>db. if compatible = None then find_conflicting_memory owner kb mtype ns np fp db else None)) (\<lambda>conflict.
     tbind (tlift (active_revision_of conflict owner kb)) (\<lambda>conflict_revision.
     tbind (tlift (\<lambda>_. classify_candidate sensitivity confidence explicit_request (conflict \<noteq> None))) (\<lambda>decision.
     tbind (persist_evidence env owner kb evidence) (\<lambda>stored.
     settle_candidate env owner kb mtype ns np nv fp confidence sensitivity provenance explicit_request actor
       decision compatible compatible_revision conflict conflict_revision (map ev_evidence_id stored)))))))))))"

subsection \<open>Confirmation and rejection\<close>

text \<open>The part of \<open>confirm_candidate\<close> that finds or makes the memory of the candidate.\<close>

definition promote_candidate ::
  "memory_env \<Rightarrow> memory_candidate \<Rightarrow> int \<Rightarrow> string option \<Rightarrow> string \<Rightarrow> string list \<Rightarrow> (memory_db, canonical_memory) tx" where
  "promote_candidate env candidate owner kb actor evidence_ids =
     tbind (tget (find_active_memory owner kb (mc_fingerprint candidate))) (\<lambda>compatible.
     case compatible of
       Some memory \<Rightarrow>
         tbind (tlift (load_active_revision memory owner kb)) (\<lambda>revision.
         tbind (reinforce memory revision evidence_ids (mc_confidence candidate) (mc_sensitivity candidate) owner kb)
           (\<lambda>(m, attached). treturn m))
     | None \<Rightarrow>
         tbind (tget (find_conflicting_memory owner kb (mc_memory_type candidate) (mc_subject candidate)
           (mc_predicate candidate) (mc_fingerprint candidate))) (\<lambda>current.
         case current of
           Some conflict \<Rightarrow>
             tbind (tlift (load_active_revision conflict owner kb)) (\<lambda>revision.
             tbind (tguard (mc_conflicting_memory_id candidate = Some (cm_memory_id conflict) \<and>
                 mc_conflicting_revision_id candidate = Some (mr_revision_id revision))
               (ValueError ''candidate is stale because the current memory changed; re-review is required'')) (\<lambda>_.
             revise_memory env (cm_memory_id conflict) owner kb (mc_subject candidate) (mc_predicate candidate)
               (mc_value candidate) ''confirmed_replacement'' actor (mc_sensitivity candidate) evidence_ids
               (Some (mc_confidence candidate))))
         | None \<Rightarrow>
             create_memory env owner kb (mc_memory_type candidate) (mc_subject candidate) (mc_predicate candidate)
               (mc_value candidate) (mc_fingerprint candidate) (mc_confidence candidate) (mc_sensitivity candidate)
               ''user_confirmation'' actor evidence_ids))"

definition confirm_candidate ::
  "memory_env \<Rightarrow> string \<Rightarrow> int \<Rightarrow> string option \<Rightarrow> string \<Rightarrow> (memory_db, canonical_memory) tx" where
  "confirm_candidate env cid owner kb actor =
     tbind (tget (load_candidate_for_update cid owner kb)) (\<lambda>loaded.
     case loaded of None \<Rightarrow> tfail (LookupError ''candidate not found in owner scope'')
     | Some candidate \<Rightarrow>
     tbind (tguard (mc_status candidate = CPending) (ValueError ''only pending candidates can be confirmed'')) (\<lambda>_.
     tbind (tguard (mc_sensitivity candidate \<noteq> SSecret) (ValueError ''secret candidates cannot be confirmed'')) (\<lambda>_.
     tbind (lock_memory_slot (memory_slot_lock_key env owner kb (mc_memory_type candidate) (mc_subject candidate)
       (mc_predicate candidate))) (\<lambda>_.
     tbind (tlift (candidate_evidence_ids (mc_candidate_id candidate) owner kb)) (\<lambda>evidence_ids.
     tbind (promote_candidate env candidate owner kb actor evidence_ids) (\<lambda>memory.
     tbind (set_candidate (candidate\<lparr>mc_status := CPromoted, mc_decided_at := Some (me_now env)\<rparr>)) (\<lambda>_.
     tbind db_flush (\<lambda>_.
     treturn memory))))))))"

definition reject_candidate ::
  "memory_env \<Rightarrow> string \<Rightarrow> int \<Rightarrow> string option \<Rightarrow> (memory_db, memory_candidate) tx" where
  "reject_candidate env cid owner kb =
     tbind (tget (load_candidate_for_update cid owner kb)) (\<lambda>loaded.
     case loaded of None \<Rightarrow> tfail (LookupError ''candidate not found in owner scope'')
     | Some candidate \<Rightarrow>
     tbind (tguard (mc_status candidate = CPending) (ValueError ''only pending candidates can be rejected'')) (\<lambda>_.
     let c = candidate\<lparr>mc_status := CRejected, mc_decided_at := Some (me_now env)\<rparr> in
     tbind (set_candidate c) (\<lambda>_. tbind db_flush (\<lambda>_. treturn c))))"

subsection \<open>Commands of the user\<close>

definition audit ::
  "memory_env \<Rightarrow> int \<Rightarrow> string option \<Rightarrow> string \<Rightarrow> string \<Rightarrow> string \<Rightarrow> string \<Rightarrow> string \<Rightarrow> string option
   \<Rightarrow> (memory_db, unit) tx" where
  "audit env owner kb action target_type target_id actor_id reason jti =
     tbind (new_id env) (\<lambda>audit_id. tmodify (\<lambda>db. db\<lparr>md_audits := md_audits db @
       [\<lparr>ma_audit_id = audit_id, ma_owner_id = owner, ma_knowledge_base_id = kb, ma_action = action,
         ma_target_type = target_type, ma_target_id = target_id, ma_actor_id = actor_id, ma_reason = reason,
         ma_confirmation_jti = jti\<rparr>]\<rparr>))"

definition confirm_command ::
  "memory_env \<Rightarrow> string \<Rightarrow> int \<Rightarrow> string option \<Rightarrow> string \<Rightarrow> string \<Rightarrow> (memory_db, canonical_memory) tx" where
  "confirm_command env cid owner kb actor_id reason =
     tbind (tget (load_candidate_for_update cid owner kb)) (\<lambda>slot.
     case slot of None \<Rightarrow> tfail (LookupError ''candidate not found in owner scope'')
     | Some c \<Rightarrow>
     tbind (lock_memory_slot (memory_slot_lock_key env owner kb (mc_memory_type c) (mc_subject c) (mc_predicate c))) (\<lambda>_.
     tbind (confirm_candidate env cid owner kb actor_id) (\<lambda>memory.
     tbind (audit env owner kb ''confirm'' ''candidate'' cid actor_id reason None) (\<lambda>_.
     treturn memory))))"

definition reject_command ::
  "memory_env \<Rightarrow> string \<Rightarrow> int \<Rightarrow> string option \<Rightarrow> string \<Rightarrow> string \<Rightarrow> (memory_db, memory_candidate) tx" where
  "reject_command env cid owner kb actor_id reason =
     tbind (tget (load_candidate_for_update cid owner kb)) (\<lambda>slot.
     case slot of None \<Rightarrow> tfail (LookupError ''candidate not found in owner scope'')
     | Some c \<Rightarrow>
     tbind (lock_memory_slot (memory_slot_lock_key env owner kb (mc_memory_type c) (mc_subject c) (mc_predicate c))) (\<lambda>_.
     tbind (reject_candidate env cid owner kb) (\<lambda>candidate.
     tbind (audit env owner kb ''reject'' ''candidate'' cid actor_id reason None) (\<lambda>_.
     treturn candidate))))"

text \<open>The old and the new slot are locked in the order of their texts.\<close>

definition revise_command ::
  "memory_env \<Rightarrow> string \<Rightarrow> int \<Rightarrow> string option \<Rightarrow> string \<Rightarrow> string \<Rightarrow> string \<Rightarrow> real option \<Rightarrow> sensitivity
   \<Rightarrow> string \<Rightarrow> string \<Rightarrow> (memory_db, canonical_memory) tx" where
  "revise_command env mid owner kb subject pred v confidence sensitivity actor_id reason =
     tbind (tget (load_memory_for_update mid owner kb)) (\<lambda>current.
     case current of None \<Rightarrow> tfail (LookupError ''memory not found in owner scope'')
     | Some old \<Rightarrow>
     let key = (\<lambda>(s, p). memory_slot_lock_key env owner kb (cm_memory_type old) s p);
         slots = sort (uniq [(cm_subject old, cm_predicate old), (subject, pred)])
     in tbind (tmodify (\<lambda>db. db\<lparr>md_locks := md_locks db @ map key slots\<rparr>)) (\<lambda>_.
     tbind (revise_memory env mid owner kb subject pred v reason actor_id sensitivity [] confidence) (\<lambda>memory.
     tbind (audit env owner kb ''revise'' ''memory'' mid actor_id reason None) (\<lambda>_.
     treturn memory))))"

definition invalidate_command ::
  "memory_env \<Rightarrow> string \<Rightarrow> int \<Rightarrow> string option \<Rightarrow> string \<Rightarrow> string \<Rightarrow> (memory_db, canonical_memory) tx" where
  "invalidate_command env mid owner kb actor_id reason =
     tbind (tget (load_memory_for_update mid owner kb)) (\<lambda>slot.
     case slot of None \<Rightarrow> tfail (LookupError ''memory not found in owner scope'')
     | Some s \<Rightarrow>
     tbind (lock_memory_slot (memory_slot_lock_key env owner kb (cm_memory_type s) (cm_subject s) (cm_predicate s))) (\<lambda>_.
     tbind (tget (load_memory_for_update mid owner kb)) (\<lambda>loaded.
     case loaded of None \<Rightarrow> tfail (LookupError ''memory not found in owner scope'')
     | Some memory \<Rightarrow>
     tbind (tguard (cm_status memory = MActive) (ValueError ''only active memories can be invalidated'')) (\<lambda>_.
     let m = memory\<lparr>cm_status := MInvalidated\<rparr> in
     tbind (set_memory m) (\<lambda>_.
     tbind (audit env owner kb ''invalidate'' ''memory'' mid actor_id reason None) (\<lambda>_.
     tbind db_flush (\<lambda>_. treturn m)))))))"

definition consume_purge_confirmation ::
  "memory_env \<Rightarrow> int \<Rightarrow> string option \<Rightarrow> string \<Rightarrow> string \<Rightarrow> string \<Rightarrow> string \<Rightarrow> (memory_db, unit) tx" where
  "consume_purge_confirmation env owner kb target_id actor_id reason jti =
     tbind (audit env owner kb ''purge'' ''scope'' target_id actor_id reason (Some jti)) (\<lambda>_ db.
       case db_flush db of
         Inl (IntegrityError _) \<Rightarrow> Inl (PurgeConfirmationReplay ''purge confirmation was already consumed'')
       | r \<Rightarrow> r)"

end
