(* ===== verification/Governance.thy ===== *)
theory Governance
  imports Reconcile
begin

text \<open>
  What governed memory promises. Every operation of the theory Reconcile is a sequence of the elementary
  changes of \<open>memory_change\<close>, each within one scope (an owner and a knowledge base). The relation carries
  the invariant of the tables (\<open>memory_wf\<close>), the isolation of the scopes and the immutability of
  history; the locale \<open>scoped_changes\<close> lifts the three from single changes to sequences.
\<close>

subsection \<open>Elementary changes\<close>

abbreviation fresh_id :: "memory_env \<Rightarrow> memory_db \<Rightarrow> string" where
  "fresh_id env db \<equiv> me_uuid env (md_ids db)"

definition same_content :: "canonical_memory \<Rightarrow> memory_revision \<Rightarrow> bool" where
  "same_content m r \<longleftrightarrow> cm_subject m = mr_subject r \<and> cm_predicate m = mr_predicate r \<and> cm_value m = mr_value r \<and>
     cm_fingerprint m = mr_fingerprint r"

definition revision_of :: "canonical_memory \<Rightarrow> memory_revision \<Rightarrow> bool" where
  "revision_of m r \<longleftrightarrow> mr_memory_id r = cm_memory_id m \<and> mr_owner_id r = cm_owner_id m \<and>
     mr_knowledge_base_id r = cm_knowledge_base_id m"

text \<open>The open revision of an active memory, with the same content.\<close>

definition current_revision :: "canonical_memory \<Rightarrow> memory_revision \<Rightarrow> bool" where
  "current_revision m r \<longleftrightarrow> revision_of m r \<and> mr_revision_id r = cm_active_revision_id m \<and> mr_valid_to r = None \<and>
     same_content m r"

definition content_ok :: "memory_env \<Rightarrow> string \<Rightarrow> string \<Rightarrow> string \<Rightarrow> string \<Rightarrow> bool" where
  "content_ok env s p v fp \<longleftrightarrow> normalize_memory_text s = s \<and> normalize_memory_text p = p \<and>
     normalize_memory_text v = v \<and> fp = memory_fingerprint env s p v"

definition memory_fields_ok :: "memory_env \<Rightarrow> canonical_memory \<Rightarrow> bool" where
  "memory_fields_ok env m \<longleftrightarrow> unit_interval (cm_confidence m) \<and> cm_sensitivity m \<noteq> SSecret \<and>
     cm_memory_type m \<in> set MEMORY_TYPES \<and>
     content_ok env (cm_subject m) (cm_predicate m) (cm_value m) (cm_fingerprint m)"

definition candidate_fields_ok :: "memory_env \<Rightarrow> memory_candidate \<Rightarrow> bool" where
  "candidate_fields_ok env c \<longleftrightarrow> unit_interval (mc_confidence c) \<and> mc_sensitivity c \<noteq> SSecret \<and>
     mc_memory_type c \<in> set MEMORY_TYPES \<and> (mc_status c = CPending \<longleftrightarrow> mc_decided_at c = None) \<and>
     content_ok env (mc_subject c) (mc_predicate c) (mc_value c) (mc_fingerprint c)"

definition in_memory_scope :: "int \<Rightarrow> string option \<Rightarrow> canonical_memory \<Rightarrow> bool" where
  "in_memory_scope o' k m \<longleftrightarrow> cm_owner_id m = o' \<and> cm_knowledge_base_id m = k"

definition evidence_in :: "int \<Rightarrow> string option \<Rightarrow> memory_db \<Rightarrow> string \<Rightarrow> bool" where
  "evidence_in owner kb db eid \<longleftrightarrow> (\<exists>e\<in>set (md_evidence db). ev_evidence_id e = eid \<and> ev_owner_id e = owner \<and>
     ev_knowledge_base_id e = kb)"

text \<open>The revision a candidate conflicts with is a stored revision of its own scope.\<close>

definition revision_key :: "memory_revision \<Rightarrow> string \<times> string option \<times> int \<times> string option" where
  "revision_key r = (mr_revision_id r, Some (mr_memory_id r), mr_owner_id r, mr_knowledge_base_id r)"

definition conflict_named :: "memory_db \<Rightarrow> memory_candidate \<Rightarrow> bool" where
  "conflict_named db c \<longleftrightarrow> (case mc_conflicting_revision_id c of None \<Rightarrow> True
     | Some i \<Rightarrow> (i, mc_conflicting_memory_id c, mc_owner_id c, mc_knowledge_base_id c) \<in> revision_key ` set (md_revisions db))"

inductive memory_change :: "memory_env \<Rightarrow> int \<Rightarrow> string option \<Rightarrow> memory_db \<Rightarrow> memory_db \<Rightarrow> bool"
  for env :: memory_env and owner :: int and kb :: "string option" where
  Bookkeeping: "md_ids db \<le> n \<Longrightarrow> memory_change env owner kb db (db\<lparr>md_locks := ls, md_ids := n\<rparr>)"
| Audited: "ma_owner_id a = owner \<Longrightarrow> ma_knowledge_base_id a = kb \<Longrightarrow>
    memory_change env owner kb db (db\<lparr>md_audits := md_audits db @ [a]\<rparr>)"
| Evidence_added: "ev_evidence_id e = fresh_id env db \<Longrightarrow> ev_owner_id e = owner \<Longrightarrow> ev_knowledge_base_id e = kb \<Longrightarrow>
    ev_identity_hash e \<notin> ev_identity_hash ` set (md_evidence db) \<Longrightarrow>
    memory_change env owner kb db (db\<lparr>md_evidence := md_evidence db @ [e], md_ids := Suc (md_ids db)\<rparr>)"
| Document_set: "e \<in> set (md_evidence db) \<Longrightarrow> ev_owner_id e = owner \<Longrightarrow> ev_knowledge_base_id e = kb \<Longrightarrow>
    memory_change env owner kb db (db\<lparr>md_evidence := update_where (\<lambda>r. ev_evidence_id r = ev_evidence_id e)
      (\<lambda>r. r\<lparr>ev_source_document_id := Some d\<rparr>) (md_evidence db)\<rparr>)"
| Candidate_added: "mc_candidate_id c = fresh_id env db \<Longrightarrow> mc_owner_id c = owner \<Longrightarrow> mc_knowledge_base_id c = kb \<Longrightarrow>
    candidate_fields_ok env c \<Longrightarrow> conflict_named db c \<Longrightarrow>
    memory_change env owner kb db (db\<lparr>md_candidates := md_candidates db @ [c], md_ids := Suc (md_ids db)\<rparr>)"
| Candidate_decided: "c \<in> set (md_candidates db) \<Longrightarrow> mc_owner_id c = owner \<Longrightarrow> mc_knowledge_base_id c = kb \<Longrightarrow>
    mc_status c = CPending \<Longrightarrow> s \<noteq> CPending \<Longrightarrow>
    memory_change env owner kb db (db\<lparr>md_candidates := update_where (\<lambda>q. mc_candidate_id q = mc_candidate_id c)
      (\<lambda>_. c\<lparr>mc_status := s, mc_decided_at := Some t\<rparr>) (md_candidates db)\<rparr>)"
| Candidate_linked: "c \<in> set (md_candidates db) \<Longrightarrow> mc_owner_id c = owner \<Longrightarrow> mc_knowledge_base_id c = kb \<Longrightarrow>
    \<forall>i\<in>set ids. evidence_in owner kb db i \<Longrightarrow>
    memory_change env owner kb db
      (db\<lparr>md_candidate_evidence := md_candidate_evidence db @ map (Pair (mc_candidate_id c)) ids\<rparr>)"
| Revision_linked: "r \<in> set (md_revisions db) \<Longrightarrow> mr_owner_id r = owner \<Longrightarrow> mr_knowledge_base_id r = kb \<Longrightarrow>
    \<forall>i\<in>set ids. evidence_in owner kb db i \<Longrightarrow>
    memory_change env owner kb db
      (db\<lparr>md_revision_evidence := md_revision_evidence db @ map (Pair (mr_revision_id r)) ids\<rparr>)"
| Memory_created: "cm_memory_id m = fresh_id env db \<Longrightarrow> mr_revision_id r = me_uuid env (Suc (md_ids db)) \<Longrightarrow>
    cm_owner_id m = owner \<Longrightarrow> cm_knowledge_base_id m = kb \<Longrightarrow> memory_fields_ok env m \<Longrightarrow> current_revision m r \<Longrightarrow>
    distinct (map active_identity (active_memories (db\<lparr>md_memories := md_memories db @ [m]\<rparr>))) \<Longrightarrow>
    memory_change env owner kb db (db\<lparr>md_memories := md_memories db @ [m], md_revisions := md_revisions db @ [r],
      md_ids := Suc (Suc (md_ids db))\<rparr>)"
| Memory_revised: "m \<in> set (md_memories db) \<Longrightarrow> cm_owner_id m = owner \<Longrightarrow> cm_knowledge_base_id m = kb \<Longrightarrow>
    q \<in> set (md_revisions db) \<Longrightarrow> mr_revision_id q = cm_active_revision_id m \<Longrightarrow> mr_valid_to q = None \<Longrightarrow>
    mr_revision_id r = fresh_id env db \<Longrightarrow> cm_memory_id m' = cm_memory_id m \<Longrightarrow> cm_owner_id m' = owner \<Longrightarrow>
    cm_knowledge_base_id m' = kb \<Longrightarrow> memory_fields_ok env m' \<Longrightarrow> current_revision m' r \<Longrightarrow>
    distinct (map active_identity (active_memories (db\<lparr>md_memories :=
      update_where (\<lambda>x. cm_memory_id x = cm_memory_id m) (\<lambda>_. m') (md_memories db)\<rparr>))) \<Longrightarrow>
    memory_change env owner kb db (db\<lparr>
      md_memories := update_where (\<lambda>x. cm_memory_id x = cm_memory_id m) (\<lambda>_. m') (md_memories db),
      md_revisions := update_where (\<lambda>x. mr_revision_id x = mr_revision_id q) (\<lambda>x. x\<lparr>mr_valid_to := Some t\<rparr>)
        (md_revisions db) @ [r],
      md_ids := Suc (md_ids db)\<rparr>)"
| Memory_reinforced: "m \<in> set (md_memories db) \<Longrightarrow> cm_owner_id m = owner \<Longrightarrow> cm_knowledge_base_id m = kb \<Longrightarrow>
    cm_confidence m \<le> c \<Longrightarrow> c \<le> 1 \<Longrightarrow> s \<noteq> SSecret \<Longrightarrow>
    memory_change env owner kb db (db\<lparr>md_memories := update_where (\<lambda>x. cm_memory_id x = cm_memory_id m)
      (\<lambda>_. m\<lparr>cm_confidence := c, cm_sensitivity := s\<rparr>) (md_memories db)\<rparr>)"
| Memory_invalidated: "m \<in> set (md_memories db) \<Longrightarrow> cm_owner_id m = owner \<Longrightarrow> cm_knowledge_base_id m = kb \<Longrightarrow>
    cm_status m = MActive \<Longrightarrow>
    memory_change env owner kb db (db\<lparr>md_memories := update_where (\<lambda>x. cm_memory_id x = cm_memory_id m)
      (\<lambda>_. m\<lparr>cm_status := MInvalidated\<rparr>) (md_memories db)\<rparr>)"

subsection \<open>The invariant of the tables\<close>

definition row_ids :: "memory_db \<Rightarrow> string list" where
  "row_ids db = map cm_memory_id (md_memories db) @ map mr_revision_id (md_revisions db) @
     map mc_candidate_id (md_candidates db) @ map ev_evidence_id (md_evidence db)"

definition ids_wf :: "memory_env \<Rightarrow> memory_db \<Rightarrow> bool" where
  "ids_wf env db \<longleftrightarrow> distinct (row_ids db) \<and> set (row_ids db) \<subseteq> me_uuid env ` {..<md_ids db} \<and>
     distinct (map ev_identity_hash (md_evidence db))"

definition memories_wf :: "memory_env \<Rightarrow> memory_db \<Rightarrow> bool" where
  "memories_wf env db \<longleftrightarrow> (\<forall>m\<in>set (md_memories db). memory_fields_ok env m \<and>
     (\<exists>r\<in>set (md_revisions db). current_revision m r)) \<and> distinct (map active_identity (active_memories db))"

definition revisions_wf :: "memory_db \<Rightarrow> bool" where
  "revisions_wf db \<longleftrightarrow> (\<forall>r\<in>set (md_revisions db). \<exists>m\<in>set (md_memories db). revision_of m r \<and>
     (mr_valid_to r = None \<longrightarrow> mr_revision_id r = cm_active_revision_id m))"

definition candidates_wf :: "memory_env \<Rightarrow> memory_db \<Rightarrow> bool" where
  "candidates_wf env db \<longleftrightarrow> (\<forall>c\<in>set (md_candidates db). candidate_fields_ok env c)"

definition links_wf :: "memory_db \<Rightarrow> bool" where
  "links_wf db \<longleftrightarrow>
     (\<forall>(i, e)\<in>set (md_revision_evidence db). \<exists>r\<in>set (md_revisions db). mr_revision_id r = i \<and>
        evidence_in (mr_owner_id r) (mr_knowledge_base_id r) db e) \<and>
     (\<forall>(i, e)\<in>set (md_candidate_evidence db). \<exists>c\<in>set (md_candidates db). mc_candidate_id c = i \<and>
        evidence_in (mc_owner_id c) (mc_knowledge_base_id c) db e)"

definition memory_wf :: "memory_env \<Rightarrow> memory_db \<Rightarrow> bool" where
  "memory_wf env db \<longleftrightarrow> ids_wf env db \<and> memories_wf env db \<and> revisions_wf db \<and> candidates_wf env db \<and> links_wf db"

lemma memory_wfI:
  "ids_wf env db \<Longrightarrow> memories_wf env db \<Longrightarrow> revisions_wf db \<Longrightarrow> candidates_wf env db \<Longrightarrow> links_wf db \<Longrightarrow>
   memory_wf env db"
  by (simp add: memory_wf_def)

lemma wf_distinct:
  assumes "ids_wf env db"
  shows "distinct (map cm_memory_id (md_memories db))" "distinct (map mr_revision_id (md_revisions db))"
    "distinct (map mc_candidate_id (md_candidates db))" "distinct (map ev_evidence_id (md_evidence db))"
  using assms by (auto simp: ids_wf_def row_ids_def)

lemma fresh_not_used:
  assumes "inj (me_uuid env)" and "ids_wf env db" and "md_ids db \<le> n"
  shows "me_uuid env n \<notin> set (row_ids db)"
proof
  assume "me_uuid env n \<in> set (row_ids db)"
  then obtain i where "i < md_ids db" "me_uuid env n = me_uuid env i"
    using assms(2) by (auto simp: ids_wf_def)
  then show False using assms(1,3) by (auto dest: injD)
qed

lemma map_update_where_id:
  "f (g x) = f x \<Longrightarrow> map f (update_where (\<lambda>q. f q = f x) (\<lambda>_. g x) rows) = map f rows"
  by (simp add: update_where_def)

lemma ids_wf_mono:
  "ids_wf env db \<Longrightarrow> row_ids db' = row_ids db \<Longrightarrow> md_ids db \<le> md_ids db' \<Longrightarrow>
   map ev_identity_hash (md_evidence db') = map ev_identity_hash (md_evidence db) \<Longrightarrow> ids_wf env db'"
  unfolding ids_wf_def by (auto intro: order_trans [OF _ image_mono])

lemma ids_wf_add:
  assumes "inj (me_uuid env)" and "ids_wf env db"
    and "set (row_ids db') = set ns \<union> set (row_ids db)" and "length (row_ids db') = length ns + length (row_ids db)"
    and "ns = map (me_uuid env) [md_ids db..<md_ids db']" and "md_ids db \<le> md_ids db'"
    and "distinct (map ev_identity_hash (md_evidence db'))"
  shows "ids_wf env db'"
proof -
  have dns: "distinct ns" using assms(1) by (simp add: assms(5) distinct_map inj_on_subset [OF assms(1)])
  have disj: "set ns \<inter> set (row_ids db) = {}"
    using fresh_not_used [OF assms(1,2)] by (auto simp: assms(5))
  have "card (set (row_ids db')) = length (row_ids db')"
    using assms(2) dns disj by (simp add: assms(3,4) card_Un_disjoint distinct_card ids_wf_def)
  then have "distinct (row_ids db')" by (rule card_distinct)
  moreover have "set (row_ids db') \<subseteq> me_uuid env ` {..<md_ids db'}"
    using assms(2,6) by (fastforce simp: assms(3,5) ids_wf_def)
  ultimately show ?thesis using assms(7) by (simp add: ids_wf_def)
qed

lemma change_ids_wf:
  assumes "memory_change env owner kb db db'" and "inj (me_uuid env)" and "ids_wf env db"
  shows "ids_wf env db'"
  using assms(1)
proof cases
  case (Evidence_added e)
  have "distinct (map ev_identity_hash (md_evidence db))" using assms(3) by (simp add: ids_wf_def)
  then show ?thesis unfolding Evidence_added(1)
    by (intro ids_wf_add [OF assms(2,3), where ns = "[fresh_id env db]"])
      (auto simp: row_ids_def Evidence_added(2-))
next
  case (Candidate_added c)
  have "distinct (map ev_identity_hash (md_evidence db))" using assms(3) by (simp add: ids_wf_def)
  then show ?thesis unfolding Candidate_added(1)
    by (intro ids_wf_add [OF assms(2,3), where ns = "[fresh_id env db]"])
      (auto simp: row_ids_def Candidate_added(2-))
next
  case (Memory_created m r)
  have "distinct (map ev_identity_hash (md_evidence db))" using assms(3) by (simp add: ids_wf_def)
  then show ?thesis unfolding Memory_created(1)
    by (intro ids_wf_add [OF assms(2,3), where ns = "[fresh_id env db, me_uuid env (Suc (md_ids db))]"])
      (auto simp: row_ids_def Memory_created(2,3))
next
  case (Memory_revised m q r m' t)
  have "distinct (map ev_identity_hash (md_evidence db))" using assms(3) by (simp add: ids_wf_def)
  moreover have "map cm_memory_id (update_where (\<lambda>x. cm_memory_id x = cm_memory_id m) (\<lambda>_. m') (md_memories db)) =
      map cm_memory_id (md_memories db)"
    by (rule map_update_where) (simp add: Memory_revised(9))
  moreover have "map mr_revision_id (update_where (\<lambda>x. mr_revision_id x = mr_revision_id q)
      (\<lambda>x. x\<lparr>mr_valid_to := Some t\<rparr>) (md_revisions db)) = map mr_revision_id (md_revisions db)"
    by (rule map_update_where) simp
  ultimately show ?thesis unfolding Memory_revised(1)
    by (intro ids_wf_add [OF assms(2,3), where ns = "[fresh_id env db]"])
      (auto simp: row_ids_def Memory_revised(8) simp del: set_map simp flip: list.set_map)
next
  case (Bookkeeping n ls)
  then show ?thesis by (intro ids_wf_mono [OF assms(3)]) (simp_all add: row_ids_def)
next
  case (Audited a)
  show ?thesis unfolding Audited(1) by (rule ids_wf_mono [OF assms(3)]) (simp_all add: row_ids_def)
next
  case (Document_set e d)
  show ?thesis unfolding Document_set(1)
    by (rule ids_wf_mono [OF assms(3)]) (simp_all add: row_ids_def map_update_where)
next
  case (Candidate_decided c s t)
  show ?thesis unfolding Candidate_decided(1)
    by (rule ids_wf_mono [OF assms(3)]) (simp_all add: row_ids_def map_update_where)
next
  case (Candidate_linked c ids)
  show ?thesis unfolding Candidate_linked(1) by (rule ids_wf_mono [OF assms(3)]) (simp_all add: row_ids_def)
next
  case (Revision_linked r ids)
  show ?thesis unfolding Revision_linked(1) by (rule ids_wf_mono [OF assms(3)]) (simp_all add: row_ids_def)
next
  case (Memory_reinforced m c s)
  show ?thesis unfolding Memory_reinforced(1)
    by (rule ids_wf_mono [OF assms(3)]) (simp_all add: row_ids_def map_update_where)
next
  case (Memory_invalidated m)
  show ?thesis unfolding Memory_invalidated(1)
    by (rule ids_wf_mono [OF assms(3)]) (simp_all add: row_ids_def map_update_where)
qed
text \<open>What a change does to memories and revisions, in four kinds.\<close>

lemma memory_rows_cases [consumes 1]:
  assumes "memory_change env owner kb db db'"
  obtains (frame) "md_memories db' = md_memories db" and "md_revisions db' = md_revisions db"
  | (created) m r where "cm_memory_id m = fresh_id env db" and "mr_revision_id r = me_uuid env (Suc (md_ids db))"
      and "cm_owner_id m = owner" and "cm_knowledge_base_id m = kb" and "memory_fields_ok env m"
      and "current_revision m r" and "distinct (map active_identity (active_memories db'))"
      and "md_memories db' = md_memories db @ [m]" and "md_revisions db' = md_revisions db @ [r]"
      and "md_evidence db' = md_evidence db" and "md_candidates db' = md_candidates db"
      and "md_revision_evidence db' = md_revision_evidence db"
  | (revised) m q r m' t where "m \<in> set (md_memories db)" and "cm_owner_id m = owner"
      and "cm_knowledge_base_id m = kb" and "q \<in> set (md_revisions db)"
      and "mr_revision_id q = cm_active_revision_id m" and "mr_valid_to q = None" and "mr_revision_id r = fresh_id env db"
      and "cm_memory_id m' = cm_memory_id m" and "cm_owner_id m' = owner" and "cm_knowledge_base_id m' = kb"
      and "memory_fields_ok env m'" and "current_revision m' r"
      and "distinct (map active_identity (active_memories db'))"
      and "md_memories db' = update_where (\<lambda>x. cm_memory_id x = cm_memory_id m) (\<lambda>_. m') (md_memories db)"
      and "md_revisions db' = update_where (\<lambda>x. mr_revision_id x = mr_revision_id q)
        (\<lambda>x. x\<lparr>mr_valid_to := Some t\<rparr>) (md_revisions db) @ [r]"
  | (updated) m c s st where "m \<in> set (md_memories db)" and "cm_owner_id m = owner" and "cm_knowledge_base_id m = kb"
      and "cm_confidence m \<le> c" and "c \<le> max 1 (cm_confidence m)" and "s \<noteq> SSecret \<or> s = cm_sensitivity m"
      and "st = cm_status m \<or> st = MInvalidated"
      and "md_memories db' = update_where (\<lambda>x. cm_memory_id x = cm_memory_id m)
        (\<lambda>_. m\<lparr>cm_confidence := c, cm_sensitivity := s, cm_status := st\<rparr>) (md_memories db)"
      and "md_revisions db' = md_revisions db"
  using assms
proof cases
  case (Memory_created m r)
  show thesis
    by (rule created [of m r]) (use Memory_created in \<open>simp_all add: active_memories_def\<close>)
next
  case (Memory_revised m q r m' t)
  show thesis
    by (rule revised [of m q r m' t]) (use Memory_revised in \<open>simp_all add: active_memories_def\<close>)
next
  case (Memory_reinforced m c s)
  show thesis
    by (rule updated [of m c s "cm_status m"]) (use Memory_reinforced in \<open>simp_all\<close>)
next
  case (Memory_invalidated m)
  show thesis
    by (rule updated [of m "cm_confidence m" "cm_sensitivity m" MInvalidated]) (use Memory_invalidated in \<open>simp_all\<close>)
qed (rule frame; simp)+

lemma active_update_distinct:
  assumes "distinct (map active_identity (active_memories db))"
    and "distinct (map cm_memory_id (md_memories db))" and "m \<in> set (md_memories db)"
    and "active_identity m' = active_identity m" and "cm_status m' = MActive \<Longrightarrow> cm_status m = MActive"
    and "md_memories db' = update_where (\<lambda>x. cm_memory_id x = cm_memory_id m) (\<lambda>_. m') (md_memories db)"
  shows "distinct (map active_identity (active_memories db'))"
proof -
  have "\<forall>x\<in>set (md_memories db). active_identity (if cm_memory_id x = cm_memory_id m then m' else x) = active_identity x \<and>
      (cm_status (if cm_memory_id x = cm_memory_id m then m' else x) = MActive \<longrightarrow> cm_status x = MActive)"
    using distinct_key_unique [OF assms(2) _ assms(3)] assms(4,5) by fastforce
  then show ?thesis using assms(1)
    unfolding active_memories_def assms(6) update_where_def by (intro distinct_filter_map)
qed

text \<open>The rows of the two tables after an update of one memory.\<close>

lemma updated_memories:
  assumes "ids_wf env db" and "m \<in> set (md_memories db)"
    and "md_memories db' = update_where (\<lambda>x. cm_memory_id x = cm_memory_id m) (\<lambda>_. m') (md_memories db)"
  shows "set (md_memories db') = insert m' (set (md_memories db) - {m})"
  unfolding assms(3) by (rule set_update_where_id [OF wf_distinct(1) [OF assms(1)] assms(2)])

lemma closed_revisions:
  assumes "ids_wf env db" and "q \<in> set (md_revisions db)"
    and "md_revisions db' = update_where (\<lambda>x. mr_revision_id x = mr_revision_id q)
      (\<lambda>x. x\<lparr>mr_valid_to := Some t\<rparr>) (md_revisions db) @ [r]"
  shows "set (md_revisions db') = insert r (insert (q\<lparr>mr_valid_to := Some t\<rparr>) (set (md_revisions db) - {q}))"
  unfolding assms(3) set_append set_update_where_id [OF wf_distinct(2) [OF assms(1)] assms(2)] by simp

lemma current_revision_cong:
  "cm_memory_id m' = cm_memory_id m \<Longrightarrow> cm_owner_id m' = cm_owner_id m \<Longrightarrow>
   cm_knowledge_base_id m' = cm_knowledge_base_id m \<Longrightarrow> cm_active_revision_id m' = cm_active_revision_id m \<Longrightarrow>
   cm_subject m' = cm_subject m \<Longrightarrow> cm_predicate m' = cm_predicate m \<Longrightarrow> cm_value m' = cm_value m \<Longrightarrow>
   cm_fingerprint m' = cm_fingerprint m \<Longrightarrow> current_revision m' r = current_revision m r"
  by (simp add: current_revision_def revision_of_def same_content_def)

lemma change_memories_wf:
  assumes "memory_change env owner kb db db'" and "ids_wf env db" and wf: "memories_wf env db"
  shows "memories_wf env db'"
  using assms(1)
proof (cases rule: memory_rows_cases)
  case frame
  then show ?thesis using wf by (simp add: memories_wf_def active_memories_def)
next
  case (created m r)
  then show ?thesis using wf by (fastforce simp: memories_wf_def)
next
  case (revised m q r m' t)
  note mems = updated_memories [OF assms(2) revised(1) revised(14)]
  note revs = closed_revisions [OF assms(2) revised(4) revised(15)]
  have "memory_fields_ok env x \<and> (\<exists>y\<in>set (md_revisions db'). current_revision x y)"
    if "x \<in> set (md_memories db')" for x
  proof (cases "x = m'")
    case True
    then show ?thesis using revised(11,12) revs by auto
  next
    case False
    then have x: "x \<in> set (md_memories db)" "x \<noteq> m" using that mems by auto
    then obtain y where y: "y \<in> set (md_revisions db)" "current_revision x y" "memory_fields_ok env x"
      using wf by (auto simp: memories_wf_def)
    obtain z where z: "z \<in> set (md_revisions db)" "current_revision m z"
      using wf revised(1) by (auto simp: memories_wf_def)
    have "z = q" using distinct_key_unique [OF wf_distinct(2) [OF assms(2)] z(1) revised(4)] z(2) revised(5)
      by (simp add: current_revision_def)
    moreover have "cm_memory_id x \<noteq> cm_memory_id m"
      using distinct_key_unique [OF wf_distinct(1) [OF assms(2)] x(1) revised(1)] x(2) by blast
    ultimately have "y \<noteq> q" using y(2) z(2) by (auto simp: current_revision_def revision_of_def)
    then show ?thesis using y revs by auto
  qed
  then show ?thesis using revised(13) by (simp add: memories_wf_def)
next
  case (updated m c s st)
  let ?m = "m\<lparr>cm_confidence := c, cm_sensitivity := s, cm_status := st\<rparr>"
  note mems = updated_memories [OF assms(2) updated(1) updated(8)]
  have m: "memory_fields_ok env m" "\<exists>r\<in>set (md_revisions db). current_revision m r"
    using wf updated(1) by (auto simp: memories_wf_def)
  have "memory_fields_ok env ?m"
    using m(1) updated(4-6) by (auto simp: memory_fields_ok_def unit_interval_def)
  moreover have "current_revision ?m = current_revision m" by (rule ext, rule current_revision_cong) simp_all
  moreover have "distinct (map active_identity (active_memories db'))"
    by (rule active_update_distinct [OF _ wf_distinct(1) [OF assms(2)] updated(1) _ _ updated(8)])
      (use wf updated(7) in \<open>auto simp: memories_wf_def active_identity_def\<close>)
  ultimately show ?thesis using wf m(2) unfolding memories_wf_def mems updated(9) by auto
qed

lemma change_revisions_wf:
  assumes "memory_change env owner kb db db'" and "inj (me_uuid env)" and "ids_wf env db"
    and mwf: "memories_wf env db" and wf: "revisions_wf db"
  shows "revisions_wf db'"
  using assms(1)
proof (cases rule: memory_rows_cases)
  case frame
  then show ?thesis using wf by (simp add: revisions_wf_def)
next
  case (created m r)
  then show ?thesis using wf by (fastforce simp: revisions_wf_def current_revision_def)
next
  case (revised m q r m' t)
  note mems = updated_memories [OF assms(3) revised(1) revised(14)]
  note revs = closed_revisions [OF assms(3) revised(4) revised(15)]
  obtain z where z: "z \<in> set (md_revisions db)" "current_revision m z"
    using mwf revised(1) by (auto simp: memories_wf_def)
  have zq: "z = q" using distinct_key_unique [OF wf_distinct(2) [OF assms(3)] z(1) revised(4)] z(2) revised(5)
    by (simp add: current_revision_def)
  have "\<exists>n\<in>set (md_memories db'). revision_of n y \<and> (mr_valid_to y = None \<longrightarrow> mr_revision_id y = cm_active_revision_id n)"
    if y: "y \<in> set (md_revisions db')" for y
  proof -
    have keep: "revision_of m' w" if "revision_of m w" for w
      using that revised(2,3,8-10) by (simp add: revision_of_def)
    consider "y = r" | "y = q\<lparr>mr_valid_to := Some t\<rparr>" | "y \<in> set (md_revisions db)" "y \<noteq> q"
      using y revs by auto
    then show ?thesis
    proof cases
      case 1
      then show ?thesis using revised(12) mems by (auto simp: current_revision_def)
    next
      case 2
      have "revision_of m' q" using keep z(2) zq by (simp add: current_revision_def)
      then show ?thesis using 2 mems by (auto simp: revision_of_def)
    next
      case 3
      then obtain n where n: "n \<in> set (md_memories db)" "revision_of n y"
          "mr_valid_to y = None \<longrightarrow> mr_revision_id y = cm_active_revision_id n"
        using wf by (auto simp: revisions_wf_def)
      show ?thesis
      proof (cases "n = m")
        case True
        have "mr_valid_to y \<noteq> None"
        proof
          assume "mr_valid_to y = None"
          then have "mr_revision_id y = mr_revision_id q" using n(3) True revised(5) by simp
          then show False using distinct_key_unique [OF wf_distinct(2) [OF assms(3)] 3(1) revised(4)] 3(2) by blast
        qed
        then show ?thesis using keep n(2) True mems by auto
      next
        case False
        then show ?thesis using n mems by auto
      qed
    qed
  qed
  then show ?thesis by (simp add: revisions_wf_def)
next
  case (updated m c s st)
  note mems = updated_memories [OF assms(3) updated(1) updated(8)]
  have "revision_of (m\<lparr>cm_confidence := c, cm_sensitivity := s, cm_status := st\<rparr>) = revision_of m"
    by (rule ext) (simp add: revision_of_def)
  then show ?thesis using wf unfolding revisions_wf_def mems updated(9) by fastforce
qed

lemma candidate_rows_cases [consumes 1]:
  assumes "memory_change env owner kb db db'"
  obtains (frame) "md_candidates db' = md_candidates db"
  | (added) c where "mc_candidate_id c = fresh_id env db" and "mc_owner_id c = owner" and "mc_knowledge_base_id c = kb"
      and "candidate_fields_ok env c" and "md_candidates db' = md_candidates db @ [c]"
  | (decided) c s t where "c \<in> set (md_candidates db)" and "mc_owner_id c = owner" and "mc_knowledge_base_id c = kb"
      and "mc_status c = CPending" and "s \<noteq> CPending"
      and "md_candidates db' = update_where (\<lambda>q. mc_candidate_id q = mc_candidate_id c)
        (\<lambda>_. c\<lparr>mc_status := s, mc_decided_at := Some t\<rparr>) (md_candidates db)"
  using assms
proof cases
  case (Candidate_added c)
  show thesis by (rule added [of c]) (use Candidate_added in \<open>simp_all\<close>)
next
  case (Candidate_decided c s t)
  show thesis by (rule decided [of c s t]) (use Candidate_decided in \<open>simp_all\<close>)
qed (rule frame; simp)+

lemma decided_candidates:
  assumes "ids_wf env db" and "c \<in> set (md_candidates db)"
    and "md_candidates db' = update_where (\<lambda>q. mc_candidate_id q = mc_candidate_id c) (\<lambda>_. c') (md_candidates db)"
  shows "set (md_candidates db') = insert c' (set (md_candidates db) - {c})"
  unfolding assms(3) by (rule set_update_where_id [OF wf_distinct(3) [OF assms(1)] assms(2)])

lemma change_candidates_wf:
  assumes "memory_change env owner kb db db'" and "ids_wf env db" and wf: "candidates_wf env db"
  shows "candidates_wf env db'"
  using assms(1)
proof (cases rule: candidate_rows_cases)
  case frame
  then show ?thesis using wf by (simp add: candidates_wf_def)
next
  case (added c)
  then show ?thesis using wf by (simp add: candidates_wf_def)
next
  case (decided c s t)
  have "candidate_fields_ok env c" using wf decided(1) by (simp add: candidates_wf_def)
  then have "candidate_fields_ok env (c\<lparr>mc_status := s, mc_decided_at := Some t\<rparr>)"
    using decided(5) by (simp add: candidate_fields_ok_def)
  then show ?thesis using wf unfolding candidates_wf_def decided_candidates [OF assms(2) decided(1,6)] by auto
qed

subsection \<open>What no change does\<close>

text \<open>Revisions are never rewritten or lost, only closed once; decisions on candidates are final.\<close>

definition revision_kept :: "memory_revision \<Rightarrow> memory_revision list \<Rightarrow> bool" where
  "revision_kept r rows \<longleftrightarrow> (\<exists>r'\<in>set rows. r' = r \<or> (mr_valid_to r = None \<and> (\<exists>t. r' = r\<lparr>mr_valid_to := Some t\<rparr>)))"

definition candidate_kept :: "memory_candidate \<Rightarrow> memory_candidate list \<Rightarrow> bool" where
  "candidate_kept c rows \<longleftrightarrow> (\<exists>c'\<in>set rows. c' = c \<or>
     (mc_status c = CPending \<and> mc_status c' \<noteq> CPending \<and> c' = c\<lparr>mc_status := mc_status c', mc_decided_at := mc_decided_at c'\<rparr>))"

definition evidence_kept :: "memory_evidence \<Rightarrow> memory_evidence list \<Rightarrow> bool" where
  "evidence_kept e rows \<longleftrightarrow> (\<exists>d. e\<lparr>ev_source_document_id := d\<rparr> \<in> set rows)"

lemma evidence_kept_self: "e \<in> set rows \<Longrightarrow> evidence_kept e rows"
  unfolding evidence_kept_def by (rule exI [of _ "ev_source_document_id e"]) (cases e; simp)

definition history_kept :: "memory_db \<Rightarrow> memory_db \<Rightarrow> bool" where
  "history_kept db db' \<longleftrightarrow>
     (\<forall>r\<in>set (md_revisions db). revision_kept r (md_revisions db')) \<and>
     (\<forall>c\<in>set (md_candidates db). candidate_kept c (md_candidates db')) \<and>
     (\<forall>e\<in>set (md_evidence db). evidence_kept e (md_evidence db')) \<and>
     set (md_revision_evidence db) \<subseteq> set (md_revision_evidence db') \<and>
     set (md_candidate_evidence db) \<subseteq> set (md_candidate_evidence db') \<and>
     set (md_audits db) \<subseteq> set (md_audits db')"

lemma revision_kept_trans:
  assumes "revision_kept r xs" and "\<forall>x\<in>set xs. revision_kept x ys"
  shows "revision_kept r ys"
proof -
  obtain x where x: "x \<in> set xs" "x = r \<or> mr_valid_to r = None \<and> (\<exists>t. x = r\<lparr>mr_valid_to := Some t\<rparr>)"
    using assms(1) by (auto simp: revision_kept_def)
  have kx: "revision_kept x ys" using assms(2) x(1) by blast
  show ?thesis
  proof (cases "x = r")
    case False
    then have "mr_valid_to x \<noteq> None" using x(2) by auto
    then have "x \<in> set ys" using kx by (auto simp: revision_kept_def)
    then show ?thesis using x(2) by (auto simp: revision_kept_def)
  qed (use kx in simp)
qed

lemma candidate_kept_trans:
  assumes "candidate_kept c xs" and "\<forall>x\<in>set xs. candidate_kept x ys"
  shows "candidate_kept c ys"
proof -
  obtain x where x: "x \<in> set xs" "x = c \<or> (mc_status c = CPending \<and> mc_status x \<noteq> CPending \<and>
      x = c\<lparr>mc_status := mc_status x, mc_decided_at := mc_decided_at x\<rparr>)"
    using assms(1) by (auto simp: candidate_kept_def)
  have kx: "candidate_kept x ys" using assms(2) x(1) by blast
  show ?thesis
  proof (cases "x = c")
    case False
    then have "mc_status x \<noteq> CPending" using x(2) by blast
    then have "x \<in> set ys" using kx by (auto simp: candidate_kept_def)
    then show ?thesis using x(2) by (auto simp: candidate_kept_def)
  qed (use kx in simp)
qed

lemma evidence_kept_trans:
  "evidence_kept e xs \<Longrightarrow> \<forall>x\<in>set xs. evidence_kept x ys \<Longrightarrow> evidence_kept e ys"
  unfolding evidence_kept_def by (fastforce dest!: bspec)

lemma history_kept_refl: "history_kept db db"
  by (auto simp: history_kept_def revision_kept_def candidate_kept_def intro: evidence_kept_self)

lemma history_kept_trans: "history_kept a b \<Longrightarrow> history_kept b c \<Longrightarrow> history_kept a c"
  unfolding history_kept_def
  by (blast intro: revision_kept_trans candidate_kept_trans evidence_kept_trans)

lemma in_update_where: "x \<in> set rows \<Longrightarrow> (if P x then f x else x) \<in> set (update_where P f rows)"
  by (auto simp: set_update_where)

lemma kept_same:
  "x \<in> set rs \<Longrightarrow> revision_kept x rs" "c \<in> set cs \<Longrightarrow> candidate_kept c cs" "e \<in> set es \<Longrightarrow> evidence_kept e es"
  by (auto simp: revision_kept_def candidate_kept_def evidence_kept_self)

lemma change_revisions_kept:
  assumes "memory_change env owner kb db db'" and "ids_wf env db" and "r \<in> set (md_revisions db)"
  shows "revision_kept r (md_revisions db')"
  using assms(1)
proof (cases rule: memory_rows_cases)
  case (revised m q x m' t)
  show ?thesis
    using revised(6) assms(3) unfolding revision_kept_def closed_revisions [OF assms(2) revised(4,15)] by auto
qed (use assms(3) in \<open>auto intro: kept_same\<close>)

lemma change_candidates_kept:
  assumes "memory_change env owner kb db db'" and "ids_wf env db" and "c \<in> set (md_candidates db)"
  shows "candidate_kept c (md_candidates db')"
  using assms(1)
proof (cases rule: candidate_rows_cases)
  case (decided x s t)
  show ?thesis
    using decided(4,5) assms(3) unfolding candidate_kept_def decided_candidates [OF assms(2) decided(1,6)] by auto
qed (use assms(3) in \<open>auto intro: kept_same\<close>)

lemma change_evidence_kept:
  assumes "memory_change env owner kb db db'" and "e \<in> set (md_evidence db)"
  shows "evidence_kept e (md_evidence db')"
  using assms(1)
proof cases
  case (Document_set x d)
  have "(if ev_evidence_id e = ev_evidence_id x then e\<lparr>ev_source_document_id := Some d\<rparr> else e) \<in> set (md_evidence db')"
    unfolding Document_set(1)
    using in_update_where [OF assms(2), of "\<lambda>r. ev_evidence_id r = ev_evidence_id x" "\<lambda>r. r\<lparr>ev_source_document_id := Some d\<rparr>"]
    by simp
  then show ?thesis
    by (cases "ev_evidence_id e = ev_evidence_id x") (simp, unfold evidence_kept_def, blast, simp add: evidence_kept_self [unfolded evidence_kept_def])
qed (use assms(2) in \<open>auto intro: kept_same\<close>)

lemma change_links_kept:
  assumes "memory_change env owner kb db db'"
  shows "set (md_revision_evidence db) \<subseteq> set (md_revision_evidence db') \<and>
    set (md_candidate_evidence db) \<subseteq> set (md_candidate_evidence db') \<and> set (md_audits db) \<subseteq> set (md_audits db')"
  using assms by cases auto

lemma change_history_kept:
  assumes "memory_change env owner kb db db'" and "ids_wf env db"
  shows "history_kept db db'"
  using change_revisions_kept [OF assms] change_candidates_kept [OF assms] change_evidence_kept [OF assms(1)]
    change_links_kept [OF assms(1)] by (simp add: history_kept_def)


lemma evidence_in_kept:
  assumes "memory_change env owner kb db db'" and "evidence_in o' k db i"
  shows "evidence_in o' k db' i"
proof -
  obtain e where e: "e \<in> set (md_evidence db)" "ev_evidence_id e = i" "ev_owner_id e = o'" "ev_knowledge_base_id e = k"
    using assms(2) by (auto simp: evidence_in_def)
  obtain d where d: "e\<lparr>ev_source_document_id := d\<rparr> \<in> set (md_evidence db')"
    using change_evidence_kept [OF assms(1) e(1)] by (auto simp: evidence_kept_def)
  show ?thesis unfolding evidence_in_def by (rule bexI [OF _ d]) (simp add: e)
qed

definition revision_link_ok :: "memory_db \<Rightarrow> string \<times> string \<Rightarrow> bool" where
  "revision_link_ok db l \<longleftrightarrow> (\<exists>r\<in>set (md_revisions db). mr_revision_id r = fst l \<and>
     evidence_in (mr_owner_id r) (mr_knowledge_base_id r) db (snd l))"

definition candidate_link_ok :: "memory_db \<Rightarrow> string \<times> string \<Rightarrow> bool" where
  "candidate_link_ok db l \<longleftrightarrow> (\<exists>c\<in>set (md_candidates db). mc_candidate_id c = fst l \<and>
     evidence_in (mc_owner_id c) (mc_knowledge_base_id c) db (snd l))"

lemma links_wf_iff:
  "links_wf db \<longleftrightarrow> (\<forall>l\<in>set (md_revision_evidence db). revision_link_ok db l) \<and>
     (\<forall>l\<in>set (md_candidate_evidence db). candidate_link_ok db l)"
  by (simp add: links_wf_def revision_link_ok_def candidate_link_ok_def case_prod_beta)

lemma revision_link_kept:
  assumes "memory_change env owner kb db db'" and "ids_wf env db" and "revision_link_ok db l"
  shows "revision_link_ok db' l"
proof -
  obtain r where r: "r \<in> set (md_revisions db)" "mr_revision_id r = fst l"
      "evidence_in (mr_owner_id r) (mr_knowledge_base_id r) db (snd l)"
    using assms(3) by (auto simp: revision_link_ok_def)
  obtain r' where r': "r' \<in> set (md_revisions db')" "r' = r \<or> (\<exists>t. r' = r\<lparr>mr_valid_to := Some t\<rparr>)"
    using change_revisions_kept [OF assms(1,2) r(1)] by (auto simp: revision_kept_def)
  then have "mr_revision_id r' = mr_revision_id r" "mr_owner_id r' = mr_owner_id r"
      "mr_knowledge_base_id r' = mr_knowledge_base_id r"
    by auto
  then show ?thesis
    using r r'(1) evidence_in_kept [OF assms(1) r(3)] unfolding revision_link_ok_def by (intro bexI [of _ r']) simp_all
qed

lemma candidate_link_kept:
  assumes "memory_change env owner kb db db'" and "ids_wf env db" and "candidate_link_ok db l"
  shows "candidate_link_ok db' l"
proof -
  obtain c where c: "c \<in> set (md_candidates db)" "mc_candidate_id c = fst l"
      "evidence_in (mc_owner_id c) (mc_knowledge_base_id c) db (snd l)"
    using assms(3) by (auto simp: candidate_link_ok_def)
  obtain c' where c': "c' \<in> set (md_candidates db')"
      "c' = c \<or> c' = c\<lparr>mc_status := mc_status c', mc_decided_at := mc_decided_at c'\<rparr>"
    using change_candidates_kept [OF assms(1,2) c(1)] unfolding candidate_kept_def by blast
  from c'(2) have "mc_candidate_id c' = mc_candidate_id c \<and> mc_owner_id c' = mc_owner_id c \<and>
      mc_knowledge_base_id c' = mc_knowledge_base_id c"
  proof
    assume "c' = c\<lparr>mc_status := mc_status c', mc_decided_at := mc_decided_at c'\<rparr>"
    then show ?thesis by (rule ssubst) simp
  qed simp
  then show ?thesis
    using c c'(1) evidence_in_kept [OF assms(1) c(3)] unfolding candidate_link_ok_def by (intro bexI [of _ c']) simp_all
qed

lemma change_links_wf:
  assumes "memory_change env owner kb db db'" and "ids_wf env db" and wf: "links_wf db"
  shows "links_wf db'"
proof -
  have "revision_link_ok db' l" if "l \<in> set (md_revision_evidence db')" for l
  proof (cases "l \<in> set (md_revision_evidence db)")
    case True
    then show ?thesis using wf revision_link_kept [OF assms(1,2)] by (simp add: links_wf_iff)
  next
    case False
    from assms(1) show ?thesis
    proof cases
      case (Revision_linked r ids)
      then have "fst l = mr_revision_id r" "snd l \<in> set ids" using that False by auto
      then show ?thesis
        using Revision_linked(2-) unfolding Revision_linked(1) revision_link_ok_def evidence_in_def by auto
    qed (use False that in simp_all)
  qed
  moreover have "candidate_link_ok db' l" if "l \<in> set (md_candidate_evidence db')" for l
  proof (cases "l \<in> set (md_candidate_evidence db)")
    case True
    then show ?thesis using wf candidate_link_kept [OF assms(1,2)] by (simp add: links_wf_iff)
  next
    case False
    from assms(1) show ?thesis
    proof cases
      case (Candidate_linked c ids)
      then have "fst l = mc_candidate_id c" "snd l \<in> set ids" using that False by auto
      then show ?thesis
        using Candidate_linked(2-) unfolding Candidate_linked(1) candidate_link_ok_def evidence_in_def by auto
    qed (use False that in simp_all)
  qed
  ultimately show ?thesis by (simp add: links_wf_iff)
qed

lemma change_wf:
  assumes "inj (me_uuid env)" and "memory_change env owner kb db db'" and "memory_wf env db"
  shows "memory_wf env db'"
  using assms(3) unfolding memory_wf_def
  by (intro conjI change_ids_wf [OF assms(2,1)] change_memories_wf [OF assms(2)] change_revisions_wf [OF assms(2,1)]
      change_candidates_wf [OF assms(2)] change_links_wf [OF assms(2)]) simp_all

subsection \<open>Isolation\<close>

definition scope_view ::
  "int \<times> string option \<Rightarrow> memory_db \<Rightarrow> canonical_memory list \<times> memory_revision list \<times> memory_candidate list \<times>
   memory_evidence list \<times> memory_audit list" where
  "scope_view sc db =
     (filter (\<lambda>m. (cm_owner_id m, cm_knowledge_base_id m) = sc) (md_memories db),
      filter (\<lambda>r. (mr_owner_id r, mr_knowledge_base_id r) = sc) (md_revisions db),
      filter (\<lambda>c. (mc_owner_id c, mc_knowledge_base_id c) = sc) (md_candidates db),
      filter (\<lambda>e. (ev_owner_id e, ev_knowledge_base_id e) = sc) (md_evidence db),
      filter (\<lambda>a. (ma_owner_id a, ma_knowledge_base_id a) = sc) (md_audits db))"

lemma change_isolated:
  assumes "memory_change env owner kb db db'" and wf: "memory_wf env db" and "sc \<noteq> (owner, kb)"
  shows "scope_view sc db' = scope_view sc db"
proof -
  have ids: "ids_wf env db" using wf by (simp add: memory_wf_def)
  note d = wf_distinct [OF ids]
  from assms(1) show ?thesis
  proof cases
    case (Document_set e x)
    have "filter (\<lambda>e. (ev_owner_id e, ev_knowledge_base_id e) = sc) (md_evidence db') =
        filter (\<lambda>e. (ev_owner_id e, ev_knowledge_base_id e) = sc) (md_evidence db)"
      unfolding Document_set(1) using Document_set(2-) assms(3) by (simp add: filter_update_id [OF d(4)])
    then show ?thesis unfolding Document_set(1) by (simp add: scope_view_def)
  next
    case (Candidate_decided c s t)
    have "filter (\<lambda>c. (mc_owner_id c, mc_knowledge_base_id c) = sc) (md_candidates db') =
        filter (\<lambda>c. (mc_owner_id c, mc_knowledge_base_id c) = sc) (md_candidates db)"
      unfolding Candidate_decided(1) using Candidate_decided(2-) assms(3) by (simp add: filter_update_id [OF d(3)])
    then show ?thesis unfolding Candidate_decided(1) by (simp add: scope_view_def)
  next
    case (Memory_created m r)
    then show ?thesis using assms(3) by (auto simp: scope_view_def current_revision_def revision_of_def)
  next
    case (Memory_revised m q r m' t)
    have "revisions_wf db" "memories_wf env db" using wf by (simp_all add: memory_wf_def)
    then obtain z where "z \<in> set (md_revisions db)" "current_revision m z"
      using Memory_revised(2) by (auto simp: memories_wf_def)
    then have "current_revision m q"
      using distinct_key_unique [OF d(2), of z q] Memory_revised(5,6) by (simp add: current_revision_def)
    then have q: "mr_owner_id q = owner" "mr_knowledge_base_id q = kb"
      using Memory_revised(3,4) by (simp_all add: current_revision_def revision_of_def)
    have r: "mr_owner_id r = owner" "mr_knowledge_base_id r = kb"
      using Memory_revised(10,11,13) by (simp_all add: current_revision_def revision_of_def)
    have "filter (\<lambda>m. (cm_owner_id m, cm_knowledge_base_id m) = sc) (md_memories db') =
        filter (\<lambda>m. (cm_owner_id m, cm_knowledge_base_id m) = sc) (md_memories db)"
      unfolding Memory_revised(1) using Memory_revised(2-4,10,11) assms(3) by (simp add: filter_update_id [OF d(1)])
    moreover have "filter (\<lambda>r. (mr_owner_id r, mr_knowledge_base_id r) = sc) (md_revisions db') =
        filter (\<lambda>r. (mr_owner_id r, mr_knowledge_base_id r) = sc) (md_revisions db)"
      unfolding Memory_revised(1) using Memory_revised(5) q r assms(3) by (simp add: filter_update_id [OF d(2)])
    ultimately show ?thesis unfolding Memory_revised(1) by (simp add: scope_view_def)
  next
    case (Memory_reinforced m c s)
    have "filter (\<lambda>m. (cm_owner_id m, cm_knowledge_base_id m) = sc) (md_memories db') =
        filter (\<lambda>m. (cm_owner_id m, cm_knowledge_base_id m) = sc) (md_memories db)"
      unfolding Memory_reinforced(1) using Memory_reinforced(2-4) assms(3) by (simp add: filter_update_id [OF d(1)])
    then show ?thesis unfolding Memory_reinforced(1) by (simp add: scope_view_def)
  next
    case (Memory_invalidated m)
    have "filter (\<lambda>m. (cm_owner_id m, cm_knowledge_base_id m) = sc) (md_memories db') =
        filter (\<lambda>m. (cm_owner_id m, cm_knowledge_base_id m) = sc) (md_memories db)"
      unfolding Memory_invalidated(1) using Memory_invalidated(2-4) assms(3) by (simp add: filter_update_id [OF d(1)])
    then show ?thesis unfolding Memory_invalidated(1) by (simp add: scope_view_def)
  qed (use assms(3) in \<open>auto simp: scope_view_def\<close>)
qed

subsection \<open>From changes to sequences of changes\<close>

locale scoped_changes =
  fixes change :: "'c \<Rightarrow> 's \<Rightarrow> 's \<Rightarrow> bool"
    and inv :: "'s \<Rightarrow> bool"
    and view :: "'c \<Rightarrow> 's \<Rightarrow> 'v"
    and kept :: "'s \<Rightarrow> 's \<Rightarrow> bool"
  assumes change_inv: "change c s s' \<Longrightarrow> inv s \<Longrightarrow> inv s'"
    and change_view: "change c s s' \<Longrightarrow> inv s \<Longrightarrow> d \<noteq> c \<Longrightarrow> view d s' = view d s"
    and change_kept: "change c s s' \<Longrightarrow> inv s \<Longrightarrow> kept s s'"
    and kept_refl: "kept s s"
    and kept_trans: "kept a b \<Longrightarrow> kept b c' \<Longrightarrow> kept a c'"
begin

lemma changes_inv: "(change c)\<^sup>*\<^sup>* s s' \<Longrightarrow> inv s \<Longrightarrow> inv s'"
  by (induction rule: rtranclp_induct) (auto intro: change_inv)

lemma changes_view: "(change c)\<^sup>*\<^sup>* s s' \<Longrightarrow> inv s \<Longrightarrow> d \<noteq> c \<Longrightarrow> view d s' = view d s"
  by (induction rule: rtranclp_induct) (auto simp: change_view dest: changes_inv)

lemma changes_kept: "(change c)\<^sup>*\<^sup>* s s' \<Longrightarrow> inv s \<Longrightarrow> kept s s'"
proof (induction rule: rtranclp_induct)
  case (step t u)
  have "inv t" by (rule changes_inv [OF step.hyps(1) step.prems])
  then show ?case by (rule kept_trans [OF step.IH [OF step.prems] change_kept [OF step.hyps(2)]])
qed (rule kept_refl)

end

definition scope_change :: "memory_env \<Rightarrow> int \<times> string option \<Rightarrow> memory_db \<Rightarrow> memory_db \<Rightarrow> bool" where
  "scope_change env sc = memory_change env (fst sc) (snd sc)"

definition governed :: "memory_env \<Rightarrow> memory_db \<Rightarrow> bool" where
  "governed env db \<longleftrightarrow> inj (me_uuid env) \<and> memory_wf env db"

interpretation memory_tables: scoped_changes "scope_change env" "governed env" scope_view history_kept for env
proof
  show "governed env s'" if "scope_change env c s s'" "governed env s" for c s s'
    using that change_wf by (auto simp: scope_change_def governed_def)
  show "scope_view d s' = scope_view d s" if "scope_change env c s s'" "governed env s" "d \<noteq> c" for c d s s'
    using that change_isolated [of env "fst c" "snd c"] by (auto simp: scope_change_def governed_def)
  show "history_kept s s'" if "scope_change env c s s'" "governed env s" for c s s'
    using that change_history_kept by (auto simp: scope_change_def governed_def memory_wf_def)
qed (rule history_kept_refl, rule history_kept_trans)

abbreviation changes :: "memory_env \<Rightarrow> int \<Rightarrow> string option \<Rightarrow> memory_db \<Rightarrow> memory_db \<Rightarrow> bool" where
  "changes env owner kb \<equiv> (scope_change env (owner, kb))\<^sup>*\<^sup>*"

lemma changes1: "memory_change env owner kb db db' \<Longrightarrow> changes env owner kb db db'"
  by (simp add: scope_change_def r_into_rtranclp)

end
