(* ===== verification/GovernedOps.thy ===== *)
theory GovernedOps
  imports Governance
begin

text \<open>
  The operations of the theory Reconcile as sequences of the changes of the theory Governance, and the
  databases they can reach.
\<close>

subsection \<open>Operations are sequences of changes\<close>

lemma associate_rows:
  "associate key ids rows = (rows', n) \<Longrightarrow>
   \<exists>new. rows' = rows @ map (Pair key) new \<and> set new \<subseteq> set ids \<and> n = length new"
proof (induction key ids rows arbitrary: rows' n rule: associate.induct)
  case (2 key i ids rows)
  show ?case
  proof (cases "(key, i) \<in> set rows")
    case True
    then show ?thesis using 2 by fastforce
  next
    case False
    obtain a m where am: "associate key ids (rows @ [(key, i)]) = (a, m)" by fastforce
    obtain new where "a = (rows @ [(key, i)]) @ map (Pair key) new" "set new \<subseteq> set ids" "m = length new"
      using 2(2) [OF False am] by blast
    then show ?thesis using 2(3) False am by (intro exI [of _ "i # new"]) auto
  qed
qed simp

lemma validate_scope:
  assumes "validate_evidence_scope ids owner kb db = Inr scoped"
  shows "scoped = uniq ids \<and> (\<forall>i\<in>set ids. evidence_in owner kb db i)"
proof (cases "uniq ids = []")
  case True
  then have "set ids = {}" using set_uniq [of ids] by simp
  then show ?thesis using assms True by (simp add: validate_evidence_scope_def)
next
  case False
  then have *: "scoped = uniq ids" "set ids = ev_evidence_id ` {e \<in> set (md_evidence db). ev_evidence_id e \<in> set ids \<and>
      ev_owner_id e = owner \<and> ev_knowledge_base_id e = kb}"
    using assms by (auto simp: validate_evidence_scope_def Let_def split: if_splits)
  have "evidence_in owner kb db i" if "i \<in> set ids" for i
  proof -
    have "i \<in> ev_evidence_id ` {e \<in> set (md_evidence db). ev_evidence_id e \<in> set ids \<and>
        ev_owner_id e = owner \<and> ev_knowledge_base_id e = kb}"
      using that by (subst (asm) *(2))
    then show ?thesis by (auto simp: evidence_in_def)
  qed
  then show ?thesis using *(1) by blast
qed

lemma attach_revision_rows:
  assumes "attach_revision_evidence rid ids owner kb db = Inr (n, db')"
  obtains r new where "r \<in> set (md_revisions db)" and "mr_revision_id r = rid" and "mr_owner_id r = owner"
    and "mr_knowledge_base_id r = kb" and "set new \<subseteq> set ids" and "\<forall>i\<in>set ids. evidence_in owner kb db i"
    and "n = length new" and "db' = db\<lparr>md_revision_evidence := md_revision_evidence db @ map (Pair rid) new\<rparr>"
proof -
  obtain r scoped where r: "find (\<lambda>r. mr_revision_id r = rid \<and> mr_owner_id r = owner \<and> mr_knowledge_base_id r = kb)
        (md_revisions db) = Some r"
      and s: "validate_evidence_scope ids owner kb db = Inr scoped"
      and a: "(case associate rid scoped (md_revision_evidence db) of (rows, n) \<Rightarrow> Inr (n, db\<lparr>md_revision_evidence := rows\<rparr>)) =
        (Inr (n, db') :: (nat \<times> memory_db) result)"
    using assms by (auto simp: attach_revision_evidence_def split: option.splits)
  obtain rows where a: "associate rid scoped (md_revision_evidence db) = (rows, n)"
      and db': "db' = db\<lparr>md_revision_evidence := rows\<rparr>"
    using a by (cases "associate rid scoped (md_revision_evidence db)") simp
  obtain new where "rows = md_revision_evidence db @ map (Pair rid) new" "set new \<subseteq> set scoped" "n = length new"
    using associate_rows [OF a] by blast
  moreover have "r \<in> set (md_revisions db)" "mr_revision_id r = rid" "mr_owner_id r = owner" "mr_knowledge_base_id r = kb"
    using find_SomeD [OF r] by simp_all
  ultimately show thesis using that validate_scope [OF s] db' by simp
qed

lemma attach_revision_changes:
  assumes "attach_revision_evidence rid ids owner kb db = Inr (n, db')"
  shows "changes env owner kb db db'"
proof -
  obtain r new where r: "r \<in> set (md_revisions db)" "mr_revision_id r = rid" "mr_owner_id r = owner"
      "mr_knowledge_base_id r = kb" "set new \<subseteq> set ids" "\<forall>i\<in>set ids. evidence_in owner kb db i"
      "db' = db\<lparr>md_revision_evidence := md_revision_evidence db @ map (Pair rid) new\<rparr>"
    using attach_revision_rows [OF assms] by metis
  have "memory_change env owner kb db db'"
    using Revision_linked [of r db owner kb new env] r by auto
  then show ?thesis by (rule changes1)
qed

lemma attach_candidate_changes:
  assumes "attach_candidate_evidence cid ids owner kb db = Inr (n, db')"
  shows "changes env owner kb db db' \<and> (\<exists>l. db' = db\<lparr>md_candidate_evidence := md_candidate_evidence db @ l\<rparr>)"
proof -
  obtain c scoped where c: "load_candidate_for_update cid owner kb db = Some c"
      and s: "validate_evidence_scope ids owner kb db = Inr scoped"
      and a: "(case associate cid scoped (md_candidate_evidence db) of (rows, n) \<Rightarrow> Inr (n, db\<lparr>md_candidate_evidence := rows\<rparr>)) =
        (Inr (n, db') :: (nat \<times> memory_db) result)"
    using assms by (auto simp: attach_candidate_evidence_def split: option.splits)
  obtain rows where a: "associate cid scoped (md_candidate_evidence db) = (rows, n)"
      and db': "db' = db\<lparr>md_candidate_evidence := rows\<rparr>"
    using a by (cases "associate cid scoped (md_candidate_evidence db)") simp
  obtain new where new: "rows = md_candidate_evidence db @ map (Pair cid) new" "set new \<subseteq> set scoped"
    using associate_rows [OF a] by blast
  have "c \<in> set (md_candidates db)" "mc_candidate_id c = cid" "mc_owner_id c = owner" "mc_knowledge_base_id c = kb"
    using find_SomeD [OF c [unfolded load_candidate_for_update_def]] by simp_all
  moreover have "\<forall>i\<in>set new. evidence_in owner kb db i" using validate_scope [OF s] new(2) by auto
  ultimately have "memory_change env owner kb db db'"
    using Candidate_linked [of c db owner kb new env] by (simp add: db' new(1))
  then show ?thesis using db' new(1) changes1 by auto
qed

text \<open>Persisting evidence touches only the evidence table and the ids.\<close>

definition evidence_step :: "memory_db \<Rightarrow> memory_db \<Rightarrow> bool" where
  "evidence_step db db' \<longleftrightarrow> md_memories db' = md_memories db \<and> md_revisions db' = md_revisions db \<and>
     md_candidates db' = md_candidates db \<and> md_candidate_evidence db' = md_candidate_evidence db \<and>
     md_revision_evidence db' = md_revision_evidence db \<and> md_audits db' = md_audits db \<and> md_locks db' = md_locks db"

lemma evidence_step_refl [simp]: "evidence_step db db"
  by (simp add: evidence_step_def)

lemma evidence_step_trans: "evidence_step a b \<Longrightarrow> evidence_step b c \<Longrightarrow> evidence_step a c"
  by (simp add: evidence_step_def)

lemma accept_evidence_changes:
  assumes "accept_evidence kb item x db = Inr (e, db')" and "x \<in> set (md_evidence db)" and "ev_owner_id x = owner"
  shows "changes env owner kb db db' \<and> evidence_step db db' \<and> e \<in> set (md_evidence db') \<and>
    ev_identity_hash e = ev_identity_hash x \<and> ev_evidence_id e = ev_evidence_id x"
proof -
  have kb: "ev_knowledge_base_id x = kb" using assms(1) by (auto simp: accept_evidence_def tx_simps split: if_splits)
  from assms(1) consider "e = x" "db' = db"
    | d where "e = x\<lparr>ev_source_document_id := Some d\<rparr>"
        "db' = db\<lparr>md_evidence := update_where (\<lambda>r. ev_evidence_id r = ev_evidence_id x)
          (\<lambda>r. r\<lparr>ev_source_document_id := Some d\<rparr>) (md_evidence db)\<rparr>"
    by (auto simp: accept_evidence_def tx_simps split: option.splits if_splits)
  then show ?thesis
  proof cases
    case (2 d)
    have "memory_change env owner kb db db'" unfolding 2 by (rule Document_set) (use assms kb in simp_all)
    moreover have "e \<in> set (md_evidence db')"
      using in_update_where [OF assms(2), of "\<lambda>r. ev_evidence_id r = ev_evidence_id x"
          "\<lambda>r. r\<lparr>ev_source_document_id := Some d\<rparr>"] by (simp add: 2)
    ultimately show ?thesis by (auto intro: changes1 simp: 2 evidence_step_def)
  qed (use assms in simp)
qed

lemma persist_one_changes:
  assumes "persist_one env owner kb item db = Inr (e, db')"
  shows "changes env owner kb db db' \<and> evidence_step db db' \<and> e \<in> set (md_evidence db') \<and>
    ev_identity_hash e = evidence_identity env owner kb (ei_source_type item) (ei_source_id item)
        (ei_source_version item) (ei_content_hash item)"
proof -
  let ?row = "evidence_row env (fresh_id env db) owner kb item"
  define es where "es = fst (insert_if_absent ev_identity_hash ?row (md_evidence db))"
  define db1 where "db1 = db\<lparr>md_evidence := es, md_ids := Suc (md_ids db)\<rparr>"
  have "memory_change env owner kb db db1"
  proof (cases "find (\<lambda>r. ev_identity_hash r = ev_identity_hash ?row) (md_evidence db)")
    case None
    then have "es = md_evidence db @ [?row]" by (simp add: es_def insert_if_absent_def)
    moreover have "ev_identity_hash ?row \<notin> ev_identity_hash ` set (md_evidence db)"
      using None by (auto simp: find_None_iff)
    ultimately show ?thesis
      using Evidence_added [of ?row env db owner kb] by (simp add: db1_def evidence_row_def)
  next
    case (Some r)
    then have "db1 = db\<lparr>md_locks := md_locks db, md_ids := Suc (md_ids db)\<rparr>"
      by (simp add: db1_def es_def insert_if_absent_def)
    then show ?thesis using Bookkeeping [of db "Suc (md_ids db)" env owner kb "md_locks db"] by simp
  qed
  then have c1: "changes env owner kb db db1" by (rule changes1)
  have s1: "evidence_step db db1" by (simp add: evidence_step_def db1_def)
  have db1: "db\<lparr>md_ids := Suc (md_ids db), md_evidence := es\<rparr> = db1" by (simp add: db1_def)
  obtain x where x: "find (\<lambda>r. ev_identity_hash r = ev_identity_hash ?row \<and> ev_owner_id r = owner) (md_evidence db1) = Some x"
      and rest: "accept_evidence kb item x db1 = Inr (e, db')"
    using assms
    by (auto simp: persist_one_def new_id_def Let_def tbind_def tmodify_def tget_def tfail_def es_def [symmetric] db1
        db1_def [symmetric] split: option.splits)
  have in1: "x \<in> set (md_evidence db1)" "ev_owner_id x = owner" "ev_identity_hash x = ev_identity_hash ?row"
    using find_SomeD [OF x] by simp_all
  show ?thesis
    using accept_evidence_changes [OF rest in1(1,2), of env] c1 s1 in1(3)
    by (auto intro: rtranclp_trans evidence_step_trans simp: evidence_row_def)
qed

lemma persist_evidence_changes:
  "persist_evidence env owner kb items db = Inr (es, db') \<Longrightarrow> changes env owner kb db db' \<and> evidence_step db db'"
proof (induction items arbitrary: es db)
  case (Cons item items)
  then obtain e db1 fs where "persist_one env owner kb item db = Inr (e, db1)"
      "persist_evidence env owner kb items db1 = Inr (fs, db')"
    by (auto simp: tx_simps)
  then show ?case
    using persist_one_changes [of env owner kb item db e db1] Cons.IH [of db1 fs]
    by (auto intro: rtranclp_trans evidence_step_trans)
qed (simp add: tx_simps)


definition constraints_ok :: "memory_db \<Rightarrow> bool" where
  "constraints_ok db \<longleftrightarrow> db_flush db = Inr ((), db)"

lemma db_flush_Inr [tx_simps]: "db_flush db = Inr (u, t) \<longleftrightarrow> constraints_ok db \<and> t = db"
  by (auto simp: constraints_ok_def db_flush_def)

lemma constraints_active: "constraints_ok db \<Longrightarrow> distinct (map active_identity (active_memories db))"
  by (auto simp: constraints_ok_def db_flush_def split: if_splits)

lemma governed_changes: "changes env owner kb db db' \<Longrightarrow> governed env db \<Longrightarrow> governed env db'"
  by (rule memory_tables.changes_inv)

lemma normalize_def: "normalize_memory_text v = casefold (squeeze (py_strip v))"
  by (simp add: normalize_memory_text_def squeeze_def)

lemma create_memory_changes:
  assumes "create_memory env owner kb mtype s p v fp c sens reason actor ids db = Inr (m, db')"
    and "content_ok env s p v fp" and "unit_interval c" and "sens \<noteq> SSecret" and "mtype \<in> set MEMORY_TYPES"
  shows "changes env owner kb db db'"
proof -
  let ?m = "\<lparr>cm_memory_id = fresh_id env db, cm_owner_id = owner, cm_knowledge_base_id = kb, cm_memory_type = mtype,
           cm_subject = s, cm_predicate = p, cm_value = v, cm_fingerprint = fp, cm_confidence = c,
           cm_sensitivity = sens, cm_status = MActive, cm_active_revision_id = me_uuid env (Suc (md_ids db))\<rparr>"
  let ?r = "\<lparr>mr_revision_id = me_uuid env (Suc (md_ids db)), mr_memory_id = fresh_id env db, mr_owner_id = owner,
           mr_knowledge_base_id = kb, mr_subject = s, mr_predicate = p, mr_value = v, mr_fingerprint = fp,
           mr_embedding = me_embed env s p v, mr_valid_from = me_server_now env, mr_valid_to = None,
           mr_reason = reason, mr_actor = actor\<rparr>"
  let ?db1 = "db\<lparr>md_ids := Suc (Suc (md_ids db)), md_memories := md_memories db @ [?m], md_revisions := md_revisions db @ [?r]\<rparr>"
  let ?db2 = "db\<lparr>md_memories := md_memories db @ [?m], md_revisions := md_revisions db @ [?r], md_ids := Suc (Suc (md_ids db))\<rparr>"
  have eq: "?db1 = ?db2" by simp
  have f: "constraints_ok ?db1" and a: "\<exists>n. attach_revision_evidence (me_uuid env (Suc (md_ids db))) ids owner kb ?db1 = Inr (n, db')"
    using assms(1) by (auto simp: create_memory_def new_id_def tx_simps Let_def)
  have "memory_change env owner kb db ?db1"
    unfolding eq by (rule Memory_created)
      (use assms(2-) constraints_active [OF f] in \<open>simp_all add: memory_fields_ok_def current_revision_def revision_of_def
         same_content_def active_memories_def\<close>)
  then show ?thesis using a attach_revision_changes by (blast intro: rtranclp_trans changes1)
qed

lemma normalize_content:
  "content_ok env (normalize_memory_text s) (normalize_memory_text p) (normalize_memory_text v)
     (memory_fingerprint env (normalize_memory_text s) (normalize_memory_text p) (normalize_memory_text v))"
  by (simp add: content_ok_def)

lemma lock_changes: "changes env owner kb db (db\<lparr>md_locks := ls\<rparr>)"
  using Bookkeeping [of db "md_ids db" env owner kb ls] by (intro changes1) simp

lemma load_memory_in:
  "load_memory_for_update mid owner kb db = Some m \<Longrightarrow>
   m \<in> set (md_memories db) \<and> cm_memory_id m = mid \<and> cm_owner_id m = owner \<and> cm_knowledge_base_id m = kb"
  unfolding load_memory_for_update_def by (drule find_SomeD) simp

lemma load_active_in:
  "load_active_revision m owner kb db = Inr r \<Longrightarrow>
   r \<in> set (md_revisions db) \<and> mr_revision_id r = cm_active_revision_id m \<and> mr_memory_id r = cm_memory_id m \<and>
   mr_owner_id r = owner \<and> mr_knowledge_base_id r = kb \<and> mr_valid_to r = None"
  unfolding load_active_revision_def by (auto split: option.splits dest!: find_SomeD)

lemma governedD:
  assumes "governed env db"
  shows "ids_wf env db" "memories_wf env db" "revisions_wf db" "candidates_wf env db" "links_wf db" "inj (me_uuid env)"
  using assms by (simp_all add: governed_def memory_wf_def)

lemma write_revision_changes:
  assumes "write_revision env m q ns np nv reason actor sens ids c owner kb db = Inr (m', db')"
    and "m \<in> set (md_memories db)" and "cm_owner_id m = owner" and "cm_knowledge_base_id m = kb"
    and "q \<in> set (md_revisions db)" and "mr_revision_id q = cm_active_revision_id m" and "mr_valid_to q = None"
    and "memory_fields_ok env m" and "content_ok env ns np nv (memory_fingerprint env ns np nv)" and "sens \<noteq> SSecret"
    and "case c of None \<Rightarrow> True | Some x \<Rightarrow> unit_interval x"
  shows "changes env owner kb db db' \<and> m' \<in> set (md_memories db')"
proof -
  let ?fp = "memory_fingerprint env ns np nv" and ?i = "fresh_id env db"
  define r where "r = \<lparr>mr_revision_id = ?i, mr_memory_id = cm_memory_id m, mr_owner_id = owner,
           mr_knowledge_base_id = kb, mr_subject = ns, mr_predicate = np, mr_value = nv, mr_fingerprint = ?fp,
           mr_embedding = me_embed env ns np nv, mr_valid_from = me_now env, mr_valid_to = None,
           mr_reason = reason, mr_actor = actor\<rparr>"
  define revised where "revised = m\<lparr>cm_subject := ns, cm_predicate := np, cm_value := nv, cm_fingerprint := ?fp,
           cm_sensitivity := sens, cm_active_revision_id := ?i, cm_status := MActive,
           cm_confidence := (case c of None \<Rightarrow> cm_confidence m | Some c \<Rightarrow> c)\<rparr>"
  let ?revs = "update_where (\<lambda>x. mr_revision_id x = mr_revision_id q) (\<lambda>x. x\<lparr>mr_valid_to := Some (me_now env)\<rparr>)
      (md_revisions db) @ [r]"
  let ?mems = "update_where (\<lambda>x. cm_memory_id x = cm_memory_id m) (\<lambda>_. revised) (md_memories db)"
  define dbr where "dbr = db\<lparr>md_revisions := ?revs, md_ids := Suc (md_ids db)\<rparr>"
  have ord: "db\<lparr>md_ids := Suc (md_ids db), md_revisions := ?revs\<rparr> = dbr" by (simp add: dbr_def)
  obtain n dba where att: "attach_revision_evidence ?i ids owner kb dbr = Inr (n, dba)"
      and db': "db' = dba\<lparr>md_memories := update_where (\<lambda>x. cm_memory_id x = cm_memory_id m) (\<lambda>_. revised)
        (md_memories dba)\<rparr>"
      and ok: "constraints_ok db'" and m': "m' = revised"
    using assms(1) unfolding write_revision_def set_memory_def
    by (auto simp: tx_simps Let_def new_id_def r_def [symmetric] revised_def [symmetric] ord)
  obtain new where new: "set new \<subseteq> set ids" "\<forall>i\<in>set ids. evidence_in owner kb dbr i"
      "dba = dbr\<lparr>md_revision_evidence := md_revision_evidence dbr @ map (Pair ?i) new\<rparr>"
    using attach_revision_rows [OF att] by metis
  define db1 where "db1 = db\<lparr>md_memories := ?mems, md_revisions := ?revs, md_ids := Suc (md_ids db)\<rparr>"
  have final: "db' = db1\<lparr>md_revision_evidence := md_revision_evidence db1 @ map (Pair (mr_revision_id r)) new\<rparr>"
    unfolding db' new(3) by (simp add: dbr_def db1_def r_def)
  have "distinct (map active_identity (active_memories (db\<lparr>md_memories := ?mems\<rparr>)))"
    using constraints_active [OF ok] by (simp add: final db1_def active_memories_def)
  then have "memory_change env owner kb db db1"
    unfolding db1_def
    by (intro Memory_revised [OF assms(2-7)])
      (use assms(3,4,8-11) in \<open>auto simp: r_def revised_def memory_fields_ok_def current_revision_def revision_of_def
        same_content_def unit_interval_def split: option.splits\<close>)
  moreover have "memory_change env owner kb db1 db'"
    unfolding final by (rule Revision_linked) (use new(1,2) in \<open>auto simp: db1_def dbr_def r_def evidence_in_def\<close>)
  moreover have "m' \<in> set (md_memories db')"
    using in_update_where [OF assms(2), of "\<lambda>x. cm_memory_id x = cm_memory_id m" "\<lambda>_. revised"]
    by (simp add: final db1_def m')
  ultimately show ?thesis by (blast intro: rtranclp_trans changes1)
qed

lemma revise_memory_changes:
  assumes "revise_memory env mid owner kb s p v reason actor sens ids c db = Inr (m', db')" and "governed env db"
  shows "changes env owner kb db db'"
proof -
  let ?ns = "normalize_memory_text s" and ?np = "normalize_memory_text p" and ?nv = "normalize_memory_text v"
  obtain m where m: "load_memory_for_update mid owner kb db = Some m" and sens: "sens \<noteq> SSecret"
      and c: "case c of None \<Rightarrow> True | Some x \<Rightarrow> 0 \<le> x \<and> x \<le> 1"
    using assms(1) by (auto simp: revise_memory_def tx_simps Let_def split: option.splits)
  define ls where "ls = md_locks db @ [memory_slot_lock_key env owner kb (cm_memory_type m) ?ns ?np]"
  define db1 where "db1 = db\<lparr>md_locks := ls\<rparr>"
  have m1: "load_memory_for_update mid owner kb db1 = Some m" using m by (simp add: db1_def load_memory_for_update_def)
  obtain old scoped where old: "load_active_revision m owner kb db1 = Inr old"
      and w: "write_revision env m old ?ns ?np ?nv reason actor sens scoped c owner kb db1 = Inr (m', db')"
    using assms(1) m m1 unfolding revise_memory_def Let_def
    by (auto simp: tx_simps lock_memory_slot_def ls_def [symmetric] db1_def [symmetric])
  have "m \<in> set (md_memories db)" using load_memory_in [OF m] by simp
  then have "memory_fields_ok env m" using governedD(2) [OF assms(2)] by (simp add: memories_wf_def)
  moreover have "case c of None \<Rightarrow> True | Some x \<Rightarrow> unit_interval x"
    using c by (auto simp: unit_interval_def split: option.splits)
  ultimately have "changes env owner kb db1 db'"
    using load_memory_in [OF m1] load_active_in [OF old] sens
    by (intro write_revision_changes [OF w, THEN conjunct1] normalize_content) simp_all
  then show ?thesis using lock_changes [of env owner kb db ls] unfolding db1_def by (rule rtranclp_trans [rotated])
qed


lemma combined_confidence_bounds:
  assumes "unit_interval a" and "unit_interval b"
  shows "a \<le> combined_confidence a b" and "b \<le> combined_confidence a b" and "combined_confidence a b \<le> 1"
proof -
  have "(1 - a) * (1 - b) \<le> (1 - a) * 1" "(1 - a) * (1 - b) \<le> 1 * (1 - b)"
    using assms by (intro mult_left_mono mult_right_mono; simp add: unit_interval_def)+
  then show "a \<le> combined_confidence a b" and "b \<le> combined_confidence a b" and "combined_confidence a b \<le> 1"
    using assms by (simp_all add: combined_confidence_def unit_interval_def)
qed

lemma combined_sensitivity_public:
  "combined_sensitivity s t = Inr u \<Longrightarrow> u \<noteq> SSecret"
  by (auto simp: combined_sensitivity_def sensitivity_rank_def split: sensitivity.splits if_splits)

lemma reinforce_cases:
  assumes "reinforce m r ids c sens owner kb db = Inr ((m', n), db')"
  obtains dba where "attach_revision_evidence (mr_revision_id r) ids owner kb db = Inr (n, dba)"
      and "n = 0" and "m' = m" and "db' = dba"
  | dba s where "attach_revision_evidence (mr_revision_id r) ids owner kb db = Inr (n, dba)" and "n \<noteq> 0"
      and "combined_sensitivity (cm_sensitivity m) sens = Inr s"
      and "m' = m\<lparr>cm_confidence := combined_confidence (cm_confidence m) c, cm_sensitivity := s\<rparr>"
      and "db' = dba\<lparr>md_memories := update_where (\<lambda>x. cm_memory_id x = cm_memory_id m) (\<lambda>_. m') (md_memories dba)\<rparr>"
  using assms
  by (auto simp: reinforce_def tx_simps set_memory_def Let_def split: if_splits sum.splits)

lemma reinforce_changes:
  assumes "reinforce m r ids c sens owner kb db = Inr ((m', n), db')"
    and "m \<in> set (md_memories db)" and "cm_owner_id m = owner" and "cm_knowledge_base_id m = kb"
    and "unit_interval (cm_confidence m)" and "unit_interval c"
  shows "changes env owner kb db db'"
  using assms(1)
proof (cases rule: reinforce_cases)
  case (1 dba)
  then show ?thesis using attach_revision_changes by blast
next
  case (2 dba s)
  have "m \<in> set (md_memories dba)"
    by (rule attach_revision_rows [OF 2(1)]) (use assms(2) in simp)
  then have "memory_change env owner kb dba db'"
    unfolding 2(5,4)
    using assms(3-) combined_confidence_bounds [OF assms(5,6)] combined_sensitivity_public [OF 2(3)]
      Memory_reinforced [of m dba owner kb "combined_confidence (cm_confidence m) c" s env] by simp
  then show ?thesis using attach_revision_changes [OF 2(1)] by (blast intro: rtranclp_trans changes1)
qed

text \<open>The candidate that reconciliation stores.\<close>

lemma candidate_stored_changes:
  assumes "mc_candidate_id c = fresh_id env db" "mc_owner_id c = owner" "mc_knowledge_base_id c = kb" "candidate_fields_ok env c" "conflict_named db c"
  shows "changes env owner kb db (db\<lparr>md_ids := Suc (md_ids db), md_candidates := md_candidates db @ [c]\<rparr>)"
proof -
  have eq: "db\<lparr>md_ids := Suc (md_ids db), md_candidates := md_candidates db @ [c]\<rparr> =
      db\<lparr>md_candidates := md_candidates db @ [c], md_ids := Suc (md_ids db)\<rparr>" by simp
  show ?thesis unfolding eq by (rule changes1 [OF Candidate_added [OF assms]])
qed

lemma find_active_in:
  "find_active_memory owner kb fp db = Some m \<Longrightarrow>
   m \<in> set (md_memories db) \<and> cm_owner_id m = owner \<and> cm_knowledge_base_id m = kb \<and> cm_fingerprint m = fp \<and>
   cm_status m = MActive"
  unfolding find_active_memory_def by (drule find_SomeD) simp

lemma find_conflicting_in:
  "find_conflicting_memory owner kb ty s p fp db = Some m \<Longrightarrow>
   m \<in> set (md_memories db) \<and> cm_owner_id m = owner \<and> cm_knowledge_base_id m = kb \<and> cm_memory_type m = ty \<and>
   cm_subject m = s \<and> cm_predicate m = p \<and> cm_fingerprint m \<noteq> fp \<and> cm_status m = MActive"
  unfolding find_conflicting_memory_def by (drule find_SomeD) simp


lemma active_revision_of_in:
  "active_revision_of m owner kb db = Inr r \<Longrightarrow> (case m of None \<Rightarrow> r = None | Some q \<Rightarrow> \<exists>x. r = Some x \<and> load_active_revision q owner kb db = Inr x)"
  by (auto simp: active_revision_of_def split: option.splits)

lemma store_candidate_changes:
  assumes "store_candidate env owner kb row ids db = Inr (c, db')"
    and "mc_candidate_id (row (fresh_id env db)) = fresh_id env db" and "mc_owner_id (row (fresh_id env db)) = owner"
    and "mc_knowledge_base_id (row (fresh_id env db)) = kb" and "candidate_fields_ok env (row (fresh_id env db))"
  shows "(conflict_named db (row (fresh_id env db)) \<longrightarrow> changes env owner kb db db') \<and> c = row (fresh_id env db) \<and> md_memories db' = md_memories db \<and>
    md_revisions db' = md_revisions db \<and> md_evidence db' = md_evidence db"
proof -
  let ?db1 = "db\<lparr>md_ids := Suc (md_ids db), md_candidates := md_candidates db @ [row (fresh_id env db)]\<rparr>"
  obtain n where a: "attach_candidate_evidence (fresh_id env db) ids owner kb ?db1 = Inr (n, db')" and "c = row (fresh_id env db)"
    using assms(1) by (auto simp: store_candidate_def tx_simps new_id_def)
  moreover have "changes env owner kb db ?db1" if "conflict_named db (row (fresh_id env db))"
    by (rule candidate_stored_changes [OF assms(2-) that])
  moreover obtain l where "db' = ?db1\<lparr>md_candidate_evidence := md_candidate_evidence ?db1 @ l\<rparr>"
    using attach_candidate_changes [OF a] by blast
  moreover have "changes env owner kb ?db1 db'" using attach_candidate_changes [OF a] by blast
  ultimately show ?thesis by (auto intro: rtranclp_trans)
qed

lemma settle_candidate_changes:
  assumes "settle_candidate env owner kb ty ns np nv fp c sens prov ex actor dec cmp crev conf confrev ids db = Inr (res, db')"
    and g: "governed env db"
    and "\<And>m. cmp = Some m \<Longrightarrow> m \<in> set (md_memories db) \<and> cm_owner_id m = owner \<and> cm_knowledge_base_id m = kb"
    and "content_ok env ns np nv fp" and "unit_interval c" and "sens \<noteq> SSecret" and "ty \<in> set MEMORY_TYPES" and "dec \<noteq> Reject"
    and named: "\<And>r. confrev = Some r \<Longrightarrow> r \<in> set (md_revisions db) \<and> mr_owner_id r = owner \<and> mr_knowledge_base_id r = kb \<and>
      map_option cm_memory_id conf = Some (mr_memory_id r)"
  shows "changes env owner kb db db'"
proof (cases "if dec = Promote then cmp else None")
  case (Some m)
  then have m: "cmp = Some m" by (auto split: if_splits)
  obtain r m' n where r: "reinforce m r ids c sens owner kb db = Inr ((m', n), db')"
    using assms(1) Some by (auto simp: settle_candidate_def tx_simps split: option.splits)
  have "unit_interval (cm_confidence m)"
    using governedD(2) [OF g] assms(3) [OF m] by (simp add: memories_wf_def memory_fields_ok_def)
  then show ?thesis using reinforce_changes [OF r] assms(3) [OF m] assms(5) by simp
next
  case None
  let ?row = "\<lambda>cid. candidate_row env cid owner kb ty ns np nv fp c sens prov dec conf confrev"
  obtain cand db1 where st: "store_candidate env owner kb ?row ids db = Inr (cand, db1)"
      and rest: "dec = Pending \<and> db' = db1 \<or> (\<exists>m. (case conf of
               Some c' \<Rightarrow> revise_memory env (cm_memory_id c') owner kb ns np nv ''explicit_request_replacement'' actor
                 sens ids (Some c)
             | None \<Rightarrow> create_memory env owner kb ty ns np nv fp c sens
                 (if ex then ''explicit_request'' else ''automatic_promotion'') actor ids) db1 = Inr (m, db'))"
    using assms(1) unfolding settle_candidate_def None option.case
    by (auto simp: tx_simps split: if_splits)
  have c1: "changes env owner kb db db1"
  proof (rule store_candidate_changes [OF st, THEN conjunct1, rule_format])
    show "conflict_named db (?row (fresh_id env db))"
      using named by (force simp: conflict_named_def candidate_row_def revision_key_def split: option.split)
  qed (use assms(4-8) in \<open>auto simp: candidate_row_def candidate_fields_ok_def\<close>)
  have "changes env owner kb db1 db'"
    using rest
  proof
    assume "\<exists>m. (case conf of
               Some c' \<Rightarrow> revise_memory env (cm_memory_id c') owner kb ns np nv ''explicit_request_replacement'' actor
                 sens ids (Some c)
             | None \<Rightarrow> create_memory env owner kb ty ns np nv fp c sens
                 (if ex then ''explicit_request'' else ''automatic_promotion'') actor ids) db1 = Inr (m, db')"
    then show ?thesis
      using revise_memory_changes [OF _ governed_changes [OF c1 g]] create_memory_changes assms(4-7)
      by (cases conf) auto
  qed simp
  then show ?thesis by (rule rtranclp_trans [OF c1])
qed

lemma locks_irrelevant [simp]:
  "find_active_memory owner kb fp (db\<lparr>md_locks := l\<rparr>) = find_active_memory owner kb fp db"
  "find_conflicting_memory owner kb ty s p fp (db\<lparr>md_locks := l\<rparr>) = find_conflicting_memory owner kb ty s p fp db"
  "load_active_revision m owner kb (db\<lparr>md_locks := l\<rparr>) = load_active_revision m owner kb db"
  "active_revision_of m' owner kb (db\<lparr>md_locks := l\<rparr>) = active_revision_of m' owner kb db"
  "load_memory_for_update mid owner kb (db\<lparr>md_locks := l\<rparr>) = load_memory_for_update mid owner kb db"
  "load_candidate_for_update mid owner kb (db\<lparr>md_locks := l\<rparr>) = load_candidate_for_update mid owner kb db"
  "candidate_evidence_ids cid owner kb (db\<lparr>md_locks := l\<rparr>) = candidate_evidence_ids cid owner kb db"
  by (simp_all add: find_active_memory_def find_conflicting_memory_def load_active_revision_def active_revision_of_def
      load_memory_for_update_def load_candidate_for_update_def candidate_evidence_ids_def split: option.split)

lemma classify_cases:
  "classify_candidate sens c ex conf = Inr d \<Longrightarrow> (d = Reject \<longleftrightarrow> sens = SSecret) \<and> (sens \<noteq> SSecret \<longrightarrow> unit_interval c)"
  by (auto simp: classify_candidate_def unit_interval_def split: if_splits)

text \<open>A reconciliation that is not rejected: what it finds, the evidence it stores, and the rest.\<close>

definition slot_conflict :: "int \<Rightarrow> string option \<Rightarrow> string \<Rightarrow> string \<Rightarrow> string \<Rightarrow> string \<Rightarrow> memory_db \<Rightarrow> canonical_memory option" where
  "slot_conflict owner kb ty ns np fp db =
     (if find_active_memory owner kb fp db = None then find_conflicting_memory owner kb ty ns np fp db else None)"

lemma reconcile_decompose:
  fixes s p v ty :: string and env :: memory_env and owner :: int and kb :: "string option" and db :: memory_db
  defines "ns \<equiv> normalize_memory_text s" and "np \<equiv> normalize_memory_text p" and "nv \<equiv> normalize_memory_text v"
  defines "fp \<equiv> memory_fingerprint env ns np nv"
  defines "db1 \<equiv> db\<lparr>md_locks := md_locks db @ [memory_slot_lock_key env owner kb ty ns np]\<rparr>"
  assumes "reconcile_candidate env owner kb ty s p v c sens ev prov ex actor db = Inr (res, db')" and "sens \<noteq> SSecret"
  obtains crev confrev dec stored db2 where "ty \<in> set MEMORY_TYPES"
    and "classify_candidate sens c ex (slot_conflict owner kb ty ns np fp db \<noteq> None) = Inr dec"
    and "persist_evidence env owner kb ev db1 = Inr (stored, db2)"
    and "settle_candidate env owner kb ty ns np nv fp c sens prov ex actor dec (find_active_memory owner kb fp db) crev
        (slot_conflict owner kb ty ns np fp db) confrev (map ev_evidence_id stored) db2 = Inr (res, db')"
    and "active_revision_of (find_active_memory owner kb fp db) owner kb db = Inr crev"
    and "active_revision_of (slot_conflict owner kb ty ns np fp db) owner kb db = Inr confrev"
proof -
  obtain pre where pre: "classify_candidate sens c ex False = Inr pre" "pre \<noteq> Reject"
    using assms(6,7) classify_cases by (fastforce simp: reconcile_candidate_def tx_simps)
  have sc: "slot_conflict owner kb ty ns np fp db1 = slot_conflict owner kb ty ns np fp db"
    by (simp add: slot_conflict_def db1_def)
  show thesis
    using assms(6) pre that
    unfolding reconcile_candidate_def Let_def lock_memory_slot_def ns_def [symmetric] np_def [symmetric]
      nv_def [symmetric] fp_def [symmetric]
    by (simp add: tx_simps slot_conflict_def [symmetric] db1_def [symmetric] sc del: not_None_eq cong: if_cong) blast
qed

lemma reconcile_secret:
  "reconcile_candidate env owner kb ty s p v c SSecret ev prov ex actor db = Inr (res, db') \<Longrightarrow> db' = db"
  by (auto simp: reconcile_candidate_def tx_simps classify_candidate_def)

lemma reconcile_candidate_changes:
  assumes "reconcile_candidate env owner kb ty s p v c sens ev prov ex actor db = Inr (res, db')" and g: "governed env db"
  shows "changes env owner kb db db'"
proof (cases "sens = SSecret")
  case True
  then show ?thesis using assms(1) reconcile_secret by blast
next
  case False
  let ?ns = "normalize_memory_text s" and ?np = "normalize_memory_text p" and ?nv = "normalize_memory_text v"
  let ?fp = "memory_fingerprint env ?ns ?np ?nv"
  let ?db1 = "db\<lparr>md_locks := md_locks db @ [memory_slot_lock_key env owner kb ty ?ns ?np]\<rparr>"
  let ?conf = "slot_conflict owner kb ty ?ns ?np ?fp db"
  obtain crev confrev dec stored db2 where ty: "ty \<in> set MEMORY_TYPES"
      and dec: "classify_candidate sens c ex (?conf \<noteq> None) = Inr dec"
      and ev: "persist_evidence env owner kb ev ?db1 = Inr (stored, db2)"
      and st: "settle_candidate env owner kb ty ?ns ?np ?nv ?fp c sens prov ex actor dec (find_active_memory owner kb ?fp db)
        crev ?conf confrev (map ev_evidence_id stored) db2 = Inr (res, db')"
      and rev: "active_revision_of ?conf owner kb db = Inr confrev"
    by (rule reconcile_decompose [OF assms(1) False])
  have c1: "changes env owner kb db ?db1" by (rule lock_changes)
  have c2: "changes env owner kb ?db1 db2" "evidence_step ?db1 db2" using persist_evidence_changes [OF ev] by simp_all
  have g2: "governed env db2" by (rule governed_changes [OF rtranclp_trans [OF c1 c2(1)] g])
  have "m \<in> set (md_memories db2) \<and> cm_owner_id m = owner \<and> cm_knowledge_base_id m = kb"
    if "find_active_memory owner kb ?fp db = Some m" for m
    using find_active_in [OF that] c2(2) by (simp add: evidence_step_def)
  moreover have "r \<in> set (md_revisions db2) \<and> mr_owner_id r = owner \<and> mr_knowledge_base_id r = kb \<and>
      map_option cm_memory_id ?conf = Some (mr_memory_id r)" if "confrev = Some r" for r
    using active_revision_of_in [OF rev] that c2(2) load_active_in [of _ owner kb db r]
    by (auto simp: evidence_step_def split: option.splits)
  ultimately have "changes env owner kb db2 db'"
    using settle_candidate_changes [OF st g2] normalize_content classify_cases [OF dec] False ty by simp
  then show ?thesis using c1 c2(1) by (meson rtranclp_trans)
qed

lemma load_candidate_in:
  "load_candidate_for_update cid owner kb db = Some c \<Longrightarrow>
   c \<in> set (md_candidates db) \<and> mc_candidate_id c = cid \<and> mc_owner_id c = owner \<and> mc_knowledge_base_id c = kb"
  unfolding load_candidate_for_update_def by (drule find_SomeD) simp

lemma attach_revision_candidates:
  "attach_revision_evidence rid ids owner kb db = Inr (n, db') \<Longrightarrow> md_candidates db' = md_candidates db"
  by (erule attach_revision_rows) simp

lemma revise_memory_candidates:
  assumes "revise_memory env mid owner kb s p v reason actor sens ids c db = Inr (m', db')"
  shows "md_candidates db' = md_candidates db"
  using assms
  by (auto simp: revise_memory_def write_revision_def set_memory_def lock_memory_slot_def tx_simps new_id_def Let_def
      dest!: attach_revision_candidates split: option.splits)

lemma promote_candidate_changes:
  assumes "promote_candidate env c owner kb actor ids db = Inr (m, db')" and g: "governed env db"
    and "candidate_fields_ok env c"
  shows "changes env owner kb db db' \<and> md_candidates db' = md_candidates db"
proof (cases "find_active_memory owner kb (mc_fingerprint c) db")
  case (Some q)
  then obtain r n where "reinforce q r ids (mc_confidence c) (mc_sensitivity c) owner kb db = Inr ((m, n), db')"
    using assms(1) by (auto simp: promote_candidate_def tx_simps)
  note r = this
  have q: "q \<in> set (md_memories db)" "cm_owner_id q = owner" "cm_knowledge_base_id q = kb"
    using find_active_in [OF Some] by simp_all
  then have "unit_interval (cm_confidence q)" using governedD(2) [OF g] by (simp add: memories_wf_def memory_fields_ok_def)
  moreover have "md_candidates db' = md_candidates db"
    using r by (cases rule: reinforce_cases) (auto elim!: attach_revision_rows)
  ultimately show ?thesis using reinforce_changes [OF r q] assms(3) by (simp add: candidate_fields_ok_def)
next
  case None
  show ?thesis
  proof (cases "find_conflicting_memory owner kb (mc_memory_type c) (mc_subject c) (mc_predicate c) (mc_fingerprint c) db")
    case (Some q)
    then have r: "revise_memory env (cm_memory_id q) owner kb (mc_subject c) (mc_predicate c) (mc_value c)
        ''confirmed_replacement'' actor (mc_sensitivity c) ids (Some (mc_confidence c)) db = Inr (m, db')"
      using assms(1) None by (auto simp: promote_candidate_def tx_simps)
    show ?thesis using revise_memory_changes [OF r g] revise_memory_candidates [OF r] ..
  next
    case None2: None
    then have *: "create_memory env owner kb (mc_memory_type c) (mc_subject c) (mc_predicate c) (mc_value c)
        (mc_fingerprint c) (mc_confidence c) (mc_sensitivity c) ''user_confirmation'' actor ids db = Inr (m, db')"
      using assms(1) None by (auto simp: promote_candidate_def tx_simps)
    have "md_candidates db' = md_candidates db"
      using * by (auto simp: create_memory_def tx_simps new_id_def Let_def elim!: attach_revision_rows)
    then show ?thesis using create_memory_changes [OF *] assms(3) by (simp add: candidate_fields_ok_def)
  qed
qed

lemma decide_changes:
  assumes "c \<in> set (md_candidates db)" and "mc_owner_id c = owner" and "mc_knowledge_base_id c = kb"
    and "mc_status c = CPending" and "s \<noteq> CPending"
    and "set_candidate (c\<lparr>mc_status := s, mc_decided_at := Some t\<rparr>) db = Inr (u, db')"
  shows "changes env owner kb db db'"
proof -
  have "db' = db\<lparr>md_candidates := update_where (\<lambda>q. mc_candidate_id q = mc_candidate_id c)
      (\<lambda>_. c\<lparr>mc_status := s, mc_decided_at := Some t\<rparr>) (md_candidates db)\<rparr>"
    using assms(6) by (simp add: set_candidate_def tx_simps)
  then show ?thesis using changes1 [OF Candidate_decided [OF assms(1-5), of env t]] by simp
qed

lemma confirm_candidate_changes:
  assumes "confirm_candidate env cid owner kb actor db = Inr (m, db')" and g: "governed env db"
  shows "changes env owner kb db db'"
proof -
  obtain c where c: "load_candidate_for_update cid owner kb db = Some c" and pend: "mc_status c = CPending"
    using assms(1) by (auto simp: confirm_candidate_def tx_simps split: option.splits)
  note c_in = load_candidate_in [OF c]
  define db1 where "db1 = db\<lparr>md_locks := md_locks db @ [memory_slot_lock_key env owner kb (mc_memory_type c)
      (mc_subject c) (mc_predicate c)]\<rparr>"
  obtain ids db2 where p: "promote_candidate env c owner kb actor ids db1 = Inr (m, db2)"
      and s: "set_candidate (c\<lparr>mc_status := CPromoted, mc_decided_at := Some (me_now env)\<rparr>) db2 = Inr ((), db')"
    using assms(1) c by (auto simp: confirm_candidate_def tx_simps lock_memory_slot_def db1_def [symmetric])
  have c1: "changes env owner kb db db1" unfolding db1_def by (rule lock_changes)
  have "candidate_fields_ok env c" using governedD(4) [OF g] c_in by (simp add: candidates_wf_def)
  then have c2: "changes env owner kb db1 db2" "md_candidates db2 = md_candidates db1"
    using promote_candidate_changes [OF p governed_changes [OF c1 g]] by simp_all
  have "changes env owner kb db2 db'"
    by (rule decide_changes [OF _ _ _ pend _ s]) (use c_in c2(2) in \<open>simp_all add: db1_def\<close>)
  then show ?thesis using c1 c2(1) by (meson rtranclp_trans)
qed

lemma reject_candidate_changes:
  assumes "reject_candidate env cid owner kb db = Inr (c', db')"
  shows "changes env owner kb db db'"
proof -
  obtain c where c: "load_candidate_for_update cid owner kb db = Some c" and pend: "mc_status c = CPending"
      and s: "set_candidate (c\<lparr>mc_status := CRejected, mc_decided_at := Some (me_now env)\<rparr>) db = Inr ((), db')"
    using assms by (auto simp: reject_candidate_def tx_simps Let_def split: option.splits)
  show ?thesis by (rule decide_changes [OF _ _ _ pend _ s]) (use load_candidate_in [OF c] in simp_all)
qed

lemma audit_changes:
  assumes "audit env owner kb action ty tid actor reason jti db = Inr (u, db')"
  shows "changes env owner kb db db'"
proof -
  define a where "a = \<lparr>ma_audit_id = fresh_id env db, ma_owner_id = owner, ma_knowledge_base_id = kb, ma_action = action,
         ma_target_type = ty, ma_target_id = tid, ma_actor_id = actor, ma_reason = reason, ma_confirmation_jti = jti\<rparr>"
  let ?db1 = "db\<lparr>md_locks := md_locks db, md_ids := Suc (md_ids db)\<rparr>"
  have db': "db' = ?db1\<lparr>md_audits := md_audits ?db1 @ [a]\<rparr>"
    using assms by (simp add: audit_def new_id_def tx_simps a_def)
  have "memory_change env owner kb db ?db1" by (rule Bookkeeping) simp
  moreover have "memory_change env owner kb ?db1 db'"
    unfolding db' by (rule Audited) (simp_all add: a_def)
  ultimately show ?thesis by (blast intro: rtranclp_trans changes1)
qed

lemma invalidate_changes:
  assumes "invalidate_command env mid owner kb actor reason db = Inr (m', db')"
  shows "changes env owner kb db db'"
proof -
  obtain m where m: "load_memory_for_update mid owner kb db = Some m"
    using assms by (auto simp: invalidate_command_def tx_simps split: option.splits)
  define db1 where "db1 = db\<lparr>md_locks := md_locks db @ [memory_slot_lock_key env owner kb (cm_memory_type m)
      (cm_subject m) (cm_predicate m)]\<rparr>"
  let ?db2 = "db1\<lparr>md_memories := update_where (\<lambda>x. cm_memory_id x = cm_memory_id m)
      (\<lambda>_. m\<lparr>cm_status := MInvalidated\<rparr>) (md_memories db1)\<rparr>"
  have m1: "load_memory_for_update mid owner kb db1 = Some m" using m by (simp add: db1_def)
  have act: "cm_status m = MActive"
      and a: "audit env owner kb ''invalidate'' ''memory'' mid actor reason None ?db2 = Inr ((), db')"
    using assms m m1 by (auto simp: invalidate_command_def tx_simps lock_memory_slot_def set_memory_def Let_def
        db1_def [symmetric])
  have "memory_change env owner kb db1 ?db2"
    by (rule Memory_invalidated) (use load_memory_in [OF m] act in \<open>simp_all add: db1_def\<close>)
  moreover have "changes env owner kb db db1" unfolding db1_def by (rule lock_changes)
  ultimately show ?thesis using audit_changes [OF a] by (meson changes1 rtranclp_trans)
qed


lemma confirm_command_changes:
  assumes "confirm_command env cid owner kb actor reason db = Inr (m, db')" and g: "governed env db"
  shows "changes env owner kb db db'"
proof -
  obtain ls db2 where c: "confirm_candidate env cid owner kb actor (db\<lparr>md_locks := ls\<rparr>) = Inr (m, db2)"
      and a: "audit env owner kb ''confirm'' ''candidate'' cid actor reason None db2 = Inr ((), db')"
    using assms(1) by (auto simp: confirm_command_def tx_simps lock_memory_slot_def split: option.splits)
  have c1: "changes env owner kb db (db\<lparr>md_locks := ls\<rparr>)" by (rule lock_changes)
  then show ?thesis
    using confirm_candidate_changes [OF c governed_changes [OF c1 g]] audit_changes [OF a] by (meson rtranclp_trans)
qed

lemma reject_command_changes:
  assumes "reject_command env cid owner kb actor reason db = Inr (c', db')"
  shows "changes env owner kb db db'"
proof -
  obtain ls db2 where c: "reject_candidate env cid owner kb (db\<lparr>md_locks := ls\<rparr>) = Inr (c', db2)"
      and a: "audit env owner kb ''reject'' ''candidate'' cid actor reason None db2 = Inr ((), db')"
    using assms(1) by (auto simp: reject_command_def tx_simps lock_memory_slot_def split: option.splits)
  show ?thesis
    using lock_changes [of env owner kb db ls] reject_candidate_changes [OF c] audit_changes [OF a] by (meson rtranclp_trans)
qed

lemma revise_command_changes:
  assumes "revise_command env mid owner kb s p v c sens actor reason db = Inr (m', db')" and g: "governed env db"
  shows "changes env owner kb db db'"
proof -
  obtain ls db2 where r: "revise_memory env mid owner kb s p v reason actor sens [] c (db\<lparr>md_locks := ls\<rparr>) = Inr (m', db2)"
      and a: "audit env owner kb ''revise'' ''memory'' mid actor reason None db2 = Inr ((), db')"
    using assms(1) by (auto simp: revise_command_def tx_simps Let_def split: option.splits)
  have c1: "changes env owner kb db (db\<lparr>md_locks := ls\<rparr>)" by (rule lock_changes)
  then show ?thesis
    using revise_memory_changes [OF r governed_changes [OF c1 g]] audit_changes [OF a] by (meson rtranclp_trans)
qed

subsection \<open>Reachable databases\<close>

text \<open>The environment of a command: the same ids, hashes and embeddings, the clocks of its time.\<close>

definition at_time :: "memory_env \<Rightarrow> instant \<Rightarrow> instant \<Rightarrow> memory_env" where
  "at_time env t u = env\<lparr>me_now := t, me_server_now := u\<rparr>"

inductive memory_step :: "memory_env \<Rightarrow> int \<times> string option \<Rightarrow> memory_db \<Rightarrow> memory_db \<Rightarrow> bool"
  for env :: memory_env where
  Reconciled: "reconcile_candidate (at_time env t u) owner kb ty s p v c sens ev prov ex actor db = Inr (res, db') \<Longrightarrow>
    memory_step env (owner, kb) db db'"
| Confirmed: "confirm_command (at_time env t u) cid owner kb actor reason db = Inr (m, db') \<Longrightarrow>
    memory_step env (owner, kb) db db'"
| Rejected: "reject_command (at_time env t u) cid owner kb actor reason db = Inr (cand, db') \<Longrightarrow>
    memory_step env (owner, kb) db db'"
| Revised: "revise_command (at_time env t u) mid owner kb s p v c sens actor reason db = Inr (m, db') \<Longrightarrow>
    memory_step env (owner, kb) db db'"
| Invalidated: "invalidate_command (at_time env t u) mid owner kb actor reason db = Inr (m, db') \<Longrightarrow>
    memory_step env (owner, kb) db db'"
| Evidence_accepted: "accept_evidence kb item x db = Inr (e, db') \<Longrightarrow> x \<in> set (md_evidence db) \<Longrightarrow> ev_owner_id x = owner \<Longrightarrow>
    memory_step env (owner, kb) db db'"

lemma at_time_ids [simp]: "me_uuid (at_time env t u) = me_uuid env"
  by (simp add: at_time_def)

lemma at_time_fields [simp]:
  "memory_fields_ok (at_time env t u) = memory_fields_ok env"
  "candidate_fields_ok (at_time env t u) = candidate_fields_ok env"
  by (simp_all add: fun_eq_iff memory_fields_ok_def candidate_fields_ok_def content_ok_def memory_fingerprint_def at_time_def)

lemma at_time_change:
  assumes "memory_change (at_time env t u) owner kb db db'"
  shows "memory_change env owner kb db db'"
  using assms
proof cases
  case (Memory_revised m q r m' t)
  show ?thesis
    unfolding Memory_revised(1) by (rule memory_change.Memory_revised) (use Memory_revised(2-) in \<open>assumption | simp\<close>)+
qed (simp_all add: memory_change.intros)

lemma at_time_changes: "changes (at_time env t u) owner kb db db' \<Longrightarrow> changes env owner kb db db'"
  by (erule rtranclp_mono [THEN predicate2D, rotated]) (auto simp: scope_change_def intro: at_time_change)

lemma at_time_governed [simp]: "governed (at_time env t u) db = governed env db"
  by (simp add: governed_def memory_wf_def ids_wf_def memories_wf_def candidates_wf_def)

lemma step_changes:
  assumes "memory_step env sc db db'" and g: "governed env db"
  shows "(scope_change env sc)\<^sup>*\<^sup>* db db'"
  using assms(1)
proof cases
  case (Reconciled t u)
  have "governed (at_time env t u) db" using g by simp
  then show ?thesis unfolding Reconciled(1) by (rule at_time_changes [OF reconcile_candidate_changes [OF Reconciled(2)]])
next
  case (Confirmed t u)
  have "governed (at_time env t u) db" using g by simp
  then show ?thesis unfolding Confirmed(1) by (rule at_time_changes [OF confirm_command_changes [OF Confirmed(2)]])
next
  case (Rejected t u)
  show ?thesis unfolding Rejected(1) by (rule at_time_changes [OF reject_command_changes [OF Rejected(2)]])
next
  case (Revised t u)
  have "governed (at_time env t u) db" using g by simp
  then show ?thesis unfolding Revised(1) by (rule at_time_changes [OF revise_command_changes [OF Revised(2)]])
next
  case (Invalidated t u)
  show ?thesis unfolding Invalidated(1) by (rule at_time_changes [OF invalidate_changes [OF Invalidated(2)]])
next
  case Evidence_accepted
  then show ?thesis using accept_evidence_changes by blast
qed

definition empty_db :: memory_db where
  "empty_db = \<lparr>md_memories = [], md_revisions = [], md_candidates = [], md_evidence = [], md_candidate_evidence = [],
     md_revision_evidence = [], md_audits = [], md_locks = [], md_ids = 0\<rparr>"

inductive memory_reachable :: "memory_env \<Rightarrow> memory_db \<Rightarrow> bool" for env :: memory_env where
  Start: "memory_reachable env empty_db"
| Step: "memory_reachable env db \<Longrightarrow> memory_step env sc db db' \<Longrightarrow> memory_reachable env db'"

lemma empty_governed: "inj (me_uuid env) \<Longrightarrow> governed env empty_db"
  by (simp add: governed_def memory_wf_def ids_wf_def memories_wf_def revisions_wf_def candidates_wf_def links_wf_def
      empty_db_def row_ids_def active_memories_def)

lemma reachable_governed:
  assumes "memory_reachable env db" and "inj (me_uuid env)"
  shows "governed env db"
  using assms(1)
proof induction
  case (Step db sc db')
  have "(scope_change env sc)\<^sup>*\<^sup>* db db'" by (rule step_changes [OF Step.hyps(2) Step.IH])
  then show ?case using Step.IH by (rule memory_tables.changes_inv)
qed (rule empty_governed [OF assms(2)])

end
