(* ===== verification/MemoryProps.thy ===== *)
theory MemoryProps
  imports GovernedOps
begin

text \<open>
  The properties of governed memory: what holds of every reachable database, how secrets, stale candidates
  and replays are treated, and which slots can be shared.
\<close>

subsection \<open>A concrete run for the witnesses\<close>

text \<open>A stored preference, a conflicting candidate, its confirmation; hashes are the identity.\<close>

definition sample_env :: memory_env where
  "sample_env = \<lparr>me_hexdigest = (\<lambda>s. s), me_digest = (\<lambda>s. []), me_dumps = (\<lambda>j. []), me_uuid = (\<lambda>n. replicate n (CHR ''x'')),
     me_embed = (\<lambda>s p v. None), me_now = 10, me_server_now = 10\<rparr>"

definition sample_evidence :: evidence_input where
  "sample_evidence = \<lparr>ei_source_type = ''conversation'', ei_source_id = ''s1'', ei_source_version = ''1'',
     ei_minimum_text = ''I like tea'', ei_content_hash = ''h'', ei_occurred_at = 5, ei_source_document_id = None\<rparr>"

definition after_tx :: "('a \<times> memory_db) result \<Rightarrow> memory_db" where
  "after_tx r = (case r of Inl _ \<Rightarrow> empty_db | Inr (_, db) \<Rightarrow> db)"

definition remember :: "string \<Rightarrow> memory_db \<Rightarrow> (reconciliation_result \<times> memory_db) result" where
  "remember v = reconcile_candidate sample_env 7 None ''preference'' ''User'' ''likes'' v (9 / 10) SLow [sample_evidence] []
     False ''policy''"

definition sample_db1 :: memory_db where "sample_db1 = after_tx (remember '' Tea '' empty_db)"
definition sample_db2 :: memory_db where "sample_db2 = after_tx (remember ''coffee'' sample_db1)"
definition sample_db3 :: memory_db where
  "sample_db3 = after_tx (revise_command sample_env ''xx'' 7 None ''user'' ''likes'' ''water'' None SLow ''u7'' ''edit'' sample_db2)"

lemma sample_runs:
  "\<not> isl (remember '' Tea '' empty_db)" "\<not> isl (remember ''coffee'' sample_db1)"
  "\<not> isl (revise_command sample_env ''xx'' 7 None ''user'' ''likes'' ''water'' None SLow ''u7'' ''edit'' sample_db2)"
  by code_simp+

lemma after_tx_Inr: "\<not> isl r \<Longrightarrow> \<exists>x. r = Inr (x, after_tx r)"
  by (cases r) (auto simp: after_tx_def)

lemma sample_env_now: "at_time sample_env 10 10 = sample_env"
  by (simp add: at_time_def sample_env_def)

lemma sample_inj: "inj (me_uuid sample_env)"
  by (auto simp: sample_env_def inj_def dest: arg_cong [of _ _ length])

lemma sample_steps:
  "memory_step sample_env (7, None) empty_db sample_db1"
  "memory_step sample_env (7, None) sample_db1 sample_db2"
  "memory_step sample_env (7, None) sample_db2 sample_db3"
  using sample_runs [THEN after_tx_Inr] sample_env_now
  unfolding sample_db1_def [symmetric] sample_db2_def [symmetric] sample_db3_def [symmetric]
  by (auto simp: remember_def intro: Reconciled [of sample_env 10 10] Revised [of sample_env 10 10])

lemma sample_reachable1: "memory_reachable sample_env sample_db1"
  by (rule Step [OF Start sample_steps(1)])

lemma sample_reachable2: "memory_reachable sample_env sample_db2"
  by (rule Step [OF sample_reachable1 sample_steps(2)])

lemma sample_reachable3: "memory_reachable sample_env sample_db3"
  by (rule Step [OF sample_reachable2 sample_steps(3)])

lemma filter_single:
  assumes "distinct xs" and "r \<in> set xs" and "\<And>x. x \<in> set xs \<Longrightarrow> P x \<longleftrightarrow> x = r"
  shows "filter P xs = [r]"
proof -
  have "filter P xs = filter (\<lambda>x. x = r) xs" by (rule filter_cong [OF refl assms(3)])
  also have "\<dots> = [r]"
    using assms(1,2) by (induction xs) (auto simp: filter_empty_conv)
  finally show ?thesis .
qed

subsection \<open>Reachable databases\<close>

lemma governed_one_open:
  assumes "governed env db" and m: "m \<in> set (md_memories db)"
  shows "\<exists>r. filter (\<lambda>r. mr_memory_id r = cm_memory_id m \<and> mr_valid_to r = None) (md_revisions db) = [r] \<and> current_revision m r"
proof -
  note g = governedD [OF assms(1)]
  obtain r where r: "r \<in> set (md_revisions db)" "current_revision m r" using g(2) m by (auto simp: memories_wf_def)
  have "q = r" if q: "q \<in> set (md_revisions db)" "mr_memory_id q = cm_memory_id m" "mr_valid_to q = None" for q
  proof -
    obtain n where "n \<in> set (md_memories db)" "revision_of n q" "mr_revision_id q = cm_active_revision_id n"
      using g(3) q by (auto simp: revisions_wf_def)
    moreover from this have "n = m"
      using distinct_key_unique [OF wf_distinct(1) [OF g(1)] _ m] q(2) by (simp add: revision_of_def)
    ultimately show ?thesis
      using distinct_key_unique [OF wf_distinct(2) [OF g(1)] q(1) r(1)] r(2) by (simp add: current_revision_def)
  qed
  then have only: "mr_memory_id q = cm_memory_id m \<and> mr_valid_to q = None \<longleftrightarrow> q = r" if "q \<in> set (md_revisions db)" for q
    using r(2) that by (auto simp: current_revision_def revision_of_def)
  have "filter (\<lambda>r. mr_memory_id r = cm_memory_id m \<and> mr_valid_to r = None) (md_revisions db) = [r]"
    by (rule filter_single [OF _ r(1) only]) (use wf_distinct(2) [OF g(1)] in \<open>simp add: distinct_map\<close>)
  then show ?thesis using r(2) by blast
qed

text \<open>
  Every memory that any sequence of commands can produce has exactly one open revision. It is the one the
  memory points at, it belongs to the same owner and knowledge base, and its text and fingerprint are those of
  the memory; and no two active memories of a scope have the same fingerprint.
\<close>

theorem memory_one_open_revision:
  assumes "memory_reachable env db" and "inj (me_uuid env)"
  shows "(\<forall>m\<in>set (md_memories db). \<exists>r. filter (\<lambda>r. mr_memory_id r = cm_memory_id m \<and> mr_valid_to r = None) (md_revisions db) = [r] \<and>
      current_revision m r) \<and> distinct (map active_identity (active_memories db))"
proof -
  have g: "governed env db" by (rule reachable_governed [OF assms])
  show ?thesis using governed_one_open [OF g] governedD(2) [OF g] by (simp add: memories_wf_def)
qed

theorem memory_one_open_revision_witness:
  "(\<exists>r. filter (\<lambda>r. mr_memory_id r = ''xx'' \<and> mr_valid_to r = None) (md_revisions sample_db3) = [r] \<and>
      current_revision (hd (md_memories sample_db3)) r) \<and> distinct (map active_identity (active_memories sample_db3))"
proof -
  have "cm_memory_id (hd (md_memories sample_db3)) = ''xx''" "hd (md_memories sample_db3) \<in> set (md_memories sample_db3)"
    by code_simp+
  then show ?thesis using memory_one_open_revision [OF sample_reachable3 sample_inj] by fastforce
qed

text \<open>
  C40. Whatever commands run, no stored memory or candidate is secret, every confidence is between 0 and 1, every
  type is a supported one, the stored texts are normalised and the fingerprint is that of the text; a candidate
  has a decision time exactly when it is no longer pending.
\<close>

theorem stored_rows_valid:
  assumes "memory_reachable env db" and "inj (me_uuid env)"
  shows "(\<forall>m\<in>set (md_memories db). memory_fields_ok env m) \<and> (\<forall>c\<in>set (md_candidates db). candidate_fields_ok env c)"
  using governedD(2,4) [OF reachable_governed [OF assms]] by (simp add: memories_wf_def candidates_wf_def)

theorem stored_rows_valid_witness:
  "memory_fields_ok sample_env (hd (md_memories sample_db3)) \<and> candidate_fields_ok sample_env (hd (md_candidates sample_db3))"
proof -
  have "hd (md_memories sample_db3) \<in> set (md_memories sample_db3)" "hd (md_candidates sample_db3) \<in> set (md_candidates sample_db3)"
    by code_simp+
  then show ?thesis using stored_rows_valid [OF sample_reachable3 sample_inj] by blast
qed

text \<open>
  Evidence stays in its scope: in every reachable database the evidence linked to a revision or a candidate
  exists and has the owner and the knowledge base of that revision or candidate.
\<close>

theorem evidence_stays_in_scope:
  assumes "memory_reachable env db" and "inj (me_uuid env)"
  shows "(\<forall>l\<in>set (md_revision_evidence db). revision_link_ok db l) \<and> (\<forall>l\<in>set (md_candidate_evidence db). candidate_link_ok db l)"
  using governedD(5) [OF reachable_governed [OF assms]] by (simp add: links_wf_iff)

theorem evidence_stays_in_scope_witness:
  "revision_link_ok sample_db3 (''xxx'', []) \<and> candidate_link_ok sample_db3 (''x'', [])"
proof -
  have "(''xxx'', []) \<in> set (md_revision_evidence sample_db3)" "(''x'', []) \<in> set (md_candidate_evidence sample_db3)"
    by code_simp+
  then show ?thesis using evidence_stays_in_scope [OF sample_reachable3 sample_inj] by blast
qed

text \<open>
  C9. Isolation: a command of one owner and knowledge base, applied to any reachable database, leaves the memories,
  revisions, candidates, evidence and audit rows of every other owner and knowledge base as they are.
\<close>

theorem memory_scopes_isolated:
  assumes "memory_reachable env db" and "inj (me_uuid env)" and "memory_step env sc db db'" and "other \<noteq> sc"
  shows "scope_view other db' = scope_view other db"
proof -
  have g: "governed env db" by (rule reachable_governed [OF assms(1,2)])
  show ?thesis by (rule memory_tables.changes_view [OF step_changes [OF assms(3) g] g assms(4)])
qed

theorem memory_scopes_isolated_witness: "scope_view (8, None) sample_db3 = scope_view (8, None) sample_db2"
  by (rule memory_scopes_isolated [OF sample_reachable2 sample_inj sample_steps(3)]) simp

text \<open>
  C25. Commands only append to history: through any number of memory commands (reconciling, confirming, rejecting,
  revising, invalidating) every revision keeps its text, its start and its author, and only its end may be set, once;
  every decided candidate stays as it was decided; evidence rows keep everything but a document that was not known; no
  command removes an evidence link or an audit row. Source deletions, hard deletions and purges do remove rows; they are
  the subject of the theories of deletion.
\<close>

theorem memory_history_immutable:
  assumes "memory_reachable env db" and "inj (me_uuid env)" and "(\<lambda>a b. \<exists>sc. memory_step env sc a b)\<^sup>*\<^sup>* db db'"
  shows "history_kept db db'"
proof -
  have "governed env db' \<and> history_kept db db'"
    using assms(3)
  proof induction
    case base
    show ?case using reachable_governed [OF assms(1,2)] history_kept_refl by simp
  next
    case (step a b)
    then obtain sc where "(scope_change env sc)\<^sup>*\<^sup>* a b" using step_changes by blast
    then show ?case
      using step.IH memory_tables.changes_inv memory_tables.changes_kept history_kept_trans by blast
  qed
  then show ?thesis ..
qed

theorem memory_history_immutable_witness: "history_kept sample_db1 sample_db3"
  by (rule memory_history_immutable [OF sample_reachable1 sample_inj])
    (use sample_steps(2,3) in \<open>blast intro: rtranclp.rtrancl_into_rtrancl rtranclp.rtrancl_refl\<close>)

subsection \<open>Secrets, staleness, confirmations\<close>

text \<open>
  C31. A candidate with a secret in any of its texts, or with a secret signal of the extractor, is never stored:
  reconciliation answers reject and writes nothing, whatever the confidence (even one outside 0..1), the type,
  the evidence, and even for an explicit request of the user.
\<close>

theorem secret_never_stored:
  assumes "list_ex contains_secret texts \<or> set signals \<inter> set SECRET_SIGNALS \<noteq> {}"
  shows "reconcile_candidate env owner kb ty s p v c (classify_sensitivity texts signals) ev prov explicit actor db =
    Inr (\<lparr>rr_decision = Reject, rr_candidate = None, rr_memory = None, rr_reinforced = False\<rparr>, db)"
proof -
  have "classify_sensitivity texts signals = SSecret"
    using assms by (auto simp: classify_sensitivity_def list_ex_iff)
  then show ?thesis
    by (simp add: reconcile_candidate_def classify_candidate_def tbind_def tlift_def treturn_def)
qed

theorem secret_never_stored_witness:
  "reconcile_candidate sample_env 7 None ''goal'' ''user'' ''says'' ''the password: hunter2'' 2
     (classify_sensitivity [''the password: hunter2''] []) [] [] True ''u7'' empty_db =
   Inr (\<lparr>rr_decision = Reject, rr_candidate = None, rr_memory = None, rr_reinforced = False\<rparr>, empty_db)"
  by (rule secret_never_stored) (simp add: sample_secret)

text \<open>
  C28. No lost update: a pending candidate remembers the revision it conflicts with. When that revision has been closed,
  no active memory of the scope has the candidate's own fingerprint, and an active memory with another value holds
  the candidate's slot, then confirming the candidate fails as stale in every reachable database, so a late
  confirmation does not overwrite what the user has not seen. (With the same fingerprint active a confirmation
  reinforces it, with a free slot it creates a memory.)
\<close>

theorem stale_candidate_refused:
  assumes "memory_reachable env db" and "inj (me_uuid env)"
    and "load_candidate_for_update cid owner kb db = Some c" and "mc_status c = CPending"
    and "find_active_memory owner kb (mc_fingerprint c) db = None"
    and "find_conflicting_memory owner kb (mc_memory_type c) (mc_subject c) (mc_predicate c) (mc_fingerprint c) db = Some m"
    and "r \<in> set (md_revisions db)" and "mc_conflicting_revision_id c = Some (mr_revision_id r)" and "mr_valid_to r \<noteq> None"
  shows "confirm_command env cid owner kb actor reason db =
    Inl (ValueError ''candidate is stale because the current memory changed; re-review is required'')"
proof -
  note g = governedD [OF reachable_governed [OF assms(1,2)]]
  note m = find_conflicting_in [OF assms(6)]
  obtain q where q: "q \<in> set (md_revisions db)" "current_revision m q"
    using g(2) m by (auto simp: memories_wf_def)
  have act: "load_active_revision m owner kb db = Inr q"
  proof -
    have "find (\<lambda>r. mr_revision_id r = cm_active_revision_id m \<and> mr_memory_id r = cm_memory_id m \<and>
        mr_owner_id r = owner \<and> mr_knowledge_base_id r = kb \<and> mr_valid_to r = None) (md_revisions db) = Some q"
      using wf_distinct(2) [OF g(1)] q m
      by (intro find_unique) (auto simp: current_revision_def revision_of_def dest: distinct_key_unique)
    then show ?thesis by (simp add: load_active_revision_def)
  qed
  have "mr_revision_id q \<noteq> mr_revision_id r"
    using distinct_key_unique [OF wf_distinct(2) [OF g(1)] q(1) assms(7)] q(2) assms(9) by (auto simp: current_revision_def)
  moreover have "candidate_fields_ok env c" using g(4) load_candidate_in [OF assms(3)] by (simp add: candidates_wf_def)
  ultimately show ?thesis
    using assms(3-6,8) act load_candidate_in [OF assms(3)]
    by (simp add: confirm_command_def confirm_candidate_def promote_candidate_def tbind_def tget_def tguard_def tlift_def
        tfail_def lock_memory_slot_def tmodify_def candidate_evidence_ids_def candidate_fields_ok_def)
qed

theorem stale_candidate_refused_witness:
  "confirm_command sample_env ''xxxxx'' 7 None ''u7'' ''ok'' sample_db3 =
    Inl (ValueError ''candidate is stale because the current memory changed; re-review is required'')"
  by (rule stale_candidate_refused [OF sample_reachable3 sample_inj,
        where c = "the (load_candidate_for_update ''xxxxx'' 7 None sample_db3)"
          and m = "hd (md_memories sample_db3)" and r = "hd (md_revisions sample_db3)"])
    code_simp+

lemma repeated_jti_refused:
  "\<not> distinct (map ma_confirmation_jti (filter (\<lambda>a. ma_confirmation_jti a \<noteq> None) (md_audits db))) \<Longrightarrow>
   \<exists>e. db_flush db = Inl (IntegrityError e)"
  by (simp add: db_flush_def)

text \<open>
  A purge confirmation is used once: after a confirmation token has been consumed, and whatever other commands
  follow, consuming it again for any scope raises the replay error.
\<close>

theorem purge_confirmation_once:
  assumes "consume_purge_confirmation env owner kb target actor reason jti db = Inr (u, db1)"
    and "set (md_audits db1) \<subseteq> set (md_audits db2)"
  shows "consume_purge_confirmation env' owner' kb' target' actor' reason' jti db2 =
    Inl (PurgeConfirmationReplay ''purge confirmation was already consumed'')"
proof -
  let ?a = "\<lparr>ma_audit_id = me_uuid env' (md_ids db2), ma_owner_id = owner', ma_knowledge_base_id = kb', ma_action = ''purge'',
         ma_target_type = ''scope'', ma_target_id = target', ma_actor_id = actor', ma_reason = reason',
         ma_confirmation_jti = Some jti\<rparr>"
  let ?db = "db2\<lparr>md_ids := Suc (md_ids db2), md_audits := md_audits db2 @ [?a]\<rparr>"
  let ?b = "\<lparr>ma_audit_id = me_uuid env (md_ids db), ma_owner_id = owner, ma_knowledge_base_id = kb, ma_action = ''purge'',
         ma_target_type = ''scope'', ma_target_id = target, ma_actor_id = actor, ma_reason = reason,
         ma_confirmation_jti = Some jti\<rparr>"
  let ?dc = "db\<lparr>md_ids := Suc (md_ids db), md_audits := md_audits db @ [?b]\<rparr>"
  have "(case db_flush ?dc of
         Inl (IntegrityError _) \<Rightarrow> Inl (PurgeConfirmationReplay ''purge confirmation was already consumed'')
       | r \<Rightarrow> r) = Inr (u, db1)"
    using assms(1) by (simp add: consume_purge_confirmation_def audit_def new_id_def tbind_def tmodify_def)
  then have "db_flush ?dc = Inr (u, db1)" by (cases "db_flush ?dc") (simp_all split: py_error.splits)
  then have "db1 = ?dc" by (simp add: db_flush_Inr)
  then have "?b \<in> set (md_audits db1)" by simp
  then obtain a where "a \<in> set (md_audits db1)" "ma_confirmation_jti a = Some jti" by (metis memory_audit.select_convs(9))
  then have "a \<in> set (md_audits db2)" using assms(2) by blast
  with \<open>ma_confirmation_jti a = Some jti\<close>
  have "\<not> distinct (map ma_confirmation_jti (filter (\<lambda>a. ma_confirmation_jti a \<noteq> None) (md_audits ?db)))"
    by (force simp: image_iff)
  then obtain e where "db_flush ?db = Inl (IntegrityError e)" using repeated_jti_refused by blast
  then show ?thesis
    by (simp add: consume_purge_confirmation_def audit_def new_id_def tbind_def tmodify_def)
qed

theorem purge_confirmation_once_witness:
  "consume_purge_confirmation sample_env 8 None ''all'' ''u8'' ''again'' ''token''
     (after_tx (consume_purge_confirmation sample_env 7 None ''all'' ''u7'' ''clean'' ''token'' empty_db)) =
    Inl (PurgeConfirmationReplay ''purge confirmation was already consumed'')"
  by (rule purge_confirmation_once [where env = sample_env and owner = 7 and kb = None and target = "''all''" and actor = "''u7''"
        and reason = "''clean''" and db = empty_db and u = "()"
        and ?db1.0 = "after_tx (consume_purge_confirmation sample_env 7 None ''all'' ''u7'' ''clean'' ''token'' empty_db)"])
    (code_simp, simp)

text \<open>
  Reinforcement does not depend on the order in which supporting sources arrive: the confidence after any
  number of them is one minus the product of the doubts, which never lowers it and never exceeds 1.
\<close>

theorem confidence_order_irrelevant:
  assumes "unit_interval c" and "\<forall>x\<in>set xs. unit_interval x"
  shows "foldl combined_confidence c xs = 1 - (1 - c) * prod_list (map (\<lambda>x. 1 - x) xs) \<and>
    c \<le> foldl combined_confidence c xs \<and> foldl combined_confidence c xs \<le> 1"
proof -
  have step: "combined_confidence a b = 1 - (1 - a) * (1 - b)" if "unit_interval a" "unit_interval b" for a b
  proof -
    have "0 \<le> (1 - a) * (1 - b)" using that by (intro mult_nonneg_nonneg) (simp_all add: unit_interval_def)
    then show ?thesis by (simp add: combined_confidence_def)
  qed
  have unit: "unit_interval (combined_confidence a b)" if "unit_interval a" "unit_interval b" for a b
    using combined_confidence_bounds [OF that] that by (simp add: unit_interval_def)
  show ?thesis using assms
  proof (induction xs arbitrary: c)
    case (Cons x xs)
    have u: "unit_interval (combined_confidence c x)" using Cons.prems by (intro unit) simp_all
    have ih: "foldl combined_confidence (combined_confidence c x) xs =
          1 - (1 - combined_confidence c x) * prod_list (map (\<lambda>x. 1 - x) xs)"
        "combined_confidence c x \<le> foldl combined_confidence (combined_confidence c x) xs"
        "foldl combined_confidence (combined_confidence c x) xs \<le> 1"
      using Cons.IH [OF u] Cons.prems(2) by simp_all
    have "c \<le> combined_confidence c x" using combined_confidence_bounds(1) Cons.prems by simp
    then show ?case using ih step [of c x] Cons.prems by simp
  qed (simp add: unit_interval_def)
qed

theorem confidence_order_irrelevant_witness:
  "foldl combined_confidence (1 / 2) [1 / 2, 1] = 1 - (1 - 1 / 2) * prod_list (map (\<lambda>x. 1 - x) [1 / 2, 1 :: real]) \<and>
    1 / 2 \<le> foldl combined_confidence (1 / 2) [1 / 2, 1] \<and> foldl combined_confidence (1 / 2) [1 / 2, 1 :: real] \<le> 1"
  by (rule confidence_order_irrelevant) (simp_all add: unit_interval_def)

subsection \<open>Slots\<close>

text \<open>A slot is the place of one value: owner, knowledge base, type, subject and predicate.\<close>

definition memory_slot :: "canonical_memory \<Rightarrow> int \<times> string option \<times> string \<times> string \<times> string" where
  "memory_slot m = (cm_owner_id m, cm_knowledge_base_id m, cm_memory_type m, cm_subject m, cm_predicate m)"

definition slots_exclusive :: "memory_db \<Rightarrow> bool" where
  "slots_exclusive db \<longleftrightarrow> distinct (map memory_slot (active_memories db))"

lemma slots_exclusive_cong: "md_memories db' = md_memories db \<Longrightarrow> slots_exclusive db' = slots_exclusive db"
  by (simp add: slots_exclusive_def active_memories_def)

lemma slots_exclusive_update:
  assumes "slots_exclusive db" and "distinct (map cm_memory_id (md_memories db))" and "m \<in> set (md_memories db)"
    and "memory_slot m' = memory_slot m" and "cm_status m' = MActive \<Longrightarrow> cm_status m = MActive"
    and "md_memories db' = update_where (\<lambda>x. cm_memory_id x = cm_memory_id m) (\<lambda>_. m') (md_memories db)"
  shows "slots_exclusive db'"
proof -
  have only: "x = m" if "x \<in> set (md_memories db)" "cm_memory_id x = cm_memory_id m" for x
    using distinct_key_unique [OF assms(2) that(1) assms(3) that(2)] .
  have "\<forall>x\<in>set (md_memories db). memory_slot (if cm_memory_id x = cm_memory_id m then m' else x) = memory_slot x \<and>
      (cm_status (if cm_memory_id x = cm_memory_id m then m' else x) = MActive \<longrightarrow> cm_status x = MActive)"
    using only assms(4,5) by auto
  then show ?thesis using assms(1)
    unfolding slots_exclusive_def active_memories_def assms(6) update_where_def by (intro distinct_filter_map)
qed

lemma slots_exclusive_add:
  assumes "slots_exclusive db" and "md_memories db' = md_memories db @ [m]"
    and "\<And>x. x \<in> set (md_memories db) \<Longrightarrow> cm_status x = MActive \<Longrightarrow> memory_slot x \<noteq> memory_slot m"
  shows "slots_exclusive db'"
  using assms(1,3) by (force simp: slots_exclusive_def active_memories_def assms(2))

lemma attach_revision_memories:
  "attach_revision_evidence rid ids owner kb db = Inr (n, db') \<Longrightarrow> md_memories db' = md_memories db"
  by (erule attach_revision_rows) simp

lemma create_memory_rows:
  assumes "create_memory env owner kb ty s p v fp c sens reason actor ids db = Inr (m, db')"
  shows "md_memories db' = md_memories db @ [m] \<and> memory_slot m = (owner, kb, ty, s, p)"
  using assms
  by (auto simp: create_memory_def tx_simps new_id_def Let_def memory_slot_def dest!: attach_revision_memories)

lemma write_revision_rows:
  assumes "write_revision env m q ns np nv reason actor sens ids c owner kb db = Inr (m', db')"
    and "cm_owner_id m = owner" and "cm_knowledge_base_id m = kb"
  shows "md_memories db' = update_where (\<lambda>x. cm_memory_id x = cm_memory_id m) (\<lambda>_. m') (md_memories db) \<and>
    memory_slot m' = (owner, kb, cm_memory_type m, ns, np) \<and> cm_status m' = MActive \<and> cm_memory_id m' = cm_memory_id m"
proof -
  obtain n dba dbr where att: "attach_revision_evidence (fresh_id env db) ids owner kb dbr = Inr (n, dba)"
      and mem: "md_memories dbr = md_memories db"
      and db': "db' = dba\<lparr>md_memories := update_where (\<lambda>x. cm_memory_id x = cm_memory_id m) (\<lambda>_. m') (md_memories dba)\<rparr>"
      and m': "memory_slot m' = (cm_owner_id m, cm_knowledge_base_id m, cm_memory_type m, ns, np)"
        "cm_status m' = MActive" "cm_memory_id m' = cm_memory_id m"
    using assms(1) unfolding write_revision_def set_memory_def
    by (fastforce simp: tx_simps Let_def new_id_def memory_slot_def)
  then show ?thesis using attach_revision_memories [OF att] assms(2,3) by simp
qed

lemma revise_memory_rows:
  assumes "revise_memory env mid owner kb s p v reason actor sens ids c db = Inr (m', db')"
    and m: "load_memory_for_update mid owner kb db = Some m"
  shows "md_memories db' = update_where (\<lambda>x. cm_memory_id x = cm_memory_id m) (\<lambda>_. m') (md_memories db) \<and>
    memory_slot m' = (owner, kb, cm_memory_type m, normalize_memory_text s, normalize_memory_text p) \<and>
    cm_status m' = MActive \<and> cm_memory_id m' = mid"
proof -
  define ls where "ls = md_locks db @ [memory_slot_lock_key env owner kb (cm_memory_type m)
      (normalize_memory_text s) (normalize_memory_text p)]"
  define db1 where "db1 = db\<lparr>md_locks := ls\<rparr>"
  have m1: "load_memory_for_update mid owner kb db1 = Some m" using m by (simp add: db1_def)
  obtain old scoped where w: "write_revision env m old (normalize_memory_text s) (normalize_memory_text p)
      (normalize_memory_text v) reason actor sens scoped c owner kb db1 = Inr (m', db')"
    using assms(1) m m1 unfolding revise_memory_def Let_def
    by (auto simp: tx_simps lock_memory_slot_def ls_def [symmetric] db1_def [symmetric] simp del: locks_irrelevant)
  show ?thesis using write_revision_rows [OF w] load_memory_in [OF m] by (simp add: db1_def)
qed

lemma reinforce_slots:
  assumes "reinforce m r ids c sens owner kb db = Inr ((m', n), db')" and "slots_exclusive db"
    and "m \<in> set (md_memories db)" and "distinct (map cm_memory_id (md_memories db))"
  shows "slots_exclusive db'"
  using assms(1)
proof (cases rule: reinforce_cases)
  case (1 dba)
  then show ?thesis using slots_exclusive_cong [OF attach_revision_memories [OF 1(1)]] assms(2) by simp
next
  case (2 dba s)
  have mem: "md_memories dba = md_memories db" by (rule attach_revision_memories [OF 2(1)])
  show ?thesis
    by (rule slots_exclusive_update [of dba m m'])
      (use assms(2-4) mem 2(4,5) slots_exclusive_cong [OF mem] in \<open>simp_all add: memory_slot_def\<close>)
qed

lemma create_slots:
  assumes "create_memory env owner kb ty s p v fp c sens reason actor ids db = Inr (m, db')" and "slots_exclusive db"
    and "find_active_memory owner kb fp db = None" and "find_conflicting_memory owner kb ty s p fp db = None"
  shows "slots_exclusive db'"
proof (rule slots_exclusive_add [OF assms(2) create_memory_rows [OF assms(1), THEN conjunct1]])
  fix x assume "x \<in> set (md_memories db)" "cm_status x = MActive"
  then show "memory_slot x \<noteq> memory_slot m"
    using assms(3,4) create_memory_rows [OF assms(1)]
    by (auto simp: find_active_memory_def find_conflicting_memory_def find_None_iff memory_slot_def)
qed

lemma load_memory_found:
  assumes "m \<in> set (md_memories db)" and "distinct (map cm_memory_id (md_memories db))"
    and "cm_owner_id m = owner" and "cm_knowledge_base_id m = kb"
  shows "load_memory_for_update (cm_memory_id m) owner kb db = Some m"
  unfolding load_memory_for_update_def
  using assms distinct_key_unique [OF assms(2) _ assms(1)] by (intro find_unique) auto

lemma replace_slots:
  assumes "revise_memory env (cm_memory_id m) owner kb s p v reason actor sens ids c db = Inr (m', db')"
    and "slots_exclusive db" and "find_conflicting_memory owner kb ty s p fp db = Some m"
    and "distinct (map cm_memory_id (md_memories db))"
    and "normalize_memory_text s = s" and "normalize_memory_text p = p"
  shows "slots_exclusive db'"
proof -
  note m = find_conflicting_in [OF assms(3)]
  have "load_memory_for_update (cm_memory_id m) owner kb db = Some m" using m assms(4) by (intro load_memory_found) simp_all
  note rows = revise_memory_rows [OF assms(1) this]
  have "memory_slot m' = memory_slot m" using rows m assms(5,6) by (simp add: memory_slot_def)
  then show ?thesis using rows m by (intro slots_exclusive_update [OF assms(2,4)]) auto
qed


lemma settle_slots:
  assumes "settle_candidate env owner kb ty ns np nv fp c sens prov ex actor dec cmp crev conf confrev ids db = Inr (res, db')"
    and "slots_exclusive db" and d: "distinct (map cm_memory_id (md_memories db))"
    and cmp: "cmp = find_active_memory owner kb fp db"
    and conf: "conf = (if cmp = None then find_conflicting_memory owner kb ty ns np fp db else None)"
    and "normalize_memory_text ns = ns" and "normalize_memory_text np = np"
    and dec: "dec \<noteq> Reject"
    and cand: "\<And>i. candidate_fields_ok env (candidate_row env i owner kb ty ns np nv fp c sens prov dec conf confrev)"
  shows "slots_exclusive db'"
proof (cases "if dec = Promote then cmp else None")
  case (Some m)
  then have m: "cmp = Some m" by (auto split: if_splits)
  obtain r m' n where r: "reinforce m r ids c sens owner kb db = Inr ((m', n), db')"
    using assms(1) Some by (auto simp: settle_candidate_def tx_simps split: option.splits)
  show ?thesis using reinforce_slots [OF r assms(2) _ d] find_active_in [of owner kb fp db m] m cmp by simp
next
  case None
  let ?row = "\<lambda>cid. candidate_row env cid owner kb ty ns np nv fp c sens prov dec conf confrev"
  obtain cand db1 where st: "store_candidate env owner kb ?row ids db = Inr (cand, db1)"
      and rest: "dec = Pending \<and> db' = db1 \<or> dec \<noteq> Pending \<and> (\<exists>m. (case conf of
               Some c' \<Rightarrow> revise_memory env (cm_memory_id c') owner kb ns np nv ''explicit_request_replacement'' actor
                 sens ids (Some c)
             | None \<Rightarrow> create_memory env owner kb ty ns np nv fp c sens
                 (if ex then ''explicit_request'' else ''automatic_promotion'') actor ids) db1 = Inr (m, db'))"
    using assms(1) unfolding settle_candidate_def None option.case
    by (auto simp: tx_simps split: if_splits)
  have mem: "md_memories db1 = md_memories db"
    using store_candidate_changes [OF st] cand by (simp add: candidate_row_def)
  have ex1: "slots_exclusive db1" using assms(2) slots_exclusive_cong [OF mem] by simp
  have d1: "distinct (map cm_memory_id (md_memories db1))" using d mem by simp
  have same: "find_active_memory owner kb fp db1 = find_active_memory owner kb fp db"
      "find_conflicting_memory owner kb ty ns np fp db1 = find_conflicting_memory owner kb ty ns np fp db"
    by (simp_all add: find_active_memory_def find_conflicting_memory_def mem)
  from rest show ?thesis
  proof
    assume *: "dec \<noteq> Pending \<and> (\<exists>m. (case conf of
               Some c' \<Rightarrow> revise_memory env (cm_memory_id c') owner kb ns np nv ''explicit_request_replacement'' actor
                 sens ids (Some c)
             | None \<Rightarrow> create_memory env owner kb ty ns np nv fp c sens
                 (if ex then ''explicit_request'' else ''automatic_promotion'') actor ids) db1 = Inr (m, db'))"
    show ?thesis
    proof (cases conf)
      case (Some q)
      then have "find_conflicting_memory owner kb ty ns np fp db1 = Some q" using conf same by (auto split: if_splits)
      then show ?thesis using * Some replace_slots [OF _ ex1 _ d1 assms(6,7)] by auto
    next
      case None2: None
      have "dec = Promote" using * dec by (cases dec) simp_all
      then have "cmp = None" using None by simp
      then show ?thesis using * None2 create_slots [OF _ ex1] cmp conf same by auto
    qed
  qed (use ex1 in simp)
qed

lemma reconcile_slots:
  assumes "reconcile_candidate env owner kb ty s p v c sens ev prov ex actor db = Inr (res, db')" and g: "governed env db"
    and "slots_exclusive db"
  shows "slots_exclusive db'"
proof (cases "sens = SSecret")
  case True
  then show ?thesis using assms(1,3) reconcile_secret by blast
next
  case False
  let ?ns = "normalize_memory_text s" and ?np = "normalize_memory_text p" and ?nv = "normalize_memory_text v"
  let ?fp = "memory_fingerprint env ?ns ?np ?nv"
  let ?db1 = "db\<lparr>md_locks := md_locks db @ [memory_slot_lock_key env owner kb ty ?ns ?np]\<rparr>"
  let ?conf = "slot_conflict owner kb ty ?ns ?np ?fp db"
  obtain crev confrev dec stored db2 where ty: "ty \<in> set MEMORY_TYPES"
      and dec: "classify_candidate sens c ex (?conf \<noteq> None) = Inr dec"
      and ev: "persist_evidence env owner kb ev ?db1 = Inr (stored, db2)"
      and st: "settle_candidate env owner kb ty ?ns ?np ?nv ?fp c sens prov ex actor dec (find_active_memory owner kb ?fp db)
        crev ?conf confrev (map ev_evidence_id stored) db2 = Inr (res, db')"
    by (rule reconcile_decompose [OF assms(1) False])
  have mem: "md_memories db2 = md_memories db" using persist_evidence_changes [OF ev] by (simp add: evidence_step_def)
  have same: "find_active_memory owner kb fp db2 = find_active_memory owner kb fp db"
      "find_conflicting_memory owner kb ty ns np fp db2 = find_conflicting_memory owner kb ty ns np fp db" for fp ns np
    by (simp_all add: find_active_memory_def find_conflicting_memory_def mem)
  note pol = classify_cases [OF dec]
  show ?thesis
  proof (rule settle_slots [OF st])
    show "slots_exclusive db2" using assms(3) slots_exclusive_cong [OF mem] by simp
    show "distinct (map cm_memory_id (md_memories db2))" using wf_distinct(1) [OF governedD(1) [OF g]] mem by simp
    show "dec \<noteq> Reject" using pol False by simp
    show "candidate_fields_ok env (candidate_row env i owner kb ty ?ns ?np ?nv ?fp c sens prov dec ?conf confrev)" for i
      using pol False ty normalize_content by (auto simp: candidate_row_def candidate_fields_ok_def)
  qed (simp_all add: same slot_conflict_def)
qed

lemma promote_slots:
  assumes "promote_candidate env c owner kb actor ids db = Inr (m, db')" and "slots_exclusive db"
    and d: "distinct (map cm_memory_id (md_memories db))" and "candidate_fields_ok env c"
  shows "slots_exclusive db'"
proof (cases "find_active_memory owner kb (mc_fingerprint c) db")
  case (Some q)
  then obtain r n where "reinforce q r ids (mc_confidence c) (mc_sensitivity c) owner kb db = Inr ((m, n), db')"
    using assms(1) by (auto simp: promote_candidate_def tx_simps)
  then show ?thesis using reinforce_slots assms(2) d find_active_in [OF Some] by blast
next
  case None
  show ?thesis
  proof (cases "find_conflicting_memory owner kb (mc_memory_type c) (mc_subject c) (mc_predicate c) (mc_fingerprint c) db")
    case (Some q)
    then have r: "revise_memory env (cm_memory_id q) owner kb (mc_subject c) (mc_predicate c) (mc_value c)
        ''confirmed_replacement'' actor (mc_sensitivity c) ids (Some (mc_confidence c)) db = Inr (m, db')"
      using assms(1) None by (auto simp: promote_candidate_def tx_simps)
    show ?thesis
      by (rule replace_slots [OF r assms(2) Some d]) (use assms(4) in \<open>simp_all add: candidate_fields_ok_def content_ok_def\<close>)
  next
    case None2: None
    then have "create_memory env owner kb (mc_memory_type c) (mc_subject c) (mc_predicate c) (mc_value c)
        (mc_fingerprint c) (mc_confidence c) (mc_sensitivity c) ''user_confirmation'' actor ids db = Inr (m, db')"
      using assms(1) None by (auto simp: promote_candidate_def tx_simps)
    then show ?thesis using create_slots assms(2) None None2 by blast
  qed
qed

lemma confirm_slots:
  assumes "confirm_candidate env cid owner kb actor db = Inr (m, db')" and g: "governed env db" and "slots_exclusive db"
  shows "slots_exclusive db'"
proof -
  obtain c where c: "load_candidate_for_update cid owner kb db = Some c"
    using assms(1) by (auto simp: confirm_candidate_def tx_simps split: option.splits)
  define db1 where "db1 = db\<lparr>md_locks := md_locks db @ [memory_slot_lock_key env owner kb (mc_memory_type c)
      (mc_subject c) (mc_predicate c)]\<rparr>"
  obtain ids db2 where p: "promote_candidate env c owner kb actor ids db1 = Inr (m, db2)"
      and s: "md_memories db' = md_memories db2"
    using assms(1) c by (auto simp: confirm_candidate_def tx_simps lock_memory_slot_def set_candidate_def db1_def [symmetric])
  have mem: "md_memories db1 = md_memories db" by (simp add: db1_def)
  have "candidate_fields_ok env c" using governedD(4) [OF g] load_candidate_in [OF c] by (simp add: candidates_wf_def)
  then have "slots_exclusive db2"
    using promote_slots [OF p] assms(3) slots_exclusive_cong [OF mem] wf_distinct(1) [OF governedD(1) [OF g]] mem by simp
  then show ?thesis using slots_exclusive_cong [OF s] by simp
qed

text \<open>
  C33. One value per slot: when no two active memories of the database share a slot, neither a reconciliation nor
  the confirmation of a candidate makes two of them share one, whether it reinforces, replaces or creates.
\<close>

theorem promotion_keeps_slots_exclusive:
  assumes "memory_reachable env db" and "inj (me_uuid env)" and "slots_exclusive db"
    and "reconcile_candidate (at_time env t u) owner kb ty s p v c sens ev prov ex actor db = Inr (res, db') \<or>
      confirm_candidate (at_time env t u) cid owner kb actor db = Inr (m, db')"
  shows "slots_exclusive db'"
proof -
  have g: "governed (at_time env t u) db" using reachable_governed [OF assms(1,2)] by simp
  show ?thesis
    using assms(4) reconcile_slots [OF _ g assms(3)] confirm_slots [OF _ g assms(3)] by blast
qed

theorem promotion_keeps_slots_exclusive_witness: "slots_exclusive sample_db2"
  by (rule promotion_keeps_slots_exclusive [OF sample_reachable1 sample_inj, where t = 10 and u = 10 and owner = 7 and kb = None
        and ty = "''preference''" and s = "''User''" and p = "''likes''" and v = "''coffee''" and c = "9 / 10" and sens = SLow
        and ev = "[sample_evidence]" and prov = "[]" and ex = False and actor = "''policy''"
        and res = "fst (projr (remember ''coffee'' sample_db1))" and cid = "[]" and m = "hd (md_memories sample_db1)"])
    (code_simp, use sample_runs(2) in \<open>auto simp: sample_env_now remember_def [symmetric] sample_db2_def after_tx_def split: sum.splits\<close>)

text \<open>A revision goes through: the tables meet the constraints of the database before every flush.\<close>

lemma filter_closed: "(\<And>r. Q r \<Longrightarrow> \<not> P (f r)) \<Longrightarrow> filter P (update_where Q f rows) = filter (\<lambda>r. \<not> Q r) (filter P rows)"
  by (induction rows) (auto simp: update_where_def)

lemma write_revision_succeeds:
  assumes flush: "db_flush db = Inr ((), db)" and ids: "distinct (map cm_memory_id (md_memories db))"
    and old: "load_active_revision m owner kb db = Inr q" and "mr_valid_from q \<le> me_now env"
    and rids: "distinct (map mr_revision_id (md_revisions db))" and m: "m \<in> set (md_memories db)" "cm_owner_id m = owner" "cm_knowledge_base_id m = kb"
    and c: "case c of None \<Rightarrow> True | Some x \<Rightarrow> 0 \<le> x \<and> x \<le> 1"
    and free: "find_active_memory owner kb (memory_fingerprint env ns np nv) db = None"
  shows "\<exists>r. write_revision env m q ns np nv reason actor sens [] c owner kb db = Inr r"
proof -
  let ?close = "\<lambda>r. r\<lparr>mr_valid_to := Some (me_now env)\<rparr>"
  define db1 where "db1 = db\<lparr>md_revisions := update_where (\<lambda>r. mr_revision_id r = mr_revision_id q) ?close (md_revisions db)\<rparr>"
  define rid where "rid = me_uuid env (md_ids db1)"
  define rev where "rev = \<lparr>mr_revision_id = rid, mr_memory_id = cm_memory_id m, mr_owner_id = owner,
           mr_knowledge_base_id = kb, mr_subject = ns, mr_predicate = np, mr_value = nv, mr_fingerprint = memory_fingerprint env ns np nv,
           mr_embedding = me_embed env ns np nv, mr_valid_from = me_now env, mr_valid_to = None,
           mr_reason = reason, mr_actor = actor\<rparr>"
  define new where "new = m\<lparr>cm_subject := ns, cm_predicate := np, cm_value := nv, cm_fingerprint := memory_fingerprint env ns np nv,
           cm_sensitivity := sens, cm_active_revision_id := rid, cm_status := MActive,
           cm_confidence := (case c of None \<Rightarrow> cm_confidence m | Some c \<Rightarrow> c)\<rparr>"
  define db2 where "db2 = db1\<lparr>md_ids := Suc (md_ids db1), md_revisions := md_revisions db1 @ [rev]\<rparr>"
  define db3 where "db3 = db2\<lparr>md_memories := update_where (\<lambda>x. cm_memory_id x = cm_memory_id new) (\<lambda>_. new) (md_memories db2)\<rparr>"
  note q = load_active_in [OF old]
  have uniq: "p = q" if "p \<in> set (md_revisions db)" "mr_revision_id p = mr_revision_id q" for p
    by (rule distinct_key_unique [OF rids that(1) conjunct1 [OF q] that(2)])
  have f: "distinct (map active_identity (active_memories db))" "distinct (map mr_memory_id (open_revisions db))"
    "\<forall>r\<in>set (md_revisions db). case mr_valid_to r of None \<Rightarrow> True | Some t \<Rightarrow> mr_valid_from r \<le> t"
    "\<forall>m\<in>set (md_memories db). unit_interval (cm_confidence m)"
    "distinct (map ma_confirmation_jti (filter (\<lambda>a. ma_confirmation_jti a \<noteq> None) (md_audits db)))"
    using flush by (auto simp: db_flush_def list_all_iff split: if_splits)
  have open1: "open_revisions db1 = filter (\<lambda>r. mr_revision_id r \<noteq> mr_revision_id q) (open_revisions db)"
    unfolding open_revisions_def db1_def by (simp add: filter_closed)
  have valid1: "\<forall>r\<in>set (md_revisions db1). case mr_valid_to r of None \<Rightarrow> True | Some t \<Rightarrow> mr_valid_from r \<le> t"
  proof
    fix r assume "r \<in> set (md_revisions db1)"
    then obtain p where p: "p \<in> set (md_revisions db)" "r = (if mr_revision_id p = mr_revision_id q then ?close p else p)"
      by (auto simp: db1_def set_update_where)
    show "case mr_valid_to r of None \<Rightarrow> True | Some t \<Rightarrow> mr_valid_from r \<le> t"
      using p f(3) uniq [OF p(1)] assms(4) by (auto split: option.splits)
  qed
  have d1: "distinct (map mr_memory_id (open_revisions db1))" unfolding open1 using f(2) by (rule distinct_map_filter)
  have flush1: "db_flush db1 = Inr ((), db1)"
    using f(1,4,5) d1 valid1 by (simp add: db_flush_def list_all_iff db1_def active_memories_def)
  have "cm_memory_id m \<notin> mr_memory_id ` set (open_revisions db1)"
  proof
    assume "cm_memory_id m \<in> mr_memory_id ` set (open_revisions db1)"
    then obtain r where r: "r \<in> set (open_revisions db)" "mr_revision_id r \<noteq> mr_revision_id q" "mr_memory_id r = cm_memory_id m"
      unfolding open1 by auto
    have "q \<in> set (open_revisions db)" using q by (simp add: open_revisions_def)
    then show False using distinct_key_unique [OF f(2) r(1)] r(2,3) q by simp
  qed
  then have d2: "distinct (map mr_memory_id (open_revisions db2))"
    using d1 by (simp add: db2_def open_revisions_def rev_def)
  have flush2: "db_flush db2 = Inr ((), db2)"
    using f(1,4,5) d2 valid1 by (simp add: db_flush_def list_all_iff db2_def db1_def active_memories_def rev_def)
  have att: "\<exists>n. attach_revision_evidence rid [] owner kb db2 = Inr (n, db2)"
  proof -
    have "find (\<lambda>r. mr_revision_id r = rid \<and> mr_owner_id r = owner \<and> mr_knowledge_base_id r = kb) (md_revisions db2) \<noteq> None"
      unfolding find_None_iff not_not by (rule exI [of _ rev]) (simp add: db2_def, simp add: rev_def)
    then show ?thesis by (auto simp: attach_revision_evidence_def validate_evidence_scope_def)
  qed
  have ident: "\<forall>x\<in>set (md_memories db). cm_status x = MActive \<longrightarrow> active_identity x \<noteq> active_identity new"
    using free m by (auto simp: find_active_memory_def find_None_iff active_identity_def new_def)
  have "distinct (map active_identity (active_memories db3))"
    unfolding active_memories_def db3_def db2_def db1_def
    using distinct_replace [OF ids _ ident] f(1) by (simp add: active_memories_def)
  moreover have "unit_interval (cm_confidence new)" using c f(4) m by (auto simp: new_def unit_interval_def split: option.splits)
  ultimately have flush3: "db_flush db3 = Inr ((), db3)"
    using f(4,5) d2 valid1 by (auto simp: db_flush_def list_all_iff db3_def db2_def db1_def rev_def set_update_where open_revisions_def)
  obtain n where n: "attach_revision_evidence rid [] owner kb db2 = Inr (n, db2)" using att by blast
  have db2: "db1\<lparr>md_ids := Suc (md_ids db1), md_revisions := md_revisions (db1\<lparr>md_ids := Suc (md_ids db1)\<rparr>) @ [rev]\<rparr> = db2"
    by (simp add: db2_def)
  show ?thesis
    unfolding write_revision_def Let_def tbind_def tmodify_def new_id_def set_memory_def treturn_def db1_def [symmetric] flush1
      sum.case prod.case rid_def [symmetric] rev_def [symmetric] new_def [symmetric] db2 flush2 n db3_def [symmetric] flush3
    by simp
qed


lemma flush_locks: "db_flush (db\<lparr>md_locks := ls\<rparr>) = Inr ((), db\<lparr>md_locks := ls\<rparr>) \<longleftrightarrow> db_flush db = Inr ((), db)"
  by (simp add: db_flush_def active_memories_def open_revisions_def)

lemma flush_passes: "\<not> isl (db_flush db) \<Longrightarrow> db_flush db = Inr ((), db)"
  by (simp add: db_flush_def split: if_splits)

lemma revise_command_succeeds:
  assumes wf: "memory_wf env' db" and flush: "db_flush db = Inr ((), db)"
    and m: "load_memory_for_update mid owner kb db = Some m" and "sens \<noteq> SSecret"
    and c: "case c of None \<Rightarrow> True | Some x \<Rightarrow> 0 \<le> x \<and> x \<le> 1"
    and clock: "\<forall>r\<in>set (md_revisions db). mr_valid_from r \<le> me_now env"
    and free: "find_active_memory owner kb (memory_fingerprint env (normalize_memory_text s) (normalize_memory_text p)
      (normalize_memory_text v)) db = None"
  shows "\<exists>m' db'. revise_command env mid owner kb s p v c sens actor reason db = Inr (m', db')"
proof -
  note mem = load_memory_in [OF m]
  have ids: "ids_wf env' db" using wf by (simp add: memory_wf_def)
  obtain q where q: "load_active_revision m owner kb db = Inr q" "q \<in> set (md_revisions db)"
  proof -
    obtain r where r: "r \<in> set (md_revisions db)" "current_revision m r" using wf mem by (auto simp: memory_wf_def memories_wf_def)
    have "find (\<lambda>r. mr_revision_id r = cm_active_revision_id m \<and> mr_memory_id r = cm_memory_id m \<and>
         mr_owner_id r = owner \<and> mr_knowledge_base_id r = kb \<and> mr_valid_to r = None) (md_revisions db) \<noteq> None"
      unfolding find_None_iff not_not
      by (rule exI [of _ r]) (use r mem in \<open>simp add: current_revision_def revision_of_def\<close>)
    then obtain q where "load_active_revision m owner kb db = Inr q" by (auto simp: load_active_revision_def)
    then show thesis using that load_active_in by blast
  qed
  define key where "key = (\<lambda>(a, b). memory_slot_lock_key env owner kb (cm_memory_type m) a b)"
  define dba where "dba = db\<lparr>md_locks := md_locks db @ map key (sort (uniq [(cm_subject m, cm_predicate m), (s, p)]))\<rparr>"
  define dbb where "dbb = dba\<lparr>md_locks := md_locks dba @ [key (normalize_memory_text s, normalize_memory_text p)]\<rparr>"
  obtain ls where dbb: "dbb = db\<lparr>md_locks := ls\<rparr>" by (simp add: dbb_def dba_def)
  have ma: "load_memory_for_update mid owner kb dba = Some m" "load_memory_for_update mid owner kb dbb = Some m"
    and qb: "load_active_revision m owner kb dbb = Inr q"
    using m q by (simp_all add: dba_def dbb_def)
  have "\<exists>r. write_revision env m q (normalize_memory_text s) (normalize_memory_text p) (normalize_memory_text v) reason actor sens [] c owner kb dbb = Inr r"
    by (rule write_revision_succeeds [OF _ _ qb])
      (use flush wf_distinct [OF ids] mem clock q(2) c free in \<open>simp_all add: dbb flush_locks\<close>)
  then obtain m' db2 where w: "write_revision env m q (normalize_memory_text s) (normalize_memory_text p) (normalize_memory_text v)
      reason actor sens [] c owner kb dbb = Inr (m', db2)" by (metis surj_pair)
  have "revise_memory env mid owner kb s p v reason actor sens [] c dba = Inr (m', db2)"
    using assms(4) c ma qb w
    by (simp add: revise_memory_def tx_simps Let_def lock_memory_slot_def validate_evidence_scope_def)
      (simp add: dbb_def key_def)
  moreover obtain x db' where "audit env owner kb ''revise'' ''memory'' mid actor reason None db2 = Inr (x, db')"
    by (auto simp: audit_def new_id_def tbind_def tmodify_def)
  ultimately have "revise_command env mid owner kb s p v c sens actor reason db = Inr (m', db')"
    unfolding revise_command_def tbind_tget m option.case Let_def key_def [symmetric] tx_run_steps(2) dba_def [symmetric]
    by (simp only: tbind_Inr tx_Inr) blast
  then show ?thesis by blast
qed


text \<open>
  C35. A user's revision breaks the rule of one value per slot: revising a memory onto the subject and predicate of another
  active memory of its type succeeds, and leaves two active memories in one slot, because the revision does not
  look for a memory in the target slot. Needed are only what any revision needs (tables that meet the database
  constraints, a memory of the caller's scope, no secret, a confidence in range, a clock not behind the stored
  revisions) and that no active memory of the scope has the new fingerprint.
\<close>

theorem revision_shares_slot:
  assumes "memory_reachable env db" and "inj (me_uuid env)" and "db_flush db = Inr ((), db)"
    and "load_memory_for_update mid owner kb db = Some m"
    and "sens \<noteq> SSecret" and "case c of None \<Rightarrow> True | Some x \<Rightarrow> 0 \<le> x \<and> x \<le> 1"
    and "\<forall>r\<in>set (md_revisions db). mr_valid_from r \<le> t"
    and "find_active_memory owner kb (memory_fingerprint env (normalize_memory_text s) (normalize_memory_text p)
      (normalize_memory_text v)) db = None"
    and "other \<in> set (active_memories db)" and "cm_memory_id other \<noteq> mid"
    and "memory_slot other = (owner, kb, cm_memory_type m, normalize_memory_text s, normalize_memory_text p)"
  shows "\<exists>m' db'. revise_command (at_time env t u) mid owner kb s p v c sens actor reason db = Inr (m', db') \<and>
    m' \<in> set (active_memories db') \<and> cm_memory_id m' = mid \<and> cm_value m' = normalize_memory_text v \<and>
    other \<in> set (active_memories db') \<and> memory_slot m' = memory_slot other \<and> \<not> slots_exclusive db'"
proof -
  let ?env = "at_time env t u"
  note g = reachable_governed [OF assms(1,2)]
  obtain m' db' where run: "revise_command ?env mid owner kb s p v c sens actor reason db = Inr (m', db')"
    using revise_command_succeeds [of env db mid owner kb m sens c ?env s p v actor reason] assms(3-8) g
    by (auto simp: governed_def at_time_def memory_fingerprint_def)
  obtain ls db2 where r: "revise_memory ?env mid owner kb s p v reason actor sens [] c (db\<lparr>md_locks := ls\<rparr>) = Inr (m', db2)"
      and a: "audit ?env owner kb ''revise'' ''memory'' mid actor reason None db2 = Inr ((), db')"
    using run by (auto simp: revise_command_def tx_simps Let_def split: option.splits)
  have mem: "md_memories db' = md_memories db2" using a by (auto simp: audit_def new_id_def tx_simps)
  note m = load_memory_in [OF assms(4)]
  have rows: "md_memories db2 = update_where (\<lambda>x. cm_memory_id x = cm_memory_id m) (\<lambda>_. m') (md_memories db)"
      "memory_slot m' = memory_slot other" "cm_status m' = MActive" "cm_memory_id m' = mid"
    using revise_memory_rows [OF r] assms(4,11) by simp_all
  have v: "cm_value m' = normalize_memory_text v"
    using r by (auto simp: revise_memory_def write_revision_def tx_simps Let_def split: option.splits)
  have "set (md_memories db2) = insert m' (set (md_memories db) - {m})"
    using updated_memories [OF governedD(1) [OF g]] m rows(1) by blast
  then have act: "m' \<in> set (active_memories db')" "other \<in> set (active_memories db')" "m' \<noteq> other"
    using assms(9,10) m rows(3,4) by (auto simp: active_memories_def mem)
  then have "\<not> slots_exclusive db'" using rows(2) unfolding slots_exclusive_def by (auto simp: distinct_map inj_on_def)
  then show ?thesis using run act rows(2,4) v by blast
qed

definition sample_db4 :: memory_db where
  "sample_db4 = after_tx (reconcile_candidate sample_env 7 None ''preference'' ''User'' ''drinks'' ''coffee'' (9 / 10) SLow [] []
     False ''policy'' sample_db1)"

definition sample_db5 :: memory_db where
  "sample_db5 = after_tx (revise_command sample_env ''xxxxx'' 7 None ''user'' ''likes'' ''coffee'' None SLow ''u7'' ''edit'' sample_db4)"

lemma sample_runs4:
  "\<not> isl (reconcile_candidate sample_env 7 None ''preference'' ''User'' ''drinks'' ''coffee'' (9 / 10) SLow [] []
     False ''policy'' sample_db1)"
  "\<not> isl (revise_command sample_env ''xxxxx'' 7 None ''user'' ''likes'' ''coffee'' None SLow ''u7'' ''edit'' sample_db4)"
  by code_simp+

lemma sample_reachable4: "memory_reachable sample_env sample_db4"
proof -
  obtain x where "reconcile_candidate (at_time sample_env 10 10) 7 None ''preference'' ''User'' ''drinks'' ''coffee'' (9 / 10) SLow [] []
     False ''policy'' sample_db1 = Inr (x, sample_db4)"
    using after_tx_Inr [OF sample_runs4(1)] sample_env_now unfolding sample_db4_def [symmetric] by auto
  then show ?thesis by (rule Step [OF sample_reachable1 Reconciled])
qed

theorem revision_shares_slot_witness:
  "case revise_command sample_env ''xxxxx'' 7 None ''user'' ''likes'' ''coffee'' None SLow ''u7'' ''edit'' sample_db4 of
     Inl _ \<Rightarrow> False | Inr (m', db') \<Rightarrow> cm_value m' = ''coffee'' \<and> \<not> slots_exclusive db'"
proof -
  let ?m = "last (md_memories sample_db4)" and ?o = "hd (md_memories sample_db4)"
  have "db_flush sample_db4 = Inr ((), sample_db4)"
    by (rule flush_passes) code_simp
  moreover have "load_memory_for_update ''xxxxx'' 7 None sample_db4 = Some ?m" by code_simp
  moreover have "\<forall>r\<in>set (md_revisions sample_db4). mr_valid_from r \<le> 10" by code_simp
  moreover have "find_active_memory 7 None (memory_fingerprint sample_env (normalize_memory_text ''user'') (normalize_memory_text ''likes'')
      (normalize_memory_text ''coffee'')) sample_db4 = None" by code_simp
  moreover have "?o \<in> set (active_memories sample_db4)" "cm_memory_id ?o \<noteq> ''xxxxx''"
    "memory_slot ?o = (7, None, cm_memory_type ?m, normalize_memory_text ''user'', normalize_memory_text ''likes'')" by code_simp+
  moreover have "normalize_memory_text ''coffee'' = ''coffee''" by code_simp
  ultimately show ?thesis
    using revision_shares_slot [OF sample_reachable4 sample_inj, where mid = "''xxxxx''" and owner = 7 and kb = None and m = ?m and sens = SLow
        and c = None and t = 10 and u = 10 and s = "''user''" and p = "''likes''" and v = "''coffee''" and other = ?o
        and actor = "''u7''" and reason = "''edit''"]
    unfolding sample_env_now by auto
qed

end
