(* ===== verification/MemoryReplay.thy ===== *)
theory MemoryReplay
  imports MemoryProps
begin

text \<open>
  Replays of a reconciliation: stored evidence is found again by its identity, links to an open revision are
  not repeated, and so a promotion that is delivered twice reinforces nothing the second time.
\<close>

subsection \<open>Replays\<close>

text \<open>An input is settled when the row of its identity is stored under this id, with its scope and document.\<close>

definition settled :: "memory_env \<Rightarrow> int \<Rightarrow> string option \<Rightarrow> memory_db \<Rightarrow> evidence_input \<Rightarrow> string \<Rightarrow> bool" where
  "settled env owner kb db item i \<longleftrightarrow> (\<exists>e\<in>set (md_evidence db). ev_evidence_id e = i \<and> ev_owner_id e = owner \<and>
     ev_knowledge_base_id e = kb \<and> ev_identity_hash e = evidence_identity env owner kb (ei_source_type item)
       (ei_source_id item) (ei_source_version item) (ei_content_hash item) \<and>
     (ei_source_document_id item = None \<or> ev_source_document_id e = ei_source_document_id item))"

lemma settled_update:
  assumes "settled env owner kb db item i" and "ev_source_document_id x = None" and "x \<in> set (md_evidence db)"
    and "distinct (map ev_evidence_id (md_evidence db))"
    and "md_evidence db' = update_where (\<lambda>r. ev_evidence_id r = ev_evidence_id x)
       (\<lambda>r. r\<lparr>ev_source_document_id := Some d\<rparr>) (md_evidence db)"
  shows "settled env owner kb db' item i"
proof -
  obtain e where e: "e \<in> set (md_evidence db)" "ev_evidence_id e = i" "ev_owner_id e = owner"
     "ev_knowledge_base_id e = kb" "ev_identity_hash e = evidence_identity env owner kb (ei_source_type item)
       (ei_source_id item) (ei_source_version item) (ei_content_hash item)"
     "ei_source_document_id item = None \<or> ev_source_document_id e = ei_source_document_id item"
    using assms(1) by (auto simp: settled_def)
  have set': "set (md_evidence db') = insert (x\<lparr>ev_source_document_id := Some d\<rparr>) (set (md_evidence db) - {x})"
    unfolding assms(5) by (rule set_update_where_id [OF assms(4,3)])
  show ?thesis
  proof (cases "e = x")
    case True
    have "x\<lparr>ev_source_document_id := Some d\<rparr> \<in> set (md_evidence db')" by (simp add: set')
    then show ?thesis
      unfolding settled_def by (rule bexI [rotated]) (use e True assms(2) in auto)
  next
    case False
    then have "e \<in> set (md_evidence db')" using e(1) by (simp add: set')
    then show ?thesis unfolding settled_def by (rule bexI [rotated]) (use e in auto)
  qed
qed

lemma accept_settles:
  assumes "accept_evidence kb item x db = Inr (e, db')" and "x \<in> set (md_evidence db)" and "ev_owner_id x = owner"
    and "ev_identity_hash x = evidence_identity env owner kb (ei_source_type item)
       (ei_source_id item) (ei_source_version item) (ei_content_hash item)"
    and d: "distinct (map ev_evidence_id (md_evidence db))"
  shows "settled env owner kb db' item (ev_evidence_id e) \<and> (\<forall>it i. settled env owner kb db it i \<longrightarrow> settled env owner kb db' it i)"
proof -
  have kb: "ev_knowledge_base_id x = kb" using assms(1) by (auto simp: accept_evidence_def tx_simps split: if_splits)
  from assms(1) consider "e = x" "db' = db" "ei_source_document_id item = None \<or> ev_source_document_id x = ei_source_document_id item"
    | dd where "e = x\<lparr>ev_source_document_id := Some dd\<rparr>" "ei_source_document_id item = Some dd" "ev_source_document_id x = None"
        "db' = db\<lparr>md_evidence := update_where (\<lambda>r. ev_evidence_id r = ev_evidence_id x)
          (\<lambda>r. r\<lparr>ev_source_document_id := Some dd\<rparr>) (md_evidence db)\<rparr>"
    by (auto simp: accept_evidence_def tx_simps split: option.splits if_splits)
  then show ?thesis
  proof cases
    case 1
    then show ?thesis using assms(2-4) kb unfolding settled_def by blast
  next
    case (2 dd)
    have old: "settled env owner kb db' it i" if "settled env owner kb db it i" for it i
      by (rule settled_update [OF that 2(3) assms(2) d, of db' dd]) (simp add: 2(4))
    have "set (md_evidence db') = insert e (set (md_evidence db) - {x})"
      using set_update_where_id [OF d assms(2), of "\<lambda>r. r\<lparr>ev_source_document_id := Some dd\<rparr>"] by (simp add: 2(1,4))
    then have "settled env owner kb db' item (ev_evidence_id e)"
      unfolding settled_def by (intro bexI [of _ e]) (use assms(2-4) kb 2 in auto)
    then show ?thesis using old by blast
  qed
qed

lemma persist_one_settles:
  assumes "persist_one env owner kb item db = Inr (e, db')" and g: "governed env db"
  shows "settled env owner kb db' item (ev_evidence_id e) \<and> (\<forall>it i. settled env owner kb db it i \<longrightarrow> settled env owner kb db' it i)"
proof -
  let ?row = "evidence_row env (fresh_id env db) owner kb item"
  define es where "es = fst (insert_if_absent ev_identity_hash ?row (md_evidence db))"
  define db1 where "db1 = db\<lparr>md_evidence := es, md_ids := Suc (md_ids db)\<rparr>"
  have ord: "db\<lparr>md_ids := Suc (md_ids db), md_evidence := es\<rparr> = db1" by (simp add: db1_def)
  obtain x where x: "find (\<lambda>r. ev_identity_hash r = ev_identity_hash ?row \<and> ev_owner_id r = owner) (md_evidence db1) = Some x"
      and rest: "accept_evidence kb item x db1 = Inr (e, db')"
    using assms(1)
    by (auto simp: persist_one_def new_id_def Let_def tbind_def tmodify_def tget_def tfail_def es_def [symmetric] ord
        db1_def [symmetric] split: option.splits)
  have ids: "ids_wf env db" by (rule governedD(1) [OF g])
  have sub: "set (md_evidence db) \<subseteq> set es" and shape: "es = md_evidence db \<or> es = md_evidence db @ [?row]"
    by (auto simp: es_def insert_if_absent_def split: option.splits)
  have "fresh_id env db \<notin> ev_evidence_id ` set (md_evidence db)"
    using fresh_not_used [OF governedD(6) [OF g] ids] by (auto simp: row_ids_def)
  then have d: "distinct (map ev_evidence_id (md_evidence db1))"
    using wf_distinct(4) [OF ids] shape by (auto simp: db1_def evidence_row_def)
  have old: "settled env owner kb db1 it i" if "settled env owner kb db it i" for it i
    using that sub unfolding settled_def db1_def by auto
  note x_in = find_SomeD [OF x]
  show ?thesis
    using accept_settles [OF rest _ _ _ d, of owner env] x_in old by (auto simp: evidence_row_def)
qed

lemma persist_evidence_settles:
  "persist_evidence env owner kb items db = Inr (es, db') \<Longrightarrow> governed env db \<Longrightarrow>
   list_all2 (settled env owner kb db') items (map ev_evidence_id es) \<and>
   (\<forall>it i. settled env owner kb db it i \<longrightarrow> settled env owner kb db' it i)"
proof (induction items arbitrary: es db)
  case (Cons item items)
  then obtain e db1 fs where one: "persist_one env owner kb item db = Inr (e, db1)"
      and more: "persist_evidence env owner kb items db1 = Inr (fs, db')" and es: "es = e # fs"
    by (auto simp: tx_simps)
  have g1: "governed env db1" using persist_one_changes [OF one] governed_changes Cons.prems(2) by blast
  show ?case
    using persist_one_settles [OF one Cons.prems(2)] Cons.IH [OF more g1] es by auto
qed (simp add: tx_simps)

text \<open>Settled inputs are read again without a change.\<close>

lemma persist_one_again:
  assumes "settled env owner kb db item i" and "governed env db"
  shows "\<exists>e. persist_one env owner kb item db = Inr (e, db\<lparr>md_ids := Suc (md_ids db)\<rparr>) \<and> ev_evidence_id e = i"
proof -
  obtain e where e: "e \<in> set (md_evidence db)" "ev_evidence_id e = i" "ev_owner_id e = owner"
     "ev_knowledge_base_id e = kb" "ev_identity_hash e = evidence_identity env owner kb (ei_source_type item)
       (ei_source_id item) (ei_source_version item) (ei_content_hash item)"
     "ei_source_document_id item = None \<or> ev_source_document_id e = ei_source_document_id item"
    using assms(1) by (auto simp: settled_def)
  let ?row = "evidence_row env (fresh_id env db) owner kb item"
  have h: "ev_identity_hash ?row = ev_identity_hash e" by (simp add: evidence_row_def e(5))
  have uniq: "x = e" if "x \<in> set (md_evidence db)" "ev_identity_hash x = ev_identity_hash e" for x
  proof -
    have "distinct (map ev_identity_hash (md_evidence db))" using governedD(1) [OF assms(2)] by (simp add: ids_wf_def)
    then show ?thesis using distinct_key_unique that e(1) by metis
  qed
  have f1: "find (\<lambda>r. ev_identity_hash r = ev_identity_hash e) (md_evidence db) = Some e"
    using e(1) uniq by (intro find_unique) auto
  have f2: "find (\<lambda>r. ev_identity_hash r = ev_identity_hash e \<and> ev_owner_id r = owner) (md_evidence db) = Some e"
    using e(1,3) uniq by (intro find_unique) auto
  have same: "db\<lparr>md_ids := Suc (md_ids db), md_evidence := md_evidence db\<rparr> = db\<lparr>md_ids := Suc (md_ids db)\<rparr>" by simp
  have "accept_evidence kb item e s = Inr (e, s)" for s
    using e(4,6) by (auto simp: accept_evidence_def treturn_def split: option.split)
  then have "persist_one env owner kb item db = Inr (e, db\<lparr>md_ids := Suc (md_ids db)\<rparr>)"
    by (simp add: persist_one_def new_id_def tbind_def tmodify_def tget_def Let_def insert_if_absent_def h f1 f2)
  then show ?thesis using e(2) by blast
qed


lemma governed_ids: "governed env db \<Longrightarrow> md_ids db \<le> n \<Longrightarrow> governed env (db\<lparr>md_ids := n\<rparr>)"
proof -
  assume *: "governed env db" "md_ids db \<le> n"
  have "memory_change env 0 None db (db\<lparr>md_locks := md_locks db, md_ids := n\<rparr>)" by (rule Bookkeeping [OF *(2)])
  then show ?thesis using governed_changes [OF changes1 *(1)] by simp
qed

lemma persist_evidence_again:
  "list_all2 (settled env owner kb db) items ids \<Longrightarrow> governed env db \<Longrightarrow>
   \<exists>es n. persist_evidence env owner kb items db = Inr (es, db\<lparr>md_ids := n\<rparr>) \<and> map ev_evidence_id es = ids \<and> md_ids db \<le> n"
proof (induction items arbitrary: ids db)
  case Nil
  then show ?case by (intro exI [of _ "[]"] exI [of _ "md_ids db"]) (simp add: treturn_def)
next
  case (Cons item items)
  then obtain i js where ids: "ids = i # js" "settled env owner kb db item i" "list_all2 (settled env owner kb db) items js"
    by (auto simp: list_all2_Cons1)
  let ?db1 = "db\<lparr>md_ids := Suc (md_ids db)\<rparr>"
  obtain e where e: "persist_one env owner kb item db = Inr (e, ?db1)" "ev_evidence_id e = i"
    using persist_one_again [OF ids(2) Cons.prems(2)] by blast
  have "settled env owner kb ?db1 = settled env owner kb db" by (simp add: fun_eq_iff settled_def)
  then have "list_all2 (settled env owner kb ?db1) items js" using ids(3) by simp
  moreover have "governed env ?db1" by (rule governed_ids [OF Cons.prems(2)]) simp
  ultimately obtain es n where "persist_evidence env owner kb items ?db1 = Inr (es, ?db1\<lparr>md_ids := n\<rparr>)"
      "map ev_evidence_id es = js" "md_ids ?db1 \<le> n"
    using Cons.IH by blast
  then show ?case using e ids(1)
    by (intro exI [of _ "e # es"] exI [of _ n]) (simp add: tbind_def treturn_def)
qed

lemma settled_scope: "settled env owner kb db item i \<Longrightarrow> evidence_in owner kb db i"
  by (auto simp: settled_def evidence_in_def)

lemma settled_all_scope: "list_all2 (settled env owner kb db) items ids \<Longrightarrow> i \<in> set ids \<Longrightarrow> evidence_in owner kb db i"
  by (induction rule: list_all2_induct) (auto dest: settled_scope)

lemma validate_ok:
  assumes "\<forall>i\<in>set ids. evidence_in owner kb db i"
  shows "validate_evidence_scope ids owner kb db = Inr (uniq ids)"
proof -
  have "ev_evidence_id ` {e \<in> set (md_evidence db). ev_evidence_id e \<in> set ids \<and> ev_owner_id e = owner \<and>
      ev_knowledge_base_id e = kb} = set ids" (is "?f ` ?S = _")
  proof (intro equalityI subsetI)
    fix i assume i: "i \<in> set ids"
    then obtain e where "e \<in> set (md_evidence db)" "ev_evidence_id e = i" "ev_owner_id e = owner" "ev_knowledge_base_id e = kb"
      using assms by (auto simp: evidence_in_def)
    then show "i \<in> ?f ` ?S" using i by (intro image_eqI [of _ _ e]) simp_all
  qed auto
  then show ?thesis by (simp add: validate_evidence_scope_def Let_def)
qed

lemma associate_keeps:
  "associate key ids rows = (rows', n) \<Longrightarrow> set rows \<subseteq> set rows'"
  by (drule associate_rows) auto

lemma associate_all: "associate key ids rows = (rows', n) \<Longrightarrow> \<forall>i\<in>set ids. (key, i) \<in> set rows'"
proof (induction key ids rows arbitrary: rows' n rule: associate.induct)
  case (2 key i ids rows)
  show ?case
  proof (cases "(key, i) \<in> set rows")
    case True
    then have a: "associate key ids rows = (rows', n)" using 2(3) by simp
    have "(key, i) \<in> set rows'" using associate_keeps [OF a] True by blast
    then show ?thesis using 2(1) [OF True a] by simp
  next
    case False
    obtain a m where am: "associate key ids (rows @ [(key, i)]) = (a, m)" by fastforce
    then have "a = rows'" using 2(3) False by simp
    moreover have "(key, i) \<in> set a" using associate_keeps [OF am] by auto
    ultimately show ?thesis using 2(2) [OF False am] by simp
  qed
qed simp

lemma associate_known: "\<forall>i\<in>set ids. (key, i) \<in> set rows \<Longrightarrow> associate key ids rows = (rows, 0)"
  by (induction ids) auto

lemma attach_all:
  assumes "attach_revision_evidence rid ids owner kb db = Inr (n, db')"
  shows "\<forall>i\<in>set ids. (rid, i) \<in> set (md_revision_evidence db')"
proof -
  obtain scoped where s: "validate_evidence_scope ids owner kb db = Inr scoped"
      and a: "(case associate rid scoped (md_revision_evidence db) of (rows, n) \<Rightarrow> Inr (n, db\<lparr>md_revision_evidence := rows\<rparr>)) =
        (Inr (n, db') :: (nat \<times> memory_db) result)"
    using assms by (auto simp: attach_revision_evidence_def split: option.splits)
  then show ?thesis
    using validate_scope [OF s] associate_all [of rid scoped "md_revision_evidence db"]
    by (cases "associate rid scoped (md_revision_evidence db)") auto
qed

lemma attach_known:
  assumes "r \<in> set (md_revisions db)" "mr_revision_id r = rid" "mr_owner_id r = owner" "mr_knowledge_base_id r = kb"
    and "\<forall>i\<in>set ids. evidence_in owner kb db i" and "\<forall>i\<in>set ids. (rid, i) \<in> set (md_revision_evidence db)"
  shows "attach_revision_evidence rid ids owner kb db = Inr (0, db)"
proof -
  obtain x where "find (\<lambda>r. mr_revision_id r = rid \<and> mr_owner_id r = owner \<and> mr_knowledge_base_id r = kb) (md_revisions db) = Some x"
    using assms(1-4) by (cases "find (\<lambda>r. mr_revision_id r = rid \<and> mr_owner_id r = owner \<and> mr_knowledge_base_id r = kb)
      (md_revisions db)") (auto simp: find_None_iff)
  then show ?thesis
    using validate_ok [OF assms(5)] associate_known [of "uniq ids" rid "md_revision_evidence db"] assms(6)
    by (simp add: attach_revision_evidence_def)
qed

text \<open>What a promotion leaves behind: an active memory with the fingerprint, whose open revision has the evidence.\<close>

definition supported :: "int \<Rightarrow> string option \<Rightarrow> string \<Rightarrow> string list \<Rightarrow> memory_db \<Rightarrow> bool" where
  "supported owner kb fp ids db \<longleftrightarrow> (\<exists>m\<in>set (md_memories db). cm_owner_id m = owner \<and> cm_knowledge_base_id m = kb \<and>
     cm_fingerprint m = fp \<and> cm_status m = MActive \<and> (\<forall>i\<in>set ids. (cm_active_revision_id m, i) \<in> set (md_revision_evidence db)))"

lemma reinforce_supports:
  assumes "reinforce m r ids c sens owner kb db = Inr ((m', n), db')" and "m \<in> set (md_memories db)"
    and "cm_owner_id m = owner" "cm_knowledge_base_id m = kb" "cm_fingerprint m = fp" "cm_status m = MActive"
    and "mr_revision_id r = cm_active_revision_id m"
  shows "supported owner kb fp ids db' \<and> md_evidence db' = md_evidence db"
  using assms(1)
proof (cases rule: reinforce_cases)
  case (1 dba)
  have "md_memories dba = md_memories db" "md_evidence dba = md_evidence db"
    by (rule attach_revision_rows [OF 1(1)]; simp)+
  then show ?thesis using attach_all [OF 1(1)] assms(2-7) 1(4) unfolding supported_def by auto
next
  case (2 dba s)
  have eq: "md_memories dba = md_memories db" "md_evidence dba = md_evidence db"
    by (rule attach_revision_rows [OF 2(1)]; simp)+
  have "m' \<in> set (md_memories db')"
    using in_update_where [OF assms(2), of "\<lambda>x. cm_memory_id x = cm_memory_id m" "\<lambda>_. m'"] by (simp add: 2(5) eq)
  moreover have "md_revision_evidence db' = md_revision_evidence dba" "md_evidence db' = md_evidence dba" by (simp_all add: 2(5))
  ultimately show ?thesis
    using attach_all [OF 2(1)] assms(3-7) eq(2) unfolding supported_def by (auto simp: 2(4) intro!: bexI [of _ m'])
qed

lemma create_supports:
  assumes "create_memory env owner kb ty s p v fp c sens reason actor ids db = Inr (m, db')"
  shows "supported owner kb fp ids db' \<and> md_evidence db' = md_evidence db"
proof -
  obtain n dbr where att: "attach_revision_evidence (cm_active_revision_id m) ids owner kb dbr = Inr (n, db')"
      and m: "m \<in> set (md_memories dbr)" "cm_owner_id m = owner" "cm_knowledge_base_id m = kb" "cm_fingerprint m = fp"
        "cm_status m = MActive" and ev: "md_evidence dbr = md_evidence db"
    using assms by (fastforce simp: create_memory_def tx_simps new_id_def Let_def)
  have "md_memories db' = md_memories dbr" "md_evidence db' = md_evidence dbr"
    by (rule attach_revision_rows [OF att]; simp)+
  then show ?thesis using m ev attach_all [OF att] unfolding supported_def by auto
qed

lemma write_revision_supports:
  assumes "write_revision env m q ns np nv reason actor sens ids c owner kb db = Inr (m', db')"
    and "m \<in> set (md_memories db)" and "cm_owner_id m = owner" and "cm_knowledge_base_id m = kb"
  shows "supported owner kb (memory_fingerprint env ns np nv) ids db' \<and> md_evidence db' = md_evidence db"
proof -
  obtain n dba dbr where att: "attach_revision_evidence (fresh_id env db) ids owner kb dbr = Inr (n, dba)"
      and mem: "md_memories dbr = md_memories db" and ev: "md_evidence dbr = md_evidence db"
      and db': "db' = dba\<lparr>md_memories := update_where (\<lambda>x. cm_memory_id x = cm_memory_id m) (\<lambda>_. m') (md_memories dba)\<rparr>"
      and m': "cm_owner_id m' = cm_owner_id m" "cm_knowledge_base_id m' = cm_knowledge_base_id m"
        "cm_fingerprint m' = memory_fingerprint env ns np nv" "cm_status m' = MActive" "cm_active_revision_id m' = fresh_id env db"
    using assms(1) unfolding write_revision_def set_memory_def
    by (fastforce simp: tx_simps Let_def new_id_def)
  have eq: "md_memories dba = md_memories dbr" "md_evidence dba = md_evidence dbr"
    by (rule attach_revision_rows [OF att]; simp)+
  have "m' \<in> set (md_memories db')"
    using in_update_where [OF assms(2), of "\<lambda>x. cm_memory_id x = cm_memory_id m" "\<lambda>_. m'"] by (simp add: db' eq mem)
  moreover have "md_revision_evidence db' = md_revision_evidence dba" by (simp add: db')
  ultimately show ?thesis
    using attach_all [OF att] m' assms(3,4) eq ev unfolding supported_def by (auto simp: db' intro!: bexI [of _ m'])
qed

lemma revise_supports:
  assumes "revise_memory env mid owner kb s p v reason actor sens ids c db = Inr (m', db')"
  shows "supported owner kb (memory_fingerprint env (normalize_memory_text s) (normalize_memory_text p) (normalize_memory_text v)) ids db'
    \<and> md_evidence db' = md_evidence db"
proof -
  obtain m where m: "load_memory_for_update mid owner kb db = Some m"
    using assms(1) by (auto simp: revise_memory_def tx_simps Let_def split: option.splits)
  define ls where "ls = md_locks db @ [memory_slot_lock_key env owner kb (cm_memory_type m)
      (normalize_memory_text s) (normalize_memory_text p)]"
  define db1 where "db1 = db\<lparr>md_locks := ls\<rparr>"
  have m1: "load_memory_for_update mid owner kb db1 = Some m" using m by (simp add: db1_def)
  obtain old scoped where w: "write_revision env m old (normalize_memory_text s) (normalize_memory_text p)
      (normalize_memory_text v) reason actor sens scoped c owner kb db1 = Inr (m', db')"
      and v: "validate_evidence_scope ids owner kb db1 = Inr scoped"
    using assms(1) m m1 unfolding revise_memory_def Let_def
    by (auto simp: tx_simps lock_memory_slot_def ls_def [symmetric] db1_def [symmetric] simp del: locks_irrelevant)
  have "set scoped = set ids" using validate_scope [OF v] by simp
  then show ?thesis
    using write_revision_supports [OF w] load_memory_in [OF m] by (simp add: db1_def supported_def)
qed

lemma settle_supports:
  assumes "settle_candidate env owner kb ty ns np nv fp c sens prov ex actor Promote cmp crev conf confrev ids db = Inr (res, db')"
    and "cmp = find_active_memory owner kb fp db" and "active_revision_of cmp owner kb db = Inr crev"
    and n: "normalize_memory_text ns = ns" "normalize_memory_text np = np" "normalize_memory_text nv = nv"
    and fp: "fp = memory_fingerprint env ns np nv"
    and "\<And>i. candidate_fields_ok env (candidate_row env i owner kb ty ns np nv fp c sens prov Promote conf confrev)"
  shows "supported owner kb fp ids db' \<and> md_evidence db' = md_evidence db"
proof (cases cmp)
  case (Some m)
  then obtain r where cr: "crev = Some r" "load_active_revision m owner kb db = Inr r"
    using active_revision_of_in [OF assms(3)] by auto
  obtain m' k where r: "reinforce m r ids c sens owner kb db = Inr ((m', k), db')"
    using assms(1) Some cr(1) by (auto simp: settle_candidate_def tx_simps split: option.splits)
  show ?thesis
    using reinforce_supports [OF r] find_active_in [of owner kb fp db m] load_active_in [OF cr(2)] Some assms(2) by simp
next
  case None
  let ?row = "\<lambda>cid. candidate_row env cid owner kb ty ns np nv fp c sens prov Promote conf confrev"
  obtain cand db1 m where st: "store_candidate env owner kb ?row ids db = Inr (cand, db1)"
      and rest: "(case conf of
               Some c' \<Rightarrow> revise_memory env (cm_memory_id c') owner kb ns np nv ''explicit_request_replacement'' actor
                 sens ids (Some c)
             | None \<Rightarrow> create_memory env owner kb ty ns np nv fp c sens
                 (if ex then ''explicit_request'' else ''automatic_promotion'') actor ids) db1 = Inr (m, db')"
    using assms(1) None unfolding settle_candidate_def
    by (auto simp: tx_simps split: if_splits)
  have "md_evidence db1 = md_evidence db"
    using store_candidate_changes [OF st] assms(8) by (simp add: candidate_row_def)
  moreover have "supported owner kb fp ids db' \<and> md_evidence db' = md_evidence db1"
  proof (cases conf)
    case None
    then show ?thesis using rest create_supports by auto
  next
    case (Some q)
    then show ?thesis using rest revise_supports [of env "cm_memory_id q" owner kb ns np nv] n fp by auto
  qed
  ultimately show ?thesis by simp
qed

lemma list_all2_settled_evidence:
  "md_evidence db' = md_evidence db \<Longrightarrow> list_all2 (settled env owner kb db) items ids \<Longrightarrow> list_all2 (settled env owner kb db') items ids"
  by (erule list_all2_mono) (auto simp: settled_def)

lemma settled_time [simp]: "settled (at_time env t u) = settled env"
  by (simp add: fun_eq_iff settled_def evidence_identity_def canonical_identity_def at_time_def)

lemma fingerprint_time [simp]: "memory_fingerprint (at_time env t u) = memory_fingerprint env"
  by (simp add: fun_eq_iff memory_fingerprint_def at_time_def)

lemma load_active_wf:
  assumes "governed env db" and "m \<in> set (md_memories db)" and "cm_owner_id m = owner" and "cm_knowledge_base_id m = kb"
  shows "\<exists>r. load_active_revision m owner kb db = Inr r"
proof -
  note g = governedD [OF assms(1)]
  obtain q where q: "q \<in> set (md_revisions db)" "current_revision m q" using g(2) assms(2) by (auto simp: memories_wf_def)
  have "find (\<lambda>r. mr_revision_id r = cm_active_revision_id m \<and> mr_memory_id r = cm_memory_id m \<and>
        mr_owner_id r = owner \<and> mr_knowledge_base_id r = kb \<and> mr_valid_to r = None) (md_revisions db) = Some q"
    using wf_distinct(2) [OF g(1)] q assms(3,4)
    by (intro find_unique) (auto simp: current_revision_def revision_of_def dest: distinct_key_unique)
  then show ?thesis by (simp add: load_active_revision_def)
qed

lemma find_active_found:
  assumes "governed env db" and "m \<in> set (md_memories db)" and "cm_owner_id m = owner" and "cm_knowledge_base_id m = kb"
    and "cm_fingerprint m = fp" and "cm_status m = MActive"
  shows "find_active_memory owner kb fp db = Some m"
proof -
  have "distinct (map active_identity (active_memories db))" using governedD(2) [OF assms(1)] by (simp add: memories_wf_def)
  then have only: "x = m" if "x \<in> set (md_memories db)" "cm_status x = MActive" "active_identity x = active_identity m" for x
    using distinct_key_unique [of active_identity "active_memories db" x m] that assms(2,6) by (simp add: active_memories_def)
  show ?thesis
    unfolding find_active_memory_def
  proof (rule find_unique [OF assms(2)])
    show "cm_owner_id m = owner \<and> cm_knowledge_base_id m = kb \<and> cm_fingerprint m = fp \<and> cm_status m = MActive"
      using assms(3-6) by simp
  next
    fix y assume "y \<in> set (md_memories db)"
      "cm_owner_id y = owner \<and> cm_knowledge_base_id y = kb \<and> cm_fingerprint y = fp \<and> cm_status y = MActive"
    then show "y = m" using only [of y] assms(3-5) by (simp add: active_identity_def)
  qed
qed

text \<open>Reconciling a fact that an active memory supports with all the evidence given.\<close>

lemma reconcile_supported:
  assumes g: "governed env db"
    and sup: "supported owner kb (memory_fingerprint env (normalize_memory_text s) (normalize_memory_text p)
      (normalize_memory_text v)) ids db"
    and settled: "list_all2 (settled env owner kb db) ev ids"
    and cls: "classify_candidate sens c ex False = Inr Promote" and unit: "unit_interval c" and ty: "ty \<in> set MEMORY_TYPES"
  shows "\<exists>m db2. reconcile_candidate env owner kb ty s p v c sens ev prov ex actor db =
      Inr (\<lparr>rr_decision = Promote, rr_candidate = None, rr_memory = Some m, rr_reinforced = False\<rparr>, db2) \<and>
      m \<in> set (md_memories db) \<and> (\<exists>ls n. db2 = db\<lparr>md_locks := ls, md_ids := n\<rparr>)"
proof -
  let ?ns = "normalize_memory_text s" and ?np = "normalize_memory_text p" and ?nv = "normalize_memory_text v"
  let ?fp = "memory_fingerprint env ?ns ?np ?nv"
  obtain m where m: "m \<in> set (md_memories db)" "cm_owner_id m = owner" "cm_knowledge_base_id m = kb" "cm_fingerprint m = ?fp"
      "cm_status m = MActive" "\<forall>i\<in>set ids. (cm_active_revision_id m, i) \<in> set (md_revision_evidence db)"
    using sup by (auto simp: supported_def)
  have found: "find_active_memory owner kb ?fp db = Some m" by (rule find_active_found [OF g m(1-5)])
  obtain r where r: "load_active_revision m owner kb db = Inr r" using load_active_wf [OF g m(1-3)] by blast
  let ?dl = "db\<lparr>md_locks := md_locks db @ [memory_slot_lock_key env owner kb ty ?ns ?np]\<rparr>"
  have gl: "governed env ?dl" by (rule governed_changes [OF lock_changes g])
  have "list_all2 (settled env owner kb ?dl) ev ids"
    by (rule list_all2_settled_evidence [OF _ settled]) simp
  then obtain es n where again: "persist_evidence env owner kb ev ?dl = Inr (es, ?dl\<lparr>md_ids := n\<rparr>)" "map ev_evidence_id es = ids"
    using persist_evidence_again [OF _ gl] by blast
  have att: "attach_revision_evidence (mr_revision_id r) ids owner kb (?dl\<lparr>md_ids := n\<rparr>) = Inr (0, ?dl\<lparr>md_ids := n\<rparr>)"
    using load_active_in [OF r] m(6) settled_all_scope [OF settled]
    by (intro attach_known [of r]) (auto simp: evidence_in_def)
  have "reconcile_candidate env owner kb ty s p v c sens ev prov ex actor db =
      Inr (\<lparr>rr_decision = Promote, rr_candidate = None, rr_memory = Some m, rr_reinforced = False\<rparr>, ?dl\<lparr>md_ids := n\<rparr>)"
    using cls unit ty found r again att
    by (simp add: reconcile_candidate_def settle_candidate_def reinforce_def tbind_def tlift_def tguard_def tget_def treturn_def
        lock_memory_slot_def tmodify_def Let_def active_revision_of_def unit_interval_def)
  then show ?thesis using m(1) by (intro exI [of _ m] exI [of _ "?dl\<lparr>md_ids := n\<rparr>"]) auto
qed

text \<open>
  C6. Delivery at least once is harmless: when a promotion is delivered again with the same evidence, at any later
  time, the second reconciliation answers promote without reinforcing, and changes no memory, revision, candidate,
  evidence or link; in particular the confidence does not rise by replaying one source.
\<close>

theorem replayed_promotion_changes_nothing:
  assumes "memory_reachable env db" and "inj (me_uuid env)"
    and first: "reconcile_candidate (at_time env t u) owner kb ty s p v c sens ev prov ex actor db = Inr (res, db1)"
    and "rr_decision res = Promote"
  shows "\<exists>m db2. reconcile_candidate (at_time env t' u') owner kb ty s p v c sens ev prov ex actor db1 =
      Inr (\<lparr>rr_decision = Promote, rr_candidate = None, rr_memory = Some m, rr_reinforced = False\<rparr>, db2) \<and>
      m \<in> set (md_memories db1) \<and> (\<exists>ls n. db2 = db1\<lparr>md_locks := ls, md_ids := n\<rparr>)"
proof -
  let ?e1 = "at_time env t u" and ?e2 = "at_time env t' u'"
  let ?ns = "normalize_memory_text s" and ?np = "normalize_memory_text p" and ?nv = "normalize_memory_text v"
  let ?fp = "memory_fingerprint env ?ns ?np ?nv"
  have g: "governed ?e1 db" using reachable_governed [OF assms(1,2)] by simp
  have g1: "governed env db1" using reachable_governed [OF Step [OF assms(1) Reconciled [OF first]] assms(2)] .
  have public: "sens \<noteq> SSecret"
    using first assms(4) by (auto simp: reconcile_candidate_def tx_simps classify_candidate_def)
  let ?dbl = "db\<lparr>md_locks := md_locks db @ [memory_slot_lock_key ?e1 owner kb ty ?ns ?np]\<rparr>"
  let ?conf = "slot_conflict owner kb ty ?ns ?np ?fp db"
  obtain crev confrev dec stored db2 where ty: "ty \<in> set MEMORY_TYPES"
      and dec: "classify_candidate sens c ex (?conf \<noteq> None) = Inr dec"
      and ev: "persist_evidence ?e1 owner kb ev ?dbl = Inr (stored, db2)"
      and st: "settle_candidate ?e1 owner kb ty ?ns ?np ?nv ?fp c sens prov ex actor dec (find_active_memory owner kb ?fp db)
        crev ?conf confrev (map ev_evidence_id stored) db2 = Inr (res, db1)"
      and cr: "active_revision_of (find_active_memory owner kb ?fp db) owner kb db = Inr crev"
    by (rule reconcile_decompose [OF first public, unfolded fingerprint_time])
  let ?ids = "map ev_evidence_id stored"
  have dP: "dec = Promote"
    using st assms(4) by (auto simp: settle_candidate_def tx_simps split: option.splits if_splits)
  have unit: "unit_interval c" using classify_cases [OF dec] public by simp
  have e2: "evidence_step ?dbl db2" using persist_evidence_changes [OF ev] by simp
  have same: "find_active_memory owner kb ?fp db2 = find_active_memory owner kb ?fp db"
      "active_revision_of x owner kb db2 = active_revision_of x owner kb db" for x
    using e2 by (simp_all add: evidence_step_def find_active_memory_def active_revision_of_def load_active_revision_def
        split: option.split)
  have row: "candidate_fields_ok ?e1 (candidate_row ?e1 i owner kb ty ?ns ?np ?nv ?fp c sens prov Promote ?conf confrev)" for i
    using public unit ty normalize_content [of env s p v]
    by (simp add: candidate_row_def candidate_fields_ok_def)
  have cr2: "active_revision_of (find_active_memory owner kb ?fp db) owner kb db2 = Inr crev" using cr same(2) by metis
  have "supported owner kb ?fp ?ids db1 \<and> md_evidence db1 = md_evidence db2"
    by (rule settle_supports [OF st [unfolded dP] same(1) [symmetric] cr2 _ _ _ _ row]) simp_all
  then have sup: "supported owner kb ?fp ?ids db1" "md_evidence db1 = md_evidence db2" by simp_all
  have gl: "governed ?e1 ?dbl" by (rule governed_changes [OF lock_changes g])
  have "list_all2 (settled env owner kb db2) ev ?ids" using persist_evidence_settles [OF ev gl] by simp
  then have settled1: "list_all2 (settled env owner kb db1) ev ?ids" by (rule list_all2_settled_evidence [OF sup(2)])
  moreover have "classify_candidate sens c ex False = Inr Promote"
    using dec dP by (auto simp: classify_candidate_def split: if_splits)
  moreover have "governed ?e2 db1" using g1 by simp
  ultimately show ?thesis
    using reconcile_supported [of ?e2 db1 owner kb s p v ?ids ev sens c ex ty prov actor] sup(1) unit ty by simp
qed

theorem replayed_promotion_changes_nothing_witness:
  "\<exists>m db2. reconcile_candidate (at_time sample_env 20 20) 7 None ''preference'' ''User'' ''likes'' '' Tea '' (9 / 10) SLow
      [sample_evidence] [] False ''policy'' sample_db1 =
      Inr (\<lparr>rr_decision = Promote, rr_candidate = None, rr_memory = Some m, rr_reinforced = False\<rparr>, db2) \<and>
      m \<in> set (md_memories sample_db1) \<and> (\<exists>ls n. db2 = sample_db1\<lparr>md_locks := ls, md_ids := n\<rparr>)"
proof -
  let ?res = "fst (projr (remember '' Tea '' empty_db))"
  have "remember '' Tea '' empty_db = Inr (?res, sample_db1)"
    using sample_runs(1) by (auto simp: sample_db1_def after_tx_def isl_def split: sum.splits)
  then have first: "reconcile_candidate (at_time sample_env 10 10) 7 None ''preference'' ''User'' ''likes'' '' Tea '' (9 / 10) SLow
      [sample_evidence] [] False ''policy'' empty_db = Inr (?res, sample_db1)"
    by (simp add: remember_def sample_env_now)
  have "rr_decision ?res = Promote" by code_simp
  then show ?thesis by (rule replayed_promotion_changes_nothing [OF Start sample_inj first])
qed

end
