(* ===== verification/Folders.thy ===== *)
theory Folders
  imports Tables
begin

text \<open>
  Document folders: \<open>crud/document_folder.py\<close>, the handlers of \<open>domains/documents/folders.py\<close>, and
  the knowledge base rows they hang from (\<open>crud/knowledge_base.py\<close>).

  A handler runs in one transaction and rolls it back when it raises, so it is a \<open>tx\<close>; the values
  the database and \<open>uuid4\<close> choose (identity columns, identifiers) are arguments. A recursive common
  table expression is \<open>recursive_query\<close>: the rows of the working table are emitted and replaced by the
  rows the recursive term makes of them, until there are none. It may run forever, so its result is
  an option, \<open>None\<close> meaning that the query does not return.
\<close>

subsection \<open>Rows\<close>

record folder =
  fo_pk :: int
  fo_id :: string
  fo_user_id :: int
  fo_knowledge_base_id :: string
  fo_knowledge_base_pk :: int
  fo_parent_pk :: int
  fo_name :: string
  fo_normalized_name :: string
  fo_is_root :: bool

record knowledge_base =
  kn_pk :: int
  kn_id :: string
  kn_user_id :: int
  kn_name :: string
  kn_description :: "string option"
  kn_is_default :: bool

text \<open>The columns of a document row that place it.\<close>

record placed_document =
  pd_id :: string
  pd_user_id :: int
  pd_knowledge_base_pk :: int
  pd_folder_pk :: int

record folder_db =
  fd_folders :: "folder list"
  fd_documents :: "placed_document list"
  fd_knowledge_bases :: "knowledge_base list"

datatype folder_item =
  FolderItem (fi_id: string) (fi_parent_id: string) (fi_name: string) (fi_is_root: bool)
    (fi_children: "folder_item list")

text \<open>The unique constraints of \<open>document_folders\<close>, checked when a statement is flushed.\<close>

definition folder_constraints :: "folder list \<Rightarrow> bool" where
  "folder_constraints rows \<longleftrightarrow>
     distinct (map fo_pk rows) \<and> distinct (map fo_id rows) \<and>
     distinct (map (\<lambda>f. (fo_knowledge_base_pk f, fo_parent_pk f, fo_normalized_name f)) rows) \<and>
     distinct (map fo_knowledge_base_pk (filter fo_is_root rows))"

definition folder_flush :: "(folder_db, unit) tx" where
  "folder_flush db =
     (if folder_constraints (fd_folders db) then Inr ((), db)
      else Inl (IntegrityError ''document_folders''))"

definition flush_or_duplicate :: "(folder_db, unit) tx" where
  "flush_or_duplicate db =
     (case folder_flush db of
        Inl e \<Rightarrow> Inl (BusinessException ''folder name already exists'' 4026 409)
      | Inr r \<Rightarrow> Inr r)"

subsection \<open>Lookups\<close>

definition get_folder_by_id :: "string \<Rightarrow> int \<Rightarrow> folder_db \<Rightarrow> folder option" where
  "get_folder_by_id folder_id user_id db =
     find (\<lambda>f. fo_id f = folder_id \<and> fo_user_id f = user_id) (fd_folders db)"

definition get_folder_by_pk :: "int \<Rightarrow> int \<Rightarrow> folder_db \<Rightarrow> folder option" where
  "get_folder_by_pk folder_pk user_id db =
     find (\<lambda>f. fo_pk f = folder_pk \<and> fo_user_id f = user_id) (fd_folders db)"

definition root_of :: "int \<Rightarrow> folder_db \<Rightarrow> folder option" where
  "root_of kb_pk db = find (\<lambda>f. fo_knowledge_base_pk f = kb_pk \<and> fo_is_root f) (fd_folders db)"

definition get_root_folder :: "int \<Rightarrow> int \<Rightarrow> folder_db \<Rightarrow> folder result" where
  "get_root_folder kb_pk user_id db =
     (case find (\<lambda>f. fo_knowledge_base_pk f = kb_pk \<and> fo_user_id f = user_id \<and> fo_is_root f) (fd_folders db) of
        None \<Rightarrow> Inl (BusinessException ''knowledge base root folder integrity error'' 5004 409)
      | Some r \<Rightarrow> Inr r)"

definition get_knowledge_base_by_id :: "string \<Rightarrow> folder_db \<Rightarrow> knowledge_base option" where
  "get_knowledge_base_by_id kb_id db = find (\<lambda>k. kn_id k = kb_id) (fd_knowledge_bases db)"

text \<open>The filters on the owner and the knowledge base are added only for truthy arguments.\<close>

definition get_document_by_id :: "string \<Rightarrow> int option \<Rightarrow> int option \<Rightarrow> folder_db \<Rightarrow> placed_document option" where
  "get_document_by_id document_id user_id kb_pk db =
     find (\<lambda>d. pd_id d = document_id \<and>
         (case user_id of None \<Rightarrow> True | Some u \<Rightarrow> u = 0 \<or> pd_user_id d = u) \<and>
         (case kb_pk of None \<Rightarrow> True | Some k \<Rightarrow> k = 0 \<or> pd_knowledge_base_pk d = k)) (fd_documents db)"

definition owned_knowledge_base :: "string \<Rightarrow> int \<Rightarrow> folder_db \<Rightarrow> knowledge_base result" where
  "owned_knowledge_base kb_id user_id db =
     (case get_knowledge_base_by_id kb_id db of
        None \<Rightarrow> Inl (BusinessException ''knowledge base not found'' 4042 404)
      | Some k \<Rightarrow>
          if kn_user_id k \<noteq> user_id
          then Inl (BusinessException ''knowledge base does not belong to current user'' 4007 403)
          else Inr k)"

definition folder_has_contents :: "int \<Rightarrow> folder_db \<Rightarrow> bool" where
  "folder_has_contents folder_pk db \<longleftrightarrow>
     list_ex (\<lambda>d. pd_folder_pk d = folder_pk) (fd_documents db) \<or>
     list_ex (\<lambda>f. fo_parent_pk f = folder_pk \<and> fo_pk f \<noteq> folder_pk) (fd_folders db)"

subsection \<open>Recursive queries\<close>

partial_function (option) recursive_query :: "('r list \<Rightarrow> 'r list) \<Rightarrow> 'r list \<Rightarrow> 'r list option" where
  "recursive_query step working =
     (if working = [] then Some []
      else Option.bind (recursive_query step (step working)) (\<lambda>rows. Some (working @ rows)))"

declare recursive_query.simps [code]

text \<open>\<open>descendant_folder_pks\<close>: rows (pk, owner, knowledge base), the last two those of the folder asked for.\<close>

definition descendants_base :: "int \<Rightarrow> folder list \<Rightarrow> (int \<times> int \<times> int) list" where
  "descendants_base folder_pk rows =
     concat (map (\<lambda>s. map (\<lambda>c. (fo_pk c, fo_user_id s, fo_knowledge_base_pk s))
         (filter (\<lambda>c. fo_parent_pk c = fo_pk s \<and> fo_pk c \<noteq> folder_pk \<and> fo_user_id c = fo_user_id s \<and>
            fo_knowledge_base_pk c = fo_knowledge_base_pk s) rows))
       (filter (\<lambda>s. fo_pk s = folder_pk) rows))"

definition descendants_step :: "folder list \<Rightarrow> (int \<times> int \<times> int) list \<Rightarrow> (int \<times> int \<times> int) list" where
  "descendants_step rows working =
     concat (map (\<lambda>(pk, u, k). map (\<lambda>c. (fo_pk c, u, k))
         (filter (\<lambda>c. fo_parent_pk c = pk \<and> fo_user_id c = u \<and> fo_knowledge_base_pk c = k) rows)) working)"

definition descendant_folder_pks :: "int \<Rightarrow> folder_db \<Rightarrow> int set option" where
  "descendant_folder_pks folder_pk db =
     map_option (\<lambda>rows. set (map fst rows))
       (recursive_query (descendants_step (fd_folders db)) (descendants_base folder_pk (fd_folders db)))"

text \<open>\<open>list_folders\<close>: rows (pk, depth), joined with the folders and ordered by depth, then pk.\<close>

definition folder_tree_base :: "int \<Rightarrow> int \<Rightarrow> folder list \<Rightarrow> (int \<times> nat) list" where
  "folder_tree_base kb_pk user_id rows =
     map (\<lambda>f. (fo_pk f, 0))
       (filter (\<lambda>f. fo_knowledge_base_pk f = kb_pk \<and> fo_user_id f = user_id \<and> fo_is_root f) rows)"

definition folder_tree_step :: "int \<Rightarrow> int \<Rightarrow> folder list \<Rightarrow> (int \<times> nat) list \<Rightarrow> (int \<times> nat) list" where
  "folder_tree_step kb_pk user_id rows working =
     concat (map (\<lambda>(pk, depth). map (\<lambda>c. (fo_pk c, depth + 1))
         (filter (\<lambda>c. fo_parent_pk c = pk \<and> fo_pk c \<noteq> fo_parent_pk c \<and> fo_knowledge_base_pk c = kb_pk \<and>
            fo_user_id c = user_id) rows)) working)"

definition join_tree :: "int \<Rightarrow> int \<Rightarrow> folder list \<Rightarrow> (int \<times> nat) list \<Rightarrow> (folder \<times> nat) list" where
  "join_tree kb_pk user_id rows tree =
     concat (map (\<lambda>f. map (\<lambda>t. (f, snd t)) (filter (\<lambda>t. fst t = fo_pk f) tree))
       (filter (\<lambda>f. fo_knowledge_base_pk f = kb_pk \<and> fo_user_id f = user_id) rows))"

definition list_folders :: "int \<Rightarrow> int \<Rightarrow> folder_db \<Rightarrow> folder list option" where
  "list_folders kb_pk user_id db =
     map_option (\<lambda>tree. map fst (sort_key (\<lambda>(f, depth). (depth, fo_pk f))
         (join_tree kb_pk user_id (fd_folders db) tree)))
       (recursive_query (folder_tree_step kb_pk user_id (fd_folders db))
         (folder_tree_base kb_pk user_id (fd_folders db)))"

subsection \<open>Names, moves and the tree sent to the client\<close>

definition normalize_folder_name :: "string \<Rightarrow> string" where
  "normalize_folder_name v = casefold (squeeze (py_strip v))"

definition display_folder_name :: "string \<Rightarrow> string result" where
  "display_folder_name v =
     (let display_name = squeeze (py_strip v)
      in if display_name = [] then Inl (BusinessException ''folder name cannot be empty'' 4024 400)
         else Inr display_name)"

definition validate_folder_move :: "int \<Rightarrow> int \<Rightarrow> int set \<Rightarrow> unit result" where
  "validate_folder_move folder_pk new_parent_pk descendant_pks =
     (if folder_pk = new_parent_pk \<or> new_parent_pk \<in> descendant_pks
      then Inl (BusinessException ''folder cannot be moved beneath itself or a descendant'' 4025 400)
      else Inr ())"

definition folder_item_of :: "folder \<Rightarrow> string \<Rightarrow> folder_item" where
  "folder_item_of f parent_id = FolderItem (fo_id f) parent_id (fo_name f) (fo_is_root f) []"

text \<open>
  \<open>_build_folder_tree\<close> links mutable items: each is created childless in \<open>items_by_pk\<close> and appended to
  its parent's \<open>children\<close> or to \<open>roots\<close>. The store keeps the links as primary keys: the children of each
  item and the roots, in the order they were appended. \<open>unfold_item\<close> reads the item a key stands
  for, as the serialisation of the response does; it recurses for as long as the links do.
\<close>

record tree_store =
  ts_children :: "int \<Rightarrow> int list"
  ts_roots :: "int list"

definition folders_by_pk :: "folder list \<Rightarrow> int \<Rightarrow> folder option" where
  "folders_by_pk folders pk = find (\<lambda>f. fo_pk f = pk) (rev folders)"

definition link_folder :: "folder list \<Rightarrow> folder \<Rightarrow> tree_store \<Rightarrow> tree_store" where
  "link_folder folders f st =
     (if fo_is_root f then st
      else (case folders_by_pk folders (fo_parent_pk f) of
          Some parent \<Rightarrow>
            if \<not> fo_is_root parent
            then st\<lparr>ts_children := (ts_children st)(fo_pk parent := ts_children st (fo_pk parent) @ [fo_pk f])\<rparr>
            else st\<lparr>ts_roots := ts_roots st @ [fo_pk f]\<rparr>
        | None \<Rightarrow> st\<lparr>ts_roots := ts_roots st @ [fo_pk f]\<rparr>))"

definition link_folders :: "folder list \<Rightarrow> tree_store" where
  "link_folders folders = fold (link_folder folders) folders \<lparr>ts_children = (\<lambda>_. []), ts_roots = []\<rparr>"

definition item_by_pk :: "folder list \<Rightarrow> int \<Rightarrow> folder_item option" where
  "item_by_pk folders pk =
     map_option (\<lambda>f. folder_item_of f (fo_id (case folders_by_pk folders (fo_parent_pk f) of Some p \<Rightarrow> p | None \<Rightarrow> f)))
       (folders_by_pk folders pk)"

fun collect_some :: "'a option list \<Rightarrow> 'a list option" where
  "collect_some [] = Some []"
| "collect_some (x # xs) = Option.bind x (\<lambda>a. Option.bind (collect_some xs) (\<lambda>as. Some (a # as)))"

fun unfold_item :: "nat \<Rightarrow> folder list \<Rightarrow> tree_store \<Rightarrow> int \<Rightarrow> folder_item option" where
  "unfold_item 0 folders st pk = None"
| "unfold_item (Suc n) folders st pk =
     Option.bind (item_by_pk folders pk) (\<lambda>item.
     Option.bind (collect_some (map (unfold_item n folders st) (ts_children st pk))) (\<lambda>items.
     Some (FolderItem (fi_id item) (fi_parent_id item) (fi_name item) (fi_is_root item) items)))"

definition build_folder_tree :: "nat \<Rightarrow> folder list \<Rightarrow> folder_item list option" where
  "build_folder_tree fuel folders =
     (let st = link_folders folders in collect_some (map (unfold_item fuel folders st) (ts_roots st)))"

subsection \<open>Creating roots and knowledge bases\<close>

text \<open>
  \<open>others\<close> are the rows that other transactions commit between the first lookup and the INSERT. The
  nested transaction is rolled back to its savepoint on an integrity error and the winner is read.
\<close>

definition ensure_root_folder ::
  "int \<Rightarrow> string \<Rightarrow> folder list \<Rightarrow> int \<Rightarrow> string \<Rightarrow> int \<Rightarrow> (folder_db, folder) tx" where
  "ensure_root_folder new_pk uid others user_id kb_id kb_pk db =
     (case root_of kb_pk db of
        Some existing \<Rightarrow> Inr (existing, db)
      | None \<Rightarrow>
          let db1 = db\<lparr>fd_folders := fd_folders db @ others\<rparr>;
              row = \<lparr>fo_pk = new_pk, fo_id = ''fld_root_'' @ uid, fo_user_id = user_id,
                fo_knowledge_base_id = kb_id, fo_knowledge_base_pk = kb_pk, fo_parent_pk = 0, fo_name = ''/'',
                fo_normalized_name = ''/'', fo_is_root = True\<rparr>;
              nested =
                tbind (tmodify (\<lambda>d. d\<lparr>fd_folders := fd_folders d @ [row]\<rparr>)) (\<lambda>_.
                tbind folder_flush (\<lambda>_.
                tbind (tmodify (\<lambda>d. d\<lparr>fd_folders :=
                  update_where (\<lambda>f. fo_pk f = new_pk) (\<lambda>f. f\<lparr>fo_parent_pk := new_pk\<rparr>) (fd_folders d)\<rparr>)) (\<lambda>_.
                tbind folder_flush (\<lambda>_. treturn (row\<lparr>fo_parent_pk := new_pk\<rparr>)))))
          in (case nested db1 of
                Inr r \<Rightarrow> Inr r
              | Inl e \<Rightarrow> (case root_of kb_pk db1 of None \<Rightarrow> Inl e | Some winner \<Rightarrow> Inr (winner, db1))))"

definition create_knowledge_base ::
  "int \<Rightarrow> int \<Rightarrow> string \<Rightarrow> string \<Rightarrow> int \<Rightarrow> string \<Rightarrow> string option \<Rightarrow> bool \<Rightarrow> (folder_db, knowledge_base) tx" where
  "create_knowledge_base kb_pk new_pk uid kb_id user_id name descr is_default =
     (let kb = \<lparr>kn_pk = kb_pk, kn_id = kb_id, kn_user_id = user_id, kn_name = name, kn_description = descr,
            kn_is_default = is_default\<rparr>
      in tbind (tmodify (\<lambda>d. d\<lparr>fd_knowledge_bases := fd_knowledge_bases d @ [kb]\<rparr>)) (\<lambda>_.
         tbind (\<lambda>d. if distinct (map kn_pk (fd_knowledge_bases d)) \<and> distinct (map kn_id (fd_knowledge_bases d))
             then Inr ((), d) else Inl (IntegrityError ''knowledge_bases'')) (\<lambda>_.
         tbind (ensure_root_folder new_pk uid [] user_id kb_id kb_pk) (\<lambda>_. treturn kb))))"

text \<open>\<open>scalar_one_or_none\<close> raises \<open>MultipleResultsFound\<close> when more than one row matches.\<close>

definition get_default_knowledge_base_by_user_id :: "int \<Rightarrow> folder_db \<Rightarrow> knowledge_base option result" where
  "get_default_knowledge_base_by_user_id user_id db =
     (case filter (\<lambda>k. kn_user_id k = user_id \<and> kn_is_default k) (fd_knowledge_bases db) of
        [] \<Rightarrow> Inr None
      | [k] \<Rightarrow> Inr (Some k)
      | _ \<Rightarrow> Inl (RuntimeError ''MultipleResultsFound''))"

definition get_or_create_default_knowledge_base ::
  "int \<Rightarrow> int \<Rightarrow> string \<Rightarrow> string \<Rightarrow> int \<Rightarrow> (folder_db, knowledge_base) tx" where
  "get_or_create_default_knowledge_base kb_pk new_pk uid kb_uid user_id =
     tbind (tlift (get_default_knowledge_base_by_user_id user_id)) (\<lambda>found.
     tbind (case found of
         Some k \<Rightarrow> treturn k
       | None \<Rightarrow> create_knowledge_base kb_pk new_pk uid (''kb_'' @ kb_uid) user_id ''Default Knowledge Base''
           (Some ''Default personal knowledge base'') True) (\<lambda>k.
     tbind (ensure_root_folder new_pk uid [] user_id (kn_id k) (kn_pk k)) (\<lambda>_. treturn k)))"

text \<open>
  The cascade of the database removes the folders; \<open>referenced\<close> says whether another table still refers
  to the knowledge base without a cascade, as documents do.
\<close>

definition delete_knowledge_base_by_id :: "(int \<Rightarrow> bool) \<Rightarrow> string \<Rightarrow> (folder_db, nat) tx" where
  "delete_knowledge_base_by_id referenced kb_id db =
     (let gone = map kn_pk (filter (\<lambda>k. kn_id k = kb_id) (fd_knowledge_bases db))
      in if list_ex (\<lambda>pk. referenced pk \<or> list_ex (\<lambda>d. pd_knowledge_base_pk d = pk) (fd_documents db)) gone
         then Inl (IntegrityError ''knowledge_bases'')
         else Inr (length gone, db\<lparr>
           fd_knowledge_bases := delete_where (\<lambda>k. kn_id k = kb_id) (fd_knowledge_bases db),
           fd_folders := delete_where (\<lambda>f. fo_knowledge_base_pk f \<in> set gone) (fd_folders db)\<rparr>))"

subsection \<open>Handlers\<close>

definition get_folder_tree :: "nat \<Rightarrow> string \<Rightarrow> int \<Rightarrow> folder_db \<Rightarrow> folder_item list result option" where
  "get_folder_tree fuel kb_id user_id db =
     (case owned_knowledge_base kb_id user_id db of
        Inl e \<Rightarrow> Some (Inl e)
      | Inr k \<Rightarrow>
          Option.bind (list_folders (kn_pk k) user_id db) (\<lambda>folders.
          Option.bind (build_folder_tree fuel folders) (\<lambda>items. Some (Inr items))))"

definition create_folder ::
  "int \<Rightarrow> string \<Rightarrow> string \<Rightarrow> string \<Rightarrow> string \<Rightarrow> int \<Rightarrow> (folder_db, folder_item) tx" where
  "create_folder new_pk uid kb_id parent_id name user_id =
     tbind (tlift (owned_knowledge_base kb_id user_id)) (\<lambda>kb.
     tbind (tget (get_folder_by_id parent_id user_id)) (\<lambda>found.
     case found of
       None \<Rightarrow> tfail (BusinessException ''parent folder not found in knowledge base'' 4045 404)
     | Some parent \<Rightarrow>
         tbind (tguard (fo_knowledge_base_pk parent = kn_pk kb)
           (BusinessException ''parent folder not found in knowledge base'' 4045 404)) (\<lambda>_.
         tbind (tlift (\<lambda>_. display_folder_name name)) (\<lambda>display_name.
         let created = \<lparr>fo_pk = new_pk, fo_id = ''fld_'' @ uid, fo_user_id = user_id,
               fo_knowledge_base_id = kn_id kb, fo_knowledge_base_pk = kn_pk kb, fo_parent_pk = fo_pk parent,
               fo_name = display_name, fo_normalized_name = normalize_folder_name display_name,
               fo_is_root = False\<rparr>
         in tbind (tmodify (\<lambda>d. d\<lparr>fd_folders := fd_folders d @ [created]\<rparr>)) (\<lambda>_.
            tbind flush_or_duplicate (\<lambda>_. treturn (folder_item_of created (fo_id parent))))))))"

text \<open>
  \<open>update_folder_api\<close> first reads and validates, then writes. \<open>plan_update\<close> is the reading half: the
  target, its new parent and its new display name, where the request gives them.
\<close>

record folder_update =
  up_name :: "string option"
  up_parent_id :: "string option"

definition planned_name :: "folder_update \<Rightarrow> string option result" where
  "planned_name payload =
     (case up_name payload of
        None \<Rightarrow> Inr None
      | Some v \<Rightarrow> ebind (display_folder_name v) (\<lambda>d. Inr (Some d)))"

definition plan_update ::
  "string \<Rightarrow> folder_update \<Rightarrow> int \<Rightarrow> folder_db \<Rightarrow> (folder \<times> folder option \<times> string option) result option" where
  "plan_update folder_id payload user_id db =
     (case get_folder_by_id folder_id user_id db of
        None \<Rightarrow> Some (Inl (BusinessException ''folder not found'' 4045 404))
      | Some target \<Rightarrow>
          if fo_is_root target
          then Some (Inl (BusinessException ''root folder cannot be renamed or moved'' 4027 400))
          else (case up_parent_id payload of
              None \<Rightarrow> Some (ebind (planned_name payload) (\<lambda>n. Inr (target, None, n)))
            | Some parent_id \<Rightarrow>
                (case get_folder_by_id parent_id user_id db of
                   None \<Rightarrow> Some (Inl (BusinessException ''parent folder not found'' 4045 404))
                 | Some parent \<Rightarrow>
                     if fo_knowledge_base_pk parent \<noteq> fo_knowledge_base_pk target
                     then Some (Inl (BusinessException ''folder cannot move across knowledge bases'' 4028 400))
                     else Option.bind (descendant_folder_pks (fo_pk target) db) (\<lambda>descendants.
                       Some (ebind (validate_folder_move (fo_pk target) (fo_pk parent) descendants) (\<lambda>_.
                         ebind (planned_name payload) (\<lambda>n. Inr (target, Some parent, n))))))))"

text \<open>The attributes the handler assigns; the flush sends an UPDATE of those columns.\<close>

definition assign_folder :: "folder option \<Rightarrow> string option \<Rightarrow> folder \<Rightarrow> folder" where
  "assign_folder parent display_name f =
     (let f1 = (case parent of None \<Rightarrow> f | Some p \<Rightarrow> f\<lparr>fo_parent_pk := fo_pk p\<rparr>)
      in (case display_name of None \<Rightarrow> f1
          | Some d \<Rightarrow> f1\<lparr>fo_name := d, fo_normalized_name := normalize_folder_name d\<rparr>))"

definition write_update :: "folder \<times> folder option \<times> string option \<Rightarrow> (folder_db, folder_item) tx" where
  "write_update plan =
     (case plan of (target, parent, display_name) \<Rightarrow>
        let assigned = assign_folder parent display_name target
        in tbind (tmodify (\<lambda>d. d\<lparr>fd_folders :=
             update_where (\<lambda>f. fo_pk f = fo_pk target) (assign_folder parent display_name) (fd_folders d)\<rparr>)) (\<lambda>_.
           tbind flush_or_duplicate (\<lambda>_.
           tbind (case parent of Some p \<Rightarrow> treturn (Some p)
               | None \<Rightarrow> tget (get_folder_by_pk (fo_parent_pk assigned) (fo_user_id target))) (\<lambda>found.
           case found of
             None \<Rightarrow> tfail (BusinessException ''parent folder integrity error'' 5004 409)
           | Some p \<Rightarrow> treturn (folder_item_of assigned (fo_id p))))))"

definition update_folder ::
  "string \<Rightarrow> folder_update \<Rightarrow> int \<Rightarrow> folder_db \<Rightarrow> (folder_item \<times> folder_db) result option" where
  "update_folder folder_id payload user_id db =
     map_option (\<lambda>planned. ebind planned (\<lambda>plan. write_update plan db)) (plan_update folder_id payload user_id db)"

definition delete_folder :: "string \<Rightarrow> int \<Rightarrow> (folder_db, string) tx" where
  "delete_folder folder_id user_id =
     tbind (tget (get_folder_by_id folder_id user_id)) (\<lambda>found.
     case found of
       None \<Rightarrow> tfail (BusinessException ''folder not found'' 4045 404)
     | Some target \<Rightarrow>
         tbind (tguard (\<not> fo_is_root target) (BusinessException ''root folder cannot be deleted'' 4027 400)) (\<lambda>_.
         tbind (tget (folder_has_contents (fo_pk target))) (\<lambda>full.
         tbind (tguard (\<not> full) (BusinessException ''folder is not empty'' 4029 400)) (\<lambda>_.
         tbind (tmodify (\<lambda>d. d\<lparr>fd_folders := delete_where (\<lambda>f. fo_pk f = fo_pk target) (fd_folders d)\<rparr>)) (\<lambda>_.
         tbind folder_flush (\<lambda>_. treturn (fo_id target)))))))"

definition move_document_to_folder :: "placed_document \<Rightarrow> int \<Rightarrow> (folder_db, placed_document) tx" where
  "move_document_to_folder document folder_pk =
     tbind (tmodify (\<lambda>d. d\<lparr>fd_documents :=
       update_where (\<lambda>x. pd_id x = pd_id document) (\<lambda>x. x\<lparr>pd_folder_pk := folder_pk\<rparr>) (fd_documents d)\<rparr>)) (\<lambda>_.
     treturn (document\<lparr>pd_folder_pk := folder_pk\<rparr>))"

definition move_document :: "string \<Rightarrow> string \<Rightarrow> int \<Rightarrow> (folder_db, string \<times> string) tx" where
  "move_document document_id folder_id user_id =
     tbind (tget (get_document_by_id document_id (Some user_id) None)) (\<lambda>found.
     case found of
       None \<Rightarrow> tfail (BusinessException ''document not found'' 4044 404)
     | Some document \<Rightarrow>
         tbind (tget (get_folder_by_id folder_id user_id)) (\<lambda>dest.
         case dest of
           None \<Rightarrow> tfail (BusinessException ''folder not found'' 4045 404)
         | Some destination \<Rightarrow>
             tbind (tguard (fo_knowledge_base_pk destination = pd_knowledge_base_pk document)
               (BusinessException ''document cannot move across knowledge bases'' 4030 400)) (\<lambda>_.
             tbind (move_document_to_folder document (fo_pk destination)) (\<lambda>_.
             treturn (pd_id document, fo_id destination)))))"

end
