(* ===== verification/FolderForest.thy ===== *)
theory FolderForest
  imports Folders
begin

text \<open>
  The folder table as a forest: what a recursive query returns, the invariant of the folder rows, and
  the operations that keep it.
\<close>

subsection \<open>What a recursive query returns\<close>

definition edges_of :: "('r \<Rightarrow> 'r list) \<Rightarrow> ('r \<times> 'r) set" where
  "edges_of expand = {(x, y). y \<in> set (expand x)}"

abbreviation closure_query :: "('r \<Rightarrow> 'r list) \<Rightarrow> 'r list \<Rightarrow> 'r list option" where
  "closure_query expand \<equiv> recursive_query (\<lambda>working. concat (map expand working))"

lemma query_Nil [simp]: "recursive_query step [] = Some []"
  by (subst recursive_query.simps) simp

lemma query_step: "w \<noteq> [] \<Longrightarrow>
  recursive_query step w = map_option ((@) w) (recursive_query step (step w))"
  by (subst recursive_query.simps) (simp add: map_option_case split: bind_splits option.split)

lemma closure_query_returns:
  assumes "\<And>x y. ok x \<Longrightarrow> y \<in> set (expand x) \<Longrightarrow> ok y \<and> rank x < rank y"
    and "\<And>x. ok x \<Longrightarrow> rank x \<le> (N::nat)"
  shows "\<forall>x\<in>set w. ok x \<and> N < rank x + k \<Longrightarrow> \<exists>rows. closure_query expand w = Some rows"
proof (induction k arbitrary: w)
  case 0
  then have "w = []" using assms(2) by (cases w) (auto simp: not_less [symmetric])
  then show ?case by simp
next
  case (Suc k)
  show ?case
  proof (cases "w = []")
    case False
    have "\<forall>y\<in>set (concat (map expand w)). ok y \<and> N < rank y + k"
      using Suc.prems assms(1) by fastforce
    from Suc.IH [OF this] False show ?thesis by (auto simp: query_step)
  qed simp
qed

lemma query_diverges:
  assumes "\<And>w. Q w \<Longrightarrow> w \<noteq> [] \<and> Q (step w)" and "Q w"
  shows "recursive_query step w = None"
proof (rule ccontr)
  assume "recursive_query step w \<noteq> None"
  then obtain rows where ret: "recursive_query step w = Some rows" by auto
  have "\<not> (Q w \<and> (\<forall>w. Q w \<longrightarrow> w \<noteq> [] \<and> Q (step w)))"
  proof (rule recursive_query.raw_induct [where P =
        "\<lambda>step w rows. \<not> (Q w \<and> (\<forall>w. Q w \<longrightarrow> w \<noteq> [] \<and> Q (step w)))", OF _ ret])
    fix f :: "('a list \<Rightarrow> 'a list) \<Rightarrow> 'a list \<Rightarrow> 'a list option" and step w rows
    assume "\<And>step w rows. f step w = Some rows \<Longrightarrow> \<not> (Q w \<and> (\<forall>w. Q w \<longrightarrow> w \<noteq> [] \<and> Q (step w)))"
      and "(if w = [] then Some [] else Option.bind (f step (step w)) (\<lambda>rows. Some (w @ rows))) = Some rows"
    then show "\<not> (Q w \<and> (\<forall>w. Q w \<longrightarrow> w \<noteq> [] \<and> Q (step w)))"
      by (auto split: if_splits bind_splits)
  qed
  then show False using assms by blast
qed

lemma rtrancl_Image_step: "r\<^sup>* `` A = A \<union> r\<^sup>* `` (r `` A)"
proof (intro set_eqI iffI)
  fix y assume "y \<in> r\<^sup>* `` A"
  then obtain x where "x \<in> A" "(x, y) \<in> r\<^sup>*" by blast
  then show "y \<in> A \<union> r\<^sup>* `` (r `` A)" by (auto elim: converse_rtranclE)
qed (auto intro: converse_rtrancl_into_rtrancl)

lemma closure_query_levels:
  assumes ret: "recursive_query step w = Some rows"
    and "step = (\<lambda>working. concat (map expand working))"
  shows "set rows = (edges_of expand)\<^sup>* `` set w"
proof -
  have "step = (\<lambda>working. concat (map expand working)) \<longrightarrow> set rows = (edges_of expand)\<^sup>* `` set w"
  proof (rule recursive_query.raw_induct [where P =
        "\<lambda>step w rows. step = (\<lambda>working. concat (map expand working)) \<longrightarrow> set rows = (edges_of expand)\<^sup>* `` set w",
        OF _ ret], rule impI)
    fix f :: "('a list \<Rightarrow> 'a list) \<Rightarrow> 'a list \<Rightarrow> 'a list option" and step w rows
    assume IH: "\<And>step w rows. f step w = Some rows \<Longrightarrow>
        step = (\<lambda>working. concat (map expand working)) \<longrightarrow> set rows = (edges_of expand)\<^sup>* `` set w"
      and eq: "(if w = [] then Some [] else Option.bind (f step (step w)) (\<lambda>rows. Some (w @ rows))) = Some rows"
      and step: "step = (\<lambda>working. concat (map expand working))"
    show "set rows = (edges_of expand)\<^sup>* `` set w"
    proof (cases "w = []")
      case False
      with eq obtain rest where rest: "f step (step w) = Some rest" "rows = w @ rest"
        by (auto split: bind_splits)
      have "set (step w) = edges_of expand `` set w"
        using step by (auto simp: edges_of_def)
      then have "set rest = (edges_of expand)\<^sup>* `` (edges_of expand `` set w)"
        using IH [OF rest(1)] step by simp
      then show ?thesis
        using rest(2) rtrancl_Image_step [of "edges_of expand" "set w"] by simp
    qed (use eq in simp)
  qed
  then show ?thesis using assms(2) by simp
qed

lemmas closure_query_set = closure_query_levels [OF _ refl]

text \<open>Rows of a forest are emitted once: each has its level as \<open>rank\<close> and one predecessor.\<close>

lemma closure_query_distinct:
  assumes "\<And>x y. ok x \<Longrightarrow> y \<in> set (expand x) \<Longrightarrow> ok y \<and> rank y = Suc (rank x)"
    and "\<And>x. ok x \<Longrightarrow> distinct (map key (expand x))"
    and "\<And>x x' y y'. ok x \<Longrightarrow> ok x' \<Longrightarrow> y \<in> set (expand x) \<Longrightarrow> y' \<in> set (expand x') \<Longrightarrow> key y = key y' \<Longrightarrow> key x = key x'"
    and "\<And>x y. ok x \<Longrightarrow> ok y \<Longrightarrow> key x = key y \<Longrightarrow> rank x = rank y"
    and "\<And>x. ok x \<Longrightarrow> rank x \<le> (N::nat)"
  shows "\<forall>x\<in>set w. ok x \<and> rank x = j \<Longrightarrow> N < j + k \<Longrightarrow> distinct (map key w) \<Longrightarrow>
     closure_query expand w = Some rows \<Longrightarrow>
     distinct (map key rows) \<and> (\<forall>x\<in>set rows. ok x \<and> j \<le> rank x)"
proof (induction k arbitrary: w j rows)
  case 0
  then have "w = []" using assms(5) by (cases w) (auto simp: not_less [symmetric])
  then show ?case using 0 by simp
next
  case (Suc k)
  show ?case
  proof (cases "w = []")
    case False
    let ?w = "concat (map expand w)"
    obtain rest where rest: "closure_query expand ?w = Some rest" "rows = w @ rest"
      using Suc.prems(4) False by (auto simp: query_step)
    have next_level: "\<forall>y\<in>set ?w. ok y \<and> rank y = Suc j"
      using Suc.prems(1) assms(1) by fastforce
    have "\<forall>x\<in>set v. ok x \<Longrightarrow> distinct (map key v) \<Longrightarrow> distinct (map key (concat (map expand v)))" for v
    proof (induction v)
      case (Cons a v)
      have False if "y \<in> set (expand a)" "x \<in> set v" "z \<in> set (expand x)" "key y = key z" for x y z
        using assms(3) [of a x y z] Cons.prems that by auto
      then have "key ` set (expand a) \<inter> key ` (\<Union>x\<in>set v. set (expand x)) = {}" by blast
      then show ?case using Cons assms(2) [of a] by (auto simp: image_UN)
    qed simp
    then have "distinct (map key ?w)" using Suc.prems by blast
    with Suc.IH [OF next_level _ _ rest(1)] Suc.prems(2)
    have IH: "distinct (map key rest)" "\<forall>x\<in>set rest. ok x \<and> Suc j \<le> rank x" by auto
    moreover have "key ` set w \<inter> key ` set rest = {}"
    proof -
      have False if "x \<in> set w" "y \<in> set rest" "key x = key y" for x y
        using that IH(2) Suc.prems(1) assms(4) [of x y] by force
      then show ?thesis by (auto simp: image_iff)
    qed
    ultimately show ?thesis using rest(2) Suc.prems(1,3) by (auto simp: Suc_le_eq)
  qed (use Suc.prems in simp)
qed

subsection \<open>The forest invariant\<close>

definition parent_rel :: "folder list \<Rightarrow> (int \<times> int) set" where
  "parent_rel rows = {(fo_pk f, fo_parent_pk f) | f. f \<in> set rows \<and> \<not> fo_is_root f}"

definition folder_ok :: "folder list \<Rightarrow> folder \<Rightarrow> bool" where
  "folder_ok rows f \<longleftrightarrow>
     (if fo_is_root f then fo_parent_pk f = fo_pk f
      else (\<exists>p\<in>set rows. fo_pk p = fo_parent_pk f \<and> fo_user_id p = fo_user_id f \<and>
             fo_knowledge_base_pk p = fo_knowledge_base_pk f))"

definition folder_forest :: "folder list \<Rightarrow> bool" where
  "folder_forest rows \<longleftrightarrow> folder_constraints rows \<and> (\<forall>f\<in>set rows. folder_ok rows f) \<and> acyclic (parent_rel rows)"

text \<open>The level of a folder is the number of folders above it.\<close>

definition folder_level :: "folder list \<Rightarrow> int \<Rightarrow> nat" where
  "folder_level rows pk = card {a. (pk, a) \<in> (parent_rel rows)\<^sup>+}"

lemma parent_rel_image: "parent_rel rows = (\<lambda>f. (fo_pk f, fo_parent_pk f)) ` set (filter (\<lambda>f. \<not> fo_is_root f) rows)"
  by (auto simp: parent_rel_def)

lemma finite_parent_rel [simp]: "finite (parent_rel rows)"
  by (simp add: parent_rel_image)

lemma finite_ancestors [simp]: "finite {a. (pk, a) \<in> (parent_rel rows)\<^sup>+}"
proof (rule finite_subset)
  show "{a. (pk, a) \<in> (parent_rel rows)\<^sup>+} \<subseteq> Range ((parent_rel rows)\<^sup>+)" by (rule subsetI) (auto simp only: Range_iff)
qed (simp add: trancl_range finite_Range)

lemma parent_rel_append [simp]:
  "parent_rel (rows @ [f]) = (if fo_is_root f then parent_rel rows else insert (fo_pk f, fo_parent_pk f) (parent_rel rows))"
  by (auto simp: parent_rel_def)

lemma forest_pk_unique:
  "folder_forest rows \<Longrightarrow> f \<in> set rows \<Longrightarrow> g \<in> set rows \<Longrightarrow> fo_pk f = fo_pk g \<Longrightarrow> f = g"
  by (auto simp: folder_forest_def folder_constraints_def intro: distinct_key_unique [of fo_pk])

lemma forest_parent_unique:
  "folder_forest rows \<Longrightarrow> (x, p) \<in> parent_rel rows \<Longrightarrow> (x, q) \<in> parent_rel rows \<Longrightarrow> p = q"
  by (auto simp: parent_rel_def dest: forest_pk_unique)

lemma forest_root_top:
  "folder_forest rows \<Longrightarrow> f \<in> set rows \<Longrightarrow> fo_is_root f \<Longrightarrow> (fo_pk f, p) \<notin> parent_rel rows"
  by (auto simp: parent_rel_def dest: forest_pk_unique)

lemma forest_parent:
  assumes "folder_forest rows" and "(x, p) \<in> parent_rel rows"
  obtains f g where "f \<in> set rows" "\<not> fo_is_root f" "fo_pk f = x" "fo_parent_pk f = p" "g \<in> set rows" "fo_pk g = p"
    "fo_user_id g = fo_user_id f" "fo_knowledge_base_pk g = fo_knowledge_base_pk f"
  using assms by (fastforce simp: parent_rel_def folder_forest_def folder_ok_def)

lemma forest_no_loop: "folder_forest rows \<Longrightarrow> (x, x) \<notin> (parent_rel rows)\<^sup>+"
  by (simp add: folder_forest_def acyclic_def)

lemma folder_level_child:
  assumes "folder_forest rows" and "(x, p) \<in> parent_rel rows"
  shows "folder_level rows x = Suc (folder_level rows p)"
proof -
  have "{a. (x, a) \<in> (parent_rel rows)\<^sup>+} = insert p {a. (p, a) \<in> (parent_rel rows)\<^sup>+}"
    using assms forest_parent_unique [OF assms(1)]
    by (auto elim: converse_tranclE intro: trancl_into_trancl2) (metis converse_tranclE)
  then show ?thesis using forest_no_loop [OF assms(1), of p] by (simp add: folder_level_def)
qed

lemma folder_level_bound: "folder_level rows x \<le> card (parent_rel rows)"
proof -
  have "{a. (x, a) \<in> (parent_rel rows)\<^sup>+} \<subseteq> snd ` parent_rel rows"
    by (auto dest!: tranclD2 intro: rev_image_eqI)
  then have "folder_level rows x \<le> card (snd ` parent_rel rows)"
    unfolding folder_level_def by (intro card_mono) simp_all
  also have "\<dots> \<le> card (parent_rel rows)" by (rule card_image_le) simp
  finally show ?thesis .
qed

lemma folder_level_root: "folder_forest rows \<Longrightarrow> f \<in> set rows \<Longrightarrow> fo_is_root f \<Longrightarrow> folder_level rows (fo_pk f) = 0"
proof -
  assume a: "folder_forest rows" "f \<in> set rows" "fo_is_root f"
  have "(fo_pk f, b) \<notin> (parent_rel rows)\<^sup>+" for b
    using forest_root_top [OF a] tranclD [of "fo_pk f" b "parent_rel rows"] by blast
  then show ?thesis by (simp add: folder_level_def)
qed

lemma folder_level_0: 
  assumes "folder_forest rows" and "f \<in> set rows" and "folder_level rows (fo_pk f) = 0"
  shows "fo_is_root f"
proof (rule ccontr)
  assume "\<not> fo_is_root f"
  then have "(fo_pk f, fo_parent_pk f) \<in> parent_rel rows" using assms(2) by (auto simp: parent_rel_def)
  from folder_level_child [OF assms(1) this] assms(3) show False by simp
qed

text \<open>Every folder hangs below a root of its own owner and knowledge base.\<close>

lemma forest_reaches_root:
  assumes "folder_forest rows" and "f \<in> set rows"
  obtains r where "r \<in> set rows" "fo_is_root r" "(fo_pk f, fo_pk r) \<in> (parent_rel rows)\<^sup>*"
    "fo_user_id r = fo_user_id f" "fo_knowledge_base_pk r = fo_knowledge_base_pk f"
proof -
  have "\<exists>r\<in>set rows. fo_is_root r \<and> (fo_pk f, fo_pk r) \<in> (parent_rel rows)\<^sup>* \<and> fo_user_id r = fo_user_id f \<and>
      fo_knowledge_base_pk r = fo_knowledge_base_pk f"
    using assms(2)
  proof (induction "folder_level rows (fo_pk f)" arbitrary: f)
    case 0
    then show ?case using folder_level_0 [OF assms(1)] by (intro bexI [of _ f]) auto
  next
    case (Suc n)
    then have "\<not> fo_is_root f" using folder_level_root [OF assms(1), of f] by auto
    then have edge: "(fo_pk f, fo_parent_pk f) \<in> parent_rel rows" using Suc.prems by (auto simp: parent_rel_def)
    then obtain g where g: "g \<in> set rows" "fo_pk g = fo_parent_pk f" "fo_user_id g = fo_user_id f"
        "fo_knowledge_base_pk g = fo_knowledge_base_pk f"
      using forest_parent [OF assms(1) edge] forest_pk_unique [OF assms(1)] Suc.prems by metis
    have "n = folder_level rows (fo_pk g)" using folder_level_child [OF assms(1) edge] Suc.hyps(2) g by simp
    from Suc.hyps(1) [OF this g(1)] show ?case
      using edge g by (auto intro: converse_rtrancl_into_rtrancl)
  qed
  then show ?thesis using that by blast
qed

subsection \<open>Operations on the forest\<close>

lemma forest_Nil [simp]: "folder_forest []"
  by (simp add: folder_forest_def folder_constraints_def parent_rel_def acyclic_def)

lemma folder_ok_mono: "folder_ok rows f \<Longrightarrow> set rows \<subseteq> set rows' \<Longrightarrow> folder_ok rows' f"
  by (auto simp: folder_ok_def split: if_splits)

lemma forest_add_root:
  assumes "folder_forest rows" and "folder_constraints (rows @ [r])" and "fo_is_root r" and "fo_parent_pk r = fo_pk r"
  shows "folder_forest (rows @ [r])"
  using assms folder_ok_mono [of rows _ "rows @ [r]"] by (auto simp: folder_forest_def) (simp add: folder_ok_def)

lemma forest_add_child:
  assumes "folder_forest rows" and "folder_constraints (rows @ [c])" and "\<not> fo_is_root c"
    and p: "p \<in> set rows" "fo_pk p = fo_parent_pk c" "fo_user_id p = fo_user_id c"
      "fo_knowledge_base_pk p = fo_knowledge_base_pk c"
  shows "folder_forest (rows @ [c])"
proof -
  have fresh: "fo_pk c \<notin> fo_pk ` set rows" using assms(2) by (auto simp: folder_constraints_def)
  have "(fo_parent_pk c, fo_pk c) \<notin> (parent_rel rows)\<^sup>*"
  proof
    assume "(fo_parent_pk c, fo_pk c) \<in> (parent_rel rows)\<^sup>*"
    then show False
    proof (cases rule: rtranclE)
      case base
      have "fo_pk p \<in> fo_pk ` set rows" using p(1) by simp
      then have "fo_pk c \<in> fo_pk ` set rows" unfolding p(2) base .
      then show ?thesis using fresh by blast
    next
      case (step y)
      obtain g where "g \<in> set rows" "fo_pk g = fo_pk c"
        by (rule forest_parent [OF assms(1) step(2)])
      then show ?thesis using fresh by (metis imageI)
    qed
  qed
  moreover have "folder_ok (rows @ [c]) c" using assms(3) p by (auto simp: folder_ok_def)
  moreover have "\<forall>f\<in>set rows. folder_ok (rows @ [c]) f"
    using assms(1) folder_ok_mono [of rows _ "rows @ [c]"] by (auto simp: folder_forest_def)
  ultimately show ?thesis
    using assms(1-3) by (simp add: folder_forest_def acyclic_insert)
qed

lemma forest_remove:
  assumes "folder_forest rows"
    and "\<And>f p. f \<in> set rows \<Longrightarrow> p \<in> set rows \<Longrightarrow> fo_pk p = fo_parent_pk f \<Longrightarrow>
      fo_knowledge_base_pk p = fo_knowledge_base_pk f \<Longrightarrow> \<not> fo_is_root f \<Longrightarrow> P p \<Longrightarrow> P f"
  shows "folder_forest (delete_where P rows)"
proof -
  let ?rows = "delete_where P rows"
  have sub: "set ?rows \<subseteq> set rows" by (auto simp: delete_where_def)
  have "folder_constraints ?rows"
    using assms(1) distinct_map_filter [of fo_knowledge_base_pk "filter fo_is_root rows" "\<lambda>f. \<not> P f"]
    unfolding folder_forest_def folder_constraints_def delete_where_def
    by (auto simp: distinct_map_filter conj_commute)
  moreover have "acyclic (parent_rel ?rows)"
    using assms(1) sub by (auto simp: folder_forest_def parent_rel_def elim!: acyclic_subset)
  moreover have "folder_ok ?rows f" if f: "f \<in> set ?rows" for f
  proof (cases "fo_is_root f")
    case True
    then show ?thesis using assms(1) f sub by (auto simp: folder_forest_def folder_ok_def)
  next
    case False
    then obtain p where "p \<in> set rows" "fo_pk p = fo_parent_pk f" "fo_user_id p = fo_user_id f"
        "fo_knowledge_base_pk p = fo_knowledge_base_pk f"
      using assms(1) f sub by (fastforce simp: folder_forest_def folder_ok_def)
    moreover from this have "\<not> P p" using assms(2) [of f p] f sub False by (auto simp: delete_where_def)
    ultimately show ?thesis using False by (auto simp: folder_ok_def delete_where_def)
  qed
  ultimately show ?thesis by (simp add: folder_forest_def)
qed

text \<open>Rewriting one folder in place, with its parent kept or replaced by one that is not below it.\<close>

lemma forest_rewrite:
  assumes forest: "folder_forest rows" and t: "t \<in> set rows" "\<not> fo_is_root t"
    and con: "folder_constraints (update_where (\<lambda>f. fo_pk f = fo_pk t) g rows)"
    and g: "\<And>f. fo_pk (g f) = fo_pk f" "\<And>f. fo_is_root (g f) = fo_is_root f" "\<And>f. fo_user_id (g f) = fo_user_id f"
      "\<And>f. fo_knowledge_base_pk (g f) = fo_knowledge_base_pk f"
    and p: "p \<in> set rows" "fo_pk p = fo_parent_pk (g t)" "fo_user_id p = fo_user_id t"
      "fo_knowledge_base_pk p = fo_knowledge_base_pk t"
    and above: "(fo_pk p, fo_pk t) \<notin> (parent_rel rows)\<^sup>*"
  shows "folder_forest (update_where (\<lambda>f. fo_pk f = fo_pk t) g rows)"
proof -
  let ?h = "\<lambda>f. if fo_pk f = fo_pk t then g f else f"
  let ?rows = "update_where (\<lambda>f. fo_pk f = fo_pk t) g rows"
  have set: "set ?rows = ?h ` set rows" by (simp add: set_update_where)
  have uniq: "f = t" if "f \<in> set rows" "fo_pk f = fo_pk t" for f
    using forest_pk_unique [OF forest] that t by blast
  have "parent_rel ?rows \<subseteq> insert (fo_pk t, fo_pk p) (parent_rel rows)"
    using uniq by (auto simp: parent_rel_def set g p(2))
  moreover have "acyclic (insert (fo_pk t, fo_pk p) (parent_rel rows))"
    using forest above by (simp add: folder_forest_def acyclic_insert)
  ultimately have "acyclic (parent_rel ?rows)" by (blast intro: acyclic_subset)
  moreover have "folder_ok ?rows f" if f: "f \<in> set ?rows" for f
  proof -
    obtain f0 where f0: "f0 \<in> set rows" "f = ?h f0" using f set by auto
    have "\<exists>q\<in>set rows. fo_pk q = fo_parent_pk f \<and> fo_user_id q = fo_user_id f \<and>
        fo_knowledge_base_pk q = fo_knowledge_base_pk f" if "\<not> fo_is_root f"
      using f0 uniq p g that forest by (fastforce simp: folder_forest_def folder_ok_def)
    then have "\<not> fo_is_root f \<Longrightarrow> \<exists>q\<in>set ?rows. fo_pk q = fo_parent_pk f \<and> fo_user_id q = fo_user_id f \<and>
        fo_knowledge_base_pk q = fo_knowledge_base_pk f"
      unfolding set using g by (auto simp: Bex_def image_iff) metis
    moreover have "fo_is_root f \<Longrightarrow> fo_parent_pk f = fo_pk f"
      using f0 t uniq forest by (fastforce simp: g folder_forest_def folder_ok_def)
    ultimately show ?thesis by (simp add: folder_ok_def)
  qed
  ultimately show ?thesis using con by (simp add: folder_forest_def)
qed

subsection \<open>Queries on a forest\<close>

definition descendants_expand :: "folder list \<Rightarrow> int \<times> int \<times> int \<Rightarrow> (int \<times> int \<times> int) list" where
  "descendants_expand rows = (\<lambda>(pk, u, k). map (\<lambda>c. (fo_pk c, u, k))
     (filter (\<lambda>c. fo_parent_pk c = pk \<and> fo_user_id c = u \<and> fo_knowledge_base_pk c = k) rows))"

definition below_row :: "folder list \<Rightarrow> int \<times> int \<times> int \<Rightarrow> bool" where
  "below_row rows = (\<lambda>(pk, u, k). \<exists>f\<in>set rows. \<not> fo_is_root f \<and> fo_pk f = pk \<and> fo_user_id f = u \<and>
     fo_knowledge_base_pk f = k)"

lemma descendants_step_expand:
  "descendants_step rows = (\<lambda>working. concat (map (descendants_expand rows) working))"
  by (rule ext) (simp add: descendants_step_def descendants_expand_def)

lemma below_row_edge:
  assumes "folder_forest rows" and "below_row rows x" and "y \<in> set (descendants_expand rows x)"
  shows "below_row rows y \<and> (fst y, fst x) \<in> parent_rel rows"
proof -
  obtain pk u k where x: "x = (pk, u, k)" by (cases x)
  obtain c where c: "c \<in> set rows" "fo_parent_pk c = pk" "fo_user_id c = u" "fo_knowledge_base_pk c = k"
      "y = (fo_pk c, u, k)"
    using assms(3) by (auto simp: x descendants_expand_def)
  obtain f where f: "f \<in> set rows" "\<not> fo_is_root f" "fo_pk f = pk"
    using assms(2) by (auto simp: x below_row_def)
  have "\<not> fo_is_root c"
  proof
    assume r: "fo_is_root c"
    have "folder_ok rows c" using assms(1) c(1) by (simp add: folder_forest_def)
    then have "fo_pk c = fo_pk f" using r c(2) f(3) by (simp add: folder_ok_def)
    then have "c = f" by (rule forest_pk_unique [OF assms(1) c(1) f(1)])
    then show False using r f(2) by simp
  qed
  then show ?thesis using c x by (auto simp: below_row_def parent_rel_def)
qed

lemma below_row_edge_conv:
  assumes "folder_forest rows" and "below_row rows (pk, u, k)" and "(c, pk) \<in> parent_rel rows"
  shows "(c, u, k) \<in> set (descendants_expand rows (pk, u, k))"
proof -
  obtain f g where f: "f \<in> set rows" "\<not> fo_is_root f" "fo_pk f = c" "fo_parent_pk f = pk"
    and g: "g \<in> set rows" "fo_pk g = pk" "fo_user_id g = fo_user_id f" "fo_knowledge_base_pk g = fo_knowledge_base_pk f"
    by (rule forest_parent [OF assms(1,3)])
  obtain h where h: "h \<in> set rows" "fo_pk h = pk" "fo_user_id h = u" "fo_knowledge_base_pk h = k"
    using assms(2) by (auto simp: below_row_def)
  have "g = h" using forest_pk_unique [OF assms(1) g(1) h(1)] g(2) h(2) by simp
  then show ?thesis using f g h by (auto simp: descendants_expand_def)
qed

lemma below_reach:
  assumes forest: "folder_forest rows" and x: "below_row rows x"
  shows "fst ` ((edges_of (descendants_expand rows))\<^sup>* `` {x}) = {c. (c, fst x) \<in> (parent_rel rows)\<^sup>*}"
proof (intro set_eqI iffI)
  fix c assume "c \<in> fst ` ((edges_of (descendants_expand rows))\<^sup>* `` {x})"
  then obtain y where y: "(x, y) \<in> (edges_of (descendants_expand rows))\<^sup>*" "c = fst y" by auto
  from y(1) have "below_row rows y \<and> (fst y, fst x) \<in> (parent_rel rows)\<^sup>*"
  proof (induction rule: rtrancl_induct)
    case base
    then show ?case using x by simp
  next
    case (step y z)
    then have "below_row rows z \<and> (fst z, fst y) \<in> parent_rel rows"
      using below_row_edge [OF forest, of y z] by (simp add: edges_of_def)
    then show ?case using step.IH by (auto intro: converse_rtrancl_into_rtrancl)
  qed
  then show "c \<in> {c. (c, fst x) \<in> (parent_rel rows)\<^sup>*}" using y(2) by simp
next
  obtain pk u k where xe: "x = (pk, u, k)" by (cases x)
  fix c assume "c \<in> {c. (c, fst x) \<in> (parent_rel rows)\<^sup>*}"
  then have "(c, pk) \<in> (parent_rel rows)\<^sup>*" by (simp add: xe)
  then have "(x, (c, u, k)) \<in> (edges_of (descendants_expand rows))\<^sup>* \<and> below_row rows (c, u, k)"
  proof (induction rule: converse_rtrancl_induct)
    case base
    then show ?case using x by (simp add: xe)
  next
    case (step c d)
    then have "((d, u, k), (c, u, k)) \<in> edges_of (descendants_expand rows)"
      using below_row_edge_conv [OF forest, of d u k c] by (simp add: edges_of_def)
    moreover from this have "below_row rows (c, u, k)"
      using below_row_edge [OF forest, of "(d, u, k)" "(c, u, k)"] step.IH by (simp add: edges_of_def)
    ultimately show ?case using step.IH by (auto intro: rtrancl_into_rtrancl)
  qed
  then show "c \<in> fst ` ((edges_of (descendants_expand rows))\<^sup>* `` {x})" by force
qed

lemma descendants_base_rows:
  assumes forest: "folder_forest rows"
  shows "\<forall>x\<in>set (descendants_base pk rows). below_row rows x"
    and "fst ` set (descendants_base pk rows) = {c. (c, pk) \<in> parent_rel rows}"
proof -
  have nonroot: "\<not> fo_is_root c" if "c \<in> set rows" "fo_parent_pk c = pk" "fo_pk c \<noteq> pk" for c
    using forest that(1) that(2,3) by (auto simp: folder_forest_def folder_ok_def)
  then show "\<forall>x\<in>set (descendants_base pk rows). below_row rows x"
    by (auto simp: descendants_base_def below_row_def)
  show "fst ` set (descendants_base pk rows) = {c. (c, pk) \<in> parent_rel rows}"
  proof (intro set_eqI iffI)
    fix c assume "c \<in> fst ` set (descendants_base pk rows)"
    then show "c \<in> {c. (c, pk) \<in> parent_rel rows}"
      using nonroot by (auto simp: descendants_base_def parent_rel_def)
  next
    fix c assume "c \<in> {c. (c, pk) \<in> parent_rel rows}"
    then have edge: "(c, pk) \<in> parent_rel rows" by simp
    then have "c \<noteq> pk" using forest_no_loop [OF forest, of c] by auto
    obtain f g where "f \<in> set rows" "fo_pk f = c" "fo_parent_pk f = pk" "g \<in> set rows" "fo_pk g = pk"
      "fo_user_id g = fo_user_id f" "fo_knowledge_base_pk g = fo_knowledge_base_pk f"
      by (rule forest_parent [OF forest edge])
    then have "(c, fo_user_id g, fo_knowledge_base_pk g) \<in> set (descendants_base pk rows)"
      using \<open>c \<noteq> pk\<close> by (auto simp: descendants_base_def)
    then show "c \<in> fst ` set (descendants_base pk rows)" by force
  qed
qed

lemma descendants_forest:
  assumes forest: "folder_forest (fd_folders db)"
  shows "descendant_folder_pks pk db = Some {c. (c, pk) \<in> (parent_rel (fd_folders db))\<^sup>+}"
proof -
  let ?rows = "fd_folders db"
  let ?E = "edges_of (descendants_expand ?rows)"
  let ?B = "descendants_base pk ?rows"
  note base = descendants_base_rows [OF forest, of pk]
  have "\<exists>rs. closure_query (descendants_expand ?rows) ?B = Some rs"
  proof (rule closure_query_returns [where ok = "below_row ?rows" and rank = "\<lambda>x. folder_level ?rows (fst x)"
        and N = "card (parent_rel ?rows)" and k = "Suc (card (parent_rel ?rows))"])
    show "below_row ?rows y \<and> folder_level ?rows (fst x) < folder_level ?rows (fst y)"
      if "below_row ?rows x" "y \<in> set (descendants_expand ?rows x)" for x y
      using below_row_edge [OF forest that] folder_level_child [OF forest, of "fst y" "fst x"] by simp
  qed (use base(1) folder_level_bound in auto)
  then obtain rs where rs: "closure_query (descendants_expand ?rows) ?B = Some rs" by blast
  have "fst ` set rs = (\<Union>x\<in>set ?B. fst ` (?E\<^sup>* `` {x}))"
    unfolding closure_query_set [OF rs] by auto
  also have "\<dots> = (\<Union>x\<in>set ?B. {c. (c, fst x) \<in> (parent_rel ?rows)\<^sup>*})"
    using below_reach [OF forest] base(1) by auto
  also have "\<dots> = {c. \<exists>d\<in>fst ` set ?B. (c, d) \<in> (parent_rel ?rows)\<^sup>*}" by auto
  also have "\<dots> = {c. (c, pk) \<in> (parent_rel ?rows)\<^sup>+}"
    unfolding base(2) by (auto simp: trancl_unfold_right)
  finally show ?thesis using rs by (simp add: descendant_folder_pks_def descendants_step_expand)
qed

text \<open>Listing a knowledge base: every folder once, level by level.\<close>

definition tree_expand :: "int \<Rightarrow> int \<Rightarrow> folder list \<Rightarrow> int \<times> nat \<Rightarrow> (int \<times> nat) list" where
  "tree_expand kb_pk user_id rows = (\<lambda>(pk, depth). map (\<lambda>c. (fo_pk c, depth + 1))
     (filter (\<lambda>c. fo_parent_pk c = pk \<and> fo_pk c \<noteq> fo_parent_pk c \<and> fo_knowledge_base_pk c = kb_pk \<and>
        fo_user_id c = user_id) rows))"

definition tree_row :: "int \<Rightarrow> int \<Rightarrow> folder list \<Rightarrow> int \<times> nat \<Rightarrow> bool" where
  "tree_row kb_pk user_id rows x \<longleftrightarrow> snd x = folder_level rows (fst x) \<and>
     (\<exists>f\<in>set rows. fo_pk f = fst x \<and> fo_user_id f = user_id \<and> fo_knowledge_base_pk f = kb_pk)"

abbreviation in_kb :: "int \<Rightarrow> int \<Rightarrow> folder \<Rightarrow> bool" where
  "in_kb kb_pk user_id f \<equiv> fo_knowledge_base_pk f = kb_pk \<and> fo_user_id f = user_id"

lemma folder_tree_step_expand:
  "folder_tree_step kb_pk user_id rows = (\<lambda>working. concat (map (tree_expand kb_pk user_id rows) working))"
  by (rule ext) (simp add: folder_tree_step_def tree_expand_def)

lemma tree_edge:
  assumes forest: "folder_forest rows" and "tree_row kb_pk user_id rows x" and "y \<in> set (tree_expand kb_pk user_id rows x)"
  shows "(fst y, fst x) \<in> parent_rel rows" and "tree_row kb_pk user_id rows y" and "snd y = Suc (snd x)"
proof -
  obtain c where c: "c \<in> set rows" "fo_parent_pk c = fst x" "fo_pk c \<noteq> fo_parent_pk c" "in_kb kb_pk user_id c"
      "y = (fo_pk c, Suc (snd x))"
    using assms(3) by (cases x) (auto simp: tree_expand_def)
  have "\<not> fo_is_root c" using forest c(1,3) by (auto simp: folder_forest_def folder_ok_def)
  then show edge: "(fst y, fst x) \<in> parent_rel rows" using c by (auto simp: parent_rel_def)
  show "snd y = Suc (snd x)" using c(5) by simp
  then show "tree_row kb_pk user_id rows y"
    using folder_level_child [OF forest edge] assms(2) c by (auto simp: tree_row_def)
qed

lemma tree_edge_conv:
  assumes forest: "folder_forest rows" and "tree_row kb_pk user_id rows (pk, d)" and "(c, pk) \<in> parent_rel rows"
  shows "(c, Suc d) \<in> set (tree_expand kb_pk user_id rows (pk, d))"
proof -
  obtain f g where f: "f \<in> set rows" "fo_pk f = c" "fo_parent_pk f = pk"
    and g: "g \<in> set rows" "fo_pk g = pk" "fo_user_id g = fo_user_id f" "fo_knowledge_base_pk g = fo_knowledge_base_pk f"
    by (rule forest_parent [OF forest assms(3)])
  obtain h where h: "h \<in> set rows" "fo_pk h = pk" "fo_user_id h = user_id" "fo_knowledge_base_pk h = kb_pk"
    using assms(2) by (auto simp: tree_row_def)
  have "g = h" using forest_pk_unique [OF forest g(1) h(1)] g(2) h(2) by simp
  moreover have "c \<noteq> pk" using forest_no_loop [OF forest, of c] assms(3) by auto
  ultimately show ?thesis using f g h by (force simp: tree_expand_def)
qed

lemma tree_base_rows:
  assumes "folder_forest rows"
  shows "\<forall>x\<in>set (folder_tree_base kb_pk user_id rows). tree_row kb_pk user_id rows x \<and> snd x = 0"
    and "distinct (map fst (folder_tree_base kb_pk user_id rows))"
proof -
  show "\<forall>x\<in>set (folder_tree_base kb_pk user_id rows). tree_row kb_pk user_id rows x \<and> snd x = 0"
    using folder_level_root [OF assms] by (auto simp: folder_tree_base_def tree_row_def)
  have "distinct (map fo_pk rows)" using assms by (simp add: folder_forest_def folder_constraints_def)
  then show "distinct (map fst (folder_tree_base kb_pk user_id rows))"
    by (simp add: folder_tree_base_def comp_def distinct_map_filter)
qed

lemma tree_query_rows:
  assumes forest: "folder_forest rows"
  obtains tree where "recursive_query (folder_tree_step kb_pk user_id rows) (folder_tree_base kb_pk user_id rows) = Some tree"
    and "distinct (map fst tree)"
    and "\<forall>x\<in>set tree. tree_row kb_pk user_id rows x"
    and "\<forall>f\<in>set rows. in_kb kb_pk user_id f \<longrightarrow> (fo_pk f, folder_level rows (fo_pk f)) \<in> set tree"
proof -
  let ?X = "tree_expand kb_pk user_id rows" and ?B = "folder_tree_base kb_pk user_id rows"
  let ?N = "card (parent_rel rows)" and ?ok = "tree_row kb_pk user_id rows"
  note base = tree_base_rows [OF forest, of kb_pk user_id]
  have bound: "?ok x \<Longrightarrow> snd x \<le> ?N" for x using folder_level_bound by (simp add: tree_row_def)
  have edge: "?ok x \<Longrightarrow> y \<in> set (?X x) \<Longrightarrow> ?ok y \<and> snd y = Suc (snd x)" for x y
    using tree_edge [OF forest, of kb_pk user_id x y] by blast
  have "\<exists>tree. closure_query ?X ?B = Some tree"
  proof (rule closure_query_returns [where ok = ?ok and rank = snd and N = ?N and k = "Suc ?N"])
    show "?ok y \<and> snd x < snd y" if "?ok x" "y \<in> set (?X x)" for x y using edge [OF that] by simp
  qed (use bound base(1) in simp_all)
  then obtain tree where tree: "closure_query ?X ?B = Some tree" by blast
  have distinct_rows: "distinct (map fo_pk rows)" using forest by (simp add: folder_forest_def folder_constraints_def)
  have props: "distinct (map fst tree) \<and> (\<forall>x\<in>set tree. ?ok x \<and> 0 \<le> snd x)"
  proof (rule closure_query_distinct [where ok = ?ok and rank = snd and N = ?N and j = 0 and k = "Suc ?N", OF _ _ _ _ _ _ _ _ tree])
    show "distinct (map fst (?X x))" for x
      using distinct_rows by (cases x) (simp add: tree_expand_def comp_def distinct_map_filter)
    show "fst x = fst x'" if "?ok x" "?ok x'" "y \<in> set (?X x)" "y' \<in> set (?X x')" "fst y = fst y'" for x x' y y'
      using tree_edge(1) [OF forest that(1,3)] tree_edge(1) [OF forest that(2,4)] that(5)
        forest_parent_unique [OF forest] by simp
    show "snd x = snd y" if "?ok x" "?ok y" "fst x = fst y" for x y using that by (simp add: tree_row_def)
    show "\<forall>x\<in>set ?B. ?ok x \<and> snd x = 0" by (rule base(1))
    show "distinct (map fst ?B)" by (rule base(2))
  qed (simp_all add: edge bound)
  have "(fo_pk f, folder_level rows (fo_pk f)) \<in> set tree" if f: "f \<in> set rows" "in_kb kb_pk user_id f" for f
  proof -
    obtain r where r: "r \<in> set rows" "fo_is_root r" "(fo_pk f, fo_pk r) \<in> (parent_rel rows)\<^sup>*" "in_kb kb_pk user_id r"
      using forest_reaches_root [OF forest f(1)] f(2) by metis
    have start: "(fo_pk r, 0) \<in> set ?B" using r by (auto simp: folder_tree_base_def)
    from r(3) have "((fo_pk r, 0), (fo_pk f, folder_level rows (fo_pk f))) \<in> (edges_of ?X)\<^sup>* \<and>
        ?ok (fo_pk f, folder_level rows (fo_pk f))"
    proof (induction rule: converse_rtrancl_induct)
      case base
      then show ?case using start tree_base_rows(1) [OF forest] folder_level_root [OF forest r(1,2)] by fastforce
    next
      case (step c d)
      let ?c = "(c, folder_level rows c)" and ?d = "(d, folder_level rows d)"
      have "?c \<in> set (?X ?d)"
        using tree_edge_conv [OF forest _ step(1), of kb_pk user_id "folder_level rows d"] step.IH
          folder_level_child [OF forest step(1)] by simp
      then show ?case using step.IH edge [of ?d ?c] by (auto simp: edges_of_def intro: rtrancl_into_rtrancl)
    qed
    then show ?thesis using start unfolding closure_query_set [OF tree] by blast
  qed
  then show ?thesis using that [of tree] tree props by (simp add: folder_tree_step_expand)
qed

lemma filter_key_single:
  "distinct (map key xs) \<Longrightarrow> x \<in> set xs \<Longrightarrow> filter (\<lambda>y. key y = key x) xs = [x]"
proof (induction xs)
  case (Cons a xs)
  show ?case
  proof (cases "x = a")
    case True
    then have "filter (\<lambda>y. key y = key x) xs = []" using Cons.prems(1) by (auto simp: filter_empty_conv image_iff)
    then show ?thesis using True by simp
  next
    case False
    then have "key a \<noteq> key x" using Cons.prems by (auto simp: image_iff)
    then show ?thesis using Cons False by simp
  qed
qed simp

lemma concat_singletons: "(\<And>x. x \<in> set xs \<Longrightarrow> g x = [h x]) \<Longrightarrow> concat (map g xs) = map h xs"
  by (induction xs) auto

lemma map_sort_key: "map h (sort_key k (map g xs)) = map (h \<circ> g) (sort_key (k \<circ> g) xs)"
proof -
  have "insort_key k (g x) (map g ys) = map g (insort_key (k \<circ> g) x ys)" for x ys
    by (induction ys) auto
  then have "sort_key k (map g xs) = map g (sort_key (k \<circ> g) xs)" by (induction xs) auto
  then show ?thesis by simp
qed

lemma list_folders_forest:
  assumes forest: "folder_forest (fd_folders db)"
  shows "list_folders kb_pk user_id db = Some (sort_key (\<lambda>f. (folder_level (fd_folders db) (fo_pk f), fo_pk f))
     (filter (in_kb kb_pk user_id) (fd_folders db)))"
proof -
  let ?rows = "fd_folders db"
  let ?g = "\<lambda>f. (f, folder_level ?rows (fo_pk f))"
  obtain tree where tree: "recursive_query (folder_tree_step kb_pk user_id ?rows) (folder_tree_base kb_pk user_id ?rows) = Some tree"
    and single: "distinct (map fst tree)"
    and all: "\<forall>f\<in>set ?rows. in_kb kb_pk user_id f \<longrightarrow> (fo_pk f, folder_level ?rows (fo_pk f)) \<in> set tree"
    by (rule tree_query_rows [OF forest])
  have "map (\<lambda>t. (f, snd t)) (filter (\<lambda>t. fst t = fo_pk f) tree) = [?g f]"
    if "f \<in> set (filter (in_kb kb_pk user_id) ?rows)" for f
    using filter_key_single [OF single, of "(fo_pk f, folder_level ?rows (fo_pk f))"] all that by simp
  then have "join_tree kb_pk user_id ?rows tree = map ?g (filter (in_kb kb_pk user_id) ?rows)"
    unfolding join_tree_def by (intro concat_singletons)
  then show ?thesis
    by (simp add: list_folders_def tree map_sort_key comp_def)
qed

end
