(* ===== verification/FolderOps.thy ===== *)
theory FolderOps
  imports FolderForest
begin

text \<open>
  The folder handlers over time: the states they reach keep the forest, and what the handlers answer
  there.
\<close>

subsection \<open>Every handler keeps the forest\<close>

lemma folder_flush_Inr [tx_simps]: "folder_flush db = Inr (u, db') \<longleftrightarrow> folder_constraints (fd_folders db) \<and> db' = db"
  by (simp add: folder_flush_def eq_commute)

lemma flush_or_duplicate_Inr [tx_simps]: "flush_or_duplicate db = Inr (u, db') \<longleftrightarrow> folder_constraints (fd_folders db) \<and> db' = db"
  by (simp add: flush_or_duplicate_def folder_flush_def eq_commute)

lemma root_ofD: "root_of kb_pk db = Some r \<Longrightarrow> r \<in> set (fd_folders db) \<and> fo_is_root r \<and> fo_knowledge_base_pk r = kb_pk"
  by (auto simp: root_of_def dest: find_SomeD)

lemma get_folder_by_idD:
  "get_folder_by_id fid u db = Some f \<Longrightarrow> f \<in> set (fd_folders db) \<and> fo_id f = fid \<and> fo_user_id f = u"
  by (auto simp: get_folder_by_id_def dest: find_SomeD)

lemma ensure_root_forest:
  assumes "ensure_root_folder new_pk uid others user_id kb_id kb_pk db = Inr (r, db')"
    and "folder_forest (fd_folders db)" and "folder_forest (fd_folders db @ others)"
  shows "folder_forest (fd_folders db')"
proof (cases "root_of kb_pk db")
  case (Some r')
  then show ?thesis using assms(1,2) by (simp add: ensure_root_folder_def)
next
  case None
  let ?rows = "fd_folders db @ others"
  define row where "row = \<lparr>fo_pk = new_pk, fo_id = ''fld_root_'' @ uid, fo_user_id = user_id,
      fo_knowledge_base_id = kb_id, fo_knowledge_base_pk = kb_pk, fo_parent_pk = 0, fo_name = ''/'',
      fo_normalized_name = ''/'', fo_is_root = True\<rparr>"
  have "fd_folders db' = ?rows \<or> folder_constraints (?rows @ [row]) \<and>
      folder_constraints (update_where (\<lambda>f. fo_pk f = new_pk) (\<lambda>f. f\<lparr>fo_parent_pk := new_pk\<rparr>) (?rows @ [row])) \<and>
      fd_folders db' = update_where (\<lambda>f. fo_pk f = new_pk) (\<lambda>f. f\<lparr>fo_parent_pk := new_pk\<rparr>) (?rows @ [row])"
    using assms(1) unfolding ensure_root_folder_def None row_def
    by (auto simp: Let_def tx_simps split: sum.splits option.splits)
  then show ?thesis
  proof
    assume new: "folder_constraints (?rows @ [row]) \<and>
      folder_constraints (update_where (\<lambda>f. fo_pk f = new_pk) (\<lambda>f. f\<lparr>fo_parent_pk := new_pk\<rparr>) (?rows @ [row])) \<and>
      fd_folders db' = update_where (\<lambda>f. fo_pk f = new_pk) (\<lambda>f. f\<lparr>fo_parent_pk := new_pk\<rparr>) (?rows @ [row])"
    then have "update_where (\<lambda>f. fo_pk f = new_pk) (\<lambda>f. f\<lparr>fo_parent_pk := new_pk\<rparr>) ?rows = ?rows"
      by (auto simp: update_where_def folder_constraints_def row_def intro!: map_idI)
    then have "update_where (\<lambda>f. fo_pk f = new_pk) (\<lambda>f. f\<lparr>fo_parent_pk := new_pk\<rparr>) (?rows @ [row]) =
        ?rows @ [row\<lparr>fo_parent_pk := new_pk\<rparr>]"
      by (simp add: update_where_def row_def)
    then show ?thesis
      using new forest_add_root [OF assms(3), of "row\<lparr>fo_parent_pk := new_pk\<rparr>"] by (simp add: row_def)
  qed (use assms(3) in simp)
qed

lemma create_knowledge_base_forest:
  assumes "create_knowledge_base kb_pk new_pk uid kb_id user_id name descr is_default db = Inr (k, db')"
    and "folder_forest (fd_folders db)"
  shows "folder_forest (fd_folders db')"
  using assms ensure_root_forest [of new_pk uid "[]" user_id kb_id kb_pk _ _ db']
  by (auto simp: create_knowledge_base_def Let_def tx_simps split: if_splits)

lemma default_knowledge_base_forest:
  assumes "get_or_create_default_knowledge_base kb_pk new_pk uid kb_uid user_id db = Inr (k, db')"
    and "folder_forest (fd_folders db)"
  shows "folder_forest (fd_folders db')"
proof -
  obtain found k1 db1 r where found: "get_default_knowledge_base_by_user_id user_id db = Inr found"
    and made: "(case found of Some k \<Rightarrow> treturn k
       | None \<Rightarrow> create_knowledge_base kb_pk new_pk uid (''kb_'' @ kb_uid) user_id ''Default Knowledge Base''
           (Some ''Default personal knowledge base'') True) db = Inr (k1, db1)"
    and root: "ensure_root_folder new_pk uid [] user_id (kn_id k1) (kn_pk k1) db1 = Inr (r, db')"
    using assms(1) unfolding get_or_create_default_knowledge_base_def by (auto simp: tx_simps)
  have "folder_forest (fd_folders db1)"
    using made assms(2) create_knowledge_base_forest by (auto simp: tx_simps split: option.splits)
  then show ?thesis using ensure_root_forest [OF root] by simp
qed

lemma create_folder_forest:
  assumes "create_folder new_pk uid kb_id parent_id name user_id db = Inr (item, db')"
    and "folder_forest (fd_folders db)"
  shows "folder_forest (fd_folders db')"
proof -
  obtain kb where kb: "owned_knowledge_base kb_id user_id db = Inr kb"
    using assms(1) by (auto simp: create_folder_def tx_simps)
  obtain parent where parent: "get_folder_by_id parent_id user_id db = Some parent"
    using assms(1) kb by (auto simp: create_folder_def tx_simps split: option.splits)
  obtain d where d: "display_folder_name name = Inr d"
    using assms(1) kb parent by (auto simp: create_folder_def tx_simps)
  have kb_pk: "fo_knowledge_base_pk parent = kn_pk kb"
    using assms(1) kb parent by (auto simp: create_folder_def tx_simps)
  have eq: "fd_folders db' = fd_folders db @ [\<lparr>fo_pk = new_pk, fo_id = ''fld_'' @ uid, fo_user_id = user_id,
               fo_knowledge_base_id = kn_id kb, fo_knowledge_base_pk = kn_pk kb, fo_parent_pk = fo_pk parent,
               fo_name = d, fo_normalized_name = normalize_folder_name d, fo_is_root = False\<rparr>]"
    and con: "folder_constraints (fd_folders db')"
    using assms(1) kb parent d by (auto simp: create_folder_def tx_simps Let_def)
  from con show ?thesis unfolding eq
    using get_folder_by_idD [OF parent] kb_pk
    by (intro forest_add_child [OF assms(2), where p = parent]) auto
qed

lemma assign_folder_simps [simp]:
  "fo_pk (assign_folder p n f) = fo_pk f"
  "fo_id (assign_folder p n f) = fo_id f"
  "fo_is_root (assign_folder p n f) = fo_is_root f"
  "fo_user_id (assign_folder p n f) = fo_user_id f"
  "fo_knowledge_base_pk (assign_folder p n f) = fo_knowledge_base_pk f"
  "fo_parent_pk (assign_folder p n f) = (case p of None \<Rightarrow> fo_parent_pk f | Some q \<Rightarrow> fo_pk q)"
  by (auto simp: assign_folder_def Let_def split: option.splits)

lemma plan_update_move:
  assumes forest: "folder_forest (fd_folders db)"
    and t: "get_folder_by_id fid u db = Some t" "\<not> fo_is_root t"
    and q: "up_parent_id payload = Some pid" "get_folder_by_id pid u db = Some q"
      "fo_knowledge_base_pk q = fo_knowledge_base_pk t"
  shows "plan_update fid payload u db =
    Some (if (fo_pk q, fo_pk t) \<in> (parent_rel (fd_folders db))\<^sup>*
      then Inl (BusinessException ''folder cannot be moved beneath itself or a descendant'' 4025 400)
      else ebind (planned_name payload) (\<lambda>n. Inr (t, Some q, n)))"
  by (auto simp: plan_update_def t q descendants_forest [OF forest] validate_folder_move_def rtrancl_eq_or_trancl)

lemma plan_updateD:
  assumes plan: "plan_update fid payload u db = Some (Inr (t, p, n))" and forest: "folder_forest (fd_folders db)"
  shows "t \<in> set (fd_folders db)" and "\<not> fo_is_root t"
    and "p = Some q \<Longrightarrow> q \<in> set (fd_folders db) \<and> fo_user_id q = fo_user_id t \<and>
      fo_knowledge_base_pk q = fo_knowledge_base_pk t \<and> (fo_pk q, fo_pk t) \<notin> (parent_rel (fd_folders db))\<^sup>*"
proof -
  obtain t' where t': "get_folder_by_id fid u db = Some t'" "\<not> fo_is_root t'"
    using plan by (auto simp: plan_update_def split: option.splits if_splits)
  have "t = t' \<and> (p = Some q \<longrightarrow> get_folder_by_id (the (up_parent_id payload)) u db = Some q \<and>
      fo_knowledge_base_pk q = fo_knowledge_base_pk t' \<and> (fo_pk q, fo_pk t') \<notin> (parent_rel (fd_folders db))\<^sup>*)"
  proof (cases "up_parent_id payload")
    case None
    then show ?thesis using plan t' by (auto simp: plan_update_def)
  next
    case (Some pid)
    then obtain q' where q': "get_folder_by_id pid u db = Some q'" "fo_knowledge_base_pk q' = fo_knowledge_base_pk t'"
      using plan t' by (auto simp: plan_update_def split: option.splits if_splits)
    from plan_update_move [OF forest t' Some q'] plan show ?thesis
      using q' Some by (auto split: if_splits dest!: sym [of "Inr (t, p, n)"])
  qed
  then show "t \<in> set (fd_folders db)" "\<not> fo_is_root t"
    "p = Some q \<Longrightarrow> q \<in> set (fd_folders db) \<and> fo_user_id q = fo_user_id t \<and>
      fo_knowledge_base_pk q = fo_knowledge_base_pk t \<and> (fo_pk q, fo_pk t) \<notin> (parent_rel (fd_folders db))\<^sup>*"
    using t' get_folder_by_idD by auto
qed

lemma write_updateD:
  assumes "write_update (t, p, n) db = Inr (item, db')"
  shows "fd_folders db' = update_where (\<lambda>f. fo_pk f = fo_pk t) (assign_folder p n) (fd_folders db)"
    and "folder_constraints (fd_folders db')"
    and "fd_documents db' = fd_documents db" and "fd_knowledge_bases db' = fd_knowledge_bases db"
  using assms by (auto simp: write_update_def Let_def tx_simps split: option.splits)

lemma update_folder_forest:
  assumes "update_folder fid payload u db = Some (Inr (item, db'))" and forest: "folder_forest (fd_folders db)"
  shows "folder_forest (fd_folders db')"
proof -
  obtain t p n where plan: "plan_update fid payload u db = Some (Inr (t, p, n))"
    and w: "write_update (t, p, n) db = Inr (item, db')"
    using assms(1) by (auto simp: update_folder_def)
  note t = plan_updateD(1,2) [OF plan forest]
  obtain q where q: "q \<in> set (fd_folders db)" "fo_pk q = fo_parent_pk (assign_folder p n t)" "fo_user_id q = fo_user_id t"
    "fo_knowledge_base_pk q = fo_knowledge_base_pk t" "(fo_pk q, fo_pk t) \<notin> (parent_rel (fd_folders db))\<^sup>*"
  proof (cases p)
    case None
    have "folder_ok (fd_folders db) t" using forest t by (simp add: folder_forest_def)
    then obtain q where q: "q \<in> set (fd_folders db)" "fo_pk q = fo_parent_pk t" "fo_user_id q = fo_user_id t"
        "fo_knowledge_base_pk q = fo_knowledge_base_pk t"
      using t by (auto simp: folder_ok_def)
    have "(fo_pk t, fo_pk q) \<in> parent_rel (fd_folders db)" using t q by (auto simp: parent_rel_def)
    then have "(fo_pk q, fo_pk t) \<notin> (parent_rel (fd_folders db))\<^sup>*"
      using forest_no_loop [OF forest, of "fo_pk t"] by (auto dest: rtrancl_into_trancl2)
    then show thesis using that [of q] q None by simp
  next
    case (Some q)
    then show thesis using that [of q] plan_updateD(3) [OF plan forest Some] by simp
  qed
  show ?thesis
    using write_updateD [OF w] q
    by (auto intro!: forest_rewrite [OF forest t, where p = q])
qed

lemma delete_folder_forest:
  assumes "delete_folder fid u db = Inr (r, db')" and forest: "folder_forest (fd_folders db)"
  shows "folder_forest (fd_folders db')"
proof -
  obtain t where found: "get_folder_by_id fid u db = Some t"
    using assms(1) by (auto simp: delete_folder_def tx_simps split: option.splits)
  then have t: "\<not> folder_has_contents (fo_pk t) db"
    and eq: "fd_folders db' = delete_where (\<lambda>f. fo_pk f = fo_pk t) (fd_folders db)"
    using assms(1) by (auto simp: delete_folder_def tx_simps)
  show ?thesis unfolding eq
    using t by (intro forest_remove [OF forest]) (auto simp: folder_has_contents_def list_ex_iff)
qed

lemma delete_knowledge_base_forest:
  "delete_knowledge_base_by_id refd kid db = Inr (n, db') \<Longrightarrow> folder_forest (fd_folders db) \<Longrightarrow>
   folder_forest (fd_folders db')"
  using forest_remove [of "fd_folders db" "\<lambda>f. fo_knowledge_base_pk f \<in> set (map kn_pk (filter (\<lambda>k. kn_id k = kid) (fd_knowledge_bases db)))"]
  by (auto simp: delete_knowledge_base_by_id_def Let_def split: if_splits)

lemma move_document_folders: "move_document did fid u db = Inr (r, db') \<Longrightarrow> fd_folders db' = fd_folders db"
  by (auto simp: move_document_def move_document_to_folder_def tx_simps split: option.splits)

subsection \<open>Reachable states\<close>

text \<open>Documents come and go by the upload and deletion pipelines, so their rows are unconstrained.\<close>

inductive folder_reachable :: "folder_db \<Rightarrow> bool" where
  empty: "folder_reachable \<lparr>fd_folders = [], fd_documents = docs, fd_knowledge_bases = []\<rparr>"
| documents: "folder_reachable db \<Longrightarrow> folder_reachable (db\<lparr>fd_documents := docs\<rparr>)"
| ensure_root: "folder_reachable db \<Longrightarrow> folder_reachable (db\<lparr>fd_folders := fd_folders db @ others\<rparr>) \<Longrightarrow>
    ensure_root_folder new_pk uid others user_id kb_id kb_pk db = Inr (r, db') \<Longrightarrow> folder_reachable db'"
| create_kb: "folder_reachable db \<Longrightarrow>
    create_knowledge_base kb_pk new_pk uid kb_id user_id name descr is_default db = Inr (k, db') \<Longrightarrow> folder_reachable db'"
| default_kb: "folder_reachable db \<Longrightarrow>
    get_or_create_default_knowledge_base kb_pk new_pk uid kb_uid user_id db = Inr (k, db') \<Longrightarrow> folder_reachable db'"
| delete_kb: "folder_reachable db \<Longrightarrow> delete_knowledge_base_by_id refd kb_id db = Inr (n, db') \<Longrightarrow> folder_reachable db'"
| create: "folder_reachable db \<Longrightarrow> create_folder new_pk uid kb_id parent_id name user_id db = Inr (item, db') \<Longrightarrow>
    folder_reachable db'"
| update: "folder_reachable db \<Longrightarrow> update_folder folder_id payload user_id db = Some (Inr (item, db')) \<Longrightarrow>
    folder_reachable db'"
| delete: "folder_reachable db \<Longrightarrow> delete_folder folder_id user_id db = Inr (did, db') \<Longrightarrow> folder_reachable db'"
| move: "folder_reachable db \<Longrightarrow> move_document document_id folder_id user_id db = Inr (ids, db') \<Longrightarrow> folder_reachable db'"

lemma reachable_forest: "folder_reachable db \<Longrightarrow> folder_forest (fd_folders db)"
proof (induction rule: folder_reachable.induct)
  case (ensure_root db others new_pk uid user_id kb_id kb_pk r db')
  then show ?case using ensure_root_forest [OF ensure_root(3)] by simp
qed (auto intro: create_knowledge_base_forest default_knowledge_base_forest create_folder_forest
    update_folder_forest delete_folder_forest delete_knowledge_base_forest dest: move_document_folders)

end
