(* ===== verification/FolderTree.thy ===== *)
theory FolderTree
  imports FolderOps
begin

text \<open>
  The folder tree of the client: the links \<open>_build_folder_tree\<close> makes, and that reading them back from
  the listing of a knowledge base gives every folder once, under its parent.
\<close>

subsection \<open>Links and their unfolding\<close>

definition links_under :: "folder list \<Rightarrow> int \<Rightarrow> folder \<Rightarrow> bool" where
  "links_under L pk f \<longleftrightarrow> \<not> fo_is_root f \<and>
     (case folders_by_pk L (fo_parent_pk f) of None \<Rightarrow> False | Some p \<Rightarrow> \<not> fo_is_root p \<and> fo_pk p = pk)"

definition links_top :: "folder list \<Rightarrow> folder \<Rightarrow> bool" where
  "links_top L f \<longleftrightarrow> \<not> fo_is_root f \<and>
     (case folders_by_pk L (fo_parent_pk f) of None \<Rightarrow> True | Some p \<Rightarrow> fo_is_root p)"

lemma fold_link_folder:
  "fold (link_folder L) fs st =
     \<lparr>ts_children = (\<lambda>pk. ts_children st pk @ map fo_pk (filter (links_under L pk) fs)),
      ts_roots = ts_roots st @ map fo_pk (filter (links_top L) fs)\<rparr>"
proof (induction fs arbitrary: st)
  case (Cons f fs)
  have "link_folder L f st =
     \<lparr>ts_children = (\<lambda>pk. ts_children st pk @ map fo_pk (filter (links_under L pk) [f])),
      ts_roots = ts_roots st @ map fo_pk (filter (links_top L) [f])\<rparr>"
    by (auto simp: link_folder_def links_under_def links_top_def fun_eq_iff split: option.split)
  then show ?case by (simp add: Cons.IH fun_eq_iff)
qed simp

lemma link_folders_eq:
  "link_folders L = \<lparr>ts_children = (\<lambda>pk. map fo_pk (filter (links_under L pk) L)),
     ts_roots = map fo_pk (filter (links_top L) L)\<rparr>"
  by (simp add: link_folders_def fold_link_folder)

lemma collect_some_map:
  "(\<And>x. x \<in> set xs \<Longrightarrow> \<exists>y. g x = Some y) \<Longrightarrow> collect_some (map g xs) = Some (map (the \<circ> g) xs)"
  by (induction xs) force+

lemma distinct_concat_map:
  "distinct xs \<Longrightarrow> (\<And>x. x \<in> set xs \<Longrightarrow> distinct (g x)) \<Longrightarrow>
   (\<And>x y. x \<in> set xs \<Longrightarrow> y \<in> set xs \<Longrightarrow> x \<noteq> y \<Longrightarrow> set (g x) \<inter> set (g y) = {}) \<Longrightarrow> distinct (concat (map g xs))"
proof (induction xs)
  case (Cons a xs)
  have "set (g a) \<inter> (\<Union>x\<in>set xs. set (g x)) = {}"
    using Cons.prems(1) Cons.prems(3) [of a] by fastforce
  then show ?case using Cons by simp
qed simp

text \<open>What an item tells: its id, the id of the item it sits in, its \<open>parent_id\<close> and its name.\<close>

fun item_rows :: "string \<Rightarrow> folder_item \<Rightarrow> (string \<times> string \<times> string \<times> string) list" where
  "item_rows holder (FolderItem i p n r items) = (i, holder, p, n) # concat (map (item_rows i) items)"

definition parent_in :: "folder list \<Rightarrow> folder \<Rightarrow> folder" where
  "parent_in L f = the (folders_by_pk L (fo_parent_pk f))"

definition told :: "folder list \<Rightarrow> folder \<Rightarrow> string \<times> string \<times> string \<times> string" where
  "told L f = (fo_id f, fo_id (parent_in L f), fo_id (parent_in L f), fo_name f)"

definition kb_listing :: "folder list \<Rightarrow> int \<Rightarrow> int \<Rightarrow> folder list \<Rightarrow> bool" where
  "kb_listing rows kb_pk user_id L \<longleftrightarrow> folder_forest rows \<and> distinct L \<and> set L = {f \<in> set rows. in_kb kb_pk user_id f}"

lemma listing_lookup:
  assumes "kb_listing rows kb u L" and "f \<in> set L"
  shows "folders_by_pk L (fo_pk f) = Some f"
proof -
  have "g = f" if "g \<in> set (rev L)" "fo_pk g = fo_pk f" for g
    using assms that forest_pk_unique [of rows g f] by (auto simp: kb_listing_def)
  then show ?thesis using assms(2) unfolding folders_by_pk_def by (intro find_unique) auto
qed

lemma listing_parent:
  assumes L: "kb_listing rows kb u L" and f: "f \<in> set L" "\<not> fo_is_root f"
  shows "folders_by_pk L (fo_parent_pk f) = Some (parent_in L f)" and "parent_in L f \<in> set L"
    and "fo_pk (parent_in L f) = fo_parent_pk f" and "(fo_pk f, fo_pk (parent_in L f)) \<in> parent_rel rows"
proof -
  have "folder_ok rows f" using L f by (simp add: kb_listing_def folder_forest_def)
  then obtain g where "g \<in> set L" "fo_pk g = fo_parent_pk f"
    using L f by (auto simp: folder_ok_def kb_listing_def)
  then have "folders_by_pk L (fo_parent_pk f) = Some g" "g \<in> set L" "fo_pk g = fo_parent_pk f"
    using listing_lookup [OF L, of g] by auto
  moreover from this have "parent_in L f = g" by (simp add: parent_in_def)
  moreover have "(fo_pk f, fo_parent_pk f) \<in> parent_rel rows"
    using L f by (auto simp: kb_listing_def parent_rel_def)
  ultimately show "folders_by_pk L (fo_parent_pk f) = Some (parent_in L f)" "parent_in L f \<in> set L"
    "fo_pk (parent_in L f) = fo_parent_pk f" "(fo_pk f, fo_pk (parent_in L f)) \<in> parent_rel rows"
    by simp_all
qed

lemma listing_edge:
  assumes L: "kb_listing rows kb u L" and "f \<in> set L" "c \<in> set L"
  shows "(fo_pk c, fo_pk f) \<in> parent_rel rows \<longleftrightarrow> \<not> fo_is_root c \<and> parent_in L c = f"
proof
  assume edge: "(fo_pk c, fo_pk f) \<in> parent_rel rows"
  have forest: "folder_forest rows" using L by (simp add: kb_listing_def)
  then have c: "\<not> fo_is_root c"
    using forest_root_top [OF forest, of c "fo_pk f"] edge L assms(3) by (auto simp: kb_listing_def)
  have "fo_pk (parent_in L c) = fo_pk f"
    using forest_parent_unique [OF forest] edge listing_parent(4) [OF L assms(3) c] by blast
  then have "parent_in L c = f"
    using listing_parent(2) [OF L assms(3) c] assms(2) L forest_pk_unique [OF forest] by (auto simp: kb_listing_def)
  with c show "\<not> fo_is_root c \<and> parent_in L c = f" by simp
next
  assume "\<not> fo_is_root c \<and> parent_in L c = f"
  then show "(fo_pk c, fo_pk f) \<in> parent_rel rows" using listing_parent(4) [OF L assms(3)] by auto
qed

lemma level_above:
  assumes forest: "folder_forest rows" and "(d, c) \<in> (parent_rel rows)\<^sup>*"
  shows "d = c \<or> folder_level rows c < folder_level rows d"
  using assms(2)
proof (induction rule: converse_rtrancl_induct)
  case (step d e)
  then show ?case using folder_level_child [OF forest, of d e] by auto
qed simp

lemma one_ancestor_per_level:
  assumes forest: "folder_forest rows" and "(d, c) \<in> (parent_rel rows)\<^sup>*" and "(d, c') \<in> (parent_rel rows)\<^sup>*"
    and "folder_level rows c = folder_level rows c'"
  shows "c = c'"
  using assms(2,3)
proof (induction rule: converse_rtrancl_induct)
  case base
  then show ?case using level_above [OF forest, of c c'] assms(4) by auto
next
  case (step d e)
  show ?case
  proof (cases rule: converse_rtranclE [OF step.prems])
    case 1
    have "folder_level rows c \<le> folder_level rows e"
      using level_above [OF forest step(2)] less_imp_le by blast
    also have "\<dots> < folder_level rows c'" unfolding 1 [symmetric] folder_level_child [OF forest step(1)] by simp
    finally show ?thesis unfolding assms(4) by (rule notE [OF less_irrefl])
  next
    case (2 e')
    then have "e' = e" using step(1) forest_parent_unique [OF forest] by blast
    then show ?thesis using 2(2) step.IH by simp
  qed
qed

lemma listing_children:
  assumes L: "kb_listing rows kb u L" and f: "f \<in> set L" "\<not> fo_is_root f"
  shows "filter (links_under L (fo_pk f)) L = filter (\<lambda>c. (fo_pk c, fo_pk f) \<in> parent_rel rows) L"
proof (rule filter_cong [OF refl])
  fix c assume c: "c \<in> set L"
  have "links_under L (fo_pk f) c \<longleftrightarrow> \<not> fo_is_root c \<and> parent_in L c = f"
  proof (cases "fo_is_root c")
    case False
    have "fo_pk (parent_in L c) = fo_pk f \<longleftrightarrow> parent_in L c = f"
      using listing_parent(2) [OF L c False] f(1) L forest_pk_unique [of rows] by (auto simp: kb_listing_def)
    then show ?thesis using False f(2) listing_parent(1) [OF L c False] by (auto simp: links_under_def)
  qed (simp add: links_under_def)
  then show "links_under L (fo_pk f) c = ((fo_pk c, fo_pk f) \<in> parent_rel rows)"
    using listing_edge [OF L f(1) c] by simp
qed

lemma told_inj: "kb_listing rows kb u L \<Longrightarrow> inj_on (told L) (set L)"
  unfolding inj_on_def told_def kb_listing_def folder_forest_def folder_constraints_def
  by (auto intro: distinct_key_unique [of fo_id rows])

lemma told_disjoint:
  assumes L: "kb_listing rows kb u L" and "A \<subseteq> set L" "B \<subseteq> set L" "A \<inter> B = {}"
  shows "told L ` A \<inter> told L ` B = {}"
  using inj_on_image_Int [OF told_inj [OF L] assms(2,3)] assms(4) by simp

abbreviation subtree_of :: "folder list \<Rightarrow> folder list \<Rightarrow> folder \<Rightarrow> folder set" where
  "subtree_of rows L f \<equiv> {c \<in> set L. (fo_pk c, fo_pk f) \<in> (parent_rel rows)\<^sup>*}"

lemma subtree_split:
  assumes L: "kb_listing rows kb u L" and f: "f \<in> set L"
  shows "subtree_of rows L f = insert f (\<Union>c\<in>{c \<in> set L. (fo_pk c, fo_pk f) \<in> parent_rel rows}. subtree_of rows L c)"
proof (intro set_eqI iffI)
  fix d assume d: "d \<in> subtree_of rows L f"
  show "d \<in> insert f (\<Union>c\<in>{c \<in> set L. (fo_pk c, fo_pk f) \<in> parent_rel rows}. subtree_of rows L c)"
  proof (cases "fo_pk d = fo_pk f")
    case True
    then have "d = f" using d f L forest_pk_unique [of rows d f] by (auto simp: kb_listing_def)
    then show ?thesis by simp
  next
    case False
    then obtain z where z: "(fo_pk d, z) \<in> (parent_rel rows)\<^sup>*" "(z, fo_pk f) \<in> parent_rel rows"
      using d by (auto elim: rtranclE)
    have forest: "folder_forest rows" using L by (simp add: kb_listing_def)
    obtain c g where c: "c \<in> set rows" "fo_pk c = z" and g: "g \<in> set rows" "fo_pk g = fo_pk f"
        "fo_user_id g = fo_user_id c" "fo_knowledge_base_pk g = fo_knowledge_base_pk c"
      by (rule forest_parent [OF forest z(2)])
    have "g = f" using forest_pk_unique [OF forest g(1) _ g(2)] f L by (simp add: kb_listing_def)
    then have "c \<in> set L" using c g f L by (simp add: kb_listing_def)
    then show ?thesis using z c d by blast
  qed
qed (use f in \<open>auto intro: rtrancl_into_rtrancl\<close>)

lemma subtrees_apart:
  assumes L: "kb_listing rows kb u L" and "c \<in> set L" "c' \<in> set L" "c \<noteq> c'"
    and "folder_level rows (fo_pk c) = folder_level rows (fo_pk c')"
  shows "subtree_of rows L c \<inter> subtree_of rows L c' = {}"
proof -
  have forest: "folder_forest rows" using L by (simp add: kb_listing_def)
  have "fo_pk c \<noteq> fo_pk c'" using assms(2-4) L forest_pk_unique [OF forest, of c c'] by (auto simp: kb_listing_def)
  then show ?thesis using one_ancestor_per_level [OF forest _ _ assms(5)] by blast
qed

lemma item_rows_item:
  "item_by_pk L (fo_pk f) = Some item \<Longrightarrow> f \<in> set L \<Longrightarrow> kb_listing rows kb u L \<Longrightarrow> \<not> fo_is_root f \<Longrightarrow>
   fi_id item = fo_id f \<and> fi_parent_id item = fo_id (parent_in L f) \<and> fi_name item = fo_name f"
  using listing_lookup [of rows kb u L f] listing_parent(1) [of rows kb u L f]
  by (auto simp: item_by_pk_def folder_item_of_def)

lemma unfold_item_complete:
  assumes L: "kb_listing rows kb u L"
  shows "f \<in> set L \<Longrightarrow> \<not> fo_is_root f \<Longrightarrow> card (parent_rel rows) < n + folder_level rows (fo_pk f) \<Longrightarrow>
    \<exists>item. unfold_item n L (link_folders L) (fo_pk f) = Some item \<and>
      distinct (item_rows (fo_id (parent_in L f)) item) \<and>
      set (item_rows (fo_id (parent_in L f)) item) = told L ` subtree_of rows L f"
proof (induction n arbitrary: f)
  case 0
  then show ?case using folder_level_bound [of rows "fo_pk f"] by simp
next
  case (Suc n)
  have forest: "folder_forest rows" using L by (simp add: kb_listing_def)
  define cs where "cs = filter (\<lambda>c. (fo_pk c, fo_pk f) \<in> parent_rel rows) L"
  define it where "it = (\<lambda>c :: folder. the (unfold_item n L (link_folders L) (fo_pk c)))"
  have cs: "c \<in> set L" "\<not> fo_is_root c" "parent_in L c = f" "(fo_pk c, fo_pk f) \<in> parent_rel rows"
    "folder_level rows (fo_pk c) = Suc (folder_level rows (fo_pk f))" if "c \<in> set cs" for c
    using that listing_edge [OF L Suc.prems(1), of c] folder_level_child [OF forest, of "fo_pk c" "fo_pk f"]
    by (auto simp: cs_def)
  have IH: "unfold_item n L (link_folders L) (fo_pk c) = Some (it c) \<and> distinct (item_rows (fo_id f) (it c)) \<and>
      set (item_rows (fo_id f) (it c)) = told L ` subtree_of rows L c" if "c \<in> set cs" for c
    using Suc.IH [OF cs(1,2) [OF that]] cs [OF that] Suc.prems(3) by (auto simp: it_def)
  have children: "ts_children (link_folders L) (fo_pk f) = map fo_pk cs"
    using listing_children [OF L Suc.prems(1,2)] by (simp add: link_folders_eq cs_def)
  obtain item where item: "item_by_pk L (fo_pk f) = Some item"
    using listing_lookup [OF L Suc.prems(1)] by (auto simp: item_by_pk_def)
  note fields = item_rows_item [OF item Suc.prems(1) L Suc.prems(2)]
  have "collect_some (map (\<lambda>c. unfold_item n L (link_folders L) (fo_pk c)) cs) =
      Some (map (the \<circ> (\<lambda>c. unfold_item n L (link_folders L) (fo_pk c))) cs)"
    using IH by (intro collect_some_map) blast
  then have "collect_some (map (unfold_item n L (link_folders L)) (map fo_pk cs)) = Some (map it cs)"
    by (simp add: comp_def it_def)
  then have unfolded: "unfold_item (Suc n) L (link_folders L) (fo_pk f) =
      Some (FolderItem (fo_id f) (fo_id (parent_in L f)) (fo_name f) (fi_is_root item) (map it cs))"
    using fields by (simp add: children item)
  have rows: "item_rows (fo_id (parent_in L f)) (FolderItem (fo_id f) (fo_id (parent_in L f)) (fo_name f) (fi_is_root item) (map it cs))
     = told L f # concat (map (\<lambda>c. item_rows (fo_id f) (it c)) cs)"
    by (simp add: told_def comp_def)
  have sets: "set (concat (map (\<lambda>c. item_rows (fo_id f) (it c)) cs)) = told L ` (\<Union>c\<in>set cs. subtree_of rows L c)"
    using IH by (auto simp: image_UN)
  have "f \<notin> (\<Union>c\<in>set cs. subtree_of rows L c)"
    using cs(4) forest_no_loop [OF forest, of "fo_pk f"] by (auto dest: rtrancl_into_trancl1)
  then have "told L f \<notin> set (concat (map (\<lambda>c. item_rows (fo_id f) (it c)) cs))"
    using told_disjoint [OF L, of "{f}" "\<Union>c\<in>set cs. subtree_of rows L c"] Suc.prems(1) unfolding sets by auto
  moreover have "distinct (concat (map (\<lambda>c. item_rows (fo_id f) (it c)) cs))"
  proof (rule distinct_concat_map)
    show "distinct cs" using L by (simp add: cs_def kb_listing_def)
    show "set (item_rows (fo_id f) (it c)) \<inter> set (item_rows (fo_id f) (it c')) = {}"
      if "c \<in> set cs" "c' \<in> set cs" "c \<noteq> c'" for c c'
      using IH [OF that(1)] IH [OF that(2)] cs [OF that(1)] cs [OF that(2)] that(3) subtrees_apart [OF L, of c c']
        told_disjoint [OF L, of "subtree_of rows L c" "subtree_of rows L c'"] by simp
  qed (use IH in blast)
  moreover have "insert f (\<Union>c\<in>set cs. subtree_of rows L c) = subtree_of rows L f"
    using subtree_split [OF L Suc.prems(1)] by (simp add: cs_def)
  ultimately have "distinct (told L f # concat (map (\<lambda>c. item_rows (fo_id f) (it c)) cs))"
    and "set (told L f # concat (map (\<lambda>c. item_rows (fo_id f) (it c)) cs)) = told L ` subtree_of rows L f"
    by (simp_all only: distinct.simps list.set(2) sets image_insert [symmetric] not_False_eq_True simp_thms)
  then show ?case unfolding rows [symmetric] using unfolded by blast
qed


lemma list_folders_listing:
  assumes "folder_forest (fd_folders db)"
  obtains L where "list_folders kb u db = Some L" and "kb_listing (fd_folders db) kb u L"
proof -
  have "distinct (fd_folders db)"
    using assms by (auto simp: folder_forest_def folder_constraints_def distinct_map)
  then have "kb_listing (fd_folders db) kb u (sort_key (\<lambda>f. (folder_level (fd_folders db) (fo_pk f), fo_pk f))
      (filter (in_kb kb u) (fd_folders db)))"
    using assms by (simp add: kb_listing_def)
  then show ?thesis using that list_folders_forest [OF assms] by blast
qed

lemma links_top_iff:
  assumes L: "kb_listing rows kb u L" and f: "f \<in> set L"
  shows "links_top L f \<longleftrightarrow> \<not> fo_is_root f \<and> fo_is_root (parent_in L f)"
  using listing_parent(1) [OF L f] by (auto simp: links_top_def)

lemma top_subtrees:
  assumes L: "kb_listing rows kb u L"
  shows "(\<Union>t\<in>set (filter (links_top L) L). subtree_of rows L t) = {f \<in> set L. \<not> fo_is_root f}"
proof (intro set_eqI iffI)
  have forest: "folder_forest rows" using L by (simp add: kb_listing_def)
  {
    fix f assume "f \<in> (\<Union>t\<in>set (filter (links_top L) L). subtree_of rows L t)"
    then obtain t where t: "t \<in> set L" "links_top L t" "f \<in> set L" "(fo_pk f, fo_pk t) \<in> (parent_rel rows)\<^sup>*" by auto
    have "\<not> fo_is_root t" using t(1,2) links_top_iff [OF L] by simp
    then have "0 < folder_level rows (fo_pk t)"
      using folder_level_0 [OF forest, of t] t(1) L by (auto simp: kb_listing_def)
    then have "0 < folder_level rows (fo_pk f)" using level_above [OF forest t(4)] by auto
    then have "\<not> fo_is_root f" using folder_level_root [OF forest, of f] t(3) L by (auto simp: kb_listing_def)
    then show "f \<in> {f \<in> set L. \<not> fo_is_root f}" using t(3) by simp
  next
    fix f assume f: "f \<in> {f \<in> set L. \<not> fo_is_root f}"
    obtain r where r: "r \<in> set rows" "fo_is_root r" "(fo_pk f, fo_pk r) \<in> (parent_rel rows)\<^sup>*"
        "fo_user_id r = fo_user_id f" "fo_knowledge_base_pk r = fo_knowledge_base_pk f"
      using forest_reaches_root [OF forest, of f] f L by (auto simp: kb_listing_def)
    have rL: "r \<in> set L" using r f L by (simp add: kb_listing_def)
    then have "f \<in> subtree_of rows L r" using r f by simp
    moreover have "f \<noteq> r" using f r(2) by auto
    ultimately obtain t where t: "t \<in> set L" "(fo_pk t, fo_pk r) \<in> parent_rel rows" "f \<in> subtree_of rows L t"
      unfolding subtree_split [OF L rL] by auto
    have "links_top L t" using links_top_iff [OF L t(1)] listing_edge [OF L rL t(1)] t(2) r(2) by simp
    then show "f \<in> (\<Union>t\<in>set (filter (links_top L) L). subtree_of rows L t)" using t by auto
  }
qed

lemma build_tree_complete:
  assumes L: "kb_listing rows kb u L" and fuel: "length rows \<le> fuel"
  obtains items where "build_folder_tree fuel L = Some items"
    and "distinct (concat (map (\<lambda>it. item_rows (fi_parent_id it) it) items))"
    and "set (concat (map (\<lambda>it. item_rows (fi_parent_id it) it) items)) = told L ` {f \<in> set L. \<not> fo_is_root f}"
    and "set (map fi_parent_id items) \<subseteq> fo_id ` {r \<in> set L. fo_is_root r}"
proof -
  have forest: "folder_forest rows" using L by (simp add: kb_listing_def)
  define ts where "ts = filter (links_top L) L"
  define it where "it = (\<lambda>t :: folder. the (unfold_item fuel L (link_folders L) (fo_pk t)))"
  have ts: "t \<in> set L" "\<not> fo_is_root t" "fo_is_root (parent_in L t)" "folder_level rows (fo_pk t) = 1" if "t \<in> set ts" for t
  proof -
    show t: "t \<in> set L" "\<not> fo_is_root t" "fo_is_root (parent_in L t)"
      using that links_top_iff [OF L, of t] by (simp_all add: ts_def)
    have "parent_in L t \<in> set rows" using listing_parent(2) [OF L t(1,2)] L by (simp add: kb_listing_def)
    then show "folder_level rows (fo_pk t) = 1"
      using folder_level_child [OF forest listing_parent(4) [OF L t(1,2)]] folder_level_root [OF forest _ t(3)] by simp
  qed
  have "card (parent_rel rows) \<le> card (set rows)"
    unfolding parent_rel_image by (rule order_trans [OF card_image_le]) (auto intro!: card_mono)
  then have "card (parent_rel rows) \<le> length rows" using card_length [of rows] by simp
  then have it: "unfold_item fuel L (link_folders L) (fo_pk t) = Some (it t) \<and> distinct (item_rows (fo_id (parent_in L t)) (it t)) \<and>
      set (item_rows (fo_id (parent_in L t)) (it t)) = told L ` subtree_of rows L t" if "t \<in> set ts" for t
    using unfold_item_complete [OF L ts(1,2) [OF that], of fuel] ts(4) [OF that] fuel by (auto simp: it_def)
  have parent: "fi_parent_id (it t) = fo_id (parent_in L t)" if "t \<in> set ts" for t
  proof -
    obtain i p n r cs where e: "it t = FolderItem i p n r cs" by (cases "it t")
    have "(i, fo_id (parent_in L t), p, n) \<in> told L ` subtree_of rows L t" using it [OF that] e by (auto simp del: image_iff)
    then show ?thesis using e by (auto simp: told_def)
  qed
  have "build_folder_tree fuel L = Some (map it ts)"
  proof -
    have "collect_some (map (\<lambda>t. unfold_item fuel L (link_folders L) (fo_pk t)) ts) =
        Some (map (the \<circ> (\<lambda>t. unfold_item fuel L (link_folders L) (fo_pk t))) ts)"
      using it by (intro collect_some_map) blast
    then show ?thesis by (simp add: build_folder_tree_def Let_def link_folders_eq ts_def [symmetric] comp_def it_def)
  qed
  moreover have rows: "map (\<lambda>it. item_rows (fi_parent_id it) it) (map it ts) = map (\<lambda>t. item_rows (fo_id (parent_in L t)) (it t)) ts"
    using parent by simp
  moreover have "distinct (concat (map (\<lambda>t. item_rows (fo_id (parent_in L t)) (it t)) ts))"
  proof (rule distinct_concat_map)
    show "distinct ts" using L by (simp add: ts_def kb_listing_def)
    show "set (item_rows (fo_id (parent_in L t)) (it t)) \<inter> set (item_rows (fo_id (parent_in L t')) (it t')) = {}"
      if "t \<in> set ts" "t' \<in> set ts" "t \<noteq> t'" for t t'
      using it [OF that(1)] it [OF that(2)] ts [OF that(1)] ts [OF that(2)] that(3) subtrees_apart [OF L, of t t']
        told_disjoint [OF L, of "subtree_of rows L t" "subtree_of rows L t'"] by simp
  qed (use it in blast)
  moreover have "set (concat (map (\<lambda>t. item_rows (fo_id (parent_in L t)) (it t)) ts)) = told L ` {f \<in> set L. \<not> fo_is_root f}"
    using it unfolding top_subtrees [OF L, symmetric] ts_def [symmetric] by (auto simp: image_UN)
  moreover have "set (map fi_parent_id (map it ts)) \<subseteq> fo_id ` {r \<in> set L. fo_is_root r}"
    using parent ts listing_parent(2) [OF L] by (auto intro!: imageI)
  ultimately show ?thesis using that [of "map it ts"] unfolding rows by blast
qed

end
