(* ===== verification/FolderProps.thy ===== *)
theory FolderProps
  imports FolderTree
begin

text \<open>The properties of the document folders, with a small folder table as their witness.\<close>

subsection \<open>A folder table\<close>

text \<open>User 7 creates a knowledge base, two folders under its root and one in the first of them.\<close>

definition sample_folder :: "int \<Rightarrow> string \<Rightarrow> int \<Rightarrow> string \<Rightarrow> folder" where
  "sample_folder pk uid parent name = \<lparr>fo_pk = pk, fo_id = ''fld_'' @ uid, fo_user_id = 7,
     fo_knowledge_base_id = ''kb1'', fo_knowledge_base_pk = 1, fo_parent_pk = parent, fo_name = name,
     fo_normalized_name = casefold name, fo_is_root = False\<rparr>"

definition sample_root :: folder where
  "sample_root = \<lparr>fo_pk = 10, fo_id = ''fld_root_r'', fo_user_id = 7, fo_knowledge_base_id = ''kb1'',
     fo_knowledge_base_pk = 1, fo_parent_pk = 10, fo_name = ''/'', fo_normalized_name = ''/'', fo_is_root = True\<rparr>"

definition sample_kb :: knowledge_base where
  "sample_kb = \<lparr>kn_pk = 1, kn_id = ''kb1'', kn_user_id = 7, kn_name = ''K'', kn_description = None, kn_is_default = False\<rparr>"

definition sample_fdb :: "folder list \<Rightarrow> folder_db" where
  "sample_fdb fs = \<lparr>fd_folders = sample_root # fs, fd_documents = [], fd_knowledge_bases = [sample_kb]\<rparr>"

definition sample_fa :: folder where "sample_fa = sample_folder 11 ''a'' 10 ''Docs''"
definition sample_fb :: folder where "sample_fb = sample_folder 12 ''b'' 10 ''Notes''"
definition sample_fc :: folder where "sample_fc = sample_folder 13 ''c'' 11 ''Old''"

lemmas sample_folder_defs = sample_folder_def sample_root_def sample_kb_def sample_fdb_def sample_fa_def sample_fb_def
  sample_fc_def

lemma sample_folders_run:
  "create_knowledge_base 1 10 ''r'' ''kb1'' 7 ''K'' None False \<lparr>fd_folders = [], fd_documents = [], fd_knowledge_bases = []\<rparr>
     = Inr (sample_kb, sample_fdb [])"
  "create_folder 11 ''a'' ''kb1'' ''fld_root_r'' '' Docs '' 7 (sample_fdb []) =
     Inr (folder_item_of sample_fa ''fld_root_r'', sample_fdb [sample_fa])"
  "create_folder 12 ''b'' ''kb1'' ''fld_root_r'' ''Notes'' 7 (sample_fdb [sample_fa]) =
     Inr (folder_item_of sample_fb ''fld_root_r'', sample_fdb [sample_fa, sample_fb])"
  "create_folder 13 ''c'' ''kb1'' ''fld_a'' ''Old'' 7 (sample_fdb [sample_fa, sample_fb]) =
     Inr (folder_item_of sample_fc ''fld_a'', sample_fdb [sample_fa, sample_fb, sample_fc])"
  by code_simp+

abbreviation sample_tree :: folder_db where
  "sample_tree \<equiv> sample_fdb [sample_fa, sample_fb, sample_fc]"

lemma sample_tree_reachable: "folder_reachable sample_tree"
  by (rule folder_reachable.create [OF folder_reachable.create [OF folder_reachable.create [OF
        folder_reachable.create_kb [OF folder_reachable.empty sample_folders_run(1)] sample_folders_run(2)]
        sample_folders_run(3)] sample_folders_run(4)])

subsection \<open>Properties\<close>

text \<open>
  C21. Whatever the handlers do, in any order and with any requests, the folder table stays a forest:
  one root per knowledge base, sibling names unique, and following the parents of any folder ends at
  the root of its own knowledge base, owned by the same user.
\<close>
theorem folders_stay_forest:
  assumes "folder_reachable db"
  shows "folder_constraints (fd_folders db) \<and> acyclic (parent_rel (fd_folders db)) \<and>
    (\<forall>f. f \<in> set (fd_folders db) \<longrightarrow> (\<exists>r. r \<in> set (fd_folders db) \<and> fo_is_root r \<and> fo_user_id r = fo_user_id f \<and>
      fo_knowledge_base_pk r = fo_knowledge_base_pk f \<and> (fo_pk f, fo_pk r) \<in> (parent_rel (fd_folders db))\<^sup>*))"
proof -
  note forest = reachable_forest [OF assms]
  then show ?thesis
    using forest_reaches_root [OF forest] by (auto simp: folder_forest_def) metis
qed

lemma folders_stay_forest_witness:
  "acyclic (parent_rel (fd_folders sample_tree)) \<and> (\<exists>r. r \<in> set (fd_folders sample_tree) \<and> fo_is_root r \<and>
     (13, fo_pk r) \<in> (parent_rel (fd_folders sample_tree))\<^sup>*)"
proof -
  have "sample_fc \<in> set (fd_folders sample_tree)" "fo_pk sample_fc = 13" by (simp_all add: sample_folder_defs)
  then show ?thesis using folders_stay_forest [OF sample_tree_reachable] by metis
qed

text \<open>
  C22. In a state the handlers reach, the two recursive queries return: the descendants of a folder are
  exactly the folders strictly below it, and the listing of a knowledge base has each of its folders
  once, level by level and by primary key within a level.
\<close>
theorem folder_queries_return:
  assumes "folder_reachable db"
  shows "descendant_folder_pks pk db = Some {c. (c, pk) \<in> (parent_rel (fd_folders db))\<^sup>+} \<and>
    list_folders kb_pk user_id db = Some (sort_key (\<lambda>f. (folder_level (fd_folders db) (fo_pk f), fo_pk f))
      (filter (in_kb kb_pk user_id) (fd_folders db)))"
  using descendants_forest list_folders_forest reachable_forest [OF assms] by blast

lemma folder_queries_return_witness:
  "descendant_folder_pks 10 sample_tree = Some {11, 12, 13} \<and>
   list_folders 1 7 sample_tree = Some [sample_root, sample_fa, sample_fb, sample_fc] \<and>
   {c. (c, 10) \<in> (parent_rel (fd_folders sample_tree))\<^sup>+} = {11, 12, 13}"
proof -
  have "descendant_folder_pks 10 sample_tree = Some {11, 12, 13}" by code_simp
  moreover have "list_folders 1 7 sample_tree = Some [sample_root, sample_fa, sample_fb, sample_fc]" by code_simp
  ultimately show ?thesis using folder_queries_return [OF sample_tree_reachable, of 10 1 7] by simp
qed

text \<open>
  A valid request to move a folder is refused with code 4025 exactly when the new parent is the
  folder itself or lies below it; otherwise the move is written.
\<close>
theorem folder_move_decided:
  assumes "folder_reachable db"
    and "get_folder_by_id folder_id user_id db = Some target" and "\<not> fo_is_root target"
    and "up_parent_id payload = Some parent_id" and "get_folder_by_id parent_id user_id db = Some parent"
    and "fo_knowledge_base_pk parent = fo_knowledge_base_pk target"
  shows "update_folder folder_id payload user_id db = Some
    (if (fo_pk parent, fo_pk target) \<in> (parent_rel (fd_folders db))\<^sup>*
     then Inl (BusinessException ''folder cannot be moved beneath itself or a descendant'' 4025 400)
     else ebind (planned_name payload) (\<lambda>n. write_update (target, Some parent, n) db))"
proof -
  have "ebind (ebind (planned_name payload) (\<lambda>n. Inr (target, Some parent, n))) (\<lambda>plan. write_update plan db) =
      ebind (planned_name payload) (\<lambda>n. write_update (target, Some parent, n) db)"
    by (cases "planned_name payload") auto
  then show ?thesis
    using plan_update_move [OF reachable_forest [OF assms(1)] assms(2-6)] by (simp add: update_folder_def)
qed

lemma folder_move_decided_witness:
  "update_folder ''fld_a'' \<lparr>up_name = None, up_parent_id = Some ''fld_c''\<rparr> 7 sample_tree =
     Some (Inl (BusinessException ''folder cannot be moved beneath itself or a descendant'' 4025 400)) \<and>
   (13, 11) \<in> (parent_rel (fd_folders sample_tree))\<^sup>*"
proof -
  have g: "get_folder_by_id ''fld_a'' 7 sample_tree = Some sample_fa" "get_folder_by_id ''fld_c'' 7 sample_tree = Some sample_fc"
    by code_simp+
  have "(13, 11) \<in> parent_rel (fd_folders sample_tree)"
    by (auto simp: parent_rel_def sample_folder_defs intro: exI [of _ sample_fc])
  then have r: "(13, 11) \<in> (parent_rel (fd_folders sample_tree))\<^sup>*" by blast
  from folder_move_decided [OF sample_tree_reachable g(1), of "\<lparr>up_name = None, up_parent_id = Some ''fld_c''\<rparr>" "''fld_c''" sample_fc]
  show ?thesis using g(2) r by (simp add: sample_fa_def sample_fc_def sample_folder_def)
qed

lemma told_rows:
  assumes L: "kb_listing rows kb u L"
  shows "told L ` {f \<in> set L. \<not> fo_is_root f} = {(fo_id f, fo_id p, fo_id p, fo_name f) | f p. f \<in> set rows \<and>
     p \<in> set rows \<and> in_kb kb u f \<and> \<not> fo_is_root f \<and> fo_pk p = fo_parent_pk f}"
proof (intro set_eqI iffI)
  fix x assume "x \<in> told L ` {f \<in> set L. \<not> fo_is_root f}"
  then obtain f where f: "f \<in> set L" "\<not> fo_is_root f" "x = told L f" by blast
  then have "f \<in> set rows \<and> parent_in L f \<in> set rows \<and> in_kb kb u f \<and> fo_pk (parent_in L f) = fo_parent_pk f"
    using listing_parent(2,3) [OF L f(1,2)] L by (simp add: kb_listing_def)
  with f show "x \<in> {(fo_id f, fo_id p, fo_id p, fo_name f) | f p. f \<in> set rows \<and> p \<in> set rows \<and> in_kb kb u f \<and>
      \<not> fo_is_root f \<and> fo_pk p = fo_parent_pk f}"
    unfolding told_def by blast
next
  fix x assume "x \<in> {(fo_id f, fo_id p, fo_id p, fo_name f) | f p. f \<in> set rows \<and> p \<in> set rows \<and> in_kb kb u f \<and>
      \<not> fo_is_root f \<and> fo_pk p = fo_parent_pk f}"
  then obtain f p where f: "f \<in> set rows" "in_kb kb u f" "\<not> fo_is_root f" and p: "p \<in> set rows" "fo_pk p = fo_parent_pk f"
    and x: "x = (fo_id f, fo_id p, fo_id p, fo_name f)" by blast
  have fL: "f \<in> set L" using f L by (simp add: kb_listing_def)
  then have "p = parent_in L f"
    using listing_parent(2,3) [OF L fL f(3)] p L forest_pk_unique [of rows p "parent_in L f"] by (simp add: kb_listing_def)
  then show "x \<in> told L ` {f \<in> set L. \<not> fo_is_root f}" using fL f(3) x unfolding told_def by blast
qed

text \<open>
  C36. The folder tree of a knowledge base is complete: the handler returns, every folder but the root
  occurs exactly once, inside the item of its parent folder and with that folder as its
  parent_id, and the items at the top are those of the root.
\<close>
theorem folder_tree_complete:
  assumes "folder_reachable db" and "owned_knowledge_base kb_id user_id db = Inr k"
  shows "\<exists>items. get_folder_tree (length (fd_folders db)) kb_id user_id db = Some (Inr items) \<and>
    distinct (concat (map (\<lambda>it. item_rows (fi_parent_id it) it) items)) \<and>
    set (concat (map (\<lambda>it. item_rows (fi_parent_id it) it) items)) =
      {(fo_id f, fo_id p, fo_id p, fo_name f) | f p. f \<in> set (fd_folders db) \<and> p \<in> set (fd_folders db) \<and>
         in_kb (kn_pk k) user_id f \<and> \<not> fo_is_root f \<and> fo_pk p = fo_parent_pk f} \<and>
    set (map fi_parent_id items) \<subseteq> {fo_id r | r. r \<in> set (fd_folders db) \<and> fo_is_root r \<and> in_kb (kn_pk k) user_id r}"
proof -
  note forest = reachable_forest [OF assms(1)]
  obtain L where L: "list_folders (kn_pk k) user_id db = Some L" and listing: "kb_listing (fd_folders db) (kn_pk k) user_id L"
    by (rule list_folders_listing [OF forest])
  obtain items where items: "build_folder_tree (length (fd_folders db)) L = Some items"
    "distinct (concat (map (\<lambda>it. item_rows (fi_parent_id it) it) items))"
    "set (concat (map (\<lambda>it. item_rows (fi_parent_id it) it) items)) = told L ` {f \<in> set L. \<not> fo_is_root f}"
    "set (map fi_parent_id items) \<subseteq> fo_id ` {r \<in> set L. fo_is_root r}"
    by (rule build_tree_complete [OF listing order_refl])
  have "told L ` {f \<in> set L. \<not> fo_is_root f} =
      {(fo_id f, fo_id p, fo_id p, fo_name f) | f p. f \<in> set (fd_folders db) \<and> p \<in> set (fd_folders db) \<and>
         in_kb (kn_pk k) user_id f \<and> \<not> fo_is_root f \<and> fo_pk p = fo_parent_pk f}"
    by (rule told_rows [OF listing])
  moreover have "fo_id ` {r \<in> set L. fo_is_root r} =
      {fo_id r | r. r \<in> set (fd_folders db) \<and> fo_is_root r \<and> in_kb (kn_pk k) user_id r}"
    using listing by (auto simp: kb_listing_def)
  ultimately show ?thesis using items by (simp add: get_folder_tree_def assms(2) L)
qed

lemma folder_tree_complete_witness:
  "\<exists>items. get_folder_tree 4 ''kb1'' 7 sample_tree = Some (Inr items) \<and>
     (''fld_c'', ''fld_a'', ''fld_a'', ''Old'') \<in> set (concat (map (\<lambda>it. item_rows (fi_parent_id it) it) items))"
proof -
  have k: "owned_knowledge_base ''kb1'' 7 sample_tree = Inr sample_kb" by code_simp
  have n: "length (fd_folders sample_tree) = 4" by (simp add: sample_fdb_def)
  have "\<exists>f p. f \<in> set (fd_folders sample_tree) \<and> p \<in> set (fd_folders sample_tree) \<and> in_kb (kn_pk sample_kb) 7 f \<and>
      \<not> fo_is_root f \<and> fo_pk p = fo_parent_pk f \<and> (''fld_c'', ''fld_a'', ''fld_a'', ''Old'') = (fo_id f, fo_id p, fo_id p, fo_name f)"
    by (intro exI [of _ sample_fc] exI [of _ sample_fa]) (simp add: sample_folder_defs)
  then show ?thesis using folder_tree_complete [OF sample_tree_reachable k] unfolding n by fastforce
qed

lemma descendants_cycle:
  assumes a: "fa \<in> set (fd_folders db)" "fo_parent_pk fa = fo_pk fb"
    and b: "fb \<in> set (fd_folders db)" "fo_parent_pk fb = fo_pk fa"
    and "fo_pk fa \<noteq> fo_pk fb" "fo_user_id fa = fo_user_id fb" "fo_knowledge_base_pk fa = fo_knowledge_base_pk fb"
  shows "descendant_folder_pks (fo_pk fa) db = None"
proof -
  let ?row = "\<lambda>f. (fo_pk f, fo_user_id fa, fo_knowledge_base_pk fa)"
  have "?row fb \<in> set (descendants_base (fo_pk fa) (fd_folders db))"
    using assms by (force simp: descendants_base_def)
  moreover have "w \<noteq> [] \<and> (?row fa \<in> set (descendants_step (fd_folders db) w) \<or> ?row fb \<in> set (descendants_step (fd_folders db) w))"
    if "?row fa \<in> set w \<or> ?row fb \<in> set w" for w
    using that assms by (force simp: descendants_step_def)
  ultimately have "recursive_query (descendants_step (fd_folders db)) (descendants_base (fo_pk fa) (fd_folders db)) = None"
    by (intro query_diverges [where Q = "\<lambda>w. ?row fa \<in> set w \<or> ?row fb \<in> set w"]) auto
  then show ?thesis by (simp add: descendant_folder_pks_def)
qed

text \<open>A move into a folder where no child has the name goes through.\<close>

lemma map_filter_same:
  "(\<And>x. P (f x) = P x \<and> k (f x) = k x) \<Longrightarrow> map k (filter P (update_where Q f rows)) = map k (filter P rows)"
  by (induction rows) (auto simp: update_where_def)

lemma write_move_succeeds:
  assumes ok: "folder_constraints (fd_folders db)" and t: "\<exists>t'\<in>set (fd_folders db). fo_pk t' = fo_pk t \<and> fo_knowledge_base_pk t' = fo_knowledge_base_pk t \<and>
      fo_normalized_name t' = fo_normalized_name t"
    and free: "\<forall>f\<in>set (fd_folders db). fo_knowledge_base_pk f = fo_knowledge_base_pk t \<and> fo_parent_pk f = fo_pk p \<longrightarrow>
      fo_normalized_name f \<noteq> fo_normalized_name t"
  shows "\<exists>item. write_update (t, Some p, None) db =
    Inr (item, db\<lparr>fd_folders := update_where (\<lambda>f. fo_pk f = fo_pk t) (assign_folder (Some p) None) (fd_folders db)\<rparr>)"
proof -
  let ?rows = "fd_folders db" and ?f = "assign_folder (Some p) None"
  let ?new = "update_where (\<lambda>f. fo_pk f = fo_pk t) ?f ?rows"
  let ?k = "\<lambda>f. (fo_knowledge_base_pk f, fo_parent_pk f, fo_normalized_name f)"
  obtain t' where t': "t' \<in> set ?rows" "fo_pk t' = fo_pk t" "fo_knowledge_base_pk t' = fo_knowledge_base_pk t"
    "fo_normalized_name t' = fo_normalized_name t" using t by blast
  have c: "distinct (map fo_pk ?rows)" "distinct (map fo_id ?rows)" "distinct (map ?k ?rows)"
      "distinct (map fo_knowledge_base_pk (filter fo_is_root ?rows))" using ok by (auto simp: folder_constraints_def)
  have "update_where (\<lambda>f. fo_pk f = fo_pk t) ?f ?rows = update_where (\<lambda>f. fo_pk f = fo_pk t) (\<lambda>_. ?f t') ?rows"
    unfolding update_where_def using distinct_key_unique [OF c(1) _ t'(1)] t'(2) by (intro map_cong) auto
  moreover have "distinct (map ?k (filter (\<lambda>_. True) (update_where (\<lambda>f. fo_pk f = fo_pk t) (\<lambda>_. ?f t') ?rows)))"
    by (rule distinct_replace [OF c(1)]) (use c(3) free t'(3,4) in \<open>auto simp: assign_folder_def\<close>)
  ultimately have "distinct (map ?k ?new)" by simp
  moreover have "map fo_pk ?new = map fo_pk ?rows" "map fo_id ?new = map fo_id ?rows"
    by (rule map_update_where; simp add: assign_folder_def)+
  moreover have "map fo_knowledge_base_pk (filter fo_is_root ?new) = map fo_knowledge_base_pk (filter fo_is_root ?rows)"
    by (rule map_filter_same) (simp add: assign_folder_def)
  ultimately have "folder_constraints ?new" using c by (simp add: folder_constraints_def)
  then show ?thesis by (simp add: write_update_def Let_def tx_simps)
qed

text \<open>
  C37. The check of a move is not protected against concurrent moves. When two requests, one moving folder a into b and one
  moving b into a, are both validated before either is written, and neither folder finds its name taken by a child of
  its new parent, both writes succeed, each folder is then the parent of the other, and from then on the descendant
  query of either folder does not return.
\<close>

theorem concurrent_moves_make_a_cycle:
  assumes "folder_reachable db"
    and plan_a: "plan_update a \<lparr>up_name = None, up_parent_id = Some b\<rparr> user_id db = Some (Inr (fa, Some fb, None))"
    and plan_b: "plan_update b \<lparr>up_name = None, up_parent_id = Some a\<rparr> user_id db = Some (Inr (fb, Some fa, None))"
    and "\<forall>f\<in>set (fd_folders db). fo_parent_pk f = fo_pk fb \<longrightarrow> fo_normalized_name f \<noteq> fo_normalized_name fa"
    and "\<forall>f\<in>set (fd_folders db). fo_parent_pk f = fo_pk fa \<longrightarrow> fo_normalized_name f \<noteq> fo_normalized_name fb"
  shows "\<exists>item_a db1 item_b db2. write_update (fa, Some fb, None) db = Inr (item_a, db1) \<and>
    write_update (fb, Some fa, None) db1 = Inr (item_b, db2) \<and>
    (\<exists>ga\<in>set (fd_folders db2). \<exists>gb\<in>set (fd_folders db2). fo_id ga = a \<and> fo_parent_pk ga = fo_pk gb \<and> fo_id gb = b \<and> fo_parent_pk gb = fo_pk ga) \<and>
    descendant_folder_pks (fo_pk fa) db2 = None \<and> descendant_folder_pks (fo_pk fb) db2 = None"
proof -
  note forest = reachable_forest [OF assms(1)]
  have ids: "fo_id fa = a" "fo_id fb = b"
    using plan_a by (auto simp: plan_update_def planned_name_def get_folder_by_id_def dest!: find_SomeD split: option.splits if_splits bind_splits)
  note a = plan_updateD [OF plan_a forest] and b = plan_updateD [OF plan_b forest]
  have ne: "fo_pk fa \<noteq> fo_pk fb" and scope: "fo_user_id fb = fo_user_id fa" "fo_knowledge_base_pk fb = fo_knowledge_base_pk fa"
    using a(3) [OF refl] by auto
  have ok: "folder_constraints (fd_folders db)" using forest by (simp add: folder_forest_def)
  let ?ga = "assign_folder (Some fb) None fa" and ?gb = "assign_folder (Some fa) None fb"
  let ?db1 = "db\<lparr>fd_folders := update_where (\<lambda>f. fo_pk f = fo_pk fa) (assign_folder (Some fb) None) (fd_folders db)\<rparr>"
  let ?db2 = "?db1\<lparr>fd_folders := update_where (\<lambda>f. fo_pk f = fo_pk fb) (assign_folder (Some fa) None) (fd_folders ?db1)\<rparr>"
  obtain item_a where write_a: "write_update (fa, Some fb, None) db = Inr (item_a, ?db1)"
    using write_move_succeeds [OF ok, of fa fb] a(1) assms(4) by blast
  have in1: "?ga \<in> set (fd_folders ?db1)" "fb \<in> set (fd_folders ?db1)"
    using a(1) b(1) ne by (auto simp: set_update_where)
  have free: "\<forall>f\<in>set (fd_folders ?db1). fo_knowledge_base_pk f = fo_knowledge_base_pk fb \<and> fo_parent_pk f = fo_pk fa \<longrightarrow>
      fo_normalized_name f \<noteq> fo_normalized_name fb"
    using assms(5) ne by (auto simp: set_update_where assign_folder_def)
  obtain item_b where write_b: "write_update (fb, Some fa, None) ?db1 = Inr (item_b, ?db2)"
    using write_move_succeeds [OF write_updateD(2) [OF write_a] _ free] in1(2) by blast
  have in2: "?ga \<in> set (fd_folders ?db2)" "?gb \<in> set (fd_folders ?db2)"
  proof -
    have "(if fo_pk ?ga = fo_pk fb then assign_folder (Some fa) None ?ga else ?ga) \<in> set (fd_folders ?db2)"
      "(if fo_pk fb = fo_pk fb then ?gb else fb) \<in> set (fd_folders ?db2)"
      using in1 by (auto simp: set_update_where)
    then show "?ga \<in> set (fd_folders ?db2)" "?gb \<in> set (fd_folders ?db2)" using ne by (simp_all add: assign_folder_def)
  qed
  have links: "fo_id ?ga = a" "fo_parent_pk ?ga = fo_pk ?gb" "fo_id ?gb = b" "fo_parent_pk ?gb = fo_pk ?ga" "fo_pk ?ga = fo_pk fa" "fo_pk ?gb = fo_pk fb"
    "fo_user_id ?gb = fo_user_id ?ga" "fo_knowledge_base_pk ?gb = fo_knowledge_base_pk ?ga"
    using ids scope by (simp_all add: assign_folder_def)
  have "descendant_folder_pks (fo_pk ?ga) ?db2 = None"
    by (rule descendants_cycle [OF in2(1) links(2) in2(2) links(4)]) (use ne links in simp_all)
  moreover have "descendant_folder_pks (fo_pk ?gb) ?db2 = None"
    by (rule descendants_cycle [OF in2(2) links(4) in2(1) links(2)]) (use ne links in simp_all)
  moreover have "\<exists>ga\<in>set (fd_folders ?db2). \<exists>gb\<in>set (fd_folders ?db2). fo_id ga = a \<and> fo_parent_pk ga = fo_pk gb \<and> fo_id gb = b \<and> fo_parent_pk gb = fo_pk ga"
    by (rule bexI [OF _ in2(1)], rule bexI [OF _ in2(2)]) (use links in simp)
  ultimately show ?thesis using write_a write_b links(5,6) by metis
qed

lemma concurrent_moves_make_a_cycle_witness:
  "\<exists>item_a db1 item_b db2. write_update (sample_fa, Some sample_fb, None) sample_tree = Inr (item_a, db1) \<and>
     write_update (sample_fb, Some sample_fa, None) db1 = Inr (item_b, db2) \<and> descendant_folder_pks (fo_pk sample_fa) db2 = None"
proof -
  have "plan_update ''fld_a'' \<lparr>up_name = None, up_parent_id = Some ''fld_b''\<rparr> 7 sample_tree = Some (Inr (sample_fa, Some sample_fb, None))"
    "plan_update ''fld_b'' \<lparr>up_name = None, up_parent_id = Some ''fld_a''\<rparr> 7 sample_tree = Some (Inr (sample_fb, Some sample_fa, None))"
    "\<forall>f\<in>set (fd_folders sample_tree). fo_parent_pk f = fo_pk sample_fb \<longrightarrow> fo_normalized_name f \<noteq> fo_normalized_name sample_fa"
    "\<forall>f\<in>set (fd_folders sample_tree). fo_parent_pk f = fo_pk sample_fa \<longrightarrow> fo_normalized_name f \<noteq> fo_normalized_name sample_fb"
    by code_simp+
  from concurrent_moves_make_a_cycle [OF sample_tree_reachable this] show ?thesis by blast
qed

end
