(* ===== verification/SourceDeletion.thy ===== *)
theory SourceDeletion
  imports Governance Fences
begin

text \<open>
  Deletion of sources: \<open>memoria/server/services/deletion.py\<close> and the purges of
  \<open>services/memory_commands.py\<close>. The evidence of a source is deleted with everything that only it
  supports; a memory that loses the support of its current revision falls back to its latest supported one.

  A deletion is one transaction. The cascades of the foreign keys are written where a row is deleted:
  evidence takes its links, a candidate its links, a revision its links and the conflict references of
  candidates, a memory its revisions. Sets of identifiers are lists without duplicates. Payload validation
  (pydantic) is an argument, the validated payload or nothing.
\<close>

subsection \<open>Results\<close>

record deletion_result =
  dl_status :: string
  dl_completed_at :: instant
  dl_projection_ids :: "string list"
  dl_evidence_ids :: "string list"
  dl_candidate_ids :: "string list"
  dl_revision_ids :: "string list"
  dl_memory_ids :: "string list"
  dl_projection_count :: nat
  dl_evidence_count :: nat
  dl_candidate_count :: nat
  dl_revision_count :: nat
  dl_memory_count :: nat
  dl_recalculated_count :: nat

text \<open>The selection arguments of \<open>delete_source_evidence\<close>; a missing set is an empty one.\<close>

record source_filter =
  sf_source_type :: "string option"
  sf_source_ids :: "string list"
  sf_source_document_id :: "string option"
  sf_entire_scope :: bool
  sf_evidence_ids :: "string list"

definition filter_is_empty :: "source_filter \<Rightarrow> bool" where
  "filter_is_empty f \<longleftrightarrow> \<not> sf_entire_scope f \<and> sf_source_ids f = [] \<and> sf_source_document_id f = None \<and>
     sf_evidence_ids f = []"

definition evidence_selected :: "source_filter \<Rightarrow> int \<Rightarrow> string option \<Rightarrow> memory_evidence \<Rightarrow> bool" where
  "evidence_selected f owner kb e \<longleftrightarrow> ev_owner_id e = owner \<and> ev_knowledge_base_id e = kb \<and>
     (sf_entire_scope f \<or> ev_evidence_id e \<in> set (sf_evidence_ids f) \<or>
      ev_source_id e \<in> set (sf_source_ids f) \<and>
        (case sf_source_type f of None \<Rightarrow> True | Some t \<Rightarrow> ev_source_type e = t) \<or>
      (case sf_source_document_id f of None \<Rightarrow> False
       | Some d \<Rightarrow> ev_source_type e = ''document'' \<and> ev_source_document_id e = Some d))"

definition sorted_set :: "string list \<Rightarrow> string list" where
  "sorted_set xs = sort (uniq xs)"

definition empty_deletion :: "memory_env \<Rightarrow> string list \<Rightarrow> deletion_result" where
  "empty_deletion env projection_ids =
     \<lparr>dl_status = ''succeeded'', dl_completed_at = me_now env, dl_projection_ids = sorted_set projection_ids,
      dl_evidence_ids = [], dl_candidate_ids = [], dl_revision_ids = [], dl_memory_ids = [],
      dl_projection_count = length (sorted_set projection_ids), dl_evidence_count = 0, dl_candidate_count = 0,
      dl_revision_count = 0, dl_memory_count = 0, dl_recalculated_count = 0\<rparr>"

subsection \<open>Repairing one memory\<close>

definition memory_revisions :: "string \<Rightarrow> int \<Rightarrow> string option \<Rightarrow> memory_db \<Rightarrow> memory_revision list" where
  "memory_revisions mid owner kb db = sort_key (\<lambda>r. (mr_valid_from r, mr_revision_id r))
     (filter (\<lambda>r. mr_memory_id r = mid \<and> mr_owner_id r = owner \<and> mr_knowledge_base_id r = kb) (md_revisions db))"

definition support :: "memory_db \<Rightarrow> string \<Rightarrow> nat" where
  "support db rid = length (uniq (map snd (filter (\<lambda>l. fst l = rid) (md_revision_evidence db))))"

definition memory_support :: "string \<Rightarrow> memory_db \<Rightarrow> nat" where
  "memory_support mid db = length (uniq (map snd (filter (\<lambda>l.
     list_ex (\<lambda>r. mr_revision_id r = fst l \<and> mr_memory_id r = mid) (md_revisions db)) (md_revision_evidence db))))"

definition roll_back ::
  "memory_env \<Rightarrow> canonical_memory \<Rightarrow> memory_revision \<Rightarrow> memory_revision \<Rightarrow> (memory_db, canonical_memory) tx" where
  "roll_back env memory active selected =
     tbind (tmodify (\<lambda>db. db\<lparr>md_revisions := update_where (\<lambda>r. mr_revision_id r = mr_revision_id active)
       (\<lambda>r. r\<lparr>mr_valid_to := Some (max (mr_valid_from active) (me_now env))\<rparr>) (md_revisions db)\<rparr>)) (\<lambda>_.
     tbind db_flush (\<lambda>_.
     tbind (tmodify (\<lambda>db. db\<lparr>md_revisions := update_where (\<lambda>r. mr_revision_id r = mr_revision_id selected)
       (\<lambda>r. r\<lparr>mr_valid_to := None\<rparr>) (md_revisions db)\<rparr>)) (\<lambda>_.
     let m = memory\<lparr>cm_subject := mr_subject selected, cm_predicate := mr_predicate selected,
           cm_value := mr_value selected, cm_fingerprint := mr_fingerprint selected, cm_status := MActive,
           cm_active_revision_id := mr_revision_id selected\<rparr>
     in tbind (tmodify (\<lambda>db. db\<lparr>md_memories :=
          update_where (\<lambda>q. cm_memory_id q = cm_memory_id memory) (\<lambda>_. m) (md_memories db)\<rparr>)) (\<lambda>_.
        tbind db_flush (\<lambda>_. treturn m)))))"

text \<open>The revisions it deleted, and whether the memory went with them.\<close>

definition repair_memory ::
  "memory_env \<Rightarrow> int \<Rightarrow> string option \<Rightarrow> canonical_memory \<Rightarrow> (memory_db, string list \<times> bool) tx" where
  "repair_memory env owner kb memory =
     tbind (tget (memory_revisions (cm_memory_id memory) owner kb)) (\<lambda>revisions.
     tbind (tget (\<lambda>db. filter (\<lambda>r. support db (mr_revision_id r) > 0) revisions)) (\<lambda>supported.
     tbind (tget (\<lambda>db. map mr_revision_id (filter (\<lambda>r. support db (mr_revision_id r) = 0) revisions))) (\<lambda>unsupported.
     if supported = [] then
       tbind (tmodify (drop_memory (cm_memory_id memory))) (\<lambda>_. treturn (map mr_revision_id revisions, True))
     else
       (case find (\<lambda>r. mr_revision_id r = cm_active_revision_id memory) revisions of
          None \<Rightarrow> tfail (RuntimeError ''canonical memory active revision is missing'')
        | Some active \<Rightarrow>
            let selected = last supported
            in tbind (if mr_revision_id selected \<noteq> mr_revision_id active
                 then roll_back env memory active selected else treturn memory) (\<lambda>m.
               tbind (tmodify (drop_revisions (\<lambda>r. mr_revision_id r \<in> set unsupported))) (\<lambda>_.
               tbind (tget (memory_support (cm_memory_id memory))) (\<lambda>evidence_count.
               tbind (tmodify (\<lambda>db. db\<lparr>md_memories := update_where (\<lambda>q. cm_memory_id q = cm_memory_id memory)
                 (\<lambda>_. m\<lparr>cm_confidence := min (cm_confidence m) (1 - (1 / 2) ^ evidence_count)\<rparr>) (md_memories db)\<rparr>)) (\<lambda>_.
               treturn (unsupported, False)))))))))"

fun repair_memories ::
  "memory_env \<Rightarrow> int \<Rightarrow> string option \<Rightarrow> canonical_memory list
   \<Rightarrow> (memory_db, string list \<times> string list \<times> string list) tx" where
  "repair_memories env owner kb [] = treturn ([], [], [])"
| "repair_memories env owner kb (m # ms) =
     tbind (repair_memory env owner kb m) (\<lambda>(revs, gone).
     tbind (repair_memories env owner kb ms) (\<lambda>(rs, dead, recalculated).
     treturn (revs @ rs, (if gone then cm_memory_id m # dead else dead),
       (if gone then recalculated else cm_memory_id m # recalculated))))"

subsection \<open>Deleting evidence\<close>

definition linked_keys :: "string list \<Rightarrow> (string \<times> string) list \<Rightarrow> string list" where
  "linked_keys ids links = uniq (map fst (filter (\<lambda>l. snd l \<in> set ids) links))"

definition affected_candidates :: "source_filter \<Rightarrow> int \<Rightarrow> string option \<Rightarrow> string list \<Rightarrow> memory_db \<Rightarrow> string list" where
  "affected_candidates f owner kb evidence_ids db =
     uniq (linked_keys evidence_ids (md_candidate_evidence db) @
       (if sf_entire_scope f then map mc_candidate_id (filter (\<lambda>c. mc_owner_id c = owner \<and> mc_knowledge_base_id c = kb)
         (md_candidates db)) else []))"

definition affected_memories :: "source_filter \<Rightarrow> int \<Rightarrow> string option \<Rightarrow> string list \<Rightarrow> memory_db \<Rightarrow> string list" where
  "affected_memories f owner kb evidence_ids db =
     uniq (map mr_memory_id (filter (\<lambda>r. mr_revision_id r \<in> set (linked_keys evidence_ids (md_revision_evidence db)) \<and>
           mr_owner_id r = owner \<and> mr_knowledge_base_id r = kb) (md_revisions db)) @
       (if sf_entire_scope f then map cm_memory_id (filter (\<lambda>m. cm_owner_id m = owner \<and> cm_knowledge_base_id m = kb)
         (md_memories db)) else []))"

definition lock_affected_slots ::
  "memory_env \<Rightarrow> int \<Rightarrow> string option \<Rightarrow> string list \<Rightarrow> string list \<Rightarrow> (memory_db, unit) tx" where
  "lock_affected_slots env owner kb candidate_ids memory_ids =
     tmodify (\<lambda>db. let slots = sort (uniq (
           map (\<lambda>c. (mc_memory_type c, mc_subject c, mc_predicate c))
             (filter (\<lambda>c. mc_candidate_id c \<in> set candidate_ids) (md_candidates db)) @
           map (\<lambda>m. (cm_memory_type m, cm_subject m, cm_predicate m))
             (filter (\<lambda>m. cm_memory_id m \<in> set memory_ids) (md_memories db))))
       in db\<lparr>md_locks := md_locks db @ map (\<lambda>(ty, s, p). memory_slot_lock_key env owner kb ty s p) slots\<rparr>)"

definition scoped_memories :: "string list \<Rightarrow> int \<Rightarrow> string option \<Rightarrow> memory_db \<Rightarrow> canonical_memory list" where
  "scoped_memories ids owner kb db = sort_key cm_memory_id
     (filter (\<lambda>m. cm_memory_id m \<in> set ids \<and> cm_owner_id m = owner \<and> cm_knowledge_base_id m = kb) (md_memories db))"

definition unlinked_candidates :: "string list \<Rightarrow> memory_db \<Rightarrow> string list" where
  "unlinked_candidates ids db = map mc_candidate_id (filter (\<lambda>c. mc_candidate_id c \<in> set ids \<and>
     \<not> list_ex (\<lambda>l. fst l = mc_candidate_id c) (md_candidate_evidence db)) (md_candidates db))"

definition delete_source_evidence ::
  "memory_env \<Rightarrow> int \<Rightarrow> string option \<Rightarrow> source_filter \<Rightarrow> string list \<Rightarrow> (memory_db, deletion_result) tx" where
  "delete_source_evidence env owner kb f projection_ids =
     (if filter_is_empty f then treturn (empty_deletion env projection_ids)
      else
        tbind (tget (\<lambda>db. map ev_evidence_id (filter (evidence_selected f owner kb) (md_evidence db)))) (\<lambda>evidence_ids.
        tbind (tget (affected_candidates f owner kb evidence_ids)) (\<lambda>candidate_ids.
        tbind (tget (affected_memories f owner kb evidence_ids)) (\<lambda>memory_ids.
        tbind (lock_affected_slots env owner kb candidate_ids memory_ids) (\<lambda>_.
        tbind (tmodify (drop_evidence evidence_ids)) (\<lambda>_.
        tbind (tget (unlinked_candidates candidate_ids)) (\<lambda>dead_candidates.
        tbind (tmodify (drop_candidates dead_candidates)) (\<lambda>_.
        tbind (tget (scoped_memories memory_ids owner kb)) (\<lambda>memories.
        tbind (repair_memories env owner kb memories) (\<lambda>(revs, dead, recalculated).
        treturn \<lparr>dl_status = ''succeeded'', dl_completed_at = me_now env, dl_projection_ids = sorted_set projection_ids,
          dl_evidence_ids = sorted_set evidence_ids, dl_candidate_ids = sorted_set dead_candidates,
          dl_revision_ids = sorted_set revs, dl_memory_ids = sorted_set dead,
          dl_projection_count = length (sorted_set projection_ids), dl_evidence_count = length evidence_ids,
          dl_candidate_count = length (sorted_set dead_candidates), dl_revision_count = length (sorted_set revs),
          dl_memory_count = length (sorted_set dead), dl_recalculated_count = length (sorted_set recalculated)\<rparr>))))))))))"

subsection \<open>Purges and hard deletion\<close>

record purge_counts =
  pg_evidence :: nat
  pg_candidates :: nat
  pg_revisions :: nat
  pg_memories :: nat

definition no_counts :: purge_counts where
  "no_counts = \<lparr>pg_evidence = 0, pg_candidates = 0, pg_revisions = 0, pg_memories = 0\<rparr>"

definition add_counts :: "purge_counts \<Rightarrow> deletion_result \<Rightarrow> purge_counts" where
  "add_counts n r = \<lparr>pg_evidence = pg_evidence n + dl_evidence_count r,
     pg_candidates = pg_candidates n + dl_candidate_count r, pg_revisions = pg_revisions n + dl_revision_count r,
     pg_memories = pg_memories n + dl_memory_count r\<rparr>"

definition entire_scope :: source_filter where
  "entire_scope = \<lparr>sf_source_type = None, sf_source_ids = [], sf_source_document_id = None, sf_entire_scope = True,
     sf_evidence_ids = []\<rparr>"

definition purge_source :: "memory_env \<Rightarrow> int \<Rightarrow> string option \<Rightarrow> string \<Rightarrow> (memory_db, purge_counts) tx" where
  "purge_source env owner kb source_id =
     tbind (delete_source_evidence env owner kb \<lparr>sf_source_type = None, sf_source_ids = [source_id],
       sf_source_document_id = Some source_id, sf_entire_scope = False, sf_evidence_ids = []\<rparr> [])
     (\<lambda>r. treturn (add_counts no_counts r))"

definition purge_knowledge_base :: "memory_env \<Rightarrow> int \<Rightarrow> string \<Rightarrow> (memory_db, purge_counts) tx" where
  "purge_knowledge_base env owner kb =
     tbind (delete_source_evidence env owner (Some kb) entire_scope []) (\<lambda>r. treturn (add_counts no_counts r))"

fun purge_scopes :: "memory_env \<Rightarrow> int \<Rightarrow> purge_counts \<Rightarrow> string option list \<Rightarrow> (memory_db, purge_counts) tx" where
  "purge_scopes env owner n [] = treturn n"
| "purge_scopes env owner n (kb # kbs) =
     tbind (delete_source_evidence env owner kb entire_scope []) (\<lambda>r. purge_scopes env owner (add_counts n r) kbs)"

definition owner_scopes :: "int \<Rightarrow> memory_db \<Rightarrow> string option list" where
  "owner_scopes owner db = sort_key (\<lambda>k. case k of None \<Rightarrow> [] | Some s \<Rightarrow> s) (uniq (
     map cm_knowledge_base_id (filter (\<lambda>m. cm_owner_id m = owner) (md_memories db)) @
     map mc_knowledge_base_id (filter (\<lambda>c. mc_owner_id c = owner) (md_candidates db)) @
     map ev_knowledge_base_id (filter (\<lambda>e. ev_owner_id e = owner) (md_evidence db))))"

definition purge_owner :: "memory_env \<Rightarrow> int \<Rightarrow> (memory_db, purge_counts) tx" where
  "purge_owner env owner = tbind (tget (owner_scopes owner)) (\<lambda>kbs. purge_scopes env owner no_counts kbs)"

definition hard_delete ::
  "memory_env \<Rightarrow> string \<Rightarrow> int \<Rightarrow> string option \<Rightarrow> string \<Rightarrow> string \<Rightarrow> (memory_db, unit) tx" where
  "hard_delete env mid owner kb actor_id reason =
     tbind (tget (load_memory_for_update mid owner kb)) (\<lambda>slot.
     case slot of None \<Rightarrow> tfail (LookupError ''memory not found in owner scope'')
     | Some m \<Rightarrow>
     tbind (tget (\<lambda>db. uniq (map snd (filter (\<lambda>l. list_ex (\<lambda>r. mr_revision_id r = fst l \<and> mr_memory_id r = mid)
       (md_revisions db)) (md_revision_evidence db))))) (\<lambda>evidence_ids.
     tbind (if evidence_ids \<noteq> []
         then tbind (delete_source_evidence env owner kb \<lparr>sf_source_type = None, sf_source_ids = [],
           sf_source_document_id = None, sf_entire_scope = False, sf_evidence_ids = evidence_ids\<rparr> []) (\<lambda>_. treturn ())
         else lock_memory_slot (memory_slot_lock_key env owner kb (cm_memory_type m) (cm_subject m) (cm_predicate m))) (\<lambda>_.
     tbind (hard_delete_memory mid owner kb) (\<lambda>_.
     audit env owner kb ''hard_delete'' ''memory'' mid actor_id reason None))))"

end
