(* ===== verification/DeletionChanges.thy ===== *)
theory DeletionChanges
  imports SourceDeletion
begin

text \<open>
  What a deletion may do: it is a sequence of the elementary removals below, each within one scope. They
  keep the invariant of the tables, touch no other scope and add nothing.
\<close>

subsection \<open>Elementary removals\<close>

definition in_scope_evidence :: "int \<Rightarrow> string option \<Rightarrow> memory_evidence \<Rightarrow> bool" where
  "in_scope_evidence owner kb e \<longleftrightarrow> ev_owner_id e = owner \<and> ev_knowledge_base_id e = kb"

definition rolled_back :: "canonical_memory \<Rightarrow> memory_revision \<Rightarrow> canonical_memory" where
  "rolled_back m s = m\<lparr>cm_subject := mr_subject s, cm_predicate := mr_predicate s, cm_value := mr_value s,
     cm_fingerprint := mr_fingerprint s, cm_status := MActive, cm_active_revision_id := mr_revision_id s\<rparr>"

inductive deletion_change :: "int \<Rightarrow> string option \<Rightarrow> memory_db \<Rightarrow> memory_db \<Rightarrow> bool"
  for owner :: int and kb :: "string option" where
  Locked: "deletion_change owner kb db (db\<lparr>md_locks := ls\<rparr>)"
| Evidence_dropped: "\<forall>e\<in>set (md_evidence db). ev_evidence_id e \<in> set ids \<longrightarrow> ev_owner_id e = owner \<and> ev_knowledge_base_id e = kb \<Longrightarrow>
    deletion_change owner kb db (drop_evidence ids db)"
| Candidates_dropped: "\<forall>c\<in>set (md_candidates db). mc_candidate_id c \<in> set ids \<longrightarrow> mc_owner_id c = owner \<and> mc_knowledge_base_id c = kb \<Longrightarrow>
    deletion_change owner kb db (drop_candidates ids db)"
| Memory_dropped: "m \<in> set (md_memories db) \<Longrightarrow> cm_owner_id m = owner \<Longrightarrow> cm_knowledge_base_id m = kb \<Longrightarrow>
    deletion_change owner kb db (drop_memory (cm_memory_id m) db)"
| Revisions_dropped: "\<forall>r\<in>set (md_revisions db). P r \<longrightarrow> mr_owner_id r = owner \<and> mr_knowledge_base_id r = kb \<and> mr_valid_to r \<noteq> None \<Longrightarrow>
    deletion_change owner kb db (drop_revisions P db)"
| Rolled_back: "m \<in> set (md_memories db) \<Longrightarrow> cm_owner_id m = owner \<Longrightarrow> cm_knowledge_base_id m = kb \<Longrightarrow>
    a \<in> set (md_revisions db) \<Longrightarrow> current_revision m a \<Longrightarrow> s \<in> set (md_revisions db) \<Longrightarrow> revision_of m s \<Longrightarrow> s \<noteq> a \<Longrightarrow>
    distinct (map active_identity (filter (\<lambda>m. cm_status m = MActive)
      (update_where (\<lambda>q. cm_memory_id q = cm_memory_id m) (\<lambda>_. rolled_back m s) (md_memories db)))) \<Longrightarrow>
    deletion_change owner kb db (db\<lparr>
      md_memories := update_where (\<lambda>q. cm_memory_id q = cm_memory_id m) (\<lambda>_. rolled_back m s) (md_memories db),
      md_revisions := update_where (\<lambda>r. mr_revision_id r = mr_revision_id s) (\<lambda>r. r\<lparr>mr_valid_to := None\<rparr>)
        (update_where (\<lambda>r. mr_revision_id r = mr_revision_id a) (\<lambda>r. r\<lparr>mr_valid_to := Some t\<rparr>) (md_revisions db))\<rparr>)"
| Confidence_lowered: "m \<in> set (md_memories db) \<Longrightarrow> cm_owner_id m = owner \<Longrightarrow> cm_knowledge_base_id m = kb \<Longrightarrow>
    0 \<le> c \<Longrightarrow> c \<le> cm_confidence m \<Longrightarrow>
    deletion_change owner kb db (db\<lparr>md_memories := update_where (\<lambda>q. cm_memory_id q = cm_memory_id m)
      (\<lambda>_. m\<lparr>cm_confidence := c\<rparr>) (md_memories db)\<rparr>)"

text \<open>The texts of every revision, closed ones included, are normalised and carry their fingerprint.\<close>

definition revisions_content :: "memory_env \<Rightarrow> memory_db \<Rightarrow> bool" where
  "revisions_content env db \<longleftrightarrow> (\<forall>r\<in>set (md_revisions db).
     content_ok env (mr_subject r) (mr_predicate r) (mr_value r) (mr_fingerprint r))"

definition conflicts_wf :: "memory_db \<Rightarrow> bool" where
  "conflicts_wf db \<longleftrightarrow> (\<forall>c\<in>set (md_candidates db). conflict_named db c)"

definition deep_wf :: "memory_env \<Rightarrow> memory_db \<Rightarrow> bool" where
  "deep_wf env db \<longleftrightarrow> memory_wf env db \<and> revisions_content env db \<and> conflicts_wf db"

lemma distinct_parts:
  assumes "distinct (a @ b @ c @ d)" and "set a' \<subseteq> set a" "set b' \<subseteq> set b" "set c' \<subseteq> set c" "set d' \<subseteq> set d"
    and "distinct a'" "distinct b'" "distinct c'" "distinct d'"
  shows "distinct (a' @ b' @ c' @ d')"
proof -
  have sub: "X' \<inter> Y' = {}" if "X \<inter> Y = {}" "X' \<subseteq> X" "Y' \<subseteq> Y" for X X' Y Y' :: "'a set" using that by blast
  have d0: "set a' \<inter> set b' = {}" by (rule sub [OF _ assms(2,3)]) (use assms(1) in auto)
  have d1: "set a' \<inter> set c' = {}" by (rule sub [OF _ assms(2,4)]) (use assms(1) in auto)
  have d2: "set a' \<inter> set d' = {}" by (rule sub [OF _ assms(2,5)]) (use assms(1) in auto)
  have d3: "set b' \<inter> set c' = {}" by (rule sub [OF _ assms(3,4)]) (use assms(1) in auto)
  have d4: "set b' \<inter> set d' = {}" by (rule sub [OF _ assms(3,5)]) (use assms(1) in auto)
  have d5: "set c' \<inter> set d' = {}" by (rule sub [OF _ assms(4,5)]) (use assms(1) in auto)
  show ?thesis using assms(6-9) d0 d1 d2 d3 d4 d5 by (simp add: Int_Un_distrib)
qed

lemma ids_wf_shrink:
  assumes "ids_wf env db" and "md_ids db' = md_ids db"
    and "set (map cm_memory_id (md_memories db')) \<subseteq> set (map cm_memory_id (md_memories db))" "distinct (map cm_memory_id (md_memories db'))"
    and "set (map mr_revision_id (md_revisions db')) \<subseteq> set (map mr_revision_id (md_revisions db))" "distinct (map mr_revision_id (md_revisions db'))"
    and "set (map mc_candidate_id (md_candidates db')) \<subseteq> set (map mc_candidate_id (md_candidates db))" "distinct (map mc_candidate_id (md_candidates db'))"
    and "set (map ev_evidence_id (md_evidence db')) \<subseteq> set (map ev_evidence_id (md_evidence db))" "distinct (map ev_evidence_id (md_evidence db'))"
    and "distinct (map ev_identity_hash (md_evidence db'))"
  shows "ids_wf env db'"
proof -
  have "set (row_ids db') \<subseteq> set (row_ids db)"
    unfolding row_ids_def set_append using assms(3,5,7,9) by (intro Un_mono)
  moreover have "distinct (row_ids db')"
    unfolding row_ids_def
    by (rule distinct_parts [OF _ assms(3,5,7,9,4,6,8,10)]) (use assms(1) in \<open>simp add: ids_wf_def row_ids_def\<close>)
  ultimately show ?thesis using assms(1,2,11) unfolding ids_wf_def by auto
qed

lemmas ids_wf_tables = wf_distinct

lemma distinct_delete_where: "distinct (map k rows) \<Longrightarrow> distinct (map k (delete_where P rows))"
  by (simp add: delete_where_def distinct_map_filter)

lemma set_delete_where [simp]: "set (delete_where P rows) = {x \<in> set rows. \<not> P x}"
  by (simp add: delete_where_def)

lemma ids_wf_hash: "ids_wf env db \<Longrightarrow> distinct (map ev_identity_hash (md_evidence db))"
  by (simp add: ids_wf_def)

lemma clear_conflict_simps [simp]:
  "mc_candidate_id (clear_conflict c) = mc_candidate_id c" "mc_owner_id (clear_conflict c) = mc_owner_id c"
  "mc_knowledge_base_id (clear_conflict c) = mc_knowledge_base_id c"
  "candidate_fields_ok env (clear_conflict c) = candidate_fields_ok env c"
  by (simp_all add: clear_conflict_def candidate_fields_ok_def)

lemma map_clear_conflict [simp]:
  "map mc_candidate_id (update_where Q clear_conflict cs) = map mc_candidate_id cs"
  by (rule map_update_where) simp

lemma drop_simps [simp]:
  "md_memories (drop_evidence ids db) = md_memories db" "md_revisions (drop_evidence ids db) = md_revisions db"
  "md_candidates (drop_evidence ids db) = md_candidates db" "md_ids (drop_evidence ids db) = md_ids db"
  "md_audits (drop_evidence ids db) = md_audits db"
  "md_evidence (drop_evidence ids db) = delete_where (\<lambda>e. ev_evidence_id e \<in> set ids) (md_evidence db)"
  "md_candidate_evidence (drop_evidence ids db) = delete_where (\<lambda>l. snd l \<in> set ids) (md_candidate_evidence db)"
  "md_revision_evidence (drop_evidence ids db) = delete_where (\<lambda>l. snd l \<in> set ids) (md_revision_evidence db)"
  "md_memories (drop_candidates ids db) = md_memories db" "md_revisions (drop_candidates ids db) = md_revisions db"
  "md_evidence (drop_candidates ids db) = md_evidence db" "md_ids (drop_candidates ids db) = md_ids db"
  "md_audits (drop_candidates ids db) = md_audits db" "md_revision_evidence (drop_candidates ids db) = md_revision_evidence db"
  "md_candidates (drop_candidates ids db) = delete_where (\<lambda>c. mc_candidate_id c \<in> set ids) (md_candidates db)"
  "md_candidate_evidence (drop_candidates ids db) = delete_where (\<lambda>l. fst l \<in> set ids) (md_candidate_evidence db)"
  "md_memories (drop_revisions P db) = md_memories db" "md_evidence (drop_revisions P db) = md_evidence db"
  "md_ids (drop_revisions P db) = md_ids db" "md_audits (drop_revisions P db) = md_audits db"
  "md_candidate_evidence (drop_revisions P db) = md_candidate_evidence db"
  "md_revisions (drop_revisions P db) = delete_where P (md_revisions db)"
  "md_candidates (drop_revisions P db) = update_where (refers_to (filter P (md_revisions db))) clear_conflict (md_candidates db)"
  "md_revision_evidence (drop_revisions P db) =
     delete_where (\<lambda>l. fst l \<in> mr_revision_id ` {r \<in> set (md_revisions db). P r}) (md_revision_evidence db)"
  "md_memories (drop_memory mid db) = delete_where (\<lambda>m. cm_memory_id m = mid) (md_memories db)"
  "md_evidence (drop_memory mid db) = md_evidence db" "md_ids (drop_memory mid db) = md_ids db"
  "md_audits (drop_memory mid db) = md_audits db" "md_candidate_evidence (drop_memory mid db) = md_candidate_evidence db"
  "md_revisions (drop_memory mid db) = delete_where (\<lambda>r. mr_memory_id r = mid) (md_revisions db)"
  "md_candidates (drop_memory mid db) = update_where (refers_to (filter (\<lambda>r. mr_memory_id r = mid) (md_revisions db))) clear_conflict (md_candidates db)"
  "md_revision_evidence (drop_memory mid db) =
     delete_where (\<lambda>l. fst l \<in> mr_revision_id ` {r \<in> set (md_revisions db). mr_memory_id r = mid}) (md_revision_evidence db)"
  by (simp_all add: drop_evidence_def drop_candidates_def drop_revisions_def drop_memory_def Let_def)

lemma deletion_ids_wf:
  assumes "deletion_change owner kb db db'" and wf: "ids_wf env db"
  shows "ids_wf env db'"
  using assms(1)
proof cases
  case (Rolled_back m a s t)
  show ?thesis unfolding Rolled_back(1)
    by (rule ids_wf_mono [OF wf]) (simp_all add: row_ids_def map_update_where rolled_back_def)
next
  case (Confidence_lowered m c)
  show ?thesis unfolding Confidence_lowered(1)
    by (rule ids_wf_mono [OF wf]) (simp_all add: row_ids_def map_update_where)
next
  case (Locked ls)
  show ?thesis unfolding Locked(1) by (rule ids_wf_mono [OF wf]) (simp_all add: row_ids_def)
qed (intro ids_wf_shrink [OF wf]; simp add: distinct_delete_where wf_distinct [OF wf] ids_wf_hash [OF wf];
     auto)+

lemma rolled_back_rows:
  assumes ids: "ids_wf env db" and m: "m \<in> set (md_memories db)" and a: "a \<in> set (md_revisions db)" "current_revision m a"
    and s: "s \<in> set (md_revisions db)" "revision_of m s" "s \<noteq> a"
  shows "set (update_where (\<lambda>q. cm_memory_id q = cm_memory_id m) (\<lambda>_. rolled_back m s) (md_memories db)) =
      insert (rolled_back m s) (set (md_memories db) - {m})"
    and "set (update_where (\<lambda>r. mr_revision_id r = mr_revision_id s) (\<lambda>r. r\<lparr>mr_valid_to := None\<rparr>)
        (update_where (\<lambda>r. mr_revision_id r = mr_revision_id a) (\<lambda>r. r\<lparr>mr_valid_to := Some t\<rparr>) (md_revisions db))) =
      insert (s\<lparr>mr_valid_to := None\<rparr>) (insert (a\<lparr>mr_valid_to := Some t\<rparr>) (set (md_revisions db) - {a, s}))"
    and "current_revision (rolled_back m s) (s\<lparr>mr_valid_to := None\<rparr>)"
proof -
  note d = wf_distinct [OF ids]
  show "set (update_where (\<lambda>q. cm_memory_id q = cm_memory_id m) (\<lambda>_. rolled_back m s) (md_memories db)) =
      insert (rolled_back m s) (set (md_memories db) - {m})"
    by (rule set_update_where_id [OF d(1) m])
  let ?mid = "update_where (\<lambda>r. mr_revision_id r = mr_revision_id a) (\<lambda>r. r\<lparr>mr_valid_to := Some t\<rparr>) (md_revisions db)"
  have mid: "set ?mid = insert (a\<lparr>mr_valid_to := Some t\<rparr>) (set (md_revisions db) - {a})"
    by (rule set_update_where_id [OF d(2) a(1)])
  have ne: "mr_revision_id s \<noteq> mr_revision_id a"
    using distinct_key_unique [OF d(2) s(1) a(1)] s(3) by blast
  have "map mr_revision_id ?mid = map mr_revision_id (md_revisions db)" by (rule map_update_where) simp
  then have "set (update_where (\<lambda>r. mr_revision_id r = mr_revision_id s) (\<lambda>r. r\<lparr>mr_valid_to := None\<rparr>) ?mid) =
      insert (s\<lparr>mr_valid_to := None\<rparr>) (set ?mid - {s})"
    using d(2) s(1,3) mid by (intro set_update_where_id) auto
  moreover have "s \<noteq> a\<lparr>mr_valid_to := Some t\<rparr>" using ne by auto
  ultimately show "set (update_where (\<lambda>r. mr_revision_id r = mr_revision_id s) (\<lambda>r. r\<lparr>mr_valid_to := None\<rparr>) ?mid) =
      insert (s\<lparr>mr_valid_to := None\<rparr>) (insert (a\<lparr>mr_valid_to := Some t\<rparr>) (set (md_revisions db) - {a, s}))"
    unfolding mid by auto
  show "current_revision (rolled_back m s) (s\<lparr>mr_valid_to := None\<rparr>)"
    using s(2) by (simp add: current_revision_def rolled_back_def same_content_def revision_of_def)
qed

lemma rolled_back_fields:
  "content_ok env (mr_subject s) (mr_predicate s) (mr_value s) (mr_fingerprint s) \<Longrightarrow> memory_fields_ok env m \<Longrightarrow>
   memory_fields_ok env (rolled_back m s)"
  by (simp add: memory_fields_ok_def rolled_back_def)

text \<open>A memory other than the one a change is about keeps its current revision.\<close>

lemma other_memory_revision:
  assumes ids: "ids_wf env db" and "m \<in> set (md_memories db)" "x \<in> set (md_memories db)" "x \<noteq> m"
    and "revision_of m r" and "current_revision x y"
  shows "y \<noteq> r"
proof -
  have "cm_memory_id x \<noteq> cm_memory_id m" using distinct_key_unique [OF wf_distinct(1) [OF ids] assms(3,2)] assms(4) by blast
  then show ?thesis using assms(5,6) by (auto simp: current_revision_def revision_of_def)
qed

lemma distinct_active_sub:
  "distinct (map k (filter P rows)) \<Longrightarrow> distinct (map k (filter P (delete_where Q rows)))"
  by (induction rows) (auto simp: delete_where_def split: if_splits)

lemma deletion_memories_wf:
  assumes "deletion_change owner kb db db'" and ids: "ids_wf env db" and wf: "memories_wf env db" "revisions_content env db"
  shows "memories_wf env db'"
  using assms(1)
proof cases
  case (Rolled_back m a s t)
  note rows = rolled_back_rows [OF ids Rolled_back(2,5-9)]
  have "memory_fields_ok env (rolled_back m s)"
    using rolled_back_fields wf Rolled_back(2,7) by (auto simp: memories_wf_def revisions_content_def)
  moreover have "\<exists>y\<in>set (md_revisions db'). current_revision x y" if x: "x \<in> set (md_memories db)" "x \<noteq> m" for x
  proof -
    obtain y where y: "y \<in> set (md_revisions db)" "current_revision x y" using wf(1) x(1) by (auto simp: memories_wf_def)
    have "y \<noteq> a" "y \<noteq> s"
      using other_memory_revision [OF ids Rolled_back(2) x _ y(2)] Rolled_back(6,8) by (auto simp: current_revision_def)
    then show ?thesis using y unfolding Rolled_back(1) by (auto simp: rows(2))
  qed
  ultimately show ?thesis
    using wf(1) rows(3) Rolled_back(10) unfolding Rolled_back(1) memories_wf_def
    by (auto simp: rows(1,2) active_memories_def)
next
  case (Confidence_lowered m c)
  have mems: "set (md_memories db') = insert (m\<lparr>cm_confidence := c\<rparr>) (set (md_memories db) - {m})"
    unfolding Confidence_lowered(1) by (simp add: set_update_where_id [OF wf_distinct(1) [OF ids] Confidence_lowered(2)])
  have m: "memory_fields_ok env m" "\<exists>r\<in>set (md_revisions db). current_revision m r"
    using wf Confidence_lowered(2) by (auto simp: memories_wf_def)
  have "memory_fields_ok env (m\<lparr>cm_confidence := c\<rparr>)"
    using m(1) Confidence_lowered(5,6) by (auto simp: memory_fields_ok_def unit_interval_def)
  moreover have "current_revision (m\<lparr>cm_confidence := c\<rparr>) = current_revision m" by (rule ext, rule current_revision_cong) simp_all
  moreover have "distinct (map active_identity (active_memories db'))"
    by (rule active_update_distinct [OF _ wf_distinct(1) [OF ids] Confidence_lowered(2), where m' = "m\<lparr>cm_confidence := c\<rparr>"])
      (use wf in \<open>simp_all add: memories_wf_def active_identity_def Confidence_lowered(1)\<close>)
  ultimately show ?thesis using wf(1) m(2) unfolding memories_wf_def mems by (auto simp: Confidence_lowered(1))
next
  case (Memory_dropped m)
  have "\<exists>y\<in>set (md_revisions db'). current_revision x y" if x: "x \<in> set (md_memories db')" for x
  proof -
    obtain y where "y \<in> set (md_revisions db)" "current_revision x y" using wf(1) x by (auto simp: memories_wf_def Memory_dropped(1))
    moreover from this have "mr_memory_id y \<noteq> cm_memory_id m" using x by (auto simp: Memory_dropped(1) current_revision_def revision_of_def)
    ultimately show ?thesis by (auto simp: Memory_dropped(1))
  qed
  then show ?thesis using wf(1) by (auto simp: memories_wf_def Memory_dropped(1) active_memories_def distinct_active_sub)
next
  case (Revisions_dropped P)
  have "\<exists>y\<in>set (md_revisions db'). current_revision x y" if x: "x \<in> set (md_memories db)" for x
  proof -
    obtain y where "y \<in> set (md_revisions db)" "current_revision x y" using wf(1) x by (auto simp: memories_wf_def)
    then show ?thesis using Revisions_dropped(2) by (auto simp: Revisions_dropped(1) current_revision_def)
  qed
  then show ?thesis using wf(1) by (simp add: memories_wf_def Revisions_dropped(1) active_memories_def)
qed (use wf(1) in \<open>simp_all add: memories_wf_def active_memories_def\<close>)

lemma deletion_revisions_wf:
  assumes "deletion_change owner kb db db'" and ids: "ids_wf env db" and wf: "revisions_wf db"
  shows "revisions_wf db'"
  using assms(1)
proof cases
  case (Rolled_back m a s t)
  note rows = rolled_back_rows [OF ids Rolled_back(2,5-9)]
  have keep: "revision_of (rolled_back m s) r = revision_of m r" for r by (simp add: revision_of_def rolled_back_def)
  have "\<exists>n\<in>set (md_memories db'). revision_of n y \<and> (mr_valid_to y = None \<longrightarrow> mr_revision_id y = cm_active_revision_id n)"
    if y: "y \<in> set (md_revisions db')" for y
  proof -
    consider "y = s\<lparr>mr_valid_to := None\<rparr>" | "y = a\<lparr>mr_valid_to := Some t\<rparr>" | "y \<in> set (md_revisions db)" "y \<noteq> a" "y \<noteq> s"
      using y by (auto simp: Rolled_back(1) rows(2))
    then show ?thesis
    proof cases
      case 1
      then show ?thesis using rows(3) by (auto simp: Rolled_back(1) rows(1) current_revision_def)
    next
      case 2
      then have "revision_of (rolled_back m s) y" using Rolled_back(6) by (simp add: current_revision_def keep) (simp add: revision_of_def)
      then show ?thesis using 2 by (auto simp: Rolled_back(1) rows(1))
    next
      case 3
      then obtain n where n: "n \<in> set (md_memories db)" "revision_of n y"
          "mr_valid_to y = None \<longrightarrow> mr_revision_id y = cm_active_revision_id n"
        using wf by (auto simp: revisions_wf_def)
      show ?thesis
      proof (cases "n = m")
        case True
        have "mr_valid_to y \<noteq> None"
          using n(3) True Rolled_back(5,6) 3(1,2) distinct_key_unique [OF wf_distinct(2) [OF ids] 3(1) Rolled_back(5)]
          by (auto simp: current_revision_def)
        then show ?thesis using keep n(2) True by (auto simp: Rolled_back(1) rows(1))
      next
        case False
        then show ?thesis using n by (auto simp: Rolled_back(1) rows(1))
      qed
    qed
  qed
  then show ?thesis by (simp add: revisions_wf_def)
next
  case (Confidence_lowered m c)
  have mems: "set (md_memories db') = insert (m\<lparr>cm_confidence := c\<rparr>) (set (md_memories db) - {m})"
    unfolding Confidence_lowered(1) by (simp add: set_update_where_id [OF wf_distinct(1) [OF ids] Confidence_lowered(2)])
  have "revision_of (m\<lparr>cm_confidence := c\<rparr>) = revision_of m" by (rule ext) (simp add: revision_of_def)
  then show ?thesis using wf unfolding revisions_wf_def mems by (fastforce simp: Confidence_lowered(1))
next
  case (Memory_dropped m)
  then show ?thesis using wf by (fastforce simp: revisions_wf_def revision_of_def)
qed (use wf in \<open>simp_all add: revisions_wf_def\<close>)

lemma deletion_candidates_wf:
  assumes "deletion_change owner kb db db'" and wf: "candidates_wf env db"
  shows "candidates_wf env db'"
proof -
  have upd: "\<forall>c\<in>set (update_where Q clear_conflict cs). candidate_fields_ok env c" if "\<forall>c\<in>set cs. candidate_fields_ok env c" for Q cs
    using that by (auto simp: set_update_where)
  from assms(1) show ?thesis by cases (use wf upd in \<open>auto simp: candidates_wf_def\<close>)
qed


text \<open>Links lead from kept rows to kept evidence.\<close>

lemma rolled_back_keys:
  "(\<exists>r\<in>set (update_where P (\<lambda>r. r\<lparr>mr_valid_to := v\<rparr>) rows). mr_revision_id r = i \<and> F (mr_owner_id r) (mr_knowledge_base_id r)) \<longleftrightarrow>
   (\<exists>r\<in>set rows. mr_revision_id r = i \<and> F (mr_owner_id r) (mr_knowledge_base_id r))"
  by (induction rows) (auto simp: update_where_def)

lemma deletion_links_wf:
  assumes "deletion_change owner kb db db'" and ids: "ids_wf env db" and wf: "links_wf db"
  shows "links_wf db'"
proof -
  have rev: "revision_link_ok db l" if "l \<in> set (md_revision_evidence db)" for l using wf that by (simp add: links_wf_iff)
  have cand: "candidate_link_ok db l" if "l \<in> set (md_candidate_evidence db)" for l using wf that by (simp add: links_wf_iff)
  have same: "candidate_link_ok db2 l"
    if eq: "md_evidence db2 = md_evidence db" "md_candidates db2 = update_where Q clear_conflict (md_candidates db)"
      and ok: "candidate_link_ok db l" for db2 Q l
  proof -
    obtain c where c: "c \<in> set (md_candidates db)" "mc_candidate_id c = fst l"
        "evidence_in (mc_owner_id c) (mc_knowledge_base_id c) db (snd l)"
      using ok by (auto simp: candidate_link_ok_def)
    have "(if Q c then clear_conflict c else c) \<in> set (md_candidates db2)" unfolding eq(2) by (rule in_update_where [OF c(1)])
    then show ?thesis using c eq(1) unfolding candidate_link_ok_def evidence_in_def
      by (intro bexI [of _ "if Q c then clear_conflict c else c"]) auto
  qed
  from assms(1) show ?thesis
  proof cases
    case (Evidence_dropped ids)
    have ev: "evidence_in o' k db' i \<longleftrightarrow> evidence_in o' k db i" if "i \<notin> set ids" for o' k i
      using that by (auto simp: evidence_in_def Evidence_dropped(1))
    have "revision_link_ok db' l \<longleftrightarrow> revision_link_ok db l" "candidate_link_ok db' l \<longleftrightarrow> candidate_link_ok db l"
      if "snd l \<notin> set ids" for l
      by (simp_all add: revision_link_ok_def candidate_link_ok_def ev [OF that]) (simp_all add: Evidence_dropped(1))
    then show ?thesis using rev cand by (simp add: links_wf_iff Evidence_dropped(1))
  next
    case (Candidates_dropped ids)
    have "evidence_in o' k db' i = evidence_in o' k db i" for o' k i by (simp add: evidence_in_def Candidates_dropped(1))
    then have "revision_link_ok db' l \<longleftrightarrow> revision_link_ok db l"
      "fst l \<notin> set ids \<Longrightarrow> candidate_link_ok db l \<Longrightarrow> candidate_link_ok db' l" for l
      by (auto simp: revision_link_ok_def candidate_link_ok_def Candidates_dropped(1))
    then show ?thesis using rev cand by (simp add: links_wf_iff Candidates_dropped(1))
  next
    case (Memory_dropped m)
    have ev: "evidence_in o' k db' i = evidence_in o' k db i" for o' k i by (simp add: evidence_in_def Memory_dropped(1))
    have "revision_link_ok db' l" if l: "l \<in> set (md_revision_evidence db')" for l
    proof -
      have ok: "revision_link_ok db l" and out: "fst l \<notin> mr_revision_id ` {r \<in> set (md_revisions db). mr_memory_id r = cm_memory_id m}"
        using l rev by (auto simp: Memory_dropped(1))
      then obtain r where "r \<in> set (md_revisions db)" "mr_revision_id r = fst l" "evidence_in (mr_owner_id r) (mr_knowledge_base_id r) db (snd l)"
        by (auto simp: revision_link_ok_def)
      then show ?thesis using out ev by (force simp: revision_link_ok_def Memory_dropped(1))
    qed
    then show ?thesis using cand same by (auto simp: links_wf_iff Memory_dropped(1))
  next
    case (Revisions_dropped P)
    have ev: "evidence_in o' k db' i = evidence_in o' k db i" for o' k i by (simp add: evidence_in_def Revisions_dropped(1))
    have "revision_link_ok db' l" if l: "l \<in> set (md_revision_evidence db')" for l
    proof -
      have ok: "revision_link_ok db l" and out: "fst l \<notin> mr_revision_id ` {r \<in> set (md_revisions db). P r}"
        using l rev by (auto simp: Revisions_dropped(1))
      then obtain r where "r \<in> set (md_revisions db)" "mr_revision_id r = fst l" "evidence_in (mr_owner_id r) (mr_knowledge_base_id r) db (snd l)"
        by (auto simp: revision_link_ok_def)
      then show ?thesis using out ev by (force simp: revision_link_ok_def Revisions_dropped(1))
    qed
    then show ?thesis using cand same by (auto simp: links_wf_iff Revisions_dropped(1))
  next
    case (Rolled_back m a s t)
    have ev: "evidence_in o' k db' i = evidence_in o' k db i" for o' k i by (simp add: evidence_in_def Rolled_back(1))
    show ?thesis using rev cand unfolding links_wf_iff revision_link_ok_def candidate_link_ok_def ev
      by (simp add: Rolled_back(1) rolled_back_keys [where F = "\<lambda>o' k. evidence_in o' k db (snd l)" for l])
  qed (use wf in \<open>simp_all add: links_wf_def evidence_in_def\<close>)
qed

lemma deletion_content:
  assumes "deletion_change owner kb db db'" and "revisions_content env db"
  shows "revisions_content env db'"
  using assms(1)
proof cases
  case (Rolled_back m a s t)
  then show ?thesis using assms(2) by (fastforce simp: revisions_content_def set_update_where)
qed (use assms(2) in \<open>auto simp: revisions_content_def\<close>)

lemma image_update_id: "(\<And>x. k (f x) = k x) \<Longrightarrow> k ` set (update_where P f rows) = k ` set rows"
proof -
  assume k: "\<And>x. k (f x) = k x"
  have "k ` set (update_where P f rows) = (\<lambda>x. k (if P x then f x else x)) ` set rows"
    unfolding set_update_where image_image ..
  also have "\<dots> = k ` set rows" by (rule image_cong) (simp_all add: k)
  finally show ?thesis .
qed

text \<open>A candidate keeps its conflict reference, or loses it together with the revision.\<close>

lemma named_after_delete:
  assumes "conflict_named db c" and "md_revisions db' = delete_where P (md_revisions db)"
  shows "conflict_named db' (if refers_to (filter P (md_revisions db)) c then clear_conflict c else c)"
  using assms by (auto simp: conflict_named_def refers_to_def clear_conflict_def list_ex_iff revision_key_def split: option.splits)

lemma deletion_conflicts:
  assumes "deletion_change owner kb db db'" and wf: "conflicts_wf db"
  shows "conflicts_wf db'"
proof -
  have dropped: "conflicts_wf db2"
    if "md_revisions db2 = delete_where P (md_revisions db)"
      and "md_candidates db2 = update_where (refers_to (filter P (md_revisions db))) clear_conflict (md_candidates db)" for P db2
    using wf named_after_delete [OF _ that(1)] unfolding conflicts_wf_def that(2) set_update_where by blast
  from assms(1) show ?thesis
  proof cases
    case (Memory_dropped m)
    show ?thesis by (rule dropped) (simp_all add: Memory_dropped(1))
  next
    case (Revisions_dropped P)
    show ?thesis by (rule dropped) (simp_all add: Revisions_dropped(1))
  qed (use wf in \<open>simp_all add: conflicts_wf_def conflict_named_def image_update_id revision_key_def cong: option.case_cong\<close>)
qed

lemma deletion_deep_wf:
  assumes "deletion_change owner kb db db'" and "deep_wf env db"
  shows "deep_wf env db'"
  using assms(2) deletion_ids_wf [OF assms(1), of env] deletion_memories_wf [OF assms(1), of env]
    deletion_revisions_wf [OF assms(1), of env] deletion_candidates_wf [OF assms(1), of env]
    deletion_links_wf [OF assms(1), of env] deletion_content [OF assms(1), of env] deletion_conflicts [OF assms(1)]
  unfolding deep_wf_def memory_wf_def by simp

subsection \<open>Isolation, and nothing is added\<close>

definition only_removed :: "memory_db \<Rightarrow> memory_db \<Rightarrow> bool" where
  "only_removed db db' \<longleftrightarrow>
     set (md_evidence db') \<subseteq> set (md_evidence db) \<and>
     cm_memory_id ` set (md_memories db') \<subseteq> cm_memory_id ` set (md_memories db) \<and>
     mr_revision_id ` set (md_revisions db') \<subseteq> mr_revision_id ` set (md_revisions db) \<and>
     mc_candidate_id ` set (md_candidates db') \<subseteq> mc_candidate_id ` set (md_candidates db) \<and>
     set (md_revision_evidence db') \<subseteq> set (md_revision_evidence db) \<and>
     set (md_candidate_evidence db') \<subseteq> set (md_candidate_evidence db) \<and> md_audits db' = md_audits db"

text \<open>A candidate of another scope does not refer to the deleted revisions.\<close>

lemma foreign_conflicts_kept:
  assumes "conflicts_wf db" and "ids_wf env db" and "sc \<noteq> (owner, kb)"
    and gone: "\<forall>r\<in>set gone. r \<in> set (md_revisions db) \<and> mr_owner_id r = owner \<and> mr_knowledge_base_id r = kb"
  shows "filter (\<lambda>c. (mc_owner_id c, mc_knowledge_base_id c) = sc) (update_where (refers_to gone) clear_conflict (md_candidates db)) =
    filter (\<lambda>c. (mc_owner_id c, mc_knowledge_base_id c) = sc) (md_candidates db)"
proof -
  have same: "(if refers_to gone c then clear_conflict c else c) = c"
    if cand: "c \<in> set (md_candidates db)" "(mc_owner_id c, mc_knowledge_base_id c) = sc" for c
  proof -
    have "\<not> refers_to gone c"
    proof
      assume "refers_to gone c"
      then obtain r where r: "r \<in> set gone" "mc_conflicting_revision_id c = Some (mr_revision_id r)" by (auto simp: refers_to_def list_ex_iff)
      have "conflict_named db c" using assms(1) cand(1) by (simp add: conflicts_wf_def)
      then obtain q where q: "q \<in> set (md_revisions db)" "mr_revision_id q = mr_revision_id r"
          "(mr_owner_id q, mr_knowledge_base_id q) = sc"
        using r(2) cand(2) by (auto simp: conflict_named_def revision_key_def)
      have "q = r" by (rule distinct_key_unique [OF wf_distinct(2) [OF assms(2)] q(1)]) (use gone r(1) q(2) in auto)
      then show False using q(3) gone r(1) assms(3) by auto
    qed
    then show ?thesis by simp
  qed
  have "(mc_owner_id (if refers_to gone c then clear_conflict c else c), mc_knowledge_base_id (if refers_to gone c then clear_conflict c else c)) =
      (mc_owner_id c, mc_knowledge_base_id c)" for c by simp
  then have "filter (\<lambda>c. (mc_owner_id c, mc_knowledge_base_id c) = sc) (update_where (refers_to gone) clear_conflict (md_candidates db)) =
      map (\<lambda>c. if refers_to gone c then clear_conflict c else c) (filter (\<lambda>c. (mc_owner_id c, mc_knowledge_base_id c) = sc) (md_candidates db))"
    by (simp add: update_where_def filter_map comp_def)
  also have "\<dots> = filter (\<lambda>c. (mc_owner_id c, mc_knowledge_base_id c) = sc) (md_candidates db)"
    by (rule map_idI) (use same in auto)
  finally show ?thesis .
qed

lemma deletion_isolated:
  assumes "deletion_change owner kb db db'" and wf: "deep_wf env db" and "sc \<noteq> (owner, kb)"
  shows "scope_view sc db' = scope_view sc db"
proof -
  have ids: "ids_wf env db" and revs: "revisions_wf db" and conf: "conflicts_wf db" using wf by (simp_all add: deep_wf_def memory_wf_def)
  note d = wf_distinct [OF ids] and foreign = foreign_conflicts_kept [OF conf ids assms(3)]
  let ?m = "\<lambda>m. (cm_owner_id m, cm_knowledge_base_id m) = sc" and ?r = "\<lambda>r. (mr_owner_id r, mr_knowledge_base_id r) = sc"
  from assms(1) show ?thesis
  proof cases
    case (Locked ls)
    then show ?thesis by (simp add: scope_view_def)
  next
    case (Evidence_dropped ids)
    have "filter (\<lambda>e. (ev_owner_id e, ev_knowledge_base_id e) = sc) (md_evidence db') =
        filter (\<lambda>e. (ev_owner_id e, ev_knowledge_base_id e) = sc) (md_evidence db)"
      using Evidence_dropped(2) assms(3) unfolding Evidence_dropped(1) drop_simps by (intro filter_delete_other) blast
    then show ?thesis by (simp add: Evidence_dropped(1) scope_view_def)
  next
    case (Candidates_dropped ids)
    have "filter (\<lambda>c. (mc_owner_id c, mc_knowledge_base_id c) = sc) (md_candidates db') =
        filter (\<lambda>c. (mc_owner_id c, mc_knowledge_base_id c) = sc) (md_candidates db)"
      using Candidates_dropped(2) assms(3) unfolding Candidates_dropped(1) drop_simps by (intro filter_delete_other) blast
    then show ?thesis by (simp add: Candidates_dropped(1) scope_view_def)
  next
    case (Memory_dropped m)
    have other: "\<not> ?m m" unfolding Memory_dropped(3,4) using assms(3) by (rule not_sym)
    have "\<not> ?m x" if "x \<in> set (md_memories db)" "cm_memory_id x = cm_memory_id m" for x
    proof -
      have "x = m" by (rule distinct_key_unique [OF d(1) that(1) Memory_dropped(2) that(2)])
      then show ?thesis using other by simp
    qed
    then have "filter ?m (md_memories db') = filter ?m (md_memories db)"
      unfolding Memory_dropped(1) drop_simps by (rule filter_delete_other)
    moreover have scope: "mr_owner_id r = owner \<and> mr_knowledge_base_id r = kb" if r: "r \<in> set (md_revisions db)" "mr_memory_id r = cm_memory_id m" for r
    proof -
      obtain n where n: "n \<in> set (md_memories db)" "revision_of n r" using revs r(1) by (auto simp: revisions_wf_def)
      then have "cm_memory_id n = cm_memory_id m" using r(2) by (simp add: revision_of_def)
      then have "n = m" by (rule distinct_key_unique [OF d(1) n(1) Memory_dropped(2)])
      then show ?thesis using n(2) Memory_dropped(3,4) by (simp add: revision_of_def)
    qed
    then have "filter ?r (md_revisions db') = filter ?r (md_revisions db)"
      using assms(3) unfolding Memory_dropped(1) drop_simps by (intro filter_delete_other) simp
    moreover have "filter (\<lambda>c. (mc_owner_id c, mc_knowledge_base_id c) = sc) (md_candidates db') =
        filter (\<lambda>c. (mc_owner_id c, mc_knowledge_base_id c) = sc) (md_candidates db)"
      unfolding Memory_dropped(1) drop_simps by (rule foreign) (simp add: scope)
    ultimately show ?thesis by (simp add: Memory_dropped(1) scope_view_def)
  next
    case (Revisions_dropped P)
    have "filter ?r (md_revisions db') = filter ?r (md_revisions db)"
      using Revisions_dropped(2) assms(3) unfolding Revisions_dropped(1) drop_simps by (intro filter_delete_other) blast
    moreover have "filter (\<lambda>c. (mc_owner_id c, mc_knowledge_base_id c) = sc) (md_candidates db') =
        filter (\<lambda>c. (mc_owner_id c, mc_knowledge_base_id c) = sc) (md_candidates db)"
      unfolding Revisions_dropped(1) drop_simps by (rule foreign) (use Revisions_dropped(2) in simp)
    ultimately show ?thesis by (simp add: Revisions_dropped(1) scope_view_def)
  next
    case (Rolled_back m a s t)
    have scope: "(mr_owner_id a, mr_knowledge_base_id a) \<noteq> sc" "(mr_owner_id s, mr_knowledge_base_id s) \<noteq> sc"
      using Rolled_back(3,4,6,8) assms(3) by (auto simp: current_revision_def revision_of_def)
    have "filter ?m (md_memories db') = filter ?m (md_memories db)"
      unfolding Rolled_back(1) using Rolled_back(2-4) assms(3) by (simp add: filter_update_id [OF d(1)] rolled_back_def)
    moreover have "filter ?r (md_revisions db') = filter ?r (md_revisions db)"
    proof -
      let ?mid = "update_where (\<lambda>r. mr_revision_id r = mr_revision_id a) (\<lambda>r. r\<lparr>mr_valid_to := Some t\<rparr>) (md_revisions db)"
      have mid: "filter ?r ?mid = filter ?r (md_revisions db)"
        using filter_update_id [OF d(2) Rolled_back(5), of ?r] scope(1) by simp
      have "distinct (map mr_revision_id ?mid)" using d(2) by (simp add: map_update_where)
      moreover have "s \<in> set ?mid"
        using set_update_where_id [OF d(2) Rolled_back(5), of "\<lambda>r. r\<lparr>mr_valid_to := Some t\<rparr>"] Rolled_back(7,9) by simp
      ultimately have "filter ?r (update_where (\<lambda>r. mr_revision_id r = mr_revision_id s) (\<lambda>r. r\<lparr>mr_valid_to := None\<rparr>) ?mid) = filter ?r ?mid"
        using filter_update_id [of mr_revision_id ?mid s ?r] scope(2) by simp
      then show ?thesis using mid by (simp add: Rolled_back(1))
    qed
    ultimately show ?thesis by (simp add: Rolled_back(1) scope_view_def)
  next
    case (Confidence_lowered m c)
    have "filter ?m (md_memories db') = filter ?m (md_memories db)"
      unfolding Confidence_lowered(1) using Confidence_lowered(2-4) assms(3) by (simp add: filter_update_id [OF d(1)])
    then show ?thesis by (simp add: Confidence_lowered(1) scope_view_def)
  qed
qed

lemma only_removed_refl: "only_removed db db"
  by (simp add: only_removed_def)

lemma only_removed_trans: "only_removed a b \<Longrightarrow> only_removed b c \<Longrightarrow> only_removed a c"
  unfolding only_removed_def by (metis (no_types, lifting) subset_trans)

lemma deletion_only_removed: 
  assumes "deletion_change owner kb db db'"
  shows "only_removed db db'"
  using assms
proof cases
  case (Rolled_back m a s t)
  have "cm_memory_id ` set (update_where (\<lambda>q. cm_memory_id q = cm_memory_id m) (\<lambda>_. rolled_back m s) (md_memories db)) \<subseteq> cm_memory_id ` set (md_memories db)"
    using Rolled_back(2) by (auto simp: set_update_where rolled_back_def)
  then show ?thesis by (simp add: only_removed_def Rolled_back(1) image_update_id)
next
  case (Confidence_lowered m c)
  then show ?thesis by (auto simp: only_removed_def set_update_where)
qed (auto simp: only_removed_def image_update_id)

interpretation deletions: scoped_changes "\<lambda>sc. deletion_change (fst sc) (snd sc)" "deep_wf env" scope_view only_removed for env
proof
  show "deep_wf env s'" if "deletion_change (fst c) (snd c) s s'" "deep_wf env s" for c s s'
    using that by (rule deletion_deep_wf)
  show "scope_view d s' = scope_view d s" if "deletion_change (fst c) (snd c) s s'" "deep_wf env s" "d \<noteq> c" for c d s s'
    using deletion_isolated [OF that(1,2), of d] that(3) by simp
  show "only_removed s s'" if "deletion_change (fst c) (snd c) s s'" "deep_wf env s" for c s s'
    using that(1) by (rule deletion_only_removed)
qed (rule only_removed_refl, rule only_removed_trans)

abbreviation deletions_in :: "int \<Rightarrow> string option \<Rightarrow> memory_db \<Rightarrow> memory_db \<Rightarrow> bool" where
  "deletions_in owner kb \<equiv> (\<lambda>db db'. deletion_change (fst (owner, kb)) (snd (owner, kb)) db db')\<^sup>*\<^sup>*"

end
