(* ===== verification/DeletionOps.thy ===== *)
theory DeletionOps
  imports DeletionChanges GovernedOps
begin

text \<open>
  What the repair of one memory does, and that a whole deletion is a sequence of elementary removals.
\<close>

subsection \<open>One memory\<close>

definition rolled_back_db :: "canonical_memory \<Rightarrow> memory_revision \<Rightarrow> memory_revision \<Rightarrow> instant \<Rightarrow> memory_db \<Rightarrow> memory_db" where
  "rolled_back_db m a s t db = db\<lparr>
      md_memories := update_where (\<lambda>q. cm_memory_id q = cm_memory_id m) (\<lambda>_. rolled_back m s) (md_memories db),
      md_revisions := update_where (\<lambda>r. mr_revision_id r = mr_revision_id s) (\<lambda>r. r\<lparr>mr_valid_to := None\<rparr>)
        (update_where (\<lambda>r. mr_revision_id r = mr_revision_id a) (\<lambda>r. r\<lparr>mr_valid_to := Some t\<rparr>) (md_revisions db))\<rparr>"

lemma roll_back_Inr:
  assumes "roll_back env m a s db = Inr (m', db')"
  shows "m' = rolled_back m s" and "db' = rolled_back_db m a s (max (mr_valid_from a) (me_now env)) db"
    and "distinct (map active_identity (active_memories db'))"
  using assms by (auto simp: roll_back_def Let_def tx_simps rolled_back_def rolled_back_db_def dest: constraints_active)

lemma rolled_back_db_simps [simp]:
  "md_evidence (rolled_back_db m a s t db) = md_evidence db"
  "md_candidates (rolled_back_db m a s t db) = md_candidates db"
  "md_candidate_evidence (rolled_back_db m a s t db) = md_candidate_evidence db"
  "md_revision_evidence (rolled_back_db m a s t db) = md_revision_evidence db"
  by (simp_all add: rolled_back_db_def)

lemma uniq_Nil_iff [simp]: "uniq xs = [] \<longleftrightarrow> xs = []"
  by (cases xs) auto

lemma support_pos: "0 < support db rid \<longleftrightarrow> (\<exists>l\<in>set (md_revision_evidence db). fst l = rid)"
  by (simp add: support_def filter_empty_conv)

text \<open>The repaired memory, from the repaired row and the number of evidence rows left.\<close>

definition lowered :: "nat \<Rightarrow> canonical_memory \<Rightarrow> canonical_memory" where
  "lowered n m = m\<lparr>cm_confidence := min (cm_confidence m) (1 - (1 / 2) ^ n)\<rparr>"

lemma repair_memory_cases:
  assumes run: "repair_memory env owner kb m db = Inr ((revs, gone), db')"
  obtains (gone) "gone" and "\<forall>r\<in>set (memory_revisions (cm_memory_id m) owner kb db). support db (mr_revision_id r) = 0"
      and "db' = drop_memory (cm_memory_id m) db"
    | (kept) s a m1 db1 db2 where "\<not> gone" and "s \<in> set (memory_revisions (cm_memory_id m) owner kb db)"
      and "0 < support db (mr_revision_id s)"
      and "a \<in> set (memory_revisions (cm_memory_id m) owner kb db)" and "mr_revision_id a = cm_active_revision_id m"
      and "if mr_revision_id s \<noteq> mr_revision_id a then roll_back env m a s db = Inr (m1, db1) else m1 = m \<and> db1 = db"
      and "db2 = drop_revisions (\<lambda>r. mr_revision_id r \<in> mr_revision_id `
        {r \<in> set (memory_revisions (cm_memory_id m) owner kb db). support db (mr_revision_id r) = 0}) db1"
      and "db' = db2\<lparr>md_memories := update_where (\<lambda>q. cm_memory_id q = cm_memory_id m)
        (\<lambda>_. lowered (memory_support (cm_memory_id m) db2) m1) (md_memories db2)\<rparr>"
proof (cases "filter (\<lambda>r. support db (mr_revision_id r) > 0) (memory_revisions (cm_memory_id m) owner kb db) = []")
  case True
  then have "\<forall>r\<in>set (memory_revisions (cm_memory_id m) owner kb db). support db (mr_revision_id r) = 0"
    by (auto simp: filter_empty_conv)
  with run True gone show thesis by (auto simp: repair_memory_def tx_simps)
next
  case False
  let ?sup = "filter (\<lambda>r. support db (mr_revision_id r) > 0) (memory_revisions (cm_memory_id m) owner kb db)"
  define s where "s = last ?sup"
  have s: "s \<in> set ?sup" unfolding s_def by (rule last_in_set [OF False])
  obtain a where a: "find (\<lambda>r. mr_revision_id r = cm_active_revision_id m) (memory_revisions (cm_memory_id m) owner kb db) = Some a"
    using run False by (auto simp: repair_memory_def tx_simps split: option.splits)
  let ?un = "map mr_revision_id (filter (\<lambda>r. support db (mr_revision_id r) = 0) (memory_revisions (cm_memory_id m) owner kb db))"
  obtain m1 db1 where step: "(if mr_revision_id s \<noteq> mr_revision_id a then roll_back env m a s else treturn m) db = Inr (m1, db1)"
    and rest: "\<not> gone" "db' = (drop_revisions (\<lambda>r. mr_revision_id r \<in> set ?un) db1)\<lparr>md_memories :=
        update_where (\<lambda>q. cm_memory_id q = cm_memory_id m)
        (\<lambda>_. lowered (memory_support (cm_memory_id m) (drop_revisions (\<lambda>r. mr_revision_id r \<in> set ?un) db1)) m1)
        (md_memories (drop_revisions (\<lambda>r. mr_revision_id r \<in> set ?un) db1))\<rparr>"
    using run False a unfolding repair_memory_def tbind_Inr tx_Inr s_def lowered_def by (auto simp: tx_simps Let_def)
  have un: "set ?un = mr_revision_id ` {r \<in> set (memory_revisions (cm_memory_id m) owner kb db). support db (mr_revision_id r) = 0}"
    by auto
  show thesis
  proof (rule kept [of s a m1 db1 "drop_revisions (\<lambda>r. mr_revision_id r \<in> set ?un) db1"])
    show "if mr_revision_id s \<noteq> mr_revision_id a then roll_back env m a s db = Inr (m1, db1) else m1 = m \<and> db1 = db"
      using step by (simp add: tx_simps split: if_splits)
    show "drop_revisions (\<lambda>r. mr_revision_id r \<in> set ?un) db1 = drop_revisions (\<lambda>r. mr_revision_id r \<in> mr_revision_id `
        {r \<in> set (memory_revisions (cm_memory_id m) owner kb db). support db (mr_revision_id r) = 0}) db1"
      unfolding un ..
  qed (use rest s find_SomeD [OF a] in simp_all)
qed

definition revision_ids_of :: "string \<Rightarrow> memory_db \<Rightarrow> string set" where
  "revision_ids_of mid db = mr_revision_id ` {r \<in> set (md_revisions db). mr_memory_id r = mid}"

text \<open>Nothing but the memory \<open>mid\<close>, its revisions and their links is touched.\<close>

definition others_kept :: "string \<Rightarrow> memory_db \<Rightarrow> memory_db \<Rightarrow> bool" where
  "others_kept mid db db' \<longleftrightarrow>
     (\<forall>x. cm_memory_id x \<noteq> mid \<longrightarrow> (x \<in> set (md_memories db') \<longleftrightarrow> x \<in> set (md_memories db))) \<and>
     (\<forall>r. mr_memory_id r \<noteq> mid \<longrightarrow> (r \<in> set (md_revisions db') \<longleftrightarrow> r \<in> set (md_revisions db))) \<and>
     filter (\<lambda>l. fst l \<notin> revision_ids_of mid db) (md_revision_evidence db') =
       filter (\<lambda>l. fst l \<notin> revision_ids_of mid db) (md_revision_evidence db) \<and>
     md_evidence db' = md_evidence db \<and> md_candidate_evidence db' = md_candidate_evidence db \<and>
     map clear_conflict (md_candidates db') = map clear_conflict (md_candidates db)"

text \<open>Every revision of the memory has evidence, and its confidence is at most what its evidence allows.\<close>

definition well_supported :: "string \<Rightarrow> memory_db \<Rightarrow> bool" where
  "well_supported mid db \<longleftrightarrow>
     (\<forall>r\<in>set (md_revisions db). mr_memory_id r = mid \<longrightarrow> 0 < support db (mr_revision_id r)) \<and>
     (\<forall>x\<in>set (md_memories db). cm_memory_id x = mid \<longrightarrow> cm_confidence x \<le> 1 - (1 / 2) ^ memory_support mid db)"

text \<open>What became of a memory: itself, or itself with the content of an older revision, made active.\<close>

definition restored_from :: "memory_db \<Rightarrow> canonical_memory \<Rightarrow> canonical_memory \<Rightarrow> bool" where
  "restored_from db m x \<longleftrightarrow> (\<exists>n. x = lowered n m) \<or>
     (\<exists>n s. s \<in> set (md_revisions db) \<and> revision_of m s \<and> x = lowered n (rolled_back m s))"

lemma lowered_simps [simp]:
  "cm_memory_id (lowered n m) = cm_memory_id m" "cm_status (lowered n m) = cm_status m"
  "cm_active_revision_id (lowered n m) = cm_active_revision_id m" "cm_owner_id (lowered n m) = cm_owner_id m"
  "cm_knowledge_base_id (lowered n m) = cm_knowledge_base_id m"
  "cm_memory_id (rolled_back m s) = cm_memory_id m" "cm_owner_id (rolled_back m s) = cm_owner_id m"
  "cm_knowledge_base_id (rolled_back m s) = cm_knowledge_base_id m" "cm_status (rolled_back m s) = MActive"
  "cm_active_revision_id (rolled_back m s) = mr_revision_id s" "cm_confidence (rolled_back m s) = cm_confidence m"
  by (simp_all add: lowered_def rolled_back_def)

lemma deep_wfD:
  assumes "deep_wf env db"
  shows "ids_wf env db" "memories_wf env db" "revisions_wf db" "candidates_wf env db" "links_wf db" "revisions_content env db"
  using assms by (simp_all add: deep_wf_def memory_wf_def)

lemma unique_memory:
  "ids_wf env db \<Longrightarrow> m \<in> set (md_memories db) \<Longrightarrow> n \<in> set (md_memories db) \<Longrightarrow> cm_memory_id n = cm_memory_id m \<Longrightarrow> n = m"
  using distinct_key_unique [OF wf_distinct(1)] .

lemma unique_revision:
  "ids_wf env db \<Longrightarrow> r \<in> set (md_revisions db) \<Longrightarrow> q \<in> set (md_revisions db) \<Longrightarrow> mr_revision_id q = mr_revision_id r \<Longrightarrow> q = r"
  using distinct_key_unique [OF wf_distinct(2)] .

lemma memory_revision_of:
  assumes wf: "deep_wf env db" and m: "m \<in> set (md_memories db)" and r: "r \<in> set (md_revisions db)" "mr_memory_id r = cm_memory_id m"
  shows "revision_of m r"
proof -
  obtain n where n: "n \<in> set (md_memories db)" "revision_of n r" using deep_wfD(3) [OF wf] r(1) by (auto simp: revisions_wf_def)
  have "cm_memory_id n = cm_memory_id m" using n(2) r(2) by (simp add: revision_of_def)
  from unique_memory [OF deep_wfD(1) [OF wf] m n(1) this] n(2) show ?thesis by simp
qed

lemma in_memory_revisions:
  assumes "deep_wf env db" and "m \<in> set (md_memories db)" and "cm_owner_id m = owner" "cm_knowledge_base_id m = kb"
  shows "r \<in> set (memory_revisions (cm_memory_id m) owner kb db) \<longleftrightarrow> r \<in> set (md_revisions db) \<and> mr_memory_id r = cm_memory_id m"
  using memory_revision_of [OF assms(1,2), of r] assms(3,4) by (auto simp: memory_revisions_def revision_of_def)

lemma revision_idsI: "r \<in> set (md_revisions db) \<Longrightarrow> mr_memory_id r = mid \<Longrightarrow> mr_revision_id r \<in> revision_ids_of mid db"
  by (auto simp: revision_ids_of_def)

lemma filter_delete_in: "(\<And>x. x \<in> set rows \<Longrightarrow> Q x \<Longrightarrow> \<not> P x) \<Longrightarrow> filter P (delete_where Q rows) = filter P rows"
  by (rule filter_delete_other)

lemma drop_memory_spec:
  assumes wf: "deep_wf env db" and m: "m \<in> set (md_memories db)" "cm_owner_id m = owner" "cm_knowledge_base_id m = kb"
  shows "deletion_change owner kb db (drop_memory (cm_memory_id m) db)"
    and "others_kept (cm_memory_id m) db (drop_memory (cm_memory_id m) db)"
    and "well_supported (cm_memory_id m) (drop_memory (cm_memory_id m) db)"
proof -
  show "deletion_change owner kb db (drop_memory (cm_memory_id m) db)" by (rule Memory_dropped [OF m])
  show "others_kept (cm_memory_id m) db (drop_memory (cm_memory_id m) db)"
    unfolding others_kept_def drop_simps
    by (auto simp: delete_where_def update_where_def clear_conflict_def revision_ids_of_def intro!: filter_cong)
  show "well_supported (cm_memory_id m) (drop_memory (cm_memory_id m) db)" by (simp add: well_supported_def)
qed

text \<open>The rows before and after closing and reopening differ in \<open>valid_to\<close> only.\<close>

definition same_revision :: "memory_revision \<Rightarrow> memory_revision \<Rightarrow> bool" where
  "same_revision r q \<longleftrightarrow> mr_revision_id r = mr_revision_id q \<and> mr_memory_id r = mr_memory_id q \<and>
     mr_owner_id r = mr_owner_id q \<and> mr_knowledge_base_id r = mr_knowledge_base_id q"

lemma roll_back_spec:
  assumes wf: "deep_wf env db" and m: "m \<in> set (md_memories db)" "cm_owner_id m = owner" "cm_knowledge_base_id m = kb"
    and a: "a \<in> set (md_revisions db)" "mr_memory_id a = cm_memory_id m" "mr_revision_id a = cm_active_revision_id m"
    and s: "s \<in> set (md_revisions db)" "mr_memory_id s = cm_memory_id m"
    and step: "if mr_revision_id s \<noteq> mr_revision_id a then roll_back env' m a s db = Inr (m1, db1) else m1 = m \<and> db1 = db"
  shows "(deletion_change owner kb)\<^sup>*\<^sup>* db db1" and "m1 \<in> set (md_memories db1)"
    and "m1 = m \<and> s = a \<or> m1 = rolled_back m s \<and> s \<noteq> a" and "cm_active_revision_id m1 = mr_revision_id s"
    and "\<forall>x. cm_memory_id x \<noteq> cm_memory_id m \<longrightarrow> (x \<in> set (md_memories db1) \<longleftrightarrow> x \<in> set (md_memories db))"
    and "\<forall>r. mr_memory_id r \<noteq> cm_memory_id m \<longrightarrow> (r \<in> set (md_revisions db1) \<longleftrightarrow> r \<in> set (md_revisions db))"
    and "\<forall>r\<in>set (md_revisions db1). \<exists>q\<in>set (md_revisions db). same_revision r q"
    and "md_revision_evidence db1 = md_revision_evidence db" "md_evidence db1 = md_evidence db"
      "md_candidate_evidence db1 = md_candidate_evidence db" "md_candidates db1 = md_candidates db"
proof -
  note ids = deep_wfD(1) [OF wf]
  have all: "(deletion_change owner kb)\<^sup>*\<^sup>* db db1 \<and> m1 \<in> set (md_memories db1) \<and>
    (m1 = m \<and> s = a \<or> m1 = rolled_back m s \<and> s \<noteq> a) \<and> cm_active_revision_id m1 = mr_revision_id s \<and>
    (\<forall>x. cm_memory_id x \<noteq> cm_memory_id m \<longrightarrow> (x \<in> set (md_memories db1) \<longleftrightarrow> x \<in> set (md_memories db))) \<and>
    (\<forall>r. mr_memory_id r \<noteq> cm_memory_id m \<longrightarrow> (r \<in> set (md_revisions db1) \<longleftrightarrow> r \<in> set (md_revisions db))) \<and>
    (\<forall>r\<in>set (md_revisions db1). \<exists>q\<in>set (md_revisions db). same_revision r q) \<and>
    md_revision_evidence db1 = md_revision_evidence db \<and> md_evidence db1 = md_evidence db \<and>
    md_candidate_evidence db1 = md_candidate_evidence db \<and> md_candidates db1 = md_candidates db"
  proof (cases "mr_revision_id s = mr_revision_id a")
    case True
    then have "s = a" by (rule unique_revision [OF ids a(1) s(1)])
    then show ?thesis using step a(3) m(1) by (auto simp: same_revision_def)
  next
    case False
    then have sa: "s \<noteq> a" by auto
    have run: "roll_back env' m a s db = Inr (m1, db1)" using step False by simp
    note r = roll_back_Inr [OF run]
    obtain c where c: "c \<in> set (md_revisions db)" "current_revision m c"
      using deep_wfD(2) [OF wf] m(1) by (auto simp: memories_wf_def)
    have "c = a" by (rule unique_revision [OF ids a(1) c(1)]) (use c(2) a(3) in \<open>simp add: current_revision_def\<close>)
    then have cur: "current_revision m a" using c(2) by simp
    have rev: "revision_of m s" by (rule memory_revision_of [OF wf m(1) s])
    note rows = rolled_back_rows [OF ids m(1) a(1) cur s(1) rev sa]
    have mems: "set (md_memories db1) = insert (rolled_back m s) (set (md_memories db) - {m})"
      unfolding r(2) by (simp add: rolled_back_db_def rows(1))
    have revs: "set (md_revisions db1) = insert (s\<lparr>mr_valid_to := None\<rparr>)
        (insert (a\<lparr>mr_valid_to := Some (max (mr_valid_from a) (me_now env'))\<rparr>) (set (md_revisions db) - {a, s}))"
      unfolding r(2) by (simp add: rolled_back_db_def rows(2))
    have "deletion_change owner kb db db1"
      unfolding r(2) rolled_back_db_def
      by (rule Rolled_back [OF m a(1) cur s(1) rev sa])
        (use r(3) in \<open>simp add: r(2) rolled_back_db_def active_memories_def\<close>)
    moreover have "\<forall>r\<in>set (md_revisions db1). \<exists>q\<in>set (md_revisions db). same_revision r q"
      using a(1) s(1) by (auto simp: revs same_revision_def)
    ultimately show ?thesis
      using r(1) sa s(2) a(2) m(1) by (auto simp: mems revs) (simp_all add: r(2))
  qed
  then show "(deletion_change owner kb)\<^sup>*\<^sup>* db db1" "m1 \<in> set (md_memories db1)"
    "m1 = m \<and> s = a \<or> m1 = rolled_back m s \<and> s \<noteq> a" "cm_active_revision_id m1 = mr_revision_id s"
    "\<forall>x. cm_memory_id x \<noteq> cm_memory_id m \<longrightarrow> (x \<in> set (md_memories db1) \<longleftrightarrow> x \<in> set (md_memories db))"
    "\<forall>r. mr_memory_id r \<noteq> cm_memory_id m \<longrightarrow> (r \<in> set (md_revisions db1) \<longleftrightarrow> r \<in> set (md_revisions db))"
    "\<forall>r\<in>set (md_revisions db1). \<exists>q\<in>set (md_revisions db). same_revision r q"
    "md_revision_evidence db1 = md_revision_evidence db" "md_evidence db1 = md_evidence db"
    "md_candidate_evidence db1 = md_candidate_evidence db" "md_candidates db1 = md_candidates db"
    by blast+
qed

lemma deletions_wf: "(deletion_change owner kb)\<^sup>*\<^sup>* db db' \<Longrightarrow> deep_wf env db \<Longrightarrow> deep_wf env db'"
  using deletions.changes_inv [of "(owner, kb)" db db' env] by simp

lemma memory_support_cong:
  "md_revisions db' = md_revisions db \<Longrightarrow> md_revision_evidence db' = md_revision_evidence db \<Longrightarrow>
   memory_support mid db' = memory_support mid db"
  by (simp add: memory_support_def)

lemma support_cong: "md_revision_evidence db' = md_revision_evidence db \<Longrightarrow> support db' rid = support db rid"
  by (simp add: support_def)

lemma lowered_bounds:
  "unit_interval (cm_confidence m) \<Longrightarrow> 0 \<le> cm_confidence (lowered n m)"
  "cm_confidence (lowered n m) \<le> cm_confidence m" "cm_confidence (lowered n m) \<le> 1 - (1 / 2) ^ n"
  by (simp_all add: lowered_def unit_interval_def power_le_one)

lemma map_clear_update: "map clear_conflict (update_where Q clear_conflict cs) = map clear_conflict cs"
  by (simp add: update_where_def clear_conflict_def)

lemma repair_memory_spec:
  assumes wf: "deep_wf env db" and m: "m \<in> set (md_memories db)" "cm_owner_id m = owner" "cm_knowledge_base_id m = kb"
    and run: "repair_memory env' owner kb m db = Inr ((revs, gone), db')"
  shows "(deletion_change owner kb)\<^sup>*\<^sup>* db db'" and "others_kept (cm_memory_id m) db db'" and "well_supported (cm_memory_id m) db'"
    and "if gone then cm_memory_id m \<notin> cm_memory_id ` set (md_memories db')
      else \<exists>x\<in>set (md_memories db'). restored_from db m x"
proof -
  let ?goal = "(deletion_change owner kb)\<^sup>*\<^sup>* db db' \<and> others_kept (cm_memory_id m) db db' \<and> well_supported (cm_memory_id m) db' \<and>
    (if gone then cm_memory_id m \<notin> cm_memory_id ` set (md_memories db') else \<exists>x\<in>set (md_memories db'). restored_from db m x)"
  from run have ?goal
  proof (cases rule: repair_memory_cases)
    case gone
    show ?thesis unfolding gone(3) using drop_memory_spec [OF wf m] gone(1) by auto
  next
    case (kept s a m1 db1 db2)
    note rows = in_memory_revisions [OF wf m]
    have s: "s \<in> set (md_revisions db)" "mr_memory_id s = cm_memory_id m" and a: "a \<in> set (md_revisions db)" "mr_memory_id a = cm_memory_id m"
      using kept(2,4) by (simp_all add: rows)
    note rb = roll_back_spec [OF wf m a kept(5) s kept(6)]
    let ?D = "mr_revision_id ` {r \<in> set (memory_revisions (cm_memory_id m) owner kb db). support db (mr_revision_id r) = 0}"
    have wf1: "deep_wf env db1" by (rule deletions_wf [OF rb(1) wf])
    have m1: "cm_memory_id m1 = cm_memory_id m" "cm_owner_id m1 = owner" "cm_knowledge_base_id m1 = kb"
      using rb(3) m by auto
    have dropped: "mr_memory_id r = cm_memory_id m \<and> mr_valid_to r \<noteq> None \<and> revision_of m1 r"
      if r: "r \<in> set (md_revisions db1)" "mr_revision_id r \<in> ?D" for r
    proof -
      obtain q where q: "q \<in> set (md_revisions db)" "mr_memory_id q = cm_memory_id m" "support db (mr_revision_id q) = 0"
          "mr_revision_id r = mr_revision_id q" using r(2) by (auto simp: rows)
      obtain p where p: "p \<in> set (md_revisions db)" "same_revision r p" using rb(7) r(1) by blast
      have "mr_revision_id p = mr_revision_id q" using p(2) q(4) by (simp add: same_revision_def)
      then have "p = q" by (rule unique_revision [OF deep_wfD(1) [OF wf] q(1) p(1)])
      then have mid: "mr_memory_id r = cm_memory_id m" using p(2) q(2) by (simp add: same_revision_def)
      have of1: "revision_of m1 r" by (rule memory_revision_of [OF wf1 rb(2) r(1)]) (simp add: mid m1(1))
      obtain n where n: "n \<in> set (md_memories db1)" "revision_of n r" "mr_valid_to r = None \<longrightarrow> mr_revision_id r = cm_active_revision_id n"
        using deep_wfD(3) [OF wf1] r(1) by (auto simp: revisions_wf_def)
      have "cm_memory_id n = cm_memory_id m1" using n(2) mid m1(1) by (simp add: revision_of_def)
      then have "n = m1" by (rule unique_memory [OF deep_wfD(1) [OF wf1] rb(2) n(1)])
      moreover have "mr_revision_id r \<noteq> mr_revision_id s" using q(3,4) kept(3) by auto
      ultimately show ?thesis using mid of1 n(3) rb(4) by auto
    qed
    have step2: "deletion_change owner kb db1 db2" unfolding kept(7)
      by (rule Revisions_dropped) (use dropped m1 in \<open>auto simp: revision_of_def\<close>)
    have wf2: "deep_wf env db2" using deletions_wf [OF r_into_rtranclp [of "deletion_change owner kb", OF step2] wf1] .
    have m1in: "m1 \<in> set (md_memories db2)" using rb(2) by (simp add: kept(7))
    have "unit_interval (cm_confidence m1)"
      using deep_wfD(2) [OF wf2] m1in by (simp add: memories_wf_def memory_fields_ok_def)
    note bounds = lowered_bounds(1) [OF this] lowered_bounds(2,3) [of _ m1]
    let ?n = "memory_support (cm_memory_id m) db2"
    have step3: "deletion_change owner kb db2 db'"
      using Confidence_lowered [OF m1in m1(2,3) bounds(1,2) [of ?n]] unfolding kept(8) m1(1) lowered_def by simp
    have mems: "set (md_memories db') = insert (lowered ?n m1) (set (md_memories db1) - {m1})"
      using set_update_where_id [OF wf_distinct(1) [OF deep_wfD(1) [OF wf2]] m1in, of "\<lambda>_. lowered ?n m1"]
      unfolding kept(8) m1(1) by (simp add: kept(7))
    have others: "others_kept (cm_memory_id m) db db'"
    proof -
      have "x \<in> set (md_memories db') \<longleftrightarrow> x \<in> set (md_memories db)" if x: "cm_memory_id x \<noteq> cm_memory_id m" for x
        using rb(5) x m1(1) unfolding mems by auto
      moreover have "r \<in> set (md_revisions db') \<longleftrightarrow> r \<in> set (md_revisions db)" if r: "mr_memory_id r \<noteq> cm_memory_id m" for r
        using rb(6) r dropped [of r] by (auto simp: kept(7,8))
      moreover have "filter (\<lambda>l. fst l \<notin> revision_ids_of (cm_memory_id m) db) (md_revision_evidence db') =
          filter (\<lambda>l. fst l \<notin> revision_ids_of (cm_memory_id m) db) (md_revision_evidence db)"
        unfolding kept(8,7) using rb(8) by (auto simp: revision_ids_of_def rows intro!: filter_delete_other)
      ultimately show ?thesis
        unfolding others_kept_def using rb(9-11) by (simp add: kept(7,8) map_clear_update)
    qed
    have supp: "well_supported (cm_memory_id m) db'"
    proof -
      have "0 < support db' (mr_revision_id r)" if r: "r \<in> set (md_revisions db')" "mr_memory_id r = cm_memory_id m" for r
      proof -
        have r1: "r \<in> set (md_revisions db1)" "mr_revision_id r \<notin> ?D" using r(1) by (simp_all add: kept(7,8))
        obtain q where q: "q \<in> set (md_revisions db)" "same_revision r q" using rb(7) r1(1) by blast
        have "q \<in> set (memory_revisions (cm_memory_id m) owner kb db)" unfolding rows using q r(2) by (simp add: same_revision_def)
        then have "0 < support db (mr_revision_id r)" using r1(2) q(2) by (auto simp: same_revision_def)
        then obtain l where "l \<in> set (md_revision_evidence db)" "fst l = mr_revision_id r" by (auto simp: support_pos)
        then have "l \<in> set (md_revision_evidence db')" using r1(2) rb(8) by (auto simp: kept(7,8))
        then show ?thesis using \<open>fst l = _\<close> by (auto simp: support_pos)
      qed
      moreover have "cm_confidence x \<le> 1 - (1 / 2) ^ memory_support (cm_memory_id m) db'"
        if x: "x \<in> set (md_memories db')" "cm_memory_id x = cm_memory_id m" for x
      proof -
        have "x = lowered ?n m1"
        proof (rule ccontr)
          assume "x \<noteq> lowered ?n m1"
          then have "x \<in> set (md_memories db1)" "x \<noteq> m1" using x(1) by (auto simp: mems)
          then show False using unique_memory [OF deep_wfD(1) [OF wf1] rb(2), of x] x(2) m1(1) by simp
        qed
        moreover have "memory_support (cm_memory_id m) db' = ?n" by (rule memory_support_cong) (simp_all add: kept(8))
        ultimately show ?thesis using bounds(3) by simp
      qed
      ultimately show ?thesis by (simp add: well_supported_def)
    qed
    have "restored_from db m (lowered ?n m1)"
      using rb(3) s memory_revision_of [OF wf m(1) s] by (auto simp: restored_from_def)
    then have "\<exists>x\<in>set (md_memories db'). restored_from db m x" by (auto simp: mems)
    moreover have "(deletion_change owner kb)\<^sup>*\<^sup>* db db'" using rb(1) step2 step3 by (meson rtranclp.rtrancl_into_rtrancl)
    ultimately show ?thesis using others supp kept(1) by simp
  qed
  then show "(deletion_change owner kb)\<^sup>*\<^sup>* db db'" "others_kept (cm_memory_id m) db db'" "well_supported (cm_memory_id m) db'"
    "if gone then cm_memory_id m \<notin> cm_memory_id ` set (md_memories db') else \<exists>x\<in>set (md_memories db'). restored_from db m x"
    by blast+
qed

subsection \<open>All affected memories\<close>

text \<open>Everything outside the memories \<open>A\<close> is as before.\<close>

definition outside_kept :: "string set \<Rightarrow> memory_db \<Rightarrow> memory_db \<Rightarrow> bool" where
  "outside_kept A db db' \<longleftrightarrow>
     (\<forall>x. cm_memory_id x \<notin> A \<longrightarrow> (x \<in> set (md_memories db') \<longleftrightarrow> x \<in> set (md_memories db))) \<and>
     (\<forall>r. mr_memory_id r \<notin> A \<longrightarrow> (r \<in> set (md_revisions db') \<longleftrightarrow> r \<in> set (md_revisions db))) \<and>
     (\<forall>r\<in>set (md_revisions db). mr_memory_id r \<notin> A \<longrightarrow>
       (\<forall>e. (mr_revision_id r, e) \<in> set (md_revision_evidence db') \<longleftrightarrow> (mr_revision_id r, e) \<in> set (md_revision_evidence db))) \<and>
     md_evidence db' = md_evidence db \<and> md_candidate_evidence db' = md_candidate_evidence db \<and>
     map clear_conflict (md_candidates db') = map clear_conflict (md_candidates db)"

lemma outside_kept_refl: "outside_kept A db db"
  by (simp add: outside_kept_def)

lemma outside_kept_trans: "outside_kept A a b \<Longrightarrow> outside_kept B b c \<Longrightarrow> outside_kept (A \<union> B) a c"
  unfolding outside_kept_def by simp

lemma others_kept_outside:
  assumes ids: "ids_wf env db" and "others_kept mid db db'"
  shows "outside_kept {mid} db db'"
proof -
  have "(mr_revision_id r, e) \<in> set (md_revision_evidence db') \<longleftrightarrow> (mr_revision_id r, e) \<in> set (md_revision_evidence db)"
    if r: "r \<in> set (md_revisions db)" "mr_memory_id r \<noteq> mid" for r e
  proof -
    have "mr_revision_id r \<notin> revision_ids_of mid db"
      using unique_revision [OF ids r(1)] r(2) by (auto simp: revision_ids_of_def)
    moreover have "set (filter (\<lambda>l. fst l \<notin> revision_ids_of mid db) (md_revision_evidence db')) =
        set (filter (\<lambda>l. fst l \<notin> revision_ids_of mid db) (md_revision_evidence db))"
      using assms(2) by (simp add: others_kept_def)
    then have "(mr_revision_id r, e) \<in> set (md_revision_evidence db') \<and> fst (mr_revision_id r, e) \<notin> revision_ids_of mid db \<longleftrightarrow>
        (mr_revision_id r, e) \<in> set (md_revision_evidence db) \<and> fst (mr_revision_id r, e) \<notin> revision_ids_of mid db"
      unfolding set_filter by blast
    ultimately show ?thesis by simp
  qed
  then show ?thesis using assms(2) by (simp add: outside_kept_def others_kept_def)
qed

lemma length_uniq: "length (uniq xs) = card (set xs)"
  by (metis distinct_card distinct_uniq set_uniq)

lemma support_card: "support db rid = card {e. (rid, e) \<in> set (md_revision_evidence db)}"
proof -
  have "snd ` {l \<in> set (md_revision_evidence db). fst l = rid} = {e. (rid, e) \<in> set (md_revision_evidence db)}" by force
  then show ?thesis by (simp add: support_def length_uniq)
qed

lemma memory_support_card:
  "memory_support mid db = card {e. \<exists>r\<in>set (md_revisions db). mr_memory_id r = mid \<and> (mr_revision_id r, e) \<in> set (md_revision_evidence db)}"
proof -
  have "snd ` {l \<in> set (md_revision_evidence db). \<exists>r\<in>set (md_revisions db). mr_revision_id r = fst l \<and> mr_memory_id r = mid} =
     {e. \<exists>r\<in>set (md_revisions db). mr_memory_id r = mid \<and> (mr_revision_id r, e) \<in> set (md_revision_evidence db)}" by force
  then show ?thesis by (simp add: memory_support_def length_uniq list_ex_iff)
qed

lemma well_supported_outside:
  assumes k: "outside_kept A db db'" and "mid \<notin> A" and "well_supported mid db"
  shows "well_supported mid db'"
proof -
  have revs: "r \<in> set (md_revisions db') \<longleftrightarrow> r \<in> set (md_revisions db)" if "mr_memory_id r = mid" for r
    using k assms(2) that by (auto simp: outside_kept_def)
  have links: "(mr_revision_id r, e) \<in> set (md_revision_evidence db') \<longleftrightarrow> (mr_revision_id r, e) \<in> set (md_revision_evidence db)"
    if "r \<in> set (md_revisions db)" "mr_memory_id r = mid" for r e
    using k assms(2) that unfolding outside_kept_def by blast
  have "memory_support mid db' = memory_support mid db"
    unfolding memory_support_card using revs links by (intro arg_cong [of _ _ card] Collect_cong) blast
  moreover have "support db' (mr_revision_id r) = support db (mr_revision_id r)" if "r \<in> set (md_revisions db)" "mr_memory_id r = mid" for r
    unfolding support_card using links [OF that] by simp
  moreover have "x \<in> set (md_memories db') \<longleftrightarrow> x \<in> set (md_memories db)" if "cm_memory_id x = mid" for x
    using k assms(2) that by (auto simp: outside_kept_def)
  ultimately show ?thesis using assms(3) revs unfolding well_supported_def by (intro conjI ballI impI) auto
qed

text \<open>What a repair leaves of a memory, seen from the tables before a whole deletion.\<close>

definition repaired :: "memory_db \<Rightarrow> memory_db \<Rightarrow> canonical_memory \<Rightarrow> bool" where
  "repaired db db' m \<longleftrightarrow> well_supported (cm_memory_id m) db' \<and>
     (cm_memory_id m \<notin> cm_memory_id ` set (md_memories db') \<or> (\<exists>x\<in>set (md_memories db'). restored_from db m x))"

lemma restored_id: "restored_from db m x \<Longrightarrow> cm_memory_id x = cm_memory_id m"
  by (auto simp: restored_from_def)

lemma image_mem_cong: "(\<And>x. k x = y \<Longrightarrow> x \<in> A \<longleftrightarrow> x \<in> B) \<Longrightarrow> y \<in> k ` A \<longleftrightarrow> y \<in> k ` B"
  by (auto simp: image_iff)

lemma repaired_later:
  assumes "outside_kept A a b" "cm_memory_id m \<notin> A" "repaired db a m"
  shows "repaired db b m"
proof -
  have mems: "x \<in> set (md_memories b) \<longleftrightarrow> x \<in> set (md_memories a)" if "cm_memory_id x = cm_memory_id m" for x
    using assms(1,2) that by (auto simp: outside_kept_def)
  have "cm_memory_id m \<in> cm_memory_id ` set (md_memories b) \<longleftrightarrow> cm_memory_id m \<in> cm_memory_id ` set (md_memories a)"
    by (rule image_mem_cong) (rule mems)
  moreover have "x \<in> set (md_memories b) \<longleftrightarrow> x \<in> set (md_memories a)" if "restored_from db m x" for x
    using mems restored_id [OF that] by blast
  ultimately show ?thesis
    using assms(3) well_supported_outside [OF assms(1,2)] unfolding repaired_def by blast
qed

lemma repaired_earlier:
  assumes "outside_kept A a b" "cm_memory_id m \<notin> A" "repaired b c m"
  shows "repaired a c m"
proof -
  have "restored_from a m x" if "restored_from b m x" for x
    using that assms(1,2) unfolding restored_from_def outside_kept_def revision_of_def by metis
  then show ?thesis using assms(3) unfolding repaired_def by blast
qed

lemma repair_memories_spec:
  assumes "deep_wf env db" and "\<forall>m\<in>set ms. m \<in> set (md_memories db) \<and> cm_owner_id m = owner \<and> cm_knowledge_base_id m = kb"
    and "distinct (map cm_memory_id ms)" and "repair_memories env' owner kb ms db = Inr ((revs, dead, recalculated), db')"
  shows "(deletion_change owner kb)\<^sup>*\<^sup>* db db' \<and> outside_kept (cm_memory_id ` set ms) db db' \<and> (\<forall>m\<in>set ms. repaired db db' m)"
  using assms
proof (induction ms arbitrary: db db' revs dead recalculated)
  case Nil
  then show ?case by (simp add: tx_simps outside_kept_refl)
next
  case (Cons m ms)
  obtain r gone db1 rs d rc where first: "repair_memory env' owner kb m db = Inr ((r, gone), db1)"
    and rest: "repair_memories env' owner kb ms db1 = Inr ((rs, d, rc), db')"
    using Cons.prems(4) by (auto simp: tx_simps split: prod.splits)
  have m: "m \<in> set (md_memories db)" "cm_owner_id m = owner" "cm_knowledge_base_id m = kb" using Cons.prems(2) by simp_all
  note spec = repair_memory_spec [OF Cons.prems(1) m first]
  have kept: "outside_kept {cm_memory_id m} db db1" by (rule others_kept_outside [OF deep_wfD(1) [OF Cons.prems(1)] spec(2)])
  have wf1: "deep_wf env db1" by (rule deletions_wf [OF spec(1) Cons.prems(1)])
  have other: "cm_memory_id x \<notin> {cm_memory_id m}" if "x \<in> set ms" for x using Cons.prems(3) that by (auto simp: rev_image_eqI)
  have "\<forall>x\<in>set ms. x \<in> set (md_memories db1) \<and> cm_owner_id x = owner \<and> cm_knowledge_base_id x = kb"
    using Cons.prems(2) other kept by (auto simp: outside_kept_def)
  from Cons.IH [OF wf1 this _ rest] Cons.prems(3) have ih: "(deletion_change owner kb)\<^sup>*\<^sup>* db1 db'"
    "outside_kept (cm_memory_id ` set ms) db1 db'" "\<forall>x\<in>set ms. repaired db1 db' x" by simp_all
  have "repaired db db1 m" using spec(3,4) by (auto simp: repaired_def split: if_splits)
  then have "repaired db db' m" using repaired_later [OF ih(2)] Cons.prems(3) by simp
  moreover have "\<forall>x\<in>set ms. repaired db db' x" using ih(3) repaired_earlier [OF kept] other by blast
  moreover have "outside_kept (cm_memory_id ` set (m # ms)) db db'" using outside_kept_trans [OF kept ih(2)] by simp
  ultimately show ?case using spec(1) ih(1) by (simp add: rtranclp_trans)
qed

subsection \<open>The whole deletion\<close>

lemma delete_source_evidence_cases:
  assumes run: "delete_source_evidence env' owner kb f pids db = Inr (res, db')"
  obtains (empty) "filter_is_empty f" and "db' = db"
    | (deleted) ids cids mids locks dead revs gone rec where "\<not> filter_is_empty f"
      and "ids = map ev_evidence_id (filter (evidence_selected f owner kb) (md_evidence db))"
      and "cids = affected_candidates f owner kb ids db" and "mids = affected_memories f owner kb ids db"
      and "dead = unlinked_candidates cids (drop_evidence ids (db\<lparr>md_locks := locks\<rparr>))"
      and "repair_memories env' owner kb (scoped_memories mids owner kb (drop_candidates dead (drop_evidence ids (db\<lparr>md_locks := locks\<rparr>))))
         (drop_candidates dead (drop_evidence ids (db\<lparr>md_locks := locks\<rparr>))) = Inr ((revs, gone, rec), db')"
proof (cases "filter_is_empty f")
  case True
  then show thesis using run empty by (simp add: delete_source_evidence_def tx_simps)
next
  case False
  let ?ids = "map ev_evidence_id (filter (evidence_selected f owner kb) (md_evidence db))"
  let ?cids = "affected_candidates f owner kb ?ids db" and ?mids = "affected_memories f owner kb ?ids db"
  have lock: "lock_affected_slots env' owner kb c m db = Inr (u, db1) \<Longrightarrow> \<exists>ls. db1 = db\<lparr>md_locks := ls\<rparr>" for c m u db1
    by (auto simp: lock_affected_slots_def tx_simps Let_def)
  from run False show thesis
    unfolding delete_source_evidence_def if_not_P [OF False] tbind_Inr tx_Inr
    by (auto simp: tx_simps dest!: lock intro: deleted [OF _ refl refl refl refl])
qed

definition selected_ids :: "source_filter \<Rightarrow> int \<Rightarrow> string option \<Rightarrow> memory_db \<Rightarrow> string list" where
  "selected_ids f owner kb db = map ev_evidence_id (filter (evidence_selected f owner kb) (md_evidence db))"

definition touched :: "source_filter \<Rightarrow> int \<Rightarrow> string option \<Rightarrow> memory_db \<Rightarrow> string set" where
  "touched f owner kb db = set (affected_memories f owner kb (selected_ids f owner kb db) db)"

lemma unique_evidence:
  "ids_wf env db \<Longrightarrow> e \<in> set (md_evidence db) \<Longrightarrow> d \<in> set (md_evidence db) \<Longrightarrow> ev_evidence_id d = ev_evidence_id e \<Longrightarrow> d = e"
  using distinct_key_unique [OF wf_distinct(4)] .

lemma unique_candidate:
  "ids_wf env db \<Longrightarrow> c \<in> set (md_candidates db) \<Longrightarrow> d \<in> set (md_candidates db) \<Longrightarrow> mc_candidate_id d = mc_candidate_id c \<Longrightarrow> d = c"
  using distinct_key_unique [OF wf_distinct(3)] .

lemma selected_ids_iff:
  assumes "ids_wf env db" "e \<in> set (md_evidence db)"
  shows "ev_evidence_id e \<in> set (selected_ids f owner kb db) \<longleftrightarrow> evidence_selected f owner kb e"
  using unique_evidence [OF assms] assms(2) by (auto simp: selected_ids_def)

lemma affected_candidate_scope:
  assumes wf: "deep_wf env db" and c: "c \<in> set (md_candidates db)"
    and "mc_candidate_id c \<in> set (affected_candidates f owner kb (selected_ids f owner kb db) db)"
  shows "mc_owner_id c = owner \<and> mc_knowledge_base_id c = kb"
proof -
  note ids = deep_wfD(1) [OF wf]
  consider i e where "(i, e) \<in> set (md_candidate_evidence db)" "i = mc_candidate_id c" "e \<in> set (selected_ids f owner kb db)"
    | d where "d \<in> set (md_candidates db)" "mc_candidate_id d = mc_candidate_id c" "mc_owner_id d = owner" "mc_knowledge_base_id d = kb"
    using assms(3) by (auto simp: affected_candidates_def linked_keys_def split: if_splits)
  then show ?thesis
  proof cases
    case 1
    obtain d x where d: "d \<in> set (md_candidates db)" "mc_candidate_id d = i"
      and x: "x \<in> set (md_evidence db)" "ev_evidence_id x = e" "ev_owner_id x = mc_owner_id d" "ev_knowledge_base_id x = mc_knowledge_base_id d"
      using deep_wfD(5) [OF wf] 1(1) by (fastforce simp: links_wf_def evidence_in_def)
    have "d = c" by (rule unique_candidate [OF ids c d(1)]) (simp add: d(2) 1(2))
    moreover have "evidence_selected f owner kb x" using selected_ids_iff [OF ids x(1)] 1(3) x(2) by simp
    ultimately show ?thesis using x(3,4) by (simp add: evidence_selected_def)
  next
    case 2
    then show ?thesis using unique_candidate [OF ids c 2(1,2)] by simp
  qed
qed

lemma deletion_prefix:
  assumes wf: "deep_wf env db" and db1: "db1 = drop_evidence (selected_ids f owner kb db) (db\<lparr>md_locks := locks\<rparr>)"
    and dead: "dead = unlinked_candidates (affected_candidates f owner kb (selected_ids f owner kb db) db) db1"
  shows "(deletion_change owner kb)\<^sup>*\<^sup>* db (drop_candidates dead db1)"
    and "md_evidence db1 = filter (\<lambda>e. \<not> evidence_selected f owner kb e) (md_evidence db)"
proof -
  let ?db0 = "db\<lparr>md_locks := locks\<rparr>"
  have s1: "deletion_change owner kb db ?db0" by (rule Locked)
  have "deletion_change owner kb ?db0 db1" unfolding db1
    by (rule Evidence_dropped) (use selected_ids_iff [OF deep_wfD(1) [OF wf], of _ f owner kb] in \<open>auto simp: evidence_selected_def\<close>)
  moreover have "deletion_change owner kb db1 (drop_candidates dead db1)"
  proof (rule Candidates_dropped, intro ballI impI)
    fix c
    assume c: "c \<in> set (md_candidates db1)" "mc_candidate_id c \<in> set dead"
    then show "mc_owner_id c = owner \<and> mc_knowledge_base_id c = kb"
      by (intro affected_candidate_scope [OF wf, of c f]) (auto simp: dead db1 unlinked_candidates_def)
  qed
  ultimately show "(deletion_change owner kb)\<^sup>*\<^sup>* db (drop_candidates dead db1)"
    using s1 by (meson rtranclp.rtrancl_into_rtrancl rtranclp.rtrancl_refl)
  show "md_evidence db1 = filter (\<lambda>e. \<not> evidence_selected f owner kb e) (md_evidence db)"
    using selected_ids_iff [OF deep_wfD(1) [OF wf], of _ f owner kb] by (auto simp: db1 delete_where_def intro!: filter_cong)
qed

lemma set_scoped_memories [simp]:
  "set (scoped_memories ids owner kb db) =
    {m \<in> set (md_memories db). cm_memory_id m \<in> set ids \<and> cm_owner_id m = owner \<and> cm_knowledge_base_id m = kb}"
  by (simp add: scoped_memories_def)

lemma distinct_scoped_memories: "distinct (map cm_memory_id (md_memories db)) \<Longrightarrow> distinct (map cm_memory_id (scoped_memories ids owner kb db))"
  by (simp add: scoped_memories_def distinct_map inj_on_def distinct_sort)

lemma touched_scope:
  assumes wf: "deep_wf env db" and m: "m \<in> set (md_memories db)" "cm_memory_id m \<in> touched f owner kb db"
  shows "cm_owner_id m = owner \<and> cm_knowledge_base_id m = kb"
proof -
  consider r where "r \<in> set (md_revisions db)" "mr_memory_id r = cm_memory_id m" "mr_owner_id r = owner" "mr_knowledge_base_id r = kb"
    | n where "n \<in> set (md_memories db)" "cm_memory_id n = cm_memory_id m" "cm_owner_id n = owner" "cm_knowledge_base_id n = kb"
    using m(2) by (auto simp: touched_def affected_memories_def split: if_splits)
  then show ?thesis
  proof cases
    case 1
    then show ?thesis using memory_revision_of [OF wf m(1) 1(1,2)] by (simp add: revision_of_def)
  next
    case 2
    then show ?thesis using unique_memory [OF deep_wfD(1) [OF wf] m(1) 2(1,2)] by simp
  qed
qed

lemma image_filter_key: "x \<in> set xs \<Longrightarrow> k x \<in> set (map k (filter (\<lambda>y. Q (k y)) xs)) \<longleftrightarrow> Q (k x)"
  by auto

text \<open>An affected candidate without any other evidence.\<close>

definition orphaned :: "source_filter \<Rightarrow> int \<Rightarrow> string option \<Rightarrow> memory_db \<Rightarrow> string \<Rightarrow> bool" where
  "orphaned f owner kb db cid \<longleftrightarrow> cid \<in> set (affected_candidates f owner kb (selected_ids f owner kb db) db) \<and>
     (\<forall>e. (cid, e) \<in> set (md_candidate_evidence db) \<longrightarrow> e \<in> set (selected_ids f owner kb db))"

lemma deletion_spec:
  assumes wf: "deep_wf env db" and run: "delete_source_evidence env' owner kb f pids db = Inr (res, db')" and f: "\<not> filter_is_empty f"
  shows "(deletion_change owner kb)\<^sup>*\<^sup>* db db'"
    and "md_evidence db' = filter (\<lambda>e. \<not> evidence_selected f owner kb e) (md_evidence db)"
    and "\<forall>m\<in>set (md_memories db). cm_memory_id m \<in> touched f owner kb db \<longrightarrow> repaired db db' m"
    and "\<forall>m. cm_memory_id m \<notin> touched f owner kb db \<longrightarrow> (m \<in> set (md_memories db') \<longleftrightarrow> m \<in> set (md_memories db))"
    and "map clear_conflict (md_candidates db') = map clear_conflict (delete_where (\<lambda>c. orphaned f owner kb db (mc_candidate_id c)) (md_candidates db))"
proof -
  let ?mids = "affected_memories f owner kb (selected_ids f owner kb db) db"
  let ?cids = "affected_candidates f owner kb (selected_ids f owner kb db) db"
  obtain locks dead revs gone rec where dead: "dead = unlinked_candidates ?cids (drop_evidence (selected_ids f owner kb db) (db\<lparr>md_locks := locks\<rparr>))"
    and rep: "repair_memories env' owner kb (scoped_memories ?mids owner kb
         (drop_candidates dead (drop_evidence (selected_ids f owner kb db) (db\<lparr>md_locks := locks\<rparr>))))
         (drop_candidates dead (drop_evidence (selected_ids f owner kb db) (db\<lparr>md_locks := locks\<rparr>))) = Inr ((revs, gone, rec), db')"
    using run f by (auto simp: selected_ids_def elim: delete_source_evidence_cases)
  define db1 where "db1 = drop_evidence (selected_ids f owner kb db) (db\<lparr>md_locks := locks\<rparr>)"
  define db2 where "db2 = drop_candidates dead db1"
  note pre = deletion_prefix [OF wf db1_def dead [folded db1_def]]
  have wf2: "deep_wf env db2" unfolding db2_def by (rule deletions_wf [OF pre(1) wf])
  have mems: "md_memories db2 = md_memories db" "md_revisions db2 = md_revisions db" by (simp_all add: db2_def db1_def)
  let ?ms = "scoped_memories ?mids owner kb db2"
  have "\<forall>m\<in>set ?ms. m \<in> set (md_memories db2) \<and> cm_owner_id m = owner \<and> cm_knowledge_base_id m = kb" by simp
  from repair_memories_spec [OF wf2 this distinct_scoped_memories [OF wf_distinct(1) [OF deep_wfD(1) [OF wf2]]] rep [folded db1_def, folded db2_def]]
  have r: "(deletion_change owner kb)\<^sup>*\<^sup>* db2 db'" "outside_kept (cm_memory_id ` set ?ms) db2 db'" "\<forall>m\<in>set ?ms. repaired db2 db' m"
    by simp_all
  have rep_eq: "repaired db2 db' m = repaired db db' m" for m by (simp add: repaired_def restored_from_def mems)
  show "(deletion_change owner kb)\<^sup>*\<^sup>* db db'" using pre(1) r(1) by (simp add: db2_def rtranclp_trans)
  show "md_evidence db' = filter (\<lambda>e. \<not> evidence_selected f owner kb e) (md_evidence db)"
    using r(2) pre(2) by (simp add: outside_kept_def db2_def)
  show "\<forall>m\<in>set (md_memories db). cm_memory_id m \<in> touched f owner kb db \<longrightarrow> repaired db db' m"
    using r(3) touched_scope [OF wf] by (simp add: mems rep_eq touched_def)
  show "\<forall>m. cm_memory_id m \<notin> touched f owner kb db \<longrightarrow> (m \<in> set (md_memories db') \<longleftrightarrow> m \<in> set (md_memories db))"
  proof (intro allI impI)
    fix m :: canonical_memory
    assume "cm_memory_id m \<notin> touched f owner kb db"
    then have "cm_memory_id m \<notin> cm_memory_id ` set ?ms" by (auto simp: touched_def)
    then show "m \<in> set (md_memories db') \<longleftrightarrow> m \<in> set (md_memories db)"
      using r(2) unfolding outside_kept_def mems by blast
  qed
  have "map clear_conflict (md_candidates db') = map clear_conflict (delete_where (\<lambda>c. mc_candidate_id c \<in> set dead) (md_candidates db))"
    using r(2) by (simp add: outside_kept_def db2_def db1_def)
  also have "delete_where (\<lambda>c. mc_candidate_id c \<in> set dead) (md_candidates db) =
      delete_where (\<lambda>c. orphaned f owner kb db (mc_candidate_id c)) (md_candidates db)"
    unfolding delete_where_def
  proof (rule filter_cong [OF refl])
    fix c
    assume "c \<in> set (md_candidates db)"
    then have "mc_candidate_id c \<in> set dead \<longleftrightarrow> mc_candidate_id c \<in> set ?cids \<and>
        \<not> list_ex (\<lambda>l. fst l = mc_candidate_id c) (md_candidate_evidence db1)"
      unfolding dead [folded db1_def] unlinked_candidates_def
      by (subst image_filter_key [of c _ _ "\<lambda>i. i \<in> set ?cids \<and> \<not> list_ex (\<lambda>l. fst l = i) (md_candidate_evidence db1)"])
        (simp_all add: db1_def)
    then show "(\<not> mc_candidate_id c \<in> set dead) = (\<not> orphaned f owner kb db (mc_candidate_id c))"
      by (auto simp: orphaned_def db1_def list_ex_iff)
  qed
  finally show "map clear_conflict (md_candidates db') = map clear_conflict (delete_where (\<lambda>c. orphaned f owner kb db (mc_candidate_id c)) (md_candidates db))" .
qed

text \<open>Deleting a whole scope leaves no row of it.\<close>

definition scope_emptied :: "int \<Rightarrow> string option \<Rightarrow> memory_db \<Rightarrow> bool" where
  "scope_emptied owner kb db \<longleftrightarrow>
     \<not> list_ex (\<lambda>m. cm_owner_id m = owner \<and> cm_knowledge_base_id m = kb) (md_memories db) \<and>
     \<not> list_ex (\<lambda>r. mr_owner_id r = owner \<and> mr_knowledge_base_id r = kb) (md_revisions db) \<and>
     \<not> list_ex (\<lambda>c. mc_owner_id c = owner \<and> mc_knowledge_base_id c = kb) (md_candidates db) \<and>
     \<not> list_ex (\<lambda>e. ev_owner_id e = owner \<and> ev_knowledge_base_id e = kb) (md_evidence db)"

lemma entire_scope_emptied:
  assumes wf: "deep_wf env db" and run: "delete_source_evidence env' owner kb f pids db = Inr (res, db')" and f: "sf_entire_scope f"
  shows "scope_emptied owner kb db'"
proof -
  have ne: "\<not> filter_is_empty f" using f by (simp add: filter_is_empty_def)
  note spec = deletion_spec [OF wf run ne]
  have wf': "deep_wf env db'" by (rule deletions_wf [OF spec(1) wf])
  have sel: "evidence_selected f owner kb e \<longleftrightarrow> ev_owner_id e = owner \<and> ev_knowledge_base_id e = kb" for e
    using f by (simp add: evidence_selected_def)
  have no_link: False if l: "(mr_revision_id r, e) \<in> set (md_revision_evidence db')" "r \<in> set (md_revisions db')"
      "mr_owner_id r = owner" "mr_knowledge_base_id r = kb" for r e
  proof -
    obtain q where q: "q \<in> set (md_revisions db')" "mr_revision_id q = mr_revision_id r" "evidence_in (mr_owner_id q) (mr_knowledge_base_id q) db' e"
      using deep_wfD(5) [OF wf'] l(1) by (fastforce simp: links_wf_def)
    have "q = r" by (rule unique_revision [OF deep_wfD(1) [OF wf'] l(2) q(1,2)])
    then show False using q(3) l(3,4) by (auto simp: evidence_in_def spec(2) sel)
  qed
  have mem: False if m: "m \<in> set (md_memories db')" "cm_owner_id m = owner" "cm_knowledge_base_id m = kb" for m
  proof -
    have "cm_memory_id m \<in> cm_memory_id ` set (md_memories db)"
      using deletions.changes_kept [of "(owner, kb)" db db' env] spec(1) wf m(1) by (auto simp: only_removed_def)
    then obtain n where n: "n \<in> set (md_memories db)" "cm_memory_id n = cm_memory_id m" by auto
    have t: "cm_memory_id n \<in> touched f owner kb db"
    proof (rule ccontr)
      assume out: "cm_memory_id n \<notin> touched f owner kb db"
      then have "m \<in> set (md_memories db)" using spec(4) m(1) n(2) by simp
      then show False using out f m(2,3) n(2) by (auto simp: touched_def affected_memories_def)
    qed
    then have supp: "well_supported (cm_memory_id m) db'" using spec(3) n by (auto simp: repaired_def)
    obtain r where r: "r \<in> set (md_revisions db')" "current_revision m r" using deep_wfD(2) [OF wf'] m(1) by (auto simp: memories_wf_def)
    then have rm: "mr_memory_id r = cm_memory_id m" "mr_owner_id r = owner" "mr_knowledge_base_id r = kb"
      using m(2,3) by (auto simp: current_revision_def revision_of_def)
    then have "0 < support db' (mr_revision_id r)" using supp r(1) by (simp add: well_supported_def)
    then obtain e where "(mr_revision_id r, e) \<in> set (md_revision_evidence db')" by (force simp: support_pos)
    then show False by (rule no_link [OF _ r(1) rm(2,3)])
  qed
  have rev: False if r: "r \<in> set (md_revisions db')" "mr_owner_id r = owner" "mr_knowledge_base_id r = kb" for r
  proof -
    obtain n where n: "n \<in> set (md_memories db')" "revision_of n r" using deep_wfD(3) [OF wf'] r(1) by (auto simp: revisions_wf_def)
    then show False using mem [OF n(1)] r(2,3) by (simp add: revision_of_def)
  qed
  have cand: False if c: "c \<in> set (md_candidates db')" "mc_owner_id c = owner" "mc_knowledge_base_id c = kb" for c
  proof -
    have "clear_conflict c \<in> set (map clear_conflict (md_candidates db'))" using c(1) by simp
    then obtain d where d: "d \<in> set (md_candidates db)" "\<not> orphaned f owner kb db (mc_candidate_id d)" "clear_conflict c = clear_conflict d"
      unfolding spec(5) by auto
    have "mc_owner_id (clear_conflict d) = owner" "mc_knowledge_base_id (clear_conflict d) = kb"
      unfolding d(3) [symmetric] using c(2,3) by simp_all
    then have ds: "mc_owner_id d = owner" "mc_knowledge_base_id d = kb" by simp_all
    then have "mc_candidate_id d \<in> set (affected_candidates f owner kb (selected_ids f owner kb db) db)"
      using d(1) f by (auto simp: affected_candidates_def)
    then obtain e where e: "(mc_candidate_id d, e) \<in> set (md_candidate_evidence db)" "e \<notin> set (selected_ids f owner kb db)"
      using d(2) by (force simp: orphaned_def)
    obtain q where q: "q \<in> set (md_candidates db)" "mc_candidate_id q = mc_candidate_id d" "evidence_in (mc_owner_id q) (mc_knowledge_base_id q) db e"
      using deep_wfD(5) [OF wf] e(1) by (fastforce simp: links_wf_def)
    have "q = d" by (rule unique_candidate [OF deep_wfD(1) [OF wf] d(1) q(1,2)])
    then obtain x where x: "x \<in> set (md_evidence db)" "ev_evidence_id x = e" "ev_owner_id x = owner" "ev_knowledge_base_id x = kb"
      using q(3) ds by (auto simp: evidence_in_def)
    then show False using selected_ids_iff [OF deep_wfD(1) [OF wf] x(1), of f owner kb] e(2) sel [of x] by simp
  qed
  show ?thesis
    using mem rev cand by (auto simp: scope_emptied_def list_ex_iff spec(2) sel)
qed

end
