(* ===== verification/DeletionHistory.thy ===== *)
theory DeletionHistory
  imports DeletionOps MemoryProps
begin

text \<open>
  Histories in which commands and deletions are interleaved, and the properties of deletions.
\<close>

subsection \<open>Commands keep the texts of all revisions normalised\<close>

lemma current_revision_content:
  "memory_fields_ok env m \<Longrightarrow> current_revision m r \<Longrightarrow> content_ok env (mr_subject r) (mr_predicate r) (mr_value r) (mr_fingerprint r)"
  by (simp add: memory_fields_ok_def current_revision_def same_content_def)

lemma change_content:
  assumes "memory_change env owner kb db db'" and "revisions_content env db"
  shows "revisions_content env db'"
  using assms(1)
proof cases
  case (Memory_created m r)
  then show ?thesis using assms(2) current_revision_content [OF Memory_created(6,7)] by (auto simp: revisions_content_def)
next
  case (Memory_revised m q r m' t)
  then show ?thesis using assms(2) current_revision_content [OF Memory_revised(12,13)]
    by (auto simp: revisions_content_def set_update_where)
qed (use assms(2) in \<open>simp_all add: revisions_content_def\<close>)

text \<open>Commands name only stored revisions of the scope as conflicts, and keep them.\<close>

lemma named_kept:
  "conflict_named db c \<Longrightarrow> revision_key ` set (md_revisions db) \<subseteq> revision_key ` set (md_revisions db') \<Longrightarrow> conflict_named db' c"
  by (auto simp: conflict_named_def split: option.splits)

lemma change_conflicts:
  assumes "memory_change env owner kb db db'" and "conflicts_wf db"
  shows "conflicts_wf db'"
proof -
  have "revision_key ` set (md_revisions db) \<subseteq> revision_key ` set (md_revisions db')"
    using assms(1) by cases (simp_all add: subset_insertI image_update_id revision_key_def)
  note kept = named_kept [OF _ this]
  from assms(1) show ?thesis
  proof cases
    case (Candidate_added c)
    then show ?thesis using assms(2) kept by (simp add: conflicts_wf_def)
  next
    case (Candidate_decided c s t)
    have "conflict_named db (c\<lparr>mc_status := s, mc_decided_at := Some t\<rparr>)"
      using assms(2) Candidate_decided(2) by (auto simp: conflicts_wf_def conflict_named_def split: option.splits)
    then show ?thesis using assms(2) kept by (auto simp: conflicts_wf_def Candidate_decided(1) set_update_where)
  qed (use assms(2) kept in \<open>simp_all add: conflicts_wf_def\<close>)
qed

lemma changes_content:
  assumes "(scope_change env sc)\<^sup>*\<^sup>* db db'" and "revisions_content env db"
  shows "revisions_content env db'"
  using assms by induction (simp_all add: scope_change_def change_content)

subsection \<open>Hard deletion\<close>

lemma hard_delete_memory_changes:
  assumes wf: "deep_wf env db" and run: "hard_delete_memory mid owner kb db = Inr (b, db')"
  shows "(deletion_change owner kb)\<^sup>*\<^sup>* db db'" and "b \<Longrightarrow> mid \<notin> cm_memory_id ` set (md_memories db')"
    and "b \<longleftrightarrow> load_memory_for_update mid owner kb db \<noteq> None"
proof -
  have "(deletion_change owner kb)\<^sup>*\<^sup>* db db' \<and> (b \<longrightarrow> mid \<notin> cm_memory_id ` set (md_memories db')) \<and>
    (b \<longleftrightarrow> load_memory_for_update mid owner kb db \<noteq> None)"
  proof (cases "load_memory_for_update mid owner kb db")
    case None
    then show ?thesis using run by (simp add: hard_delete_memory_def)
  next
    case (Some m)
    note m = load_memory_in [OF Some]
    let ?P = "\<lambda>c. mc_owner_id c = owner \<and> mc_knowledge_base_id c = kb \<and> (mc_conflicting_memory_id c = Some mid \<or>
      mc_fingerprint c \<in> set (map mr_fingerprint (filter (\<lambda>r. mr_memory_id r = mid \<and> mr_owner_id r = owner \<and>
        mr_knowledge_base_id r = kb) (md_revisions db))))"
    let ?gone = "map mc_candidate_id (filter ?P (md_candidates db))"
    have "tbind db_flush (\<lambda>_. treturn True) (drop_memory mid (drop_candidates ?gone db)) = Inr (b, db')"
      using run Some by (auto simp: hard_delete_memory_def Let_def)
    then have db': "db' = drop_memory mid (drop_candidates ?gone db)" "b" by (auto simp: tx_simps)
    have "\<forall>c\<in>set (md_candidates db). mc_candidate_id c \<in> set ?gone \<longrightarrow> mc_owner_id c = owner \<and> mc_knowledge_base_id c = kb"
      using unique_candidate [OF deep_wfD(1) [OF wf]] by fastforce
    then have "deletion_change owner kb db (drop_candidates ?gone db)" by (rule Candidates_dropped)
    moreover have "deletion_change owner kb (drop_candidates ?gone db) db'"
      using Memory_dropped [of m "drop_candidates ?gone db" owner kb] m by (simp add: db'(1))
    ultimately show ?thesis using Some db' by auto
  qed
  then show "(deletion_change owner kb)\<^sup>*\<^sup>* db db'" "b \<Longrightarrow> mid \<notin> cm_memory_id ` set (md_memories db')"
    "b \<longleftrightarrow> load_memory_for_update mid owner kb db \<noteq> None" by blast+
qed

lemma audit_row:
  assumes "audit env owner kb action ty tid actor reason jti db = Inr (u, db')"
  shows "md_memories db' = md_memories db" "md_revisions db' = md_revisions db" "md_evidence db' = md_evidence db"
    "md_candidates db' = md_candidates db" "md_revision_evidence db' = md_revision_evidence db"
  using assms by (auto simp: audit_def new_id_def tbind_def tmodify_def)

subsection \<open>Histories\<close>

inductive deletion_step :: "memory_env \<Rightarrow> int \<times> string option \<Rightarrow> memory_db \<Rightarrow> memory_db \<Rightarrow> bool"
  for env :: memory_env where
  Source_deleted: "delete_source_evidence (at_time env t u) owner kb f pids db = Inr (res, db') \<Longrightarrow>
    deletion_step env (owner, kb) db db'"
| Hard_deleted: "hard_delete (at_time env t u) mid owner kb actor reason db = Inr (x, db') \<Longrightarrow>
    deletion_step env (owner, kb) db db'"

inductive memory_history :: "memory_env \<Rightarrow> memory_db \<Rightarrow> bool" for env :: memory_env where
  Empty: "memory_history env empty_db"
| Commanded: "memory_history env db \<Longrightarrow> memory_step env sc db db' \<Longrightarrow> memory_history env db'"
| Deleted: "memory_history env db \<Longrightarrow> deletion_step env sc db db' \<Longrightarrow> memory_history env db'"

text \<open>Either kind of elementary change of one scope.\<close>

definition scope_move :: "memory_env \<Rightarrow> int \<times> string option \<Rightarrow> memory_db \<Rightarrow> memory_db \<Rightarrow> bool" where
  "scope_move env sc db db' \<longleftrightarrow> scope_change env sc db db' \<or> deletion_change (fst sc) (snd sc) db db'"

definition deep_governed :: "memory_env \<Rightarrow> memory_db \<Rightarrow> bool" where
  "deep_governed env db \<longleftrightarrow> inj (me_uuid env) \<and> deep_wf env db"

interpretation histories: scoped_changes "scope_move env" "deep_governed env" scope_view "\<lambda>_ _. True" for env
proof
  show "deep_governed env s'" if move: "scope_move env c s s'" and inv: "deep_governed env s" for c s s'
    using move unfolding scope_move_def
  proof
    assume "scope_change env c s s'"
    then show ?thesis
      using memory_tables.change_inv [of env c s s'] change_content [of env "fst c" "snd c" s s']
        change_conflicts [of env "fst c" "snd c" s s'] inv
      by (auto simp: deep_governed_def deep_wf_def governed_def scope_change_def)
  next
    assume "deletion_change (fst c) (snd c) s s'"
    then show ?thesis using inv deletion_deep_wf by (auto simp: deep_governed_def)
  qed
  show "scope_view d s' = scope_view d s" if move: "scope_move env c s s'" and inv: "deep_governed env s" and d: "d \<noteq> c" for c d s s'
    using move unfolding scope_move_def
  proof
    assume "scope_change env c s s'"
    then show ?thesis
      using memory_tables.change_view [of env c s s' d] inv d
      by (simp add: deep_governed_def deep_wf_def governed_def)
  next
    assume "deletion_change (fst c) (snd c) s s'"
    then show ?thesis using deletions.change_view [of c s s' env d] inv d by (simp add: deep_governed_def)
  qed
qed simp_all

lemma scope_moves:
  "(scope_change env sc)\<^sup>*\<^sup>* db db' \<Longrightarrow> (scope_move env sc)\<^sup>*\<^sup>* db db'"
  "(deletion_change (fst sc) (snd sc))\<^sup>*\<^sup>* db db' \<Longrightarrow> (scope_move env sc)\<^sup>*\<^sup>* db db'"
  by (erule rtranclp_mono [THEN predicate2D, rotated]; auto simp: scope_move_def)+

lemma deletion_changes:
  assumes "deep_wf env db" and "delete_source_evidence env' owner kb f pids db = Inr (res, db')"
  shows "(deletion_change owner kb)\<^sup>*\<^sup>* db db'"
proof (cases "filter_is_empty f")
  case True
  then show ?thesis using assms(2) by (simp add: delete_source_evidence_def tx_simps)
next
  case False
  show ?thesis by (rule deletion_spec(1) [OF assms False])
qed

definition memory_evidence_ids :: "string \<Rightarrow> memory_db \<Rightarrow> string list" where
  "memory_evidence_ids mid db = uniq (map snd (filter (\<lambda>l. list_ex (\<lambda>r. mr_revision_id r = fst l \<and> mr_memory_id r = mid)
     (md_revisions db)) (md_revision_evidence db)))"

definition only_evidence :: "string list \<Rightarrow> source_filter" where
  "only_evidence ids = \<lparr>sf_source_type = None, sf_source_ids = [], sf_source_document_id = None,
     sf_entire_scope = False, sf_evidence_ids = ids\<rparr>"

lemma hard_delete_cases:
  assumes "hard_delete env mid owner kb actor reason db = Inr (x, db')"
  obtains m db1 b db2 where "load_memory_for_update mid owner kb db = Some m"
    and "memory_evidence_ids mid db \<noteq> [] \<longrightarrow> (\<exists>r. delete_source_evidence env owner kb (only_evidence (memory_evidence_ids mid db)) [] db = Inr (r, db1))"
    and "memory_evidence_ids mid db = [] \<longrightarrow> (\<exists>ls. db1 = db\<lparr>md_locks := ls\<rparr>)"
    and "hard_delete_memory mid owner kb db1 = Inr (b, db2)"
    and "audit env owner kb ''hard_delete'' ''memory'' mid actor reason None db2 = Inr (x, db')"
proof -
  obtain m where m: "load_memory_for_update mid owner kb db = Some m"
    using assms by (cases "load_memory_for_update mid owner kb db") (simp_all add: hard_delete_def tx_simps)
  have "\<exists>u db1 b db2. (if memory_evidence_ids mid db \<noteq> []
         then tbind (delete_source_evidence env owner kb (only_evidence (memory_evidence_ids mid db)) []) (\<lambda>_. treturn ())
         else lock_memory_slot (memory_slot_lock_key env owner kb (cm_memory_type m) (cm_subject m) (cm_predicate m))) db = Inr (u, db1) \<and>
      hard_delete_memory mid owner kb db1 = Inr (b, db2) \<and>
      audit env owner kb ''hard_delete'' ''memory'' mid actor reason None db2 = Inr (x, db')"
    using assms unfolding hard_delete_def memory_evidence_ids_def only_evidence_def tbind_tget m option.case tbind_Inr [of "tbind _ _"] tbind_Inr [of "If _ _ _"] tbind_Inr [of "hard_delete_memory mid owner kb"] by blast
  then obtain u db1 b db2 where "(if memory_evidence_ids mid db \<noteq> []
         then tbind (delete_source_evidence env owner kb (only_evidence (memory_evidence_ids mid db)) []) (\<lambda>_. treturn ())
         else lock_memory_slot (memory_slot_lock_key env owner kb (cm_memory_type m) (cm_subject m) (cm_predicate m))) db = Inr (u, db1)"
      "hard_delete_memory mid owner kb db1 = Inr (b, db2)"
      "audit env owner kb ''hard_delete'' ''memory'' mid actor reason None db2 = Inr (x, db')" by blast
  then show thesis
    by (intro that [of m db1 b db2]) (auto simp: m tx_simps lock_memory_slot_def tmodify_def split: if_splits)
qed

lemma deletion_step_moves:
  assumes "deletion_step env sc db db'" and wf: "deep_governed env db"
  shows "(scope_move env sc)\<^sup>*\<^sup>* db db'"
  using assms(1)
proof cases
  case (Source_deleted t u owner kb f pids res)
  have "(deletion_change owner kb)\<^sup>*\<^sup>* db db'"
    by (rule deletion_changes [OF _ Source_deleted(2)]) (use wf in \<open>auto simp: deep_governed_def\<close>)
  then show ?thesis using scope_moves(2) [of sc] by (simp add: Source_deleted(1))
next
  case (Hard_deleted t u mid owner kb actor reason x)
  let ?e = "at_time env t u"
  have w: "deep_wf env db" using wf by (simp add: deep_governed_def)
  from Hard_deleted(2) obtain m db1 b db2 where h:
      "memory_evidence_ids mid db \<noteq> [] \<longrightarrow> (\<exists>r. delete_source_evidence ?e owner kb (only_evidence (memory_evidence_ids mid db)) [] db = Inr (r, db1))"
      "memory_evidence_ids mid db = [] \<longrightarrow> (\<exists>ls. db1 = db\<lparr>md_locks := ls\<rparr>)"
    and two: "hard_delete_memory mid owner kb db1 = Inr (b, db2)"
    and three: "audit ?e owner kb ''hard_delete'' ''memory'' mid actor reason None db2 = Inr (x, db')"
    by (rule hard_delete_cases)
  have one: "(deletion_change owner kb)\<^sup>*\<^sup>* db db1"
    using h deletion_changes [OF w] Locked by (cases "memory_evidence_ids mid db = []") blast+
  have w1: "deep_wf env db1" by (rule deletions_wf [OF one w])
  have "(deletion_change owner kb)\<^sup>*\<^sup>* db db2" using one hard_delete_memory_changes(1) [OF w1 two] by (rule rtranclp_trans)
  then have "(scope_move env (owner, kb))\<^sup>*\<^sup>* db db2" using scope_moves(2) [of "(owner, kb)"] by simp
  moreover have "(scope_change env (owner, kb))\<^sup>*\<^sup>* db2 db'" by (rule at_time_changes [OF audit_changes [OF three]])
  ultimately show ?thesis using scope_moves(1) by (metis Hard_deleted(1) rtranclp_trans)
qed

lemma history_governed: "memory_history env db \<Longrightarrow> inj (me_uuid env) \<Longrightarrow> deep_governed env db"
proof (induction rule: memory_history.induct)
  case Empty
  have "revisions_content env empty_db" "conflicts_wf empty_db" by (simp_all add: revisions_content_def conflicts_wf_def empty_db_def)
  then show ?case using empty_governed [OF Empty] by (simp add: deep_governed_def governed_def deep_wf_def)
next
  case (Commanded db sc db')
  have "governed env db" using Commanded by (simp add: deep_governed_def governed_def deep_wf_def)
  then show ?case using histories.changes_inv [OF scope_moves(1) [OF step_changes [OF Commanded.hyps(2)]]] Commanded by blast
next
  case (Deleted db sc db')
  then show ?case using histories.changes_inv [OF deletion_step_moves [OF Deleted.hyps(2)]] by blast
qed

end
