(* ===== verification/DeletionProps.thy ===== *)
theory DeletionProps
  imports DeletionHistory
begin

text \<open>The properties of source deletion.\<close>

subsection \<open>A concrete history for the witnesses\<close>

text \<open>Two sources support one memory; the second one replaces its value and is then deleted.\<close>

definition wide_env :: memory_env where
  "wide_env = sample_env\<lparr>me_dumps := (\<lambda>j. case j of JList [_, _, JList xs] \<Rightarrow>
     concat (map (\<lambda>x. case x of JStr s \<Rightarrow> s | _ \<Rightarrow> []) xs) | _ \<Rightarrow> [])\<rparr>"

definition said_in :: "string \<Rightarrow> evidence_input" where
  "said_in s = sample_evidence\<lparr>ei_source_id := s\<rparr>"

definition learn :: "string \<Rightarrow> string \<Rightarrow> bool \<Rightarrow> memory_db \<Rightarrow> memory_db" where
  "learn v s explicit db = after_tx (reconcile_candidate wide_env 7 None ''preference'' ''User'' ''likes'' v (9 / 10) SLow
     [said_in s] [] explicit ''policy'' db)"

definition conversation_named :: "string \<Rightarrow> source_filter" where
  "conversation_named s = \<lparr>sf_source_type = Some ''conversation'', sf_source_ids = [s], sf_source_document_id = None,
     sf_entire_scope = False, sf_evidence_ids = []\<rparr>"

definition forget :: "source_filter \<Rightarrow> memory_db \<Rightarrow> memory_db" where
  "forget f db = after_tx (delete_source_evidence wide_env 7 None f [] db)"

definition told_db1 :: memory_db where "told_db1 = learn ''tea'' ''s1'' False empty_db"
definition told_db2 :: memory_db where "told_db2 = learn ''coffee'' ''s2'' True told_db1"
definition told_db3 :: memory_db where "told_db3 = forget (conversation_named ''s2'') told_db2"
definition told_db4 :: memory_db where
  "told_db4 = after_tx (revise_command wide_env ''xx'' 7 None ''user'' ''likes'' ''water'' None SLow ''u7'' ''edit'' told_db2)"
definition told_db5 :: memory_db where "told_db5 = forget (conversation_named ''s2'') told_db4"
definition told_db6 :: memory_db where "told_db6 = forget entire_scope told_db4"

lemma told_runs:
  "\<not> isl (reconcile_candidate wide_env 7 None ''preference'' ''User'' ''likes'' ''tea'' (9 / 10) SLow [said_in ''s1''] [] False ''policy'' empty_db)"
  "\<not> isl (reconcile_candidate wide_env 7 None ''preference'' ''User'' ''likes'' ''coffee'' (9 / 10) SLow [said_in ''s2''] [] True ''policy'' told_db1)"
  "\<not> isl (revise_command wide_env ''xx'' 7 None ''user'' ''likes'' ''water'' None SLow ''u7'' ''edit'' told_db2)"
  "\<not> isl (delete_source_evidence wide_env 7 None (conversation_named ''s2'') [] told_db2)"
  "\<not> isl (delete_source_evidence wide_env 7 None (conversation_named ''s2'') [] told_db4)"
  by code_simp+

lemma wide_env_now: "at_time wide_env 10 10 = wide_env"
  by (simp add: at_time_def wide_env_def sample_env_def)

lemma wide_inj: "inj (me_uuid wide_env)"
  by (auto simp: wide_env_def sample_env_def inj_def dest: arg_cong [of _ _ length])

lemma told_steps:
  "memory_step wide_env (7, None) empty_db told_db1" "memory_step wide_env (7, None) told_db1 told_db2"
  "memory_step wide_env (7, None) told_db2 told_db4"
  "deletion_step wide_env (7, None) told_db2 told_db3" "deletion_step wide_env (7, None) told_db4 told_db5"
  using told_runs [THEN after_tx_Inr] wide_env_now
  unfolding told_db1_def [unfolded learn_def, symmetric] told_db2_def [unfolded learn_def, symmetric]
    told_db4_def [symmetric] told_db3_def [unfolded forget_def, symmetric] told_db5_def [unfolded forget_def, symmetric]
  by (auto intro: Reconciled [of wide_env 10 10] Revised [of wide_env 10 10] Source_deleted [of wide_env 10 10])

lemma told_history:
  "memory_history wide_env told_db2" "memory_history wide_env told_db3" "memory_history wide_env told_db4" "memory_history wide_env told_db5"
proof -
  show a: "memory_history wide_env told_db2" by (rule Commanded [OF Commanded [OF Empty told_steps(1)] told_steps(2)])
  show "memory_history wide_env told_db3" by (rule Deleted [OF a told_steps(4)])
  show b: "memory_history wide_env told_db4" by (rule Commanded [OF a told_steps(3)])
  show "memory_history wide_env told_db5" by (rule Deleted [OF b told_steps(5)])
qed

subsection \<open>Deletions keep the tables consistent\<close>

lemma historyD:
  assumes "memory_history env db" "inj (me_uuid env)"
  shows "deep_wf env db"
  using history_governed [OF assms] by (simp add: deep_governed_def)

text \<open>
  C1. Whatever commands, source deletions and hard deletions are interleaved, every memory keeps exactly one open
  revision, the one it points at, with the memory's text and fingerprint; no two active memories of a scope share a
  fingerprint; and every evidence link leads from a stored row to stored evidence of the same owner and knowledge base.
\<close>

theorem deletions_keep_tables_consistent:
  assumes "memory_history env db" and "inj (me_uuid env)"
  shows "(\<forall>m\<in>set (md_memories db). \<exists>r. filter (\<lambda>r. mr_memory_id r = cm_memory_id m \<and> mr_valid_to r = None) (md_revisions db) = [r] \<and>
      current_revision m r) \<and> distinct (map active_identity (active_memories db)) \<and>
    (\<forall>l\<in>set (md_revision_evidence db). revision_link_ok db l) \<and> (\<forall>l\<in>set (md_candidate_evidence db). candidate_link_ok db l)"
proof -
  note wf = deep_wfD [OF historyD [OF assms]]
  have "governed env db" using historyD [OF assms] assms(2) by (simp add: deep_wf_def governed_def)
  then show ?thesis using governed_one_open wf(2,5) by (simp add: memories_wf_def links_wf_iff)
qed

theorem deletions_keep_tables_consistent_witness:
  "\<exists>r. filter (\<lambda>r. mr_memory_id r = ''xx'' \<and> mr_valid_to r = None) (md_revisions told_db5) = [r] \<and>
     current_revision (hd (md_memories told_db5)) r"
proof -
  have "cm_memory_id (hd (md_memories told_db5)) = ''xx''" "hd (md_memories told_db5) \<in> set (md_memories told_db5)" by code_simp+
  then show ?thesis using deletions_keep_tables_consistent [OF told_history(4) wide_inj] by fastforce
qed

text \<open>
  C10. A deletion in one owner and knowledge base leaves every memory, revision, candidate, evidence and audit row of
  every other scope exactly as it is, the conflict references of candidates included: the foreign key that clears
  them never reaches another scope.
\<close>

theorem deletions_isolated:
  assumes "memory_history env db" and "inj (me_uuid env)" and "deletion_step env sc db db'" and "other \<noteq> sc"
  shows "scope_view other db' = scope_view other db"
proof -
  have g: "deep_governed env db" by (rule history_governed [OF assms(1,2)])
  show ?thesis by (rule histories.changes_view [OF deletion_step_moves [OF assms(3) g] g assms(4)])
qed

theorem deletions_isolated_witness: "scope_view (8, None) told_db5 = scope_view (8, None) told_db4"
  by (rule deletions_isolated [OF told_history(3) wide_inj told_steps(5)]) simp

text \<open>
  C8. A successful deletion removes exactly the selected evidence. Every memory that had evidence of it is gone, or it
  is itself, or it is back at one of its revisions and active; every other memory is untouched. Deleting an
  entire scope leaves no memory, revision, candidate or evidence in it.
\<close>

theorem source_deletion_complete:
  assumes "memory_history env db" and "inj (me_uuid env)" and "\<not> filter_is_empty f"
    and "delete_source_evidence env' owner kb f pids db = Inr (res, db')"
  shows "md_evidence db' = filter (\<lambda>e. \<not> evidence_selected f owner kb e) (md_evidence db) \<and>
    (\<forall>m\<in>set (md_memories db). if cm_memory_id m \<in> touched f owner kb db
       then cm_memory_id m \<notin> cm_memory_id ` set (md_memories db') \<or> (\<exists>x\<in>set (md_memories db'). restored_from db m x)
       else m \<in> set (md_memories db')) \<and>
    (if sf_entire_scope f then scope_emptied owner kb db' else True)"
proof -
  note wf = historyD [OF assms(1,2)]
  note spec = deletion_spec [OF wf assms(4,3)]
  show ?thesis using spec(2-4) entire_scope_emptied [OF wf assms(4)] by (auto simp: repaired_def)
qed

theorem source_deletion_complete_witness:
  "map ev_source_id (md_evidence told_db3) = [''s1''] \<and> (\<exists>x\<in>set (md_memories told_db3). restored_from told_db2 (hd (md_memories told_db2)) x)"
proof -
  have h: "\<not> filter_is_empty (conversation_named ''s2'')" "hd (md_memories told_db2) \<in> set (md_memories told_db2)"
    "''xx'' \<in> cm_memory_id ` set (md_memories told_db3)" "cm_memory_id (hd (md_memories told_db2)) = ''xx''"
    "''xx'' \<in> set (affected_memories (conversation_named ''s2'') 7 None (selected_ids (conversation_named ''s2'') 7 None told_db2) told_db2)"
    "map ev_source_id (filter (\<lambda>e. \<not> evidence_selected (conversation_named ''s2'') 7 None e) (md_evidence told_db2)) = [''s1'']"
    by code_simp+
  obtain res where run: "delete_source_evidence wide_env 7 None (conversation_named ''s2'') [] told_db2 = Inr (res, told_db3)"
    using after_tx_Inr [OF told_runs(4)] by (auto simp: told_db3_def forget_def)
  from source_deletion_complete [OF told_history(1) wide_inj h(1) run] h(2-)
  show ?thesis by (auto simp: touched_def)
qed

subsection \<open>Confidence\<close>

lemma memory_support_pos:
  assumes "r \<in> set (md_revisions db)" "mr_memory_id r = mid" "(mr_revision_id r, e) \<in> set (md_revision_evidence db)"
  shows "0 < memory_support mid db"
  using assms by (force simp: memory_support_def filter_empty_conv list_ex_iff)

lemma touched_supported:
  assumes wf: "deep_wf env db" and f: "\<not> filter_is_empty f" and run: "delete_source_evidence env' owner kb f pids db = Inr (res, db')"
    and x: "x \<in> set (md_memories db')" "cm_memory_id x \<in> touched f owner kb db"
  shows "well_supported (cm_memory_id x) db'"
proof -
  note spec = deletion_spec [OF wf run f]
  have "cm_memory_id x \<in> cm_memory_id ` set (md_memories db)"
    using deletions.changes_kept [of "(owner, kb)" db db' env] spec(1) wf x(1) by (auto simp: only_removed_def)
  then obtain n where "n \<in> set (md_memories db)" "cm_memory_id n = cm_memory_id x" by auto
  then show ?thesis using spec(3) x(2) by (auto simp: repaired_def)
qed

text \<open>
  C16. After a deletion a memory it touched still has evidence, for its current revision too, and its confidence is
  between 0 and what that evidence allows: at most 1 - (1/2)^n for n remaining evidence rows, whatever it was before.
\<close>

theorem deletion_bounds_confidence:
  assumes "memory_history env db" and "inj (me_uuid env)" and "\<not> filter_is_empty f"
    and "delete_source_evidence env' owner kb f pids db = Inr (res, db')"
    and "x \<in> set (md_memories db')" and "cm_memory_id x \<in> touched f owner kb db"
  shows "0 < memory_support (cm_memory_id x) db' \<and> 0 < support db' (cm_active_revision_id x) \<and>
    0 \<le> cm_confidence x \<and> cm_confidence x \<le> 1 - (1 / 2) ^ memory_support (cm_memory_id x) db'"
proof -
  note wf = historyD [OF assms(1,2)]
  have wf': "deep_wf env db'" by (rule deletions_wf [OF deletion_changes [OF wf assms(4)] wf])
  have ws: "well_supported (cm_memory_id x) db'" by (rule touched_supported [OF wf assms(3-6)])
  obtain r where r: "r \<in> set (md_revisions db')" "current_revision x r" and c: "memory_fields_ok env x"
    using deep_wfD(2) [OF wf'] assms(5) by (auto simp: memories_wf_def)
  then have rx: "mr_memory_id r = cm_memory_id x" "mr_revision_id r = cm_active_revision_id x"
    by (simp_all add: current_revision_def revision_of_def)
  then have s: "0 < support db' (cm_active_revision_id x)" using ws r(1) by (auto simp: well_supported_def)
  then obtain e where "(mr_revision_id r, e) \<in> set (md_revision_evidence db')" using rx(2) by (force simp: support_pos)
  then have "0 < memory_support (cm_memory_id x) db'" by (rule memory_support_pos [OF r(1) rx(1)])
  then show ?thesis using s ws assms(5) c by (auto simp: well_supported_def memory_fields_ok_def unit_interval_def)
qed

theorem deletion_bounds_confidence_witness:
  "cm_confidence (hd (md_memories told_db3)) \<le> 1 - (1 / 2) ^ memory_support ''xx'' told_db3"
proof -
  have h: "\<not> filter_is_empty (conversation_named ''s2'')" "hd (md_memories told_db3) \<in> set (md_memories told_db3)"
    "cm_memory_id (hd (md_memories told_db3)) = ''xx''"
    "''xx'' \<in> set (affected_memories (conversation_named ''s2'') 7 None (selected_ids (conversation_named ''s2'') 7 None told_db2) told_db2)"
    by code_simp+
  obtain res where run: "delete_source_evidence wide_env 7 None (conversation_named ''s2'') [] told_db2 = Inr (res, told_db3)"
    using after_tx_Inr [OF told_runs(4)] by (auto simp: told_db3_def forget_def)
  show ?thesis using deletion_bounds_confidence [OF told_history(1) wide_inj h(1) run h(2)] h(3,4) by (simp add: touched_def)
qed

subsection \<open>What a user corrected\<close>

lemma write_revision_unsupported:
  assumes "write_revision env m q ns np nv reason actor sens [] c owner kb db = Inr (m', db')"
  shows "cm_active_revision_id m' = fresh_id env db \<and> md_revision_evidence db' = md_revision_evidence db"
  using assms unfolding write_revision_def set_memory_def
  by (auto simp: tx_simps Let_def new_id_def attach_revision_evidence_def validate_evidence_scope_def split: option.splits)

lemma revise_memory_unsupported:
  assumes "revise_memory env mid owner kb s p v reason actor sens [] c db = Inr (m', db')"
  shows "cm_active_revision_id m' = fresh_id env db \<and> md_revision_evidence db' = md_revision_evidence db"
proof -
  obtain m old ls where "write_revision env m old (normalize_memory_text s) (normalize_memory_text p)
      (normalize_memory_text v) reason actor sens [] c owner kb (db\<lparr>md_locks := ls\<rparr>) = Inr (m', db')"
    using assms unfolding revise_memory_def Let_def
    by (auto simp: tx_simps lock_memory_slot_def validate_evidence_scope_def split: option.splits)
  from write_revision_unsupported [OF this] show ?thesis by simp
qed

lemma revise_command_unsupported:
  assumes "revise_command env mid owner kb s p v c sens actor reason db = Inr (m, db')"
  shows "cm_active_revision_id m = fresh_id env db \<and> md_revision_evidence db' = md_revision_evidence db"
proof -
  obtain ls db1 u where r: "revise_memory env mid owner kb s p v reason actor sens [] c (db\<lparr>md_locks := ls\<rparr>) = Inr (m, db1)"
    and a: "audit env owner kb ''revise'' ''memory'' mid actor reason None db1 = Inr (u, db')"
    using assms unfolding revise_command_def Let_def by (auto simp: tx_simps split: option.splits)
  show ?thesis using revise_memory_unsupported [OF r] audit_row(5) [OF a] by simp
qed

lemma fresh_unsupported:
  assumes "deep_wf env db" "inj (me_uuid env)"
  shows "(fresh_id env db, e) \<notin> set (md_revision_evidence db)"
proof
  assume "(fresh_id env db, e) \<in> set (md_revision_evidence db)"
  then obtain r where "r \<in> set (md_revisions db)" "mr_revision_id r = fresh_id env db"
    using deep_wfD(5) [OF assms(1)] by (auto simp: links_wf_def)
  then have "fresh_id env db \<in> set (row_ids db)" by (force simp: row_ids_def)
  then have "fresh_id env db \<in> me_uuid env ` {..<md_ids db}" using deep_wfD(1) [OF assms(1)] by (auto simp: ids_wf_def)
  then show False using assms(2) by (auto simp: inj_eq)
qed

text \<open>
  C29. A correction made by the user does not survive the deletion of a source: a revision that a user writes has no
  evidence of its own, so deleting any source that supported the memory (even at an older revision) deletes
  the correction too, and the memory is deleted or goes back to another revision. The user's text is lost.
\<close>

theorem user_correction_lost:
  assumes "memory_history env db" and "inj (me_uuid env)"
    and "revise_command (at_time env t u) mid owner kb s p v c sens actor reason db = Inr (m, db1)"
    and "\<not> filter_is_empty f" and "delete_source_evidence env' owner kb f pids db1 = Inr (res, db2)"
    and "mid \<in> touched f owner kb db1"
  shows "cm_active_revision_id m \<notin> mr_revision_id ` {r \<in> set (md_revisions db2). mr_memory_id r = mid} \<and>
    list_all (\<lambda>x. cm_memory_id x \<noteq> mid \<or> cm_active_revision_id x \<noteq> cm_active_revision_id m) (md_memories db2)"
proof -
  note wf = historyD [OF assms(1,2)]
  note rev = revise_command_unsupported [OF assms(3)]
  have h1: "memory_history env db1" by (rule Commanded [OF assms(1) Revised [OF assms(3)]])
  note wf1 = historyD [OF h1 assms(2)]
  have d: "(deletion_change owner kb)\<^sup>*\<^sup>* db1 db2" by (rule deletion_changes [OF wf1 assms(5)])
  have wf2: "deep_wf env db2" by (rule deletions_wf [OF d wf1])
  have none: "(cm_active_revision_id m, e) \<notin> set (md_revision_evidence db2)" for e
    using deletions.changes_kept [of "(owner, kb)" db1 db2 env] d wf1 rev fresh_unsupported [OF wf assms(2), of e]
    by (auto simp: only_removed_def at_time_def)
  have supported: False if x: "x \<in> set (md_memories db2)" "cm_memory_id x = mid"
    and r: "r \<in> set (md_revisions db2)" "mr_memory_id r = mid" "mr_revision_id r = cm_active_revision_id m" for x r
  proof -
    have "well_supported mid db2" using touched_supported [OF wf1 assms(4,5) x(1)] x(2) assms(6) by simp
    then have "0 < support db2 (mr_revision_id r)" using r by (auto simp: well_supported_def)
    then show False using none r(3) by (force simp: support_pos)
  qed
  have owner_row: "\<exists>x\<in>set (md_memories db2). cm_memory_id x = mr_memory_id r" if "r \<in> set (md_revisions db2)" for r
    using deep_wfD(3) [OF wf2] that by (fastforce simp: revisions_wf_def revision_of_def)
  have current: "\<exists>r\<in>set (md_revisions db2). mr_memory_id r = cm_memory_id x \<and> mr_revision_id r = cm_active_revision_id x"
    if "x \<in> set (md_memories db2)" for x
    using deep_wfD(2) [OF wf2] that by (auto simp: memories_wf_def current_revision_def revision_of_def)
  show ?thesis using supported owner_row current by (auto simp: list_all_iff) metis+
qed

theorem user_correction_lost_witness:
  "map cm_value (md_memories told_db4) = [''water''] \<and> ''xxxxxxx'' \<notin> mr_revision_id ` {r \<in> set (md_revisions told_db5). mr_memory_id r = ''xx''}"
proof -
  have h: "\<not> filter_is_empty (conversation_named ''s2'')" "map cm_value (md_memories told_db4) = [''water'']"
    "''xx'' \<in> set (affected_memories (conversation_named ''s2'') 7 None (selected_ids (conversation_named ''s2'') 7 None told_db4) told_db4)"
    "fresh_id wide_env told_db2 = ''xxxxxxx''"
    by code_simp+
  obtain res where run: "delete_source_evidence wide_env 7 None (conversation_named ''s2'') [] told_db4 = Inr (res, told_db5)"
    using after_tx_Inr [OF told_runs(5)] by (auto simp: told_db5_def forget_def)
  obtain m where rev: "revise_command (at_time wide_env 10 10) ''xx'' 7 None ''user'' ''likes'' ''water'' None SLow ''u7'' ''edit'' told_db2 = Inr (m, told_db4)"
    using after_tx_Inr [OF told_runs(3)] by (auto simp: told_db4_def wide_env_now)
  have "cm_active_revision_id m = ''xxxxxxx''" using revise_command_unsupported [OF rev] h(4) by (simp add: wide_env_now)
  then show ?thesis using user_correction_lost [OF told_history(1) wide_inj rev h(1) run] h(2,3) by (simp add: touched_def)
qed

subsection \<open>Hard deletion\<close>

lemma memory_evidence_scope:
  assumes wf: "deep_wf env db" and m: "m \<in> set (md_memories db)" and e: "e \<in> set (md_evidence db)"
    and "ev_evidence_id e \<in> set (memory_evidence_ids (cm_memory_id m) db)"
  shows "ev_owner_id e = cm_owner_id m \<and> ev_knowledge_base_id e = cm_knowledge_base_id m"
proof -
  obtain r where r: "r \<in> set (md_revisions db)" "mr_memory_id r = cm_memory_id m" "(mr_revision_id r, ev_evidence_id e) \<in> set (md_revision_evidence db)"
    using assms(4) by (force simp: memory_evidence_ids_def list_ex_iff)
  obtain q where q: "q \<in> set (md_revisions db)" "mr_revision_id q = mr_revision_id r"
      "evidence_in (mr_owner_id q) (mr_knowledge_base_id q) db (ev_evidence_id e)"
    using deep_wfD(5) [OF wf] r(3) by (fastforce simp: links_wf_def)
  have "q = r" by (rule unique_revision [OF deep_wfD(1) [OF wf] r(1) q(1,2)])
  moreover have "revision_of m r" by (rule memory_revision_of [OF wf m r(1,2)])
  moreover obtain d where d: "d \<in> set (md_evidence db)" "ev_evidence_id d = ev_evidence_id e" "ev_owner_id d = mr_owner_id q"
      "ev_knowledge_base_id d = mr_knowledge_base_id q" using q(3) by (auto simp: evidence_in_def)
  moreover have "d = e" by (rule unique_evidence [OF deep_wfD(1) [OF wf] e d(1,2)])
  ultimately show ?thesis by (simp add: revision_of_def)
qed

lemma hard_delete_evidence:
  assumes wf: "deep_wf env db" and m: "m \<in> set (md_memories db)" "cm_owner_id m = owner" "cm_knowledge_base_id m = kb"
  shows "filter (\<lambda>e. \<not> evidence_selected (only_evidence (memory_evidence_ids (cm_memory_id m) db)) owner kb e) (md_evidence db) =
    filter (\<lambda>e. ev_evidence_id e \<notin> set (memory_evidence_ids (cm_memory_id m) db)) (md_evidence db)"
  by (rule filter_cong [OF refl]) (use memory_evidence_scope [OF wf m(1)] m(2,3) in \<open>auto simp: evidence_selected_def only_evidence_def\<close>)

text \<open>A deletion leaves a memory of the scope in the scope, or removes it.\<close>

lemma deletion_load:
  assumes wf: "deep_wf env db" and m: "load_memory_for_update mid owner kb db = Some m"
    and d: "(deletion_change owner kb)\<^sup>*\<^sup>* db db'" and x: "mid \<in> cm_memory_id ` set (md_memories db')"
  shows "load_memory_for_update mid owner kb db' \<noteq> None"
proof -
  have wf': "deep_wf env db'" by (rule deletions_wf [OF d wf])
  obtain x where x: "x \<in> set (md_memories db')" "cm_memory_id x = mid" using x by auto
  have "cm_owner_id x = owner \<and> cm_knowledge_base_id x = kb"
  proof (rule ccontr)
    assume "\<not> ?thesis"
    then have other: "(cm_owner_id x, cm_knowledge_base_id x) \<noteq> (owner, kb)" by simp
    then have "scope_view (cm_owner_id x, cm_knowledge_base_id x) db' = scope_view (cm_owner_id x, cm_knowledge_base_id x) db"
      using deletions.changes_view [of "(owner, kb)" db db' env] d wf by simp
    then have "x \<in> set (md_memories db)" using x(1) by (auto simp: scope_view_def dest!: arg_cong [of _ _ set])
    then show False using unique_memory [OF deep_wfD(1) [OF wf]] load_memory_in [OF m] x(2) other by blast
  qed
  then show ?thesis using load_memory_found [OF x(1) wf_distinct(1) [OF deep_wfD(1) [OF wf']]] x(2) by simp
qed

text \<open>
  Hard deletion is thorough: when it succeeds the memory and all its revisions are gone, and so is every piece of
  evidence that supported any of them, also where another memory relied on it; no other evidence is touched.
\<close>

theorem hard_deletion_thorough:
  assumes "memory_history env db" and "inj (me_uuid env)"
    and "hard_delete (at_time env t u) mid owner kb actor reason db = Inr (x, db')"
  shows "mid \<notin> cm_memory_id ` set (md_memories db') \<and> mid \<notin> mr_memory_id ` set (md_revisions db') \<and>
    md_evidence db' = filter (\<lambda>e. ev_evidence_id e \<notin> set (memory_evidence_ids mid db)) (md_evidence db)"
proof -
  let ?e = "at_time env t u" and ?ids = "memory_evidence_ids mid db"
  note wf = historyD [OF assms(1,2)]
  from assms(3) obtain m db1 b db2 where m: "load_memory_for_update mid owner kb db = Some m"
    and h: "?ids \<noteq> [] \<longrightarrow> (\<exists>r. delete_source_evidence ?e owner kb (only_evidence ?ids) [] db = Inr (r, db1))"
      "?ids = [] \<longrightarrow> (\<exists>ls. db1 = db\<lparr>md_locks := ls\<rparr>)"
    and two: "hard_delete_memory mid owner kb db1 = Inr (b, db2)"
    and three: "audit ?e owner kb ''hard_delete'' ''memory'' mid actor reason None db2 = Inr (x, db')"
    by (rule hard_delete_cases)
  note mm = load_memory_in [OF m]
  have one: "(deletion_change owner kb)\<^sup>*\<^sup>* db db1"
    using h deletion_changes [OF wf] Locked by (cases "?ids = []") blast+
  have ev1: "md_evidence db1 = filter (\<lambda>e. ev_evidence_id e \<notin> set ?ids) (md_evidence db)"
  proof (cases "?ids = []")
    case True
    then show ?thesis using h(2) by auto
  next
    case False
    then obtain r where "delete_source_evidence ?e owner kb (only_evidence ?ids) [] db = Inr (r, db1)" using h(1) by blast
    from deletion_spec(2) [OF wf this] False hard_delete_evidence [OF wf, of m owner kb] mm
    show ?thesis by (simp add: filter_is_empty_def only_evidence_def)
  qed
  have wf1: "deep_wf env db1" by (rule deletions_wf [OF one wf])
  note hd = hard_delete_memory_changes [OF wf1 two]
  have gone: "mid \<notin> cm_memory_id ` set (md_memories db2)"
  proof
    assume a: "mid \<in> cm_memory_id ` set (md_memories db2)"
    then have "mid \<in> cm_memory_id ` set (md_memories db1)"
      using deletions.changes_kept [of "(owner, kb)" db1 db2 env] hd(1) wf1 by (auto simp: only_removed_def)
    then show False using hd(2,3) a deletion_load [OF wf m one] by blast
  qed
  have wf2: "deep_wf env db2" by (rule deletions_wf [OF hd(1) wf1])
  have "mid \<notin> mr_memory_id ` set (md_revisions db2)"
    using deep_wfD(3) [OF wf2] gone by (fastforce simp: revisions_wf_def revision_of_def)
  moreover have "md_evidence db2 = md_evidence db1"
    using two by (auto simp: hard_delete_memory_def Let_def tx_simps split: option.splits)
  ultimately show ?thesis using gone ev1 audit_row [OF three] by simp
qed

theorem hard_deletion_thorough_witness:
  "md_memories (after_tx (hard_delete wide_env ''xx'' 7 None ''u7'' ''wrong'' told_db2)) = [] \<and>
   md_evidence (after_tx (hard_delete wide_env ''xx'' 7 None ''u7'' ''wrong'' told_db2)) = []"
proof -
  have "\<not> isl (hard_delete wide_env ''xx'' 7 None ''u7'' ''wrong'' told_db2)" by code_simp
  then obtain x where run: "hard_delete (at_time wide_env 10 10) ''xx'' 7 None ''u7'' ''wrong'' told_db2 =
      Inr (x, after_tx (hard_delete wide_env ''xx'' 7 None ''u7'' ''wrong'' told_db2))"
    using after_tx_Inr unfolding wide_env_now by blast
  have "filter (\<lambda>e. ev_evidence_id e \<notin> set (memory_evidence_ids ''xx'' told_db2)) (md_evidence told_db2) = []" by code_simp
  moreover have "map cm_memory_id (md_memories (after_tx (hard_delete wide_env ''xx'' 7 None ''u7'' ''wrong'' told_db2))) = []" by code_simp
  ultimately show ?thesis using hard_deletion_thorough [OF told_history(1) wide_inj run] by simp
qed

subsection \<open>A deletion that can never succeed\<close>

text \<open>
  A memory of type preference moves from tea (source s1) to coffee (s2, explicit). Then a memory of type profile_fact is
  learned with the text the first one had; fingerprints leave out the type. Deleting s2 sends the first memory
  back to tea, whose fingerprint is now taken: the flush fails, and with it every delivery of the deletion.
\<close>

definition learn_fact :: "string \<Rightarrow> string \<Rightarrow> memory_db \<Rightarrow> memory_db" where
  "learn_fact v s db = after_tx (reconcile_candidate wide_env 7 None ''profile_fact'' ''User'' ''likes'' v (9 / 10) SLow
     [said_in s] [] True ''u7'' db)"

lemma rollback_collides:
  "case delete_source_evidence wide_env 7 None (conversation_named ''s2'') [] (learn_fact ''tea'' ''s3'' told_db2) of
     Inl (IntegrityError _) \<Rightarrow> True | _ \<Rightarrow> False"
  by code_simp

text \<open>An invalidated memory is active again after one of its sources is deleted.\<close>

definition invalidated_db :: memory_db where
  "invalidated_db = after_tx (invalidate_command wide_env ''xx'' 7 None ''u7'' ''wrong'' told_db2)"

lemma invalidated_memory_reactivated:
  "map cm_status (md_memories invalidated_db) = [MInvalidated]"
  "map cm_status (md_memories (forget (conversation_named ''s2'') invalidated_db)) = [MActive]"
  by code_simp+

subsection \<open>Purges\<close>

lemma purge_scopes_steps:
  "purge_scopes (at_time env t u) owner n kbs db = Inr (c, db') \<Longrightarrow> (\<lambda>a b. \<exists>sc. deletion_step env sc a b)\<^sup>*\<^sup>* db db'"
proof (induction kbs arbitrary: n db)
  case (Cons kb kbs)
  then obtain r db1 where "delete_source_evidence (at_time env t u) owner kb entire_scope [] db = Inr (r, db1)"
    and rest: "purge_scopes (at_time env t u) owner (add_counts n r) kbs db1 = Inr (c, db')"
    by (auto simp: tx_simps)
  then have "\<exists>sc. deletion_step env sc db db1" using Source_deleted by blast
  then show ?case using Cons.IH [OF rest] by (rule converse_rtranclp_into_rtranclp [of "\<lambda>a b. \<exists>sc. deletion_step env sc a b"])
qed (simp add: tx_simps)

lemma purge_owner_steps:
  "purge_owner (at_time env t u) owner db = Inr (c, db') \<Longrightarrow> (\<lambda>a b. \<exists>sc. deletion_step env sc a b)\<^sup>*\<^sup>* db db'"
  unfolding purge_owner_def tbind_tget by (rule purge_scopes_steps)

lemma steps_history:
  "(\<lambda>a b. \<exists>sc. deletion_step env sc a b)\<^sup>*\<^sup>* db db' \<Longrightarrow> memory_history env db \<Longrightarrow> memory_history env db'"
  by (induction rule: rtranclp_induct) (auto intro: Deleted)

lemma scope_emptied_view:
  "scope_emptied owner kb db \<longleftrightarrow> (case scope_view (owner, kb) db of (ms, rs, cs, es, as) \<Rightarrow> ms = [] \<and> rs = [] \<and> cs = [] \<and> es = [])"
  by (auto simp: scope_emptied_def scope_view_def list_ex_iff filter_empty_conv)

lemma purge_scopes_empties:
  assumes "memory_history env db" "inj (me_uuid env)" "purge_scopes (at_time env t u) owner n kbs db = Inr (c, db')"
    and "\<forall>k. k \<notin> set kbs \<longrightarrow> scope_emptied owner k db"
  shows "scope_emptied owner kb db'"
  using assms
proof (induction kbs arbitrary: n db)
  case (Cons k kbs)
  then obtain r db1 where run: "delete_source_evidence (at_time env t u) owner k entire_scope [] db = Inr (r, db1)"
    and rest: "purge_scopes (at_time env t u) owner (add_counts n r) kbs db1 = Inr (c, db')"
    by (auto simp: tx_simps)
  have step: "deletion_step env (owner, k) db db1" by (rule Source_deleted [OF run])
  note wf = historyD [OF Cons.prems(1,2)] and g = history_governed [OF Cons.prems(1,2)]
  have "scope_emptied owner j db1" if j: "j \<notin> set kbs" for j
  proof (cases "j = k")
    case True
    then show ?thesis using entire_scope_emptied [OF wf run] by (simp add: entire_scope_def)
  next
    case False
    have "scope_view (owner, j) db1 = scope_view (owner, j) db"
      by (rule histories.changes_view [OF deletion_step_moves [OF step g] g]) (simp add: False)
    moreover have "scope_emptied owner j db" using Cons.prems(4) j False by simp
    ultimately show ?thesis by (simp add: scope_emptied_view)
  qed
  then show ?case using Cons.IH [OF Deleted [OF Cons.prems(1) step] Cons.prems(2) rest] by blast
qed (simp add: tx_simps)

text \<open>
  C26. Purging an owner is complete: when it succeeds, no memory, revision, candidate or evidence of the owner is left
  in any knowledge base, although the purge looks for the owner's scopes only once, before it deletes the first one.
\<close>

theorem owner_purge_complete:
  assumes "memory_history env db" and "inj (me_uuid env)" and "purge_owner (at_time env t u) owner db = Inr (c, db')"
  shows "scope_emptied owner kb db'"
proof (rule purge_scopes_empties [OF assms(1,2)])
  show "purge_scopes (at_time env t u) owner no_counts (owner_scopes owner db) db = Inr (c, db')"
    using assms(3) by (simp add: purge_owner_def tbind_tget)
  have "mr_owner_id r \<noteq> owner \<or> mr_knowledge_base_id r \<in> set (owner_scopes owner db)" if row: "r \<in> set (md_revisions db)" for r
  proof -
    obtain m where "m \<in> set (md_memories db)" "revision_of m r"
      using deep_wfD(3) [OF historyD [OF assms(1,2)]] row by (auto simp: revisions_wf_def)
    then show ?thesis by (auto simp: owner_scopes_def revision_of_def)
  qed
  then show "\<forall>k. k \<notin> set (owner_scopes owner db) \<longrightarrow> scope_emptied owner k db"
    by (auto simp: scope_emptied_def list_ex_iff owner_scopes_def)
qed

theorem owner_purge_complete_witness:
  "scope_emptied 7 None (after_tx (purge_owner wide_env 7 told_db2)) \<and> \<not> scope_emptied 7 None told_db2"
proof -
  have "\<not> isl (purge_owner wide_env 7 told_db2)" by code_simp
  then obtain c where "purge_owner (at_time wide_env 10 10) 7 told_db2 = Inr (c, after_tx (purge_owner wide_env 7 told_db2))"
    using after_tx_Inr unfolding wide_env_now by blast
  moreover have "\<not> scope_emptied 7 None told_db2" by code_simp
  ultimately show ?thesis using owner_purge_complete [OF told_history(1) wide_inj] by blast
qed

end
