(* ===== verification/Projections.thy ===== *)
theory Projections
  imports Fences
begin

text \<open>
  Document projections: \<open>memoria/server/services/projections.py\<close>, \<open>repositories/projections.py\<close>, their tables
  and payloads. A version of a document arrives in batches; when all of them are stored the version is
  checked, its chunks are written and made visible, and the version before is retired, in one transaction.

  \<open>pv_sha256\<close> is SHA-256 of the UTF-8 bytes in hexadecimal, \<open>pv_dump\<close> the sorted compact JSON of the chunks.
  Storing a chunk as JSON and validating it again is the identity. Embedding is an argument; of the vectors only
  their number matters.
\<close>

subsection \<open>Payloads and tables\<close>

record chunk_payload =
  cp_chunk_id :: string
  cp_chunk_index :: int
  cp_content :: string
  cp_content_hash :: string
  cp_page_no :: "int option"
  cp_section_path :: "string list"

record projection_payload =
  pl_projection_id :: string
  pl_document_id :: string
  pl_document_version :: string
  pl_file_name :: string
  pl_batch_index :: int
  pl_batch_count :: int
  pl_aggregate_hash :: string
  pl_chunks :: "chunk_payload list"

datatype projection_status = PjStaging | PjActive | PjFailed | PjSuperseded

record document_projection =
  dp_projection_id :: string
  dp_owner_id :: int
  dp_knowledge_base_id :: string
  dp_document_id :: string
  dp_document_version :: string
  dp_file_name :: string
  dp_batch_count :: int
  dp_aggregate_hash :: string
  dp_status :: projection_status
  dp_failure_reason :: "string option"
  dp_activated_at :: "instant option"

record projection_batch =
  pb_projection_id :: string
  pb_batch_index :: int
  pb_payload_hash :: string
  pb_chunks :: "chunk_payload list"

record 'v document_chunk =
  ck_projection_id :: string
  ck_owner_id :: int
  ck_knowledge_base_id :: string
  ck_document_id :: string
  ck_document_version :: string
  ck_payload :: chunk_payload
  ck_embedding :: 'v
  ck_is_active :: bool

record 'v projection_db =
  pj_projections :: "document_projection list"
  pj_batches :: "projection_batch list"
  pj_chunks :: "'v document_chunk list"

record projection_env =
  pv_sha256 :: "string \<Rightarrow> string"
  pv_dump :: "chunk_payload list \<Rightarrow> string"

definition status_text :: "projection_status \<Rightarrow> string" where
  "status_text s = (case s of PjStaging \<Rightarrow> ''staging'' | PjActive \<Rightarrow> ''active'' | PjFailed \<Rightarrow> ''failed''
     | PjSuperseded \<Rightarrow> ''superseded'')"

text \<open>The unique constraints of the three tables, two of them partial indexes.\<close>

definition projection_constraints :: "'v projection_db \<Rightarrow> bool" where
  "projection_constraints db \<longleftrightarrow>
     distinct (map dp_projection_id (pj_projections db)) \<and>
     distinct (map (\<lambda>p. (dp_owner_id p, dp_knowledge_base_id p, dp_document_id p, dp_document_version p)) (pj_projections db)) \<and>
     distinct (map (\<lambda>p. (dp_owner_id p, dp_knowledge_base_id p, dp_document_id p))
       (filter (\<lambda>p. dp_status p = PjActive) (pj_projections db))) \<and>
     distinct (map (\<lambda>b. (pb_projection_id b, pb_batch_index b)) (pj_batches db)) \<and>
     distinct (map (\<lambda>c. (ck_projection_id c, cp_chunk_id (ck_payload c))) (pj_chunks db)) \<and>
     distinct (map (\<lambda>c. (ck_projection_id c, cp_chunk_index (ck_payload c))) (pj_chunks db)) \<and>
     distinct (map (\<lambda>c. (ck_owner_id c, ck_knowledge_base_id c, cp_chunk_id (ck_payload c)))
       (filter ck_is_active (pj_chunks db)))"

definition projection_flush :: "('v projection_db, unit) tx" where
  "projection_flush db = (if projection_constraints db then Inr ((), db) else Inl (IntegrityError ''unique constraint of the projection tables''))"

subsection \<open>Checks\<close>

definition is_hex :: "char \<Rightarrow> bool" where
  "is_hex c \<longleftrightarrow> is_digit c \<or> (CHR ''a'' \<le> c \<and> c \<le> CHR ''f'') \<or> (CHR ''A'' \<le> c \<and> c \<le> CHR ''F'')"

fun hex_tail :: "string \<Rightarrow> bool" where
  "hex_tail [] = True"
| "hex_tail [c] = is_hex c"
| "hex_tail (c # d # cs) = (if is_hex c then hex_tail (d # cs) else c = CHR ''_'' \<and> is_hex d \<and> hex_tail (d # cs))"

text \<open>Whether \<open>int(s, 16)\<close> succeeds: blanks around, a sign and a prefix \<open>0x\<close> are accepted, single underscores too.\<close>

definition hex_body :: "string \<Rightarrow> bool" where
  "hex_body ds =
     (if length ds > 2 \<and> hd ds = CHR ''0'' \<and> ds ! 1 \<in> {CHR ''x'', CHR ''X''} then hex_tail (drop 2 ds)
      else ds \<noteq> [] \<and> is_hex (hd ds) \<and> hex_tail ds)"

definition py_hex :: "string \<Rightarrow> bool" where
  "py_hex s = (case py_strip s of [] \<Rightarrow> False
     | c # cs \<Rightarrow> hex_body (if c = CHR ''-'' \<or> c = CHR ''+'' then cs else c # cs))"

definition validate_sha256 :: "string \<Rightarrow> string \<Rightarrow> unit result" where
  "validate_sha256 v field =
     (if length v \<noteq> 64 \<or> \<not> py_hex v then Inl (ProjectionIntegrityError (field @ '' must be a SHA-256 hex digest''))
      else if v \<noteq> casefold v then Inl (ProjectionIntegrityError (field @ '' must use lowercase hexadecimal''))
      else Inr ())"

definition validate_identifier :: "string \<Rightarrow> string \<Rightarrow> nat \<Rightarrow> unit result" where
  "validate_identifier v field max_length =
     (if v = [] \<or> length v > max_length
      then Inl (ProjectionIntegrityError (field @ '' must contain between 1 and '' @ py_str_int (int max_length) @ '' characters''))
      else Inr ())"

definition eguard :: "bool \<Rightarrow> py_error \<Rightarrow> unit result" where
  "eguard c e = (if c then Inr () else Inl e)"

fun check_all :: "('a \<Rightarrow> unit result) \<Rightarrow> 'a list \<Rightarrow> unit result" where
  "check_all f [] = Inr ()"
| "check_all f (x # xs) = ebind (f x) (\<lambda>_. check_all f xs)"

definition check_content :: "projection_env \<Rightarrow> chunk_payload \<Rightarrow> unit result" where
  "check_content env c =
     ebind (validate_sha256 (cp_content_hash c) (''chunk '' @ cp_chunk_id c @ '' content_hash'')) (\<lambda>_.
     eguard (pv_sha256 env (cp_content c) = cp_content_hash c)
       (ProjectionIntegrityError (''content hash mismatch for chunk '' @ cp_chunk_id c)))"

definition snapshot_hash :: "projection_env \<Rightarrow> chunk_payload list \<Rightarrow> string" where
  "snapshot_hash env chunks = pv_sha256 env (pv_dump env chunks)"

subsection \<open>Preparing a version\<close>

record prepared_projection =
  pp_projection_id :: string
  pp_owner_id :: int
  pp_knowledge_base_id :: string
  pp_document_id :: string
  pp_document_version :: string
  pp_chunks :: "chunk_payload list"
  pp_snapshot_hash :: string

definition load_projection_for_update :: "string \<Rightarrow> 'v projection_db \<Rightarrow> document_projection option" where
  "load_projection_for_update pid db = find (\<lambda>p. dp_projection_id p = pid) (pj_projections db)"

definition load_projection_batches :: "string \<Rightarrow> 'v projection_db \<Rightarrow> projection_batch list" where
  "load_projection_batches pid db = sort_key pb_batch_index (filter (\<lambda>b. pb_projection_id b = pid) (pj_batches db))"

definition py_int_list :: "int list \<Rightarrow> string" where
  "py_int_list xs = ''['' @ py_join '', '' (map py_str_int xs) @ '']''"

definition index_range :: "int \<Rightarrow> int list" where
  "index_range n = map int [0..<nat n]"

definition prepare_projection :: "projection_env \<Rightarrow> document_projection \<Rightarrow> 'v projection_db \<Rightarrow> prepared_projection result" where
  "prepare_projection env p db =
     (let batches = load_projection_batches (dp_projection_id p) db;
          received = map pb_batch_index batches;
          expected = index_range (dp_batch_count p);
          chunks = sort_key (\<lambda>c. (cp_chunk_index c, cp_chunk_id c)) (concat (map pb_chunks batches))
      in ebind (eguard (received = expected) (IncompleteProjectionError (''projection requires batch indexes '' @
           py_int_list expected @ ''; received '' @ py_int_list received))) (\<lambda>_.
         ebind (eguard (map cp_chunk_index chunks = index_range (int (length chunks)))
           (ProjectionIntegrityError ''chunk indexes must be unique and contiguous from zero'')) (\<lambda>_.
         ebind (eguard (distinct (map cp_chunk_id chunks))
           (ProjectionIntegrityError ''chunk IDs must be unique within a projection'')) (\<lambda>_.
         ebind (check_all (check_content env) chunks) (\<lambda>_.
         ebind (validate_sha256 (dp_aggregate_hash p) ''aggregate_hash'') (\<lambda>_.
         ebind (eguard (pv_sha256 env (concat (map cp_content_hash chunks)) = dp_aggregate_hash p)
           (ProjectionIntegrityError ''projection aggregate hash mismatch'')) (\<lambda>_.
         Inr \<lparr>pp_projection_id = dp_projection_id p, pp_owner_id = dp_owner_id p,
           pp_knowledge_base_id = dp_knowledge_base_id p, pp_document_id = dp_document_id p,
           pp_document_version = dp_document_version p, pp_chunks = chunks,
           pp_snapshot_hash = snapshot_hash env chunks\<rparr>)))))))"

subsection \<open>Staging a batch\<close>

definition POSTGRES_INTEGER_MAX :: int where
  "POSTGRES_INTEGER_MAX = 2147483647"

record projection_batch_receipt =
  rc_projection_id :: string
  rc_batch_index :: int
  rc_created :: bool
  rc_is_final_batch :: bool

definition projection_batch_payload_hash :: "projection_env \<Rightarrow> projection_payload \<Rightarrow> string" where
  "projection_batch_payload_hash env payload = pv_sha256 env (pv_dump env (pl_chunks payload))"

definition new_projection :: "projection_payload \<Rightarrow> int \<Rightarrow> string \<Rightarrow> document_projection" where
  "new_projection payload owner kb =
     \<lparr>dp_projection_id = pl_projection_id payload, dp_owner_id = owner, dp_knowledge_base_id = kb,
      dp_document_id = pl_document_id payload, dp_document_version = pl_document_version payload,
      dp_file_name = pl_file_name payload, dp_batch_count = pl_batch_count payload,
      dp_aggregate_hash = pl_aggregate_hash payload, dp_status = PjStaging, dp_failure_reason = None,
      dp_activated_at = None\<rparr>"

definition same_version :: "document_projection \<Rightarrow> document_projection \<Rightarrow> bool" where
  "same_version p q \<longleftrightarrow> dp_owner_id p = dp_owner_id q \<and> dp_knowledge_base_id p = dp_knowledge_base_id q \<and>
     dp_document_id p = dp_document_id q \<and> dp_document_version p = dp_document_version q"

text \<open>INSERT ... ON CONFLICT DO NOTHING: any unique constraint of the table makes it a no-op.\<close>

definition insert_projection :: "document_projection \<Rightarrow> ('v projection_db, unit) tx" where
  "insert_projection row = tmodify (\<lambda>db.
     if list_ex (\<lambda>p. dp_projection_id p = dp_projection_id row \<or> same_version p row) (pj_projections db) then db
     else db\<lparr>pj_projections := pj_projections db @ [row]\<rparr>)"

definition projection_metadata :: "document_projection \<Rightarrow> int \<times> string \<times> string \<times> string \<times> string \<times> int \<times> string" where
  "projection_metadata p = (dp_owner_id p, dp_knowledge_base_id p, dp_document_id p, dp_document_version p,
     dp_file_name p, dp_batch_count p, dp_aggregate_hash p)"

definition add_batch :: "projection_env \<Rightarrow> projection_payload \<Rightarrow> document_projection \<Rightarrow> ('v projection_db, bool) tx" where
  "add_batch env payload p =
     tbind (tget (\<lambda>db. find (\<lambda>b. pb_projection_id b = pl_projection_id payload \<and> pb_batch_index b = pl_batch_index payload)
       (pj_batches db))) (\<lambda>existing.
     case existing of
       Some b \<Rightarrow> tbind (tguard (pb_payload_hash b = projection_batch_payload_hash env payload)
           (ProjectionIntegrityError ''projection batch payload changed on replay'')) (\<lambda>_. treturn False)
     | None \<Rightarrow>
         tbind (tguard (dp_status p = PjStaging) (ProjectionIntegrityError
           (''cannot add a missing batch to a '' @ status_text (dp_status p) @ '' projection''))) (\<lambda>_.
         tbind (tmodify (\<lambda>db. db\<lparr>pj_batches := pj_batches db @ [\<lparr>pb_projection_id = pl_projection_id payload,
           pb_batch_index = pl_batch_index payload, pb_payload_hash = projection_batch_payload_hash env payload,
           pb_chunks = pl_chunks payload\<rparr>]\<rparr>)) (\<lambda>_.
         tbind projection_flush (\<lambda>_. treturn True))))"

definition store_projection_batch ::
  "projection_env \<Rightarrow> projection_payload \<Rightarrow> int \<Rightarrow> string \<Rightarrow> ('v projection_db, bool) tx" where
  "store_projection_batch env payload owner kb =
     tbind (insert_projection (new_projection payload owner kb)) (\<lambda>_.
     tbind (tget (load_projection_for_update (pl_projection_id payload))) (\<lambda>stored.
     case stored of
       None \<Rightarrow>
         tbind (tget (\<lambda>db. find (\<lambda>p. same_version p (new_projection payload owner kb)) (pj_projections db))) (\<lambda>c.
         tfail (ProjectionIntegrityError (''document version is already assigned to a different projection ('' @
           (case c of None \<Rightarrow> ''unknown'' | Some q \<Rightarrow> dp_projection_id q) @ '')'')))
     | Some p \<Rightarrow>
         tbind (tguard (projection_metadata p = projection_metadata (new_projection payload owner kb))
           (ProjectionIntegrityError ''projection metadata changed between batches'')) (\<lambda>_.
         tbind (tguard (dp_status p \<noteq> PjFailed) (ProjectionIntegrityError ''cannot replay a failed projection'')) (\<lambda>_.
         add_batch env payload p))))"

definition check_chunk :: "projection_env \<Rightarrow> chunk_payload \<Rightarrow> unit result" where
  "check_chunk env c =
     ebind (validate_identifier (cp_chunk_id c) ''chunk_id'' 128) (\<lambda>_.
     ebind (eguard (0 \<le> cp_chunk_index c \<and> cp_chunk_index c \<le> POSTGRES_INTEGER_MAX)
       (ProjectionIntegrityError ''chunk_index is outside the supported integer range'')) (\<lambda>_.
     ebind (eguard (case cp_page_no c of None \<Rightarrow> True | Some n \<Rightarrow> - POSTGRES_INTEGER_MAX \<le> n \<and> n \<le> POSTGRES_INTEGER_MAX)
       (ProjectionIntegrityError ''page_no is outside the supported integer range'')) (\<lambda>_.
     check_content env c)))"

definition check_payload :: "projection_env \<Rightarrow> projection_payload \<Rightarrow> int \<Rightarrow> string \<Rightarrow> unit result" where
  "check_payload env payload owner kb =
     ebind (validate_identifier kb ''knowledge_base_id'' 128) (\<lambda>_.
     ebind (validate_identifier (pl_projection_id payload) ''projection_id'' 64) (\<lambda>_.
     ebind (validate_identifier (pl_document_id payload) ''document_id'' 128) (\<lambda>_.
     ebind (validate_identifier (pl_document_version payload) ''document_version'' 128) (\<lambda>_.
     ebind (validate_identifier (pl_file_name payload) ''file_name'' 512) (\<lambda>_.
     ebind (eguard (1 \<le> owner \<and> owner \<le> POSTGRES_INTEGER_MAX)
       (ProjectionIntegrityError ''owner_id is outside the supported integer range'')) (\<lambda>_.
     ebind (eguard (pl_batch_count payload \<le> POSTGRES_INTEGER_MAX)
       (ProjectionIntegrityError ''batch_count is outside the supported integer range'')) (\<lambda>_.
     ebind (eguard (pl_batch_index payload < pl_batch_count payload)
       (ProjectionIntegrityError ''batch_index must be less than batch_count'')) (\<lambda>_.
     ebind (validate_sha256 (pl_aggregate_hash payload) ''aggregate_hash'') (\<lambda>_.
     check_all (check_chunk env) (pl_chunks payload))))))))))"

definition stage_projection_batch ::
  "projection_env \<Rightarrow> projection_payload \<Rightarrow> int \<Rightarrow> string option \<Rightarrow> ('v projection_db, projection_batch_receipt) tx" where
  "stage_projection_batch env payload owner kb =
     (case kb of
        None \<Rightarrow> tfail (ProjectionIntegrityError ''document projection events require a non-empty knowledge_base_id'')
      | Some k \<Rightarrow>
          tbind (tguard (k \<noteq> []) (ProjectionIntegrityError
            ''document projection events require a non-empty knowledge_base_id'')) (\<lambda>_.
          tbind (tlift (\<lambda>_. check_payload env payload owner k)) (\<lambda>_.
          tbind (store_projection_batch env payload owner k) (\<lambda>created.
          treturn \<lparr>rc_projection_id = pl_projection_id payload, rc_batch_index = pl_batch_index payload,
            rc_created = created, rc_is_final_batch = (pl_batch_index payload = pl_batch_count payload - 1)\<rparr>))))"

subsection \<open>Activation\<close>

definition set_projection :: "document_projection \<Rightarrow> 'v projection_db \<Rightarrow> 'v projection_db" where
  "set_projection p db = db\<lparr>pj_projections := update_where (\<lambda>q. dp_projection_id q = dp_projection_id p) (\<lambda>_. p) (pj_projections db)\<rparr>"

text \<open>\<open>_mark_failed\<close>, after the rollback of the transaction that failed.\<close>

definition mark_projection_failed :: "string \<Rightarrow> string \<Rightarrow> 'v projection_db \<Rightarrow> 'v projection_db" where
  "mark_projection_failed pid reason db =
     (case load_projection_for_update pid db of
        Some p \<Rightarrow> if dp_status p = PjStaging
          then set_projection (p\<lparr>dp_status := PjFailed, dp_failure_reason := Some (take 2000 reason)\<rparr>) db else db
      | None \<Rightarrow> db)"

text \<open>The other active versions of the document.\<close>

definition retired_by :: "document_projection \<Rightarrow> document_projection \<Rightarrow> bool" where
  "retired_by p q \<longleftrightarrow> dp_owner_id q = dp_owner_id p \<and> dp_knowledge_base_id q = dp_knowledge_base_id p \<and>
     dp_document_id q = dp_document_id p \<and> dp_status q = PjActive \<and> dp_projection_id q \<noteq> dp_projection_id p"

definition retire_older :: "document_projection \<Rightarrow> 'v projection_db \<Rightarrow> 'v projection_db" where
  "retire_older p db =
     (let old_ids = map dp_projection_id (filter (retired_by p) (pj_projections db))
      in db\<lparr>pj_chunks := update_where (\<lambda>c. ck_projection_id c \<in> set old_ids) (\<lambda>c. c\<lparr>ck_is_active := False\<rparr>) (pj_chunks db),
        pj_projections := update_where (retired_by p) (\<lambda>q. q\<lparr>dp_status := PjSuperseded\<rparr>) (pj_projections db)\<rparr>)"

definition chunk_of :: "document_projection \<Rightarrow> chunk_payload \<times> 'v \<Rightarrow> 'v document_chunk" where
  "chunk_of p = (\<lambda>(c, e). \<lparr>ck_projection_id = dp_projection_id p, ck_owner_id = dp_owner_id p,
     ck_knowledge_base_id = dp_knowledge_base_id p, ck_document_id = dp_document_id p,
     ck_document_version = dp_document_version p, ck_payload = c, ck_embedding = e, ck_is_active = False\<rparr>)"

definition activate_projection ::
  "projection_env \<Rightarrow> instant \<Rightarrow> prepared_projection \<Rightarrow> 'v list \<Rightarrow> nat \<Rightarrow> ('v projection_db, bool) tx" where
  "activate_projection env now prepared embeddings sparse_count =
     tbind (tget (load_projection_for_update (pp_projection_id prepared))) (\<lambda>found.
     case found of
       None \<Rightarrow> tfail (LookupError (''projection '' @ pp_projection_id prepared @ '' does not exist''))
     | Some p \<Rightarrow>
     if dp_status p = PjActive \<or> dp_status p = PjSuperseded then treturn False
     else
     tbind (tguard (dp_status p = PjStaging)
       (ProjectionIntegrityError (''cannot finalize a '' @ status_text (dp_status p) @ '' projection''))) (\<lambda>_.
     tbind (tlift (prepare_projection env p)) (\<lambda>rechecked.
     tbind (tguard (pp_snapshot_hash rechecked = pp_snapshot_hash prepared)
       (ProjectionIntegrityError ''projection batches changed during embedding'')) (\<lambda>_.
     tbind (tguard (length embeddings = length (pp_chunks rechecked))
       (ProjectionIntegrityError ''embedding count does not match chunk count'')) (\<lambda>_.
     tbind (tguard (sparse_count = length (pp_chunks rechecked))
       (ProjectionIntegrityError ''sparse embedding count does not match chunk count'')) (\<lambda>_.
     tbind (tmodify (retire_older p)) (\<lambda>_.
     tbind (tmodify (\<lambda>db. db\<lparr>pj_chunks := pj_chunks db @ map (chunk_of p) (zip (pp_chunks rechecked) embeddings)\<rparr>)) (\<lambda>_.
     tbind projection_flush (\<lambda>_.
     tbind (tmodify (\<lambda>db. db\<lparr>pj_chunks := update_where (\<lambda>c. ck_projection_id c = dp_projection_id p)
       (\<lambda>c. c\<lparr>ck_is_active := True\<rparr>) (pj_chunks db)\<rparr>)) (\<lambda>_.
     tbind (tmodify (set_projection (p\<lparr>dp_status := PjActive, dp_failure_reason := None, dp_activated_at := Some now\<rparr>))) (\<lambda>_.
     tbind projection_flush (\<lambda>_.
     treturn True))))))))))))"

subsection \<open>Finalization\<close>

text \<open>
  \<open>finalize_projection\<close> in the three parts between which other workers may run: check and prepare, embed (outside any
  transaction), activate. An integrity error is recorded on the projection before it is raised.
\<close>

datatype finalize_start = AlreadyFinal | Prepared prepared_projection

definition finalize_check :: "projection_env \<Rightarrow> string \<Rightarrow> ('v projection_db, finalize_start) action" where
  "finalize_check env pid db =
     (case load_projection_for_update pid db of
        None \<Rightarrow> (db, Inl (LookupError (''projection '' @ pid @ '' does not exist'')))
      | Some p \<Rightarrow>
          if dp_status p = PjActive \<or> dp_status p = PjSuperseded then (db, Inr AlreadyFinal)
          else if dp_status p \<noteq> PjStaging
          then (db, Inl (ProjectionIntegrityError (''cannot finalize a '' @ status_text (dp_status p) @ '' projection'')))
          else (case prepare_projection env p db of
              Inr prepared \<Rightarrow> (db, Inr (Prepared prepared))
            | Inl (ProjectionIntegrityError m) \<Rightarrow> (mark_projection_failed pid m db, Inl (ProjectionIntegrityError m))
            | Inl e \<Rightarrow> (db, Inl e)))"

definition finalize_activate ::
  "projection_env \<Rightarrow> instant \<Rightarrow> prepared_projection \<Rightarrow> 'v list \<Rightarrow> nat \<Rightarrow> ('v projection_db, bool) action" where
  "finalize_activate env now prepared embeddings sparse_count db =
     (case activate_projection env now prepared embeddings sparse_count db of
        Inr (b, db') \<Rightarrow> (db', Inr b)
      | Inl (ProjectionIntegrityError m) \<Rightarrow>
          (mark_projection_failed (pp_projection_id prepared) m db, Inl (ProjectionIntegrityError m))
      | Inl e \<Rightarrow> (db, Inl e))"

definition document_embedding_text :: "string \<Rightarrow> string list \<Rightarrow> string \<Rightarrow> string" where
  "document_embedding_text file_name section_path content =
     py_join [CHR 0x0A] (filter (\<lambda>part. part \<noteq> []) [py_strip file_name, py_strip (py_join '' > '' section_path), py_strip content])"

text \<open>\<open>embedder\<close> answers with the vectors, and the number of sparse vectors, for the texts.\<close>

definition finalize_projection ::
  "projection_env \<Rightarrow> (string list \<Rightarrow> ('v list \<times> nat) result) \<Rightarrow> instant \<Rightarrow> string \<Rightarrow> ('v projection_db, bool) action" where
  "finalize_projection env embedder now pid db =
     abind (finalize_check env pid) (\<lambda>start.
       case start of
         AlreadyFinal \<Rightarrow> areturn False
       | Prepared prepared \<Rightarrow>
           let file_name = (case load_projection_for_update pid db of None \<Rightarrow> [] | Some p \<Rightarrow> dp_file_name p)
           in (case embedder (map (\<lambda>c. document_embedding_text file_name (cp_section_path c) (cp_content c)) (pp_chunks prepared)) of
               Inl e \<Rightarrow> araise e
             | Inr (embeddings, sparse_count) \<Rightarrow> finalize_activate env now prepared embeddings sparse_count)) db"

subsection \<open>Deletion\<close>

text \<open>Deleting projections cascades to their batches and chunks.\<close>

definition delete_projections :: "string list \<Rightarrow> 'v projection_db \<Rightarrow> 'v projection_db" where
  "delete_projections ids db = db\<lparr>pj_projections := delete_where (\<lambda>p. dp_projection_id p \<in> set ids) (pj_projections db),
     pj_batches := delete_where (\<lambda>b. pb_projection_id b \<in> set ids) (pj_batches db),
     pj_chunks := delete_where (\<lambda>c. ck_projection_id c \<in> set ids) (pj_chunks db)\<rparr>"

text \<open>What retrieval can see of a document.\<close>

definition visible_chunks :: "int \<Rightarrow> string \<Rightarrow> string \<Rightarrow> 'v projection_db \<Rightarrow> 'v document_chunk list" where
  "visible_chunks owner kb document_id db = filter (\<lambda>c. ck_is_active c \<and> ck_owner_id c = owner \<and>
     ck_knowledge_base_id c = kb \<and> ck_document_id c = document_id) (pj_chunks db)"

end
