(* ===== verification/ProjectionTables.thy ===== *)
theory ProjectionTables
  imports Projections
begin

text \<open>
  The projection tables over time: what readers see of a document is always nothing or one complete, checked
  version, whatever the order of batches, activations and deletions.
\<close>

subsection \<open>Well-formed tables\<close>

definition has_chunks :: "document_projection \<Rightarrow> bool" where
  "has_chunks p \<longleftrightarrow> dp_status p = PjActive \<or> dp_status p = PjSuperseded"

definition chunk_belongs :: "document_projection \<Rightarrow> 'v document_chunk \<Rightarrow> bool" where
  "chunk_belongs p c \<longleftrightarrow> ck_projection_id c = dp_projection_id p \<and> ck_owner_id c = dp_owner_id p \<and>
     ck_knowledge_base_id c = dp_knowledge_base_id p \<and> ck_document_id c = dp_document_id p \<and>
     (ck_is_active c \<longleftrightarrow> dp_status p = PjActive) \<and> has_chunks p"

definition stored_chunks :: "document_projection \<Rightarrow> 'v projection_db \<Rightarrow> 'v document_chunk list" where
  "stored_chunks p db = filter (\<lambda>c. ck_projection_id c = dp_projection_id p) (pj_chunks db)"

definition complete_version :: "projection_env \<Rightarrow> 'v projection_db \<Rightarrow> document_projection \<Rightarrow> bool" where
  "complete_version env db p \<longleftrightarrow> (\<exists>prep. prepare_projection env p db = Inr prep \<and> map ck_payload (stored_chunks p db) = pp_chunks prep)"

definition projections_wf :: "projection_env \<Rightarrow> 'v projection_db \<Rightarrow> bool" where
  "projections_wf env db \<longleftrightarrow> projection_constraints db \<and>
     (\<forall>c\<in>set (pj_chunks db). \<exists>p\<in>set (pj_projections db). chunk_belongs p c) \<and>
     (\<forall>p\<in>set (pj_projections db). has_chunks p \<longrightarrow> complete_version env db p)"

lemma projections_wfD:
  assumes "projections_wf env db"
  shows "projection_constraints db" "c \<in> set (pj_chunks db) \<Longrightarrow> \<exists>p\<in>set (pj_projections db). chunk_belongs p c"
    "p \<in> set (pj_projections db) \<Longrightarrow> has_chunks p \<Longrightarrow> complete_version env db p"
    "distinct (map dp_projection_id (pj_projections db))"
  using assms by (auto simp: projections_wf_def projection_constraints_def)

lemma unique_projection:
  assumes "projections_wf env db" "p \<in> set (pj_projections db)" "q \<in> set (pj_projections db)" "dp_projection_id q = dp_projection_id p"
  shows "q = p"
  by (rule distinct_key_unique [OF projections_wfD(4) [OF assms(1)] assms(3,2,4)])

lemma chunk_projection:
  assumes wf: "projections_wf env db" and c: "c \<in> set (pj_chunks db)" and p: "p \<in> set (pj_projections db)" "ck_projection_id c = dp_projection_id p"
  shows "chunk_belongs p c"
proof -
  obtain q where q: "q \<in> set (pj_projections db)" "chunk_belongs q c" using projections_wfD(2) [OF wf c] by blast
  have "dp_projection_id q = dp_projection_id p" using q(2) p(2) by (simp add: chunk_belongs_def)
  from unique_projection [OF wf p(1) q(1) this] q(2) show ?thesis by simp
qed

text \<open>Preparing a version reads the batches of the projection only.\<close>

lemma prepare_cong:
  assumes "filter (\<lambda>b. pb_projection_id b = dp_projection_id p) (pj_batches db') = filter (\<lambda>b. pb_projection_id b = dp_projection_id p) (pj_batches db)"
  shows "prepare_projection env p db' = prepare_projection env p db"
  using assms by (simp add: prepare_projection_def load_projection_batches_def)

lemma prepare_status:
  assumes "dp_projection_id q = dp_projection_id p" "dp_batch_count q = dp_batch_count p" "dp_aggregate_hash q = dp_aggregate_hash p"
    and "prepare_projection env p db = Inr prep"
  shows "\<exists>prep'. prepare_projection env q db = Inr prep' \<and> pp_chunks prep' = pp_chunks prep"
  using assms by (auto simp: prepare_projection_def Let_def)

lemma complete_cong:
  assumes "complete_version env db p" and "dp_projection_id q = dp_projection_id p" "dp_batch_count q = dp_batch_count p"
    "dp_aggregate_hash q = dp_aggregate_hash p"
    and "filter (\<lambda>b. pb_projection_id b = dp_projection_id p) (pj_batches db') = filter (\<lambda>b. pb_projection_id b = dp_projection_id p) (pj_batches db)"
    and "map ck_payload (stored_chunks p db') = map ck_payload (stored_chunks p db)"
  shows "complete_version env db' q"
proof -
  obtain prep where prep: "prepare_projection env p db = Inr prep" "map ck_payload (stored_chunks p db) = pp_chunks prep"
    using assms(1) by (auto simp: complete_version_def)
  have "prepare_projection env p db' = Inr prep" using prepare_cong [OF assms(5)] prep(1) by simp
  then obtain prep' where "prepare_projection env q db' = Inr prep'" "pp_chunks prep' = pp_chunks prep"
    using prepare_status [OF assms(2-4)] by blast
  then show ?thesis using prep(2) assms(2,6) by (auto simp: complete_version_def stored_chunks_def)
qed

subsection \<open>Staging and failures\<close>

lemma load_projectionD:
  "load_projection_for_update pid db = Some p \<Longrightarrow> p \<in> set (pj_projections db) \<and> dp_projection_id p = pid"
  unfolding load_projection_for_update_def by (drule find_SomeD) simp

lemma new_projection_simps [simp]:
  "dp_projection_id (new_projection pl owner kb) = pl_projection_id pl" "dp_status (new_projection pl owner kb) = PjStaging"
  by (simp_all add: new_projection_def)

definition inserted :: "document_projection \<Rightarrow> 'v projection_db \<Rightarrow> 'v projection_db" where
  "inserted row db = (if list_ex (\<lambda>p. dp_projection_id p = dp_projection_id row \<or> same_version p row) (pj_projections db) then db
     else db\<lparr>pj_projections := pj_projections db @ [row]\<rparr>)"

lemma insert_projection_Inr: "insert_projection row db = Inr (u, db') \<longleftrightarrow> db' = inserted row db"
  by (auto simp: insert_projection_def inserted_def tx_simps)

lemma stage_cases:
  assumes "stage_projection_batch env payload owner kb db = Inr (r, db')"
  obtains k p where "kb = Some k" and "check_payload env payload owner k = Inr ()"
    and "load_projection_for_update (pl_projection_id payload) (inserted (new_projection payload owner k) db) = Some p"
    and "projection_metadata p = projection_metadata (new_projection payload owner k)" and "dp_status p \<noteq> PjFailed"
    and "add_batch env payload p (inserted (new_projection payload owner k) db) = Inr (rc_created r, db')"
    and "r = \<lparr>rc_projection_id = pl_projection_id payload, rc_batch_index = pl_batch_index payload,
            rc_created = rc_created r, rc_is_final_batch = (pl_batch_index payload = pl_batch_count payload - 1)\<rparr>"
  using assms
  by (auto simp: stage_projection_batch_def store_projection_batch_def insert_projection_Inr tx_simps
      split: option.splits)

definition batch_row :: "projection_env \<Rightarrow> projection_payload \<Rightarrow> projection_batch" where
  "batch_row env payload = \<lparr>pb_projection_id = pl_projection_id payload, pb_batch_index = pl_batch_index payload,
     pb_payload_hash = projection_batch_payload_hash env payload, pb_chunks = pl_chunks payload\<rparr>"

lemma add_batch_cases:
  assumes "add_batch env payload p db = Inr (created, db')"
  obtains (known) b where "find (\<lambda>b. pb_projection_id b = pl_projection_id payload \<and> pb_batch_index b = pl_batch_index payload) (pj_batches db) = Some b"
      and "pb_payload_hash b = projection_batch_payload_hash env payload" and "\<not> created" and "db' = db"
    | (added) "find (\<lambda>b. pb_projection_id b = pl_projection_id payload \<and> pb_batch_index b = pl_batch_index payload) (pj_batches db) = None"
      and "dp_status p = PjStaging" and "created" and "db' = db\<lparr>pj_batches := pj_batches db @ [batch_row env payload]\<rparr>"
      and "projection_constraints db'"
  using assms
  by (auto simp: add_batch_def batch_row_def [symmetric] projection_flush_def tx_simps split: option.splits if_splits)

lemma inserted_wf:
  assumes wf: "projections_wf env db" and st: "dp_status row = PjStaging"
  shows "projections_wf env (inserted row db)"
proof (cases "list_ex (\<lambda>p. dp_projection_id p = dp_projection_id row \<or> same_version p row) (pj_projections db)")
  case True
  then show ?thesis using wf by (simp add: inserted_def)
next
  case False
  let ?db = "db\<lparr>pj_projections := pj_projections db @ [row]\<rparr>"
  have c: "projection_constraints ?db"
    using False projections_wfD(1) [OF wf] st by (auto simp: projection_constraints_def list_ex_iff same_version_def)
  have "complete_version env ?db p" if "complete_version env db p" for p
    by (rule complete_cong [OF that]) (simp_all add: stored_chunks_def)
  moreover have "\<not> has_chunks row" using st by (simp add: has_chunks_def)
  ultimately show ?thesis using False wf c by (auto simp: inserted_def projections_wf_def)
qed

lemma stage_wf:
  assumes wf: "projections_wf env db" and run: "stage_projection_batch env payload owner kb db = Inr (r, db')"
  shows "projections_wf env db'"
proof -
  from run obtain k p where p: "load_projection_for_update (pl_projection_id payload) (inserted (new_projection payload owner k) db) = Some p"
    and add: "add_batch env payload p (inserted (new_projection payload owner k) db) = Inr (rc_created r, db')"
    by (rule stage_cases)
  let ?db = "inserted (new_projection payload owner k) db"
  have wf1: "projections_wf env ?db" by (rule inserted_wf [OF wf]) simp
  note pd = load_projectionD [OF p]
  from add show ?thesis
  proof (cases rule: add_batch_cases)
    case (known b)
    then show ?thesis using wf1 by simp
  next
    case added
    have "complete_version env db' q" if q: "q \<in> set (pj_projections ?db)" "has_chunks q" for q
    proof (rule complete_cong [OF projections_wfD(3) [OF wf1 q]])
      have "dp_projection_id q \<noteq> pl_projection_id payload"
        using unique_projection [OF wf1 pd [THEN conjunct1] q(1)] pd added(2) q(2) by (auto simp: has_chunks_def)
      then show "filter (\<lambda>b. pb_projection_id b = dp_projection_id q) (pj_batches db') =
          filter (\<lambda>b. pb_projection_id b = dp_projection_id q) (pj_batches ?db)"
        by (simp add: added(4) batch_row_def)
    qed (simp_all add: added(4) stored_chunks_def)
    then show ?thesis using wf1 added(5) by (auto simp: projections_wf_def added(4))
  qed
qed

lemma set_projection_wf:
  assumes wf: "projections_wf env db" and p: "p \<in> set (pj_projections db)" and "dp_status p = PjStaging"
  shows "projections_wf env (set_projection (p\<lparr>dp_status := PjFailed, dp_failure_reason := Some m\<rparr>) db)"
proof -
  let ?q = "p\<lparr>dp_status := PjFailed, dp_failure_reason := Some m\<rparr>" and ?db = "set_projection (p\<lparr>dp_status := PjFailed, dp_failure_reason := Some m\<rparr>) db"
  have rows: "set (pj_projections ?db) = insert ?q (set (pj_projections db) - {p})"
    using set_update_where_id [OF projections_wfD(4) [OF wf] p, of "\<lambda>_. ?q"] by (simp add: set_projection_def)
  have key: "map f (pj_projections ?db) = map f (pj_projections db)" if "f ?q = f p" for f :: "document_projection \<Rightarrow> 'k"
    unfolding set_projection_def using that unique_projection [OF wf p]
    by (auto simp: update_where_def)
  have "filter (\<lambda>p. dp_status p = PjActive) (pj_projections ?db) = filter (\<lambda>p. dp_status p = PjActive) (pj_projections db)"
    using filter_update_id [OF projections_wfD(4) [OF wf] p, of "\<lambda>p. dp_status p = PjActive" "\<lambda>_. ?q"] assms(3)
    by (simp add: set_projection_def)
  then have "projection_constraints ?db"
    using projections_wfD(1) [OF wf] key [of dp_projection_id]
      key [of "\<lambda>p. (dp_owner_id p, dp_knowledge_base_id p, dp_document_id p, dp_document_version p)"]
    by (simp add: projection_constraints_def) (simp add: set_projection_def)
  moreover have "\<exists>r\<in>set (pj_projections ?db). chunk_belongs r c" if c: "c \<in> set (pj_chunks db)" for c
  proof -
    obtain r where r: "r \<in> set (pj_projections db)" "chunk_belongs r c" using projections_wfD(2) [OF wf c] by blast
    have "r \<noteq> p" using r(2) assms(3) by (auto simp: chunk_belongs_def has_chunks_def)
    then show ?thesis using r unfolding rows by blast
  qed
  moreover have "complete_version env ?db r" if r: "r \<in> set (pj_projections ?db)" "has_chunks r" for r
  proof -
    have "r \<in> set (pj_projections db)" using r unfolding rows by (auto simp: has_chunks_def)
    from projections_wfD(3) [OF wf this r(2)] show ?thesis
      by (rule complete_cong) (simp_all add: set_projection_def stored_chunks_def)
  qed
  ultimately show ?thesis by (auto simp: projections_wf_def set_projection_def)
qed

lemma mark_failed_wf: "projections_wf env db \<Longrightarrow> projections_wf env (mark_projection_failed pid m db)"
  by (auto simp: mark_projection_failed_def set_projection_wf dest!: load_projectionD split: option.splits)

lemma mark_failed_visible [simp]: "visible_chunks owner kb d (mark_projection_failed pid m db) = visible_chunks owner kb d db"
  by (simp add: mark_projection_failed_def set_projection_def visible_chunks_def split: option.split)

lemma delete_wf:
  assumes wf: "projections_wf env db"
  shows "projections_wf env (delete_projections ids db)"
proof -
  let ?db = "delete_projections ids db"
  have "projection_constraints ?db"
    using projections_wfD(1) [OF wf]
    by (auto simp: projection_constraints_def delete_projections_def delete_where_def distinct_map inj_on_def)
  moreover have "\<exists>p\<in>set (pj_projections ?db). chunk_belongs p c" if "c \<in> set (pj_chunks ?db)" for c
    using projections_wfD(2) [OF wf, of c] that by (force simp: delete_projections_def delete_where_def chunk_belongs_def)
  moreover have "complete_version env ?db p" if p: "p \<in> set (pj_projections ?db)" "has_chunks p" for p
    by (rule complete_cong [OF projections_wfD(3) [OF wf, of p]])
      (use p in \<open>auto simp: delete_projections_def delete_where_def stored_chunks_def intro!: filter_cong arg_cong [of _ _ "map ck_payload"]\<close>)
  ultimately show ?thesis by (simp add: projections_wf_def)
qed

subsection \<open>Activation\<close>

definition activated_db :: "instant \<Rightarrow> document_projection \<Rightarrow> chunk_payload list \<Rightarrow> 'v list \<Rightarrow> 'v projection_db \<Rightarrow> 'v projection_db" where
  "activated_db now p chunks embeddings db =
     (let db1 = retire_older p db
      in set_projection (p\<lparr>dp_status := PjActive, dp_failure_reason := None, dp_activated_at := Some now\<rparr>)
        (db1\<lparr>pj_chunks := update_where (\<lambda>c. ck_projection_id c = dp_projection_id p) (\<lambda>c. c\<lparr>ck_is_active := True\<rparr>)
          (pj_chunks db1 @ map (chunk_of p) (zip chunks embeddings))\<rparr>))"

lemma activate_cases:
  assumes "activate_projection env now prepared embeddings n db = Inr (b, db')"
  obtains (final) p where "load_projection_for_update (pp_projection_id prepared) db = Some p" and "has_chunks p" and "\<not> b" and "db' = db"
    | (activated) p re where "load_projection_for_update (pp_projection_id prepared) db = Some p" and "dp_status p = PjStaging"
      and "prepare_projection env p db = Inr re" and "pp_snapshot_hash re = pp_snapshot_hash prepared"
      and "length embeddings = length (pp_chunks re)" and "b"
      and "db' = activated_db now p (pp_chunks re) embeddings db" and "projection_constraints db'"
proof -
  obtain p where p: "load_projection_for_update (pp_projection_id prepared) db = Some p"
    using assms by (cases "load_projection_for_update (pp_projection_id prepared) db") (simp_all add: activate_projection_def tx_simps)
  show thesis
  proof (cases "has_chunks p")
    case True
    then show thesis using assms p by (intro final [OF p]) (auto simp: activate_projection_def tx_simps has_chunks_def)
  next
    case False
    then have no: "\<not> (dp_status p = PjActive \<or> dp_status p = PjSuperseded)" by (simp add: has_chunks_def)
    have "\<exists>re. dp_status p = PjStaging \<and> prepare_projection env p db = Inr re \<and> pp_snapshot_hash re = pp_snapshot_hash prepared \<and>
        length embeddings = length (pp_chunks re) \<and> b \<and> db' = activated_db now p (pp_chunks re) embeddings db \<and> projection_constraints db'"
      using assms p no unfolding activate_projection_def tbind_tget p option.case if_not_P [OF no]
      by (auto simp: tx_simps projection_flush_def activated_db_def Let_def set_projection_def split: if_splits)
    then show thesis using p by (auto intro: activated)
  qed
qed

lemma retired_simps:
  assumes "projections_wf env db" "p \<in> set (pj_projections db)" "dp_status p = PjStaging"
  shows "c \<in> set (pj_chunks db) \<Longrightarrow> ck_projection_id c \<noteq> dp_projection_id p"
  using projections_wfD(2) [OF assms(1), of c] unique_projection [OF assms(1,2)] assms(3)
  by (auto simp: chunk_belongs_def has_chunks_def)

lemma activated_projections:
  assumes wf: "projections_wf env db" and p: "p \<in> set (pj_projections db)" and st: "dp_status p = PjStaging"
  shows "set (pj_projections (activated_db now p chunks embs db)) =
    insert (p\<lparr>dp_status := PjActive, dp_failure_reason := None, dp_activated_at := Some now\<rparr>)
      ((\<lambda>q. if retired_by p q then q\<lparr>dp_status := PjSuperseded\<rparr> else q) ` (set (pj_projections db) - {p}))"
proof -
  let ?old = "update_where (retired_by p) (\<lambda>q. q\<lparr>dp_status := PjSuperseded\<rparr>) (pj_projections db)"
  let ?r = "\<lambda>q. if retired_by p q then q\<lparr>dp_status := PjSuperseded\<rparr> else q"
  have keep: "?r p = p" by (simp add: retired_by_def)
  have "distinct (map dp_projection_id ?old)"
    using projections_wfD(4) [OF wf] by (simp add: map_update_where)
  moreover have "p \<in> set ?old" using p keep by (force simp: set_update_where)
  ultimately have "set (pj_projections (activated_db now p chunks embs db)) =
      insert (p\<lparr>dp_status := PjActive, dp_failure_reason := None, dp_activated_at := Some now\<rparr>) (set ?old - {p})"
    using set_update_where_id [of dp_projection_id ?old p "\<lambda>_. p\<lparr>dp_status := PjActive, dp_failure_reason := None, dp_activated_at := Some now\<rparr>"]
    by (simp add: activated_db_def retire_older_def set_projection_def Let_def)
  moreover have "set ?old - {p} = ?r ` (set (pj_projections db) - {p})"
  proof -
    define f where "f = ?r"
    have "f q \<noteq> p" if q: "q \<in> set (pj_projections db)" "q \<noteq> p" for q
    proof
      assume "f q = p"
      then have "dp_projection_id (f q) = dp_projection_id p" by simp
      then have "dp_projection_id p = dp_projection_id q" by (simp add: f_def split: if_splits)
      then have "p = q" by (rule unique_projection [OF wf q(1) p])
      then show False using q(2) by simp
    qed
    moreover have "f p = p" using keep by (simp add: f_def)
    ultimately have "f ` set (pj_projections db) - {p} = f ` (set (pj_projections db) - {p})" by blast
    then show ?thesis by (simp add: set_update_where f_def)
  qed
  ultimately show ?thesis by simp
qed

lemma activated_chunks:
  assumes wf: "projections_wf env db" and p: "p \<in> set (pj_projections db)" "dp_status p = PjStaging"
  shows "pj_chunks (activated_db now p chunks embs db) =
    update_where (\<lambda>c. ck_projection_id c \<in> dp_projection_id ` {q \<in> set (pj_projections db). retired_by p q}) (\<lambda>c. c\<lparr>ck_is_active := False\<rparr>) (pj_chunks db) @
    map (\<lambda>x. (chunk_of p x)\<lparr>ck_is_active := True\<rparr>) (zip chunks embs)"
proof -
  have "ck_projection_id c \<noteq> dp_projection_id p" if "c \<in> set (pj_chunks db)" for c by (rule retired_simps [OF wf p that])
  then show ?thesis
    by (auto simp: activated_db_def retire_older_def set_projection_def Let_def update_where_def chunk_of_def split: prod.split)
qed

lemma activated_batches [simp]: "pj_batches (activated_db now p chunks embs db) = pj_batches db"
  by (simp add: activated_db_def retire_older_def set_projection_def Let_def)

lemma stored_other:
  assumes "dp_projection_id q \<noteq> dp_projection_id p" and "projections_wf env db" "p \<in> set (pj_projections db)" "dp_status p = PjStaging"
  shows "map ck_payload (stored_chunks q (activated_db now p chunks embs db)) = map ck_payload (stored_chunks q db)"
proof -
  have "filter (\<lambda>c. ck_projection_id c = dp_projection_id q) (map (\<lambda>x. (chunk_of p x)\<lparr>ck_is_active := True\<rparr>) (zip chunks embs)) = []"
    using assms(1) by (auto simp: filter_empty_conv chunk_of_def)
  moreover have "map ck_payload (filter (\<lambda>c. ck_projection_id c = i) (update_where P (\<lambda>c. c\<lparr>ck_is_active := False\<rparr>) cs)) =
      map ck_payload (filter (\<lambda>c. ck_projection_id c = i) cs)" for i P and cs :: "'a document_chunk list"
    by (induction cs) (auto simp: update_where_def)
  ultimately show ?thesis by (simp add: stored_chunks_def activated_chunks [OF assms(2-4)])
qed

lemma stored_activated:
  assumes wf: "projections_wf env db" and p: "p \<in> set (pj_projections db)" "dp_status p = PjStaging" and "length embs = length chunks"
  shows "map ck_payload (stored_chunks p (activated_db now p chunks embs db)) = chunks"
proof -
  have "filter (\<lambda>c. ck_projection_id c = dp_projection_id p) (update_where P (\<lambda>c. c\<lparr>ck_is_active := False\<rparr>) (pj_chunks db)) = []" for P
    using retired_simps [OF wf p] by (force simp: filter_empty_conv set_update_where)
  moreover have "filter (\<lambda>c. ck_projection_id c = dp_projection_id p) (map (\<lambda>x. (chunk_of p x)\<lparr>ck_is_active := True\<rparr>) (zip chunks embs)) =
      map (\<lambda>x. (chunk_of p x)\<lparr>ck_is_active := True\<rparr>) (zip chunks embs)"
    by (auto simp: filter_id_conv chunk_of_def)
  moreover have "ck_payload ((chunk_of p x)\<lparr>ck_is_active := True\<rparr>) = fst x" for x :: "chunk_payload \<times> 'a"
    by (simp add: chunk_of_def split: prod.split)
  ultimately show ?thesis using assms(4) by (simp add: stored_chunks_def activated_chunks [OF wf p] comp_def)
qed

lemma activated_wf:
  assumes wf: "projections_wf env db" and p: "p \<in> set (pj_projections db)" "dp_status p = PjStaging"
    and re: "prepare_projection env p db = Inr re" "length embs = length (pp_chunks re)"
    and con: "projection_constraints (activated_db now p (pp_chunks re) embs db)"
  shows "projections_wf env (activated_db now p (pp_chunks re) embs db)"
proof -
  let ?db = "activated_db now p (pp_chunks re) embs db" and ?p = "p\<lparr>dp_status := PjActive, dp_failure_reason := None, dp_activated_at := Some now\<rparr>"
  let ?r = "\<lambda>q. if retired_by p q then q\<lparr>dp_status := PjSuperseded\<rparr> else q"
  note rows = activated_projections [OF wf p, of now "pp_chunks re" embs]
  have "\<exists>q\<in>set (pj_projections ?db). chunk_belongs q c" if c: "c \<in> set (pj_chunks ?db)" for c
  proof -
    consider (old) c0 where "c0 \<in> set (pj_chunks db)" "c = (if ck_projection_id c0 \<in> dp_projection_id ` {q \<in> set (pj_projections db). retired_by p q}
        then c0\<lparr>ck_is_active := False\<rparr> else c0)" | (new) x where "c = (chunk_of p x)\<lparr>ck_is_active := True\<rparr>"
      using c by (auto simp: activated_chunks [OF wf p] set_update_where)
    then show ?thesis
    proof cases
      case old
      obtain q where q: "q \<in> set (pj_projections db)" "chunk_belongs q c0" using projections_wfD(2) [OF wf old(1)] by blast
      have "q \<noteq> p" using q(2) p(2) by (auto simp: chunk_belongs_def has_chunks_def)
      moreover have "ck_projection_id c0 \<in> dp_projection_id ` {q \<in> set (pj_projections db). retired_by p q} \<longleftrightarrow> retired_by p q"
      proof
        assume "ck_projection_id c0 \<in> dp_projection_id ` {q \<in> set (pj_projections db). retired_by p q}"
        then obtain w where w: "w \<in> set (pj_projections db)" "retired_by p w" "dp_projection_id w = dp_projection_id q"
          using q(2) by (auto simp: chunk_belongs_def)
        show "retired_by p q" using w(2) unique_projection [OF wf q(1) w(1,3)] by simp
      qed (use q in \<open>auto simp: chunk_belongs_def\<close>)
      then have "chunk_belongs (?r q) c" using q(2) old(2) by (auto simp: chunk_belongs_def has_chunks_def retired_by_def)
      ultimately show ?thesis using q(1) unfolding rows by blast
    next
      case new
      then have "chunk_belongs ?p c" by (simp add: chunk_belongs_def chunk_of_def has_chunks_def split: prod.split)
      then show ?thesis unfolding rows by blast
    qed
  qed
  moreover have "complete_version env ?db q" if q: "q \<in> set (pj_projections ?db)" "has_chunks q" for q
  proof -
    consider "q = ?p" | w where "w \<in> set (pj_projections db)" "w \<noteq> p" "q = ?r w" using q(1) unfolding rows by blast
    then show ?thesis
    proof cases
      case 1
      obtain re' where "prepare_projection env ?p db = Inr re'" "pp_chunks re' = pp_chunks re"
        using prepare_status [OF _ _ _ re(1), of ?p] by auto
      then show ?thesis using stored_activated [OF wf p re(2), of now] prepare_cong [of ?p ?db db env] 1
        by (auto simp: complete_version_def stored_chunks_def)
    next
      case 2
      have ne: "dp_projection_id w \<noteq> dp_projection_id p" using unique_projection [OF wf p(1) 2(1)] 2(2) by blast
      have "has_chunks w" using q(2) 2(3) by (auto simp: has_chunks_def retired_by_def split: if_splits)
      from projections_wfD(3) [OF wf 2(1) this] show ?thesis
        by (rule complete_cong) (use 2(3) stored_other [OF ne wf p] in \<open>auto split: if_splits\<close>)
    qed
  qed
  ultimately show ?thesis using con by (simp add: projections_wf_def)
qed

subsection \<open>Reachable tables\<close>

text \<open>
  One step of any worker. The phases of a finalization are separate steps, so batches, other finalizations and
  deletions may come between; the prepared version handed to an activation is arbitrary.
\<close>

inductive projection_step :: "projection_env \<Rightarrow> 'v projection_db \<Rightarrow> 'v projection_db \<Rightarrow> bool" for env :: projection_env where
  Batch_staged: "stage_projection_batch env payload owner kb db = Inr (r, db') \<Longrightarrow> projection_step env db db'"
| Version_checked: "finalize_check env pid db = (db', r) \<Longrightarrow> projection_step env db db'"
| Version_activated: "finalize_activate env now prepared embeddings n db = (db', r') \<Longrightarrow> projection_step env db db'"
| Versions_deleted: "projection_step env db (delete_projections ids db)"

definition no_projections :: "'v projection_db" where
  "no_projections = \<lparr>pj_projections = [], pj_batches = [], pj_chunks = []\<rparr>"

inductive projection_reachable :: "projection_env \<Rightarrow> 'v projection_db \<Rightarrow> bool" for env :: projection_env where
  No_projections: "projection_reachable env no_projections"
| Projection_step: "projection_reachable env db \<Longrightarrow> projection_step env db db' \<Longrightarrow> projection_reachable env db'"

lemma finalize_check_db: "finalize_check env pid db = (db', r) \<Longrightarrow> db' = db \<or> (\<exists>m. db' = mark_projection_failed pid m db)"
  by (auto simp: finalize_check_def split: option.splits if_splits sum.splits py_error.splits)

lemma finalize_activate_cases:
  assumes "finalize_activate env now prepared embeddings n db = (db', r)"
  obtains (same) "db' = db" and "r \<noteq> Inr True"
    | (failed) m where "db' = mark_projection_failed (pp_projection_id prepared) m db" and "r \<noteq> Inr True"
    | (activated) p re where "load_projection_for_update (pp_projection_id prepared) db = Some p" and "dp_status p = PjStaging"
      and "prepare_projection env p db = Inr re" and "pp_snapshot_hash re = pp_snapshot_hash prepared"
      and "length embeddings = length (pp_chunks re)" and "r = Inr True"
      and "db' = activated_db now p (pp_chunks re) embeddings db" and "projection_constraints db'"
proof (cases "activate_projection env now prepared embeddings n db")
  case (Inl e)
  then have "r \<noteq> Inr True \<and> (db' = db \<or> (\<exists>m. db' = mark_projection_failed (pp_projection_id prepared) m db))"
    using assms by (auto simp: finalize_activate_def split: py_error.splits)
  then show thesis using same failed by blast
next
  case (Inr x)
  obtain b db1 where x: "x = (b, db1)" by (cases x)
  then have eq: "db' = db1" "r = Inr b" using assms Inr by (auto simp: finalize_activate_def)
  have "activate_projection env now prepared embeddings n db = Inr (b, db')" using Inr x eq by simp
  then show thesis
  proof (cases rule: activate_cases)
    case (final p)
    then show thesis using same eq by simp
  next
    case (activated p re)
    then show thesis by (intro that(3) [of p re]) (simp_all add: eq)
  qed
qed

lemma step_wf: "projection_step env db db' \<Longrightarrow> projections_wf env db \<Longrightarrow> projections_wf env db'"
proof (induction rule: projection_step.cases)
  case (Batch_staged payload owner kb db r db')
  then show ?case using stage_wf by blast
next
  case (Version_checked pid db db' r)
  then show ?case using finalize_check_db mark_failed_wf by blast
next
  case (Version_activated now prepared embeddings n db db' r')
  from Version_activated(3) show ?case
  proof (cases rule: finalize_activate_cases)
    case (activated p re)
    then show ?thesis using activated_wf load_projectionD Version_activated by blast
  qed (use Version_activated mark_failed_wf in auto)
next
  case (Versions_deleted db ids)
  then show ?case using delete_wf by blast
qed

lemma reachable_projections_wf: "projection_reachable env db \<Longrightarrow> projections_wf env db"
proof (induction rule: projection_reachable.induct)
  case No_projections
  show ?case by (simp add: projections_wf_def no_projections_def projection_constraints_def)
next
  case (Projection_step db db')
  then show ?case using step_wf by blast
qed

subsection \<open>What readers see\<close>

definition document_key :: "document_projection \<Rightarrow> int \<times> string \<times> string" where
  "document_key p = (dp_owner_id p, dp_knowledge_base_id p, dp_document_id p)"

lemma visible_stored:
  assumes wf: "projections_wf env db" and p: "p \<in> set (pj_projections db)" "dp_status p = PjActive"
  shows "visible_chunks (dp_owner_id p) (dp_knowledge_base_id p) (dp_document_id p) db = stored_chunks p db"
  unfolding visible_chunks_def stored_chunks_def
proof (rule filter_cong [OF refl])
  fix c
  assume c: "c \<in> set (pj_chunks db)"
  show "(ck_is_active c \<and> ck_owner_id c = dp_owner_id p \<and> ck_knowledge_base_id c = dp_knowledge_base_id p \<and> ck_document_id c = dp_document_id p) =
      (ck_projection_id c = dp_projection_id p)"
  proof
    assume a: "ck_is_active c \<and> ck_owner_id c = dp_owner_id p \<and> ck_knowledge_base_id c = dp_knowledge_base_id p \<and> ck_document_id c = dp_document_id p"
    obtain q where q: "q \<in> set (pj_projections db)" "chunk_belongs q c" using projections_wfD(2) [OF wf c] by blast
    have "distinct (map document_key (filter (\<lambda>p. dp_status p = PjActive) (pj_projections db)))"
      using projections_wfD(1) [OF wf] by (simp add: projection_constraints_def document_key_def [abs_def])
    moreover have "document_key q = document_key p" "dp_status q = PjActive"
      using a q(2) by (simp_all add: document_key_def chunk_belongs_def)
    ultimately have "q = p"
      using distinct_key_unique [of document_key "filter (\<lambda>p. dp_status p = PjActive) (pj_projections db)" q p] p q(1) by simp
    then show "ck_projection_id c = dp_projection_id p" using q(2) by (simp add: chunk_belongs_def)
  next
    assume "ck_projection_id c = dp_projection_id p"
    from chunk_projection [OF wf c p(1) this] p(2)
    show "ck_is_active c \<and> ck_owner_id c = dp_owner_id p \<and> ck_knowledge_base_id c = dp_knowledge_base_id p \<and> ck_document_id c = dp_document_id p"
      by (simp add: chunk_belongs_def)
  qed
qed

lemma visible_active:
  assumes wf: "projections_wf env db" and "visible_chunks owner kb d db \<noteq> []"
  obtains p where "p \<in> set (pj_projections db)" "dp_status p = PjActive" "document_key p = (owner, kb, d)"
proof -
  obtain c where c: "c \<in> set (pj_chunks db)" "ck_is_active c" "ck_owner_id c = owner" "ck_knowledge_base_id c = kb" "ck_document_id c = d"
    using assms(2) by (auto simp: visible_chunks_def filter_empty_conv)
  obtain p where "p \<in> set (pj_projections db)" "chunk_belongs p c" using projections_wfD(2) [OF wf c(1)] by blast
  then show thesis using c that by (auto simp: chunk_belongs_def document_key_def)
qed

end
