(* ===== verification/ProjectionProps.thy ===== *)
theory ProjectionProps
  imports ProjectionTables "HOL-Library.Multiset"
begin

text \<open>The properties of document projections, with a document of two versions as their witness.\<close>

subsection \<open>A concrete history for the witnesses\<close>

text \<open>The digest is 64 characters long and depends on the length of its argument only.\<close>

definition digest64 :: "string \<Rightarrow> string" where
  "digest64 s = replicate (64 - length s mod 64) (CHR ''0'') @ replicate (length s mod 64) (CHR ''a'')"

definition demo_env :: projection_env where
  "demo_env = \<lparr>pv_sha256 = digest64, pv_dump = (\<lambda>cs. concat (map (\<lambda>c. cp_chunk_id c @ cp_content c) cs))\<rparr>"

definition demo_chunk :: "string \<Rightarrow> int \<Rightarrow> string \<Rightarrow> chunk_payload" where
  "demo_chunk i n text = \<lparr>cp_chunk_id = i, cp_chunk_index = n, cp_content = text, cp_content_hash = digest64 text,
     cp_page_no = None, cp_section_path = []\<rparr>"

definition demo_batch :: "string \<Rightarrow> string \<Rightarrow> int \<Rightarrow> chunk_payload list \<Rightarrow> projection_payload" where
  "demo_batch pid version n chunks = \<lparr>pl_projection_id = pid, pl_document_id = ''doc'', pl_document_version = version,
     pl_file_name = ''a.txt'', pl_batch_index = n, pl_batch_count = 2,
     pl_aggregate_hash = digest64 (replicate 128 (CHR ''0'')), pl_chunks = chunks\<rparr>"

definition demo_stage :: "string \<Rightarrow> string \<Rightarrow> int \<Rightarrow> chunk_payload list \<Rightarrow> nat projection_db \<Rightarrow> nat projection_db" where
  "demo_stage pid version n chunks db =
     (case stage_projection_batch demo_env (demo_batch pid version n chunks) 7 (Some ''kb'') db of Inl _ \<Rightarrow> db | Inr (_, db') \<Rightarrow> db')"

definition demo_unprepared :: prepared_projection where
  "demo_unprepared = \<lparr>pp_projection_id = [], pp_owner_id = 0, pp_knowledge_base_id = [], pp_document_id = [],
     pp_document_version = [], pp_chunks = [], pp_snapshot_hash = []\<rparr>"

definition demo_prepared :: "string \<Rightarrow> nat projection_db \<Rightarrow> prepared_projection" where
  "demo_prepared pid db = (case finalize_check demo_env pid db of (_, Inr (Prepared p)) \<Rightarrow> p | _ \<Rightarrow> demo_unprepared)"

definition demo_finish :: "string \<Rightarrow> nat projection_db \<Rightarrow> nat projection_db" where
  "demo_finish pid db = fst (finalize_activate demo_env 9 (demo_prepared pid db) [0, 1] 2 db)"

definition demo_db1 :: "nat projection_db" where
  "demo_db1 = demo_stage ''p1'' ''v1'' 0 [demo_chunk ''a'' 0 ''hello''] (demo_stage ''p1'' ''v1'' 1 [demo_chunk ''b'' 1 ''world''] no_projections)"

definition demo_db2 :: "nat projection_db" where "demo_db2 = demo_finish ''p1'' demo_db1"

definition demo_db3 :: "nat projection_db" where
  "demo_db3 = demo_stage ''p2'' ''v2'' 0 [demo_chunk ''a'' 0 ''hallo''] (demo_stage ''p2'' ''v2'' 1 [demo_chunk ''b'' 1 ''welt''] demo_db2)"

definition demo_db4 :: "nat projection_db" where "demo_db4 = demo_finish ''p2'' demo_db3"


lemma demo_stage_reachable: "projection_reachable demo_env db \<Longrightarrow> projection_reachable demo_env (demo_stage pid version n chunks db)"
  unfolding demo_stage_def by (auto split: sum.split prod.split intro: Projection_step Batch_staged)

lemma demo_finish_reachable: "projection_reachable demo_env db \<Longrightarrow> projection_reachable demo_env (demo_finish pid db)"
  unfolding demo_finish_def by (rule Projection_step, assumption, rule Version_activated [OF prod.collapse [symmetric]])

lemma demo_reachable: "projection_reachable demo_env demo_db3" "projection_reachable demo_env demo_db4"
  by (simp_all add: demo_db1_def demo_db2_def demo_db3_def demo_db4_def demo_stage_reachable demo_finish_reachable No_projections)

subsection \<open>Readers see one complete version\<close>

text \<open>Chunks \<open>cs\<close> are the whole content of version \<open>p\<close>, every digest of which has been recomputed.\<close>

definition verified_chunks :: "projection_env \<Rightarrow> document_projection \<Rightarrow> projection_batch list \<Rightarrow> chunk_payload list \<Rightarrow> bool" where
  "verified_chunks env p batches cs \<longleftrightarrow>
     sort (map pb_batch_index batches) = index_range (dp_batch_count p) \<and>
     mset cs = mset (concat (map pb_chunks batches)) \<and>
     map cp_chunk_index cs = index_range (int (length cs)) \<and> distinct (map cp_chunk_id cs) \<and>
     list_all (\<lambda>c. pv_sha256 env (cp_content c) = cp_content_hash c) cs \<and>
     pv_sha256 env (concat (map cp_content_hash cs)) = dp_aggregate_hash p"

lemma check_all_Inr: "check_all f xs = Inr () \<longleftrightarrow> list_all (\<lambda>x. f x = Inr ()) xs"
  by (induction xs) (auto simp: ebind_Inr_iff)

lemma eguard_Inr [simp]: "eguard c e = Inr u \<longleftrightarrow> c"
  by (simp add: eguard_def)

lemma sort_key_indices: "map f (sort_key f xs) = sort (map f xs)"
  by (rule sym, rule properties_for_sort) simp_all

lemma prepared_verified:
  assumes "prepare_projection env p db = Inr prep"
  shows "verified_chunks env p (filter (\<lambda>b. pb_projection_id b = dp_projection_id p) (pj_batches db)) (pp_chunks prep)"
proof -
  let ?bs = "filter (\<lambda>b. pb_projection_id b = dp_projection_id p) (pj_batches db)"
  have "mset (concat (map pb_chunks (sort_key pb_batch_index ?bs))) = mset (concat (map pb_chunks ?bs))"
    by (simp add: mset_concat image_mset.compositionality comp_def flip: sum_mset_sum_list)
  then show ?thesis using assms
    by (auto simp: prepare_projection_def verified_chunks_def load_projection_batches_def Let_def ebind_Inr_iff
        check_all_Inr check_content_def sort_key_indices list_all_iff)
qed

text \<open>
  C7. In every reachable state the visible chunks of a document are none, or exactly the chunks of one active
  version whose batches all arrived, in order, with every content digest and the aggregate digest verified.
\<close>

theorem readers_see_one_version:
  assumes "projection_reachable env db"
  shows "visible_chunks owner kb d db = [] \<or>
    (\<exists>p. p \<in> set (pj_projections db) \<and> dp_status p = PjActive \<and> document_key p = (owner, kb, d) \<and>
      verified_chunks env p (filter (\<lambda>b. pb_projection_id b = dp_projection_id p) (pj_batches db))
        (map ck_payload (visible_chunks owner kb d db)))"
proof (rule disjCI)
  note wf = reachable_projections_wf [OF assms]
  assume "\<not> (\<exists>p. p \<in> set (pj_projections db) \<and> dp_status p = PjActive \<and> document_key p = (owner, kb, d) \<and>
      verified_chunks env p (filter (\<lambda>b. pb_projection_id b = dp_projection_id p) (pj_batches db))
        (map ck_payload (visible_chunks owner kb d db)))"
  moreover have "verified_chunks env p (filter (\<lambda>b. pb_projection_id b = dp_projection_id p) (pj_batches db))
        (map ck_payload (visible_chunks owner kb d db))"
    if p: "p \<in> set (pj_projections db)" "dp_status p = PjActive" "document_key p = (owner, kb, d)" for p
  proof -
    have "complete_version env db p" using projections_wfD(3) [OF wf p(1)] p(2) by (simp add: has_chunks_def)
    then obtain prep where "prepare_projection env p db = Inr prep" "map ck_payload (stored_chunks p db) = pp_chunks prep"
      by (auto simp: complete_version_def)
    then show ?thesis using prepared_verified visible_stored [OF wf p(1,2)] p(3) by (simp add: document_key_def)
  qed
  ultimately show "visible_chunks owner kb d db = []" using visible_active [OF wf] by metis
qed

lemma readers_see_one_version_witness:
  "projection_reachable demo_env demo_db4 \<and> map (cp_content \<circ> ck_payload) (visible_chunks 7 ''kb'' ''doc'' demo_db4) = [''hallo'', ''welt''] \<and>
   (\<exists>p. p \<in> set (pj_projections demo_db4) \<and> dp_status p = PjActive \<and> document_key p = (7, ''kb'', ''doc'') \<and>
      verified_chunks demo_env p (filter (\<lambda>b. pb_projection_id b = dp_projection_id p) (pj_batches demo_db4))
        (map ck_payload (visible_chunks 7 ''kb'' ''doc'' demo_db4)))"
proof -
  have v: "map (cp_content \<circ> ck_payload) (visible_chunks 7 ''kb'' ''doc'' demo_db4) = [''hallo'', ''welt'']" by code_simp
  then have "visible_chunks 7 ''kb'' ''doc'' demo_db4 \<noteq> []" by auto
  with readers_see_one_version [OF demo_reachable(2), of 7 "''kb''" "''doc''"] v demo_reachable(2) show ?thesis by blast
qed

subsection \<open>Activation is atomic\<close>

lemma activated_visible:
  assumes wf: "projections_wf env db" and p: "p \<in> set (pj_projections db)" "dp_status p = PjStaging"
    and re: "prepare_projection env p db = Inr re" "length embs = length (pp_chunks re)"
    and con: "projection_constraints (activated_db now p (pp_chunks re) embs db)"
  shows "map ck_payload (visible_chunks (dp_owner_id p) (dp_knowledge_base_id p) (dp_document_id p) (activated_db now p (pp_chunks re) embs db)) = pp_chunks re"
proof -
  let ?p = "p\<lparr>dp_status := PjActive, dp_failure_reason := None, dp_activated_at := Some now\<rparr>" and ?db = "activated_db now p (pp_chunks re) embs db"
  have wf': "projections_wf env ?db" by (rule activated_wf [OF assms])
  have "?p \<in> set (pj_projections ?db)" by (simp add: activated_projections [OF wf p])
  from visible_stored [OF wf' this] stored_activated [OF wf p re(2), of now] show ?thesis by (simp add: stored_chunks_def)
qed

text \<open>Rows of another document are not retired.\<close>

lemma activated_visible_other:
  assumes wf: "projections_wf env db" and p: "p \<in> set (pj_projections db)" "dp_status p = PjStaging"
    and other: "(owner, kb, d) \<noteq> document_key p"
  shows "visible_chunks owner kb d (activated_db now p chunks embs db) = visible_chunks owner kb d db"
proof -
  let ?ids = "dp_projection_id ` {q \<in> set (pj_projections db). retired_by p q}"
  let ?vis = "\<lambda>c. ck_is_active c \<and> ck_owner_id c = owner \<and> ck_knowledge_base_id c = kb \<and> ck_document_id c = d"
  have keep: "ck_projection_id c \<notin> ?ids"
    if c: "c \<in> set (pj_chunks db)" "ck_owner_id c = owner" "ck_knowledge_base_id c = kb" "ck_document_id c = d" for c
  proof
    assume "ck_projection_id c \<in> ?ids"
    then obtain q where q: "q \<in> set (pj_projections db)" "retired_by p q" "ck_projection_id c = dp_projection_id q" by blast
    from chunk_projection [OF wf c(1) q(1,3)] q(2) c(2-4) other show False
      by (simp add: chunk_belongs_def retired_by_def document_key_def)
  qed
  have "filter ?vis (update_where (\<lambda>c. ck_projection_id c \<in> ?ids) (\<lambda>c. c\<lparr>ck_is_active := False\<rparr>) (pj_chunks db)) = filter ?vis (pj_chunks db)"
    by (rule filter_update_other) (use keep in auto)
  moreover have "filter ?vis (map (\<lambda>x. (chunk_of p x)\<lparr>ck_is_active := True\<rparr>) (zip chunks embs)) = []"
    using other by (auto simp: filter_empty_conv chunk_of_def document_key_def)
  ultimately show ?thesis by (simp add: visible_chunks_def activated_chunks [OF wf p])
qed

text \<open>
  C11. Activation is all or nothing: when it answers True the document shows exactly the chunks of the version,
  checked again under the lock, and every other document shows what it showed; otherwise, errors included, no
  document changes for any reader.
\<close>

theorem activation_atomic:
  assumes "projection_reachable env db" and "finalize_activate env now prepared embeddings n db = (db', r)"
  shows "if r = Inr True
    then \<exists>p re. load_projection_for_update (pp_projection_id prepared) db = Some p \<and> dp_status p = PjStaging \<and>
        prepare_projection env p db = Inr re \<and> pp_snapshot_hash re = pp_snapshot_hash prepared \<and>
        (\<forall>owner kb d. if (owner, kb, d) = document_key p
          then map ck_payload (visible_chunks owner kb d db') = pp_chunks re
          else visible_chunks owner kb d db' = visible_chunks owner kb d db)
    else \<forall>owner kb d. visible_chunks owner kb d db' = visible_chunks owner kb d db"
  using assms(2)
proof (cases rule: finalize_activate_cases)
  case (activated p re)
  note wf = reachable_projections_wf [OF assms(1)]
  have p: "p \<in> set (pj_projections db)" using activated(1) by (auto dest: load_projectionD)
  have c: "projection_constraints (activated_db now p (pp_chunks re) embeddings db)" using activated by simp
  have "if (owner, kb, d) = document_key p then map ck_payload (visible_chunks owner kb d db') = pp_chunks re
          else visible_chunks owner kb d db' = visible_chunks owner kb d db" for owner kb d
    using activated_visible [OF wf p activated(2,3,5) c] activated_visible_other [OF wf p activated(2), of owner kb d]
    by (simp add: activated(7) document_key_def)
  then show ?thesis using activated by auto
qed auto

lemma activation_atomic_witness:
  "snd (finalize_activate demo_env 9 (demo_prepared ''p2'' demo_db3) [0, 1] 2 demo_db3) = Inr True \<and>
   (\<exists>p re. load_projection_for_update ''p2'' demo_db3 = Some p \<and> prepare_projection demo_env p demo_db3 = Inr re \<and>
      document_key p = (7, ''kb'', ''doc'') \<and> map ck_payload (visible_chunks 7 ''kb'' ''doc'' demo_db4) = pp_chunks re)"
proof -
  let ?run = "finalize_activate demo_env 9 (demo_prepared ''p2'' demo_db3) [0, 1] 2 demo_db3"
  have r: "snd ?run = Inr True" by code_simp
  have id: "pp_projection_id (demo_prepared ''p2'' demo_db3) = ''p2''" by code_simp
  have k: "map_option document_key (load_projection_for_update ''p2'' demo_db3) = Some (7, ''kb'', ''doc'')" by code_simp
  have "fst ?run = demo_db4" by (simp add: demo_db4_def demo_finish_def)
  then have "?run = (demo_db4, Inr True)" using r by (metis prod.collapse)
  from activation_atomic [OF demo_reachable(1) this]
  obtain p re where p: "load_projection_for_update ''p2'' demo_db3 = Some p" "prepare_projection demo_env p demo_db3 = Inr re"
    and v: "\<And>owner kb d. (owner, kb, d) = document_key p \<Longrightarrow> map ck_payload (visible_chunks owner kb d demo_db4) = pp_chunks re"
    unfolding id by (simp add: if_split_eq1 if_bool_eq_conj) blast
  have "document_key p = (7, ''kb'', ''doc'')" using k p(1) by simp
  then show ?thesis using r p v [of 7 "''kb''" "''doc''"] by auto
qed

subsection \<open>Redelivered batches\<close>

text \<open>Everything workers do besides deletions.\<close>

inductive projection_work :: "projection_env \<Rightarrow> 'v projection_db \<Rightarrow> 'v projection_db \<Rightarrow> bool" for env :: projection_env where
  Work_none: "projection_work env db db"
| Work_stage: "projection_work env db db1 \<Longrightarrow> stage_projection_batch env payload owner kb db1 = Inr (r, db2) \<Longrightarrow> projection_work env db db2"
| Work_check: "projection_work env db db1 \<Longrightarrow> finalize_check env pid db1 = (db2, r) \<Longrightarrow> projection_work env db db2"
| Work_activate: "projection_work env db db1 \<Longrightarrow> finalize_activate env now prepared embeddings n db1 = (db2, r') \<Longrightarrow> projection_work env db db2"

lemma work_wf: "projection_work env db db' \<Longrightarrow> projections_wf env db \<Longrightarrow> projections_wf env db'"
proof (induction rule: projection_work.induct)
  case Work_none
  then show ?case .
next
  case (Work_stage db db1 payload owner kb r db2)
  then show ?case using stage_wf by blast
next
  case (Work_check db db1 pid db2 r)
  then show ?case using step_wf Version_checked by blast
next
  case (Work_activate db db1 now prepared embeddings n db2 r')
  then show ?case using step_wf Version_activated by blast
qed

text \<open>A stored batch: its row and its projection with the metadata of the payload.\<close>

definition batch_stored :: "projection_env \<Rightarrow> projection_payload \<Rightarrow> int \<Rightarrow> string \<Rightarrow> 'v projection_db \<Rightarrow> bool" where
  "batch_stored env payload owner kb db \<longleftrightarrow>
     (\<exists>p\<in>set (pj_projections db). projection_metadata p = projection_metadata (new_projection payload owner kb) \<and>
        dp_projection_id p = pl_projection_id payload) \<and>
     (\<exists>b\<in>set (pj_batches db). pb_projection_id b = pl_projection_id payload \<and> pb_batch_index b = pl_batch_index payload \<and>
        pb_payload_hash b = projection_batch_payload_hash env payload)"

lemma batch_stored_mono:
  assumes "batch_stored env payload owner kb db" and "set (pj_batches db) \<subseteq> set (pj_batches db')"
    and "\<And>p. p \<in> set (pj_projections db) \<Longrightarrow> \<exists>q\<in>set (pj_projections db'). projection_metadata q = projection_metadata p \<and> dp_projection_id q = dp_projection_id p"
  shows "batch_stored env payload owner kb db'"
  using assms unfolding batch_stored_def by (metis subsetD)

lemma inserted_rows [simp]:
  "set (pj_projections db) \<subseteq> set (pj_projections (inserted row db))" "pj_batches (inserted row db) = pj_batches db"
  by (auto simp: inserted_def)

lemma find_batch:
  assumes "projections_wf env db" and "b \<in> set (pj_batches db)"
  shows "find (\<lambda>x. pb_projection_id x = pb_projection_id b \<and> pb_batch_index x = pb_batch_index b) (pj_batches db) = Some b"
proof -
  have d: "distinct (map (\<lambda>b. (pb_projection_id b, pb_batch_index b)) (pj_batches db))"
    using projections_wfD(1) [OF assms(1)] by (simp add: projection_constraints_def)
  show ?thesis
  proof (cases "find (\<lambda>x. pb_projection_id x = pb_projection_id b \<and> pb_batch_index x = pb_batch_index b) (pj_batches db)")
    case None
    then show ?thesis using assms(2) by (auto simp: find_None_iff)
  next
    case (Some x)
    from find_SomeD [OF this] have "x \<in> set (pj_batches db)" "(pb_projection_id x, pb_batch_index x) = (pb_projection_id b, pb_batch_index b)" by auto
    from distinct_key_unique [OF d this(1) assms(2) this(2)] Some show ?thesis by simp
  qed
qed

lemma stage_stores:
  assumes wf: "projections_wf env db" and run: "stage_projection_batch env payload owner kb db = Inr (r, db')"
  obtains k where "kb = Some k" "k \<noteq> []" "check_payload env payload owner k = Inr ()" "batch_stored env payload owner k db'"
    "set (pj_batches db) \<subseteq> set (pj_batches db')" "set (pj_projections db) \<subseteq> set (pj_projections db')"
    "r = \<lparr>rc_projection_id = pl_projection_id payload, rc_batch_index = pl_batch_index payload,
            rc_created = rc_created r, rc_is_final_batch = (pl_batch_index payload = pl_batch_count payload - 1)\<rparr>"
proof -
  from run obtain k p where kb: "kb = Some k" and ok: "check_payload env payload owner k = Inr ()"
    and p: "load_projection_for_update (pl_projection_id payload) (inserted (new_projection payload owner k) db) = Some p"
      "projection_metadata p = projection_metadata (new_projection payload owner k)"
    and add: "add_batch env payload p (inserted (new_projection payload owner k) db) = Inr (rc_created r, db')"
    and r: "r = \<lparr>rc_projection_id = pl_projection_id payload, rc_batch_index = pl_batch_index payload,
            rc_created = rc_created r, rc_is_final_batch = (pl_batch_index payload = pl_batch_count payload - 1)\<rparr>"
    by (rule stage_cases)
  have k: "k \<noteq> []" using run kb by (auto simp: stage_projection_batch_def tx_simps)
  note pd = load_projectionD [OF p(1)]
  from add have "batch_stored env payload owner k db' \<and> set (pj_batches db) \<subseteq> set (pj_batches db') \<and>
      pj_projections db' = pj_projections (inserted (new_projection payload owner k) db)"
  proof (cases rule: add_batch_cases)
    case (known b)
    then show ?thesis using pd p(2) find_SomeD [OF known(1)] unfolding batch_stored_def by auto
  next
    case added
    then show ?thesis using pd p(2) unfolding batch_stored_def by (auto simp: batch_row_def)
  qed
  then show thesis using that [OF kb k ok _ _ _ r] inserted_rows(1) [of db] by simp
qed

lemma mark_failed_metadata:
  assumes wf: "projections_wf env db" and q: "q \<in> set (pj_projections db)"
  shows "\<exists>w\<in>set (pj_projections (mark_projection_failed pid m db)). projection_metadata w = projection_metadata q \<and> dp_projection_id w = dp_projection_id q"
proof (cases "\<exists>p. load_projection_for_update pid db = Some p \<and> dp_status p = PjStaging")
  case True
  then obtain p where p: "load_projection_for_update pid db = Some p" "dp_status p = PjStaging" by blast
  define f where "f = p\<lparr>dp_status := PjFailed, dp_failure_reason := Some (take 2000 m)\<rparr>"
  have rows: "pj_projections (mark_projection_failed pid m db) = update_where (\<lambda>x. dp_projection_id x = dp_projection_id p) (\<lambda>_. f) (pj_projections db)"
    by (simp add: mark_projection_failed_def p set_projection_def f_def)
  show ?thesis
  proof (cases "dp_projection_id q = dp_projection_id p")
    case True
    have "q = p" using unique_projection [OF wf _ q True] load_projectionD [OF p(1)] by simp
    moreover have "f \<in> set (pj_projections (mark_projection_failed pid m db))" unfolding rows set_update_where using q True by force
    ultimately show ?thesis by (intro bexI [of _ f]) (simp_all add: f_def projection_metadata_def)
  next
    case False
    then have "q \<in> set (pj_projections (mark_projection_failed pid m db))" unfolding rows set_update_where using q by force
    then show ?thesis by blast
  qed
next
  case False
  then have "mark_projection_failed pid m db = db" by (auto simp: mark_projection_failed_def split: option.split)
  then show ?thesis using q by auto
qed

lemma activated_metadata:
  assumes wf: "projections_wf env db" and p: "p \<in> set (pj_projections db)" "dp_status p = PjStaging" and q: "q \<in> set (pj_projections db)"
  shows "\<exists>w\<in>set (pj_projections (activated_db now p cs embs db)). projection_metadata w = projection_metadata q \<and> dp_projection_id w = dp_projection_id q"
proof (cases "q = p")
  case True
  then show ?thesis by (simp add: activated_projections [OF wf p] projection_metadata_def)
next
  case False
  then have "(if retired_by p q then q\<lparr>dp_status := PjSuperseded\<rparr> else q) \<in> set (pj_projections (activated_db now p cs embs db))"
    using q unfolding activated_projections [OF wf p] by blast
  then show ?thesis by (rule bexI [rotated]) (simp add: projection_metadata_def)
qed

lemma mark_failed_batches [simp]: "pj_batches (mark_projection_failed pid m db) = pj_batches db"
  by (simp add: mark_projection_failed_def set_projection_def split: option.split)

lemma work_keeps_batch:
  "projection_work env db db' \<Longrightarrow> projections_wf env db \<Longrightarrow> batch_stored env payload owner kb db \<Longrightarrow> batch_stored env payload owner kb db'"
proof (induction rule: projection_work.induct)
  case Work_none
  then show ?case by simp
next
  case (Work_stage db db1 payload' owner' kb' r db2)
  have "projections_wf env db1" using work_wf Work_stage by blast
  from stage_stores [OF this Work_stage(2)] show ?case using batch_stored_mono Work_stage by (metis subsetD)
next
  case (Work_check db db1 pid db2 r)
  have wf: "projections_wf env db1" using work_wf Work_check by blast
  note st = Work_check(3) [OF Work_check(4,5)]
  have "batch_stored env payload owner kb (mark_projection_failed pid m db1)" for m
    by (rule batch_stored_mono [OF st]) (simp_all add: mark_failed_metadata [OF wf])
  then show ?case using finalize_check_db [OF Work_check(2)] st by auto
next
  case (Work_activate db db1 now prepared embeddings n db2 r')
  have wf: "projections_wf env db1" using work_wf Work_activate by blast
  note st = Work_activate(3) [OF Work_activate(4,5)]
  from Work_activate(2) show ?case
  proof (cases rule: finalize_activate_cases)
    case (activated p re)
    have p: "p \<in> set (pj_projections db1)" using activated(1) by (auto dest: load_projectionD)
    show ?thesis unfolding activated(7) by (rule batch_stored_mono [OF st]) (simp_all add: activated_metadata [OF wf p activated(2)])
  next
    case (failed m)
    show ?thesis unfolding failed(1) by (rule batch_stored_mono [OF st]) (simp_all add: mark_failed_metadata [OF wf])
  qed (use st in simp)
qed

lemma stage_stored:
  assumes wf: "projections_wf env db" and ok: "check_payload env payload owner k = Inr ()" "k \<noteq> []"
    and b: "b \<in> set (pj_batches db)" "pb_projection_id b = pl_projection_id payload" "pb_batch_index b = pl_batch_index payload"
    and p: "load_projection_for_update (pl_projection_id payload) db = Some p" "projection_metadata p = projection_metadata (new_projection payload owner k)"
  shows "stage_projection_batch env payload owner (Some k) db =
    (if dp_status p = PjFailed then Inl (ProjectionIntegrityError ''cannot replay a failed projection'')
     else if pb_payload_hash b = projection_batch_payload_hash env payload
     then Inr (\<lparr>rc_projection_id = pl_projection_id payload, rc_batch_index = pl_batch_index payload,
       rc_created = False, rc_is_final_batch = (pl_batch_index payload = pl_batch_count payload - 1)\<rparr>, db)
     else Inl (ProjectionIntegrityError ''projection batch payload changed on replay''))"
proof -
  have ins: "inserted (new_projection payload owner k) db = db"
    using load_projectionD [OF p(1)] by (auto simp: inserted_def list_ex_iff)
  have i: "insert_projection (new_projection payload owner k) db = Inr ((), db)" by (simp add: insert_projection_Inr ins)
  have f: "find (\<lambda>x. pb_projection_id x = pl_projection_id payload \<and> pb_batch_index x = pl_batch_index payload) (pj_batches db) = Some b"
    using find_batch [OF wf b(1)] b(2,3) by simp
  have a: "add_batch env payload p db = (if pb_payload_hash b = projection_batch_payload_hash env payload then Inr (False, db)
      else Inl (ProjectionIntegrityError ''projection batch payload changed on replay''))"
    by (simp add: add_batch_def f tx_run)
  have "store_projection_batch env payload owner k db =
      (if dp_status p = PjFailed then Inl (ProjectionIntegrityError ''cannot replay a failed projection'') else add_batch env payload p db)"
    using p by (simp add: store_projection_batch_def i tx_run)
  then show ?thesis using ok a by (simp add: stage_projection_batch_def tx_run tlift_def)
qed

text \<open>
  C18. Once a batch has been stored and whatever other workers do but delete, delivering it again changes nothing:
  it answers that nothing was created, also after the version has been activated or superseded, unless the
  version has failed. Delivering another content under its projection and index is refused.
\<close>

theorem redelivered_batch_idempotent:
  assumes reach: "projection_reachable env db" and run: "stage_projection_batch env payload owner kb db = Inr (r, db1)"
    and work: "projection_work env db1 db2"
  shows "\<exists>p. load_projection_for_update (pl_projection_id payload) db2 = Some p \<and>
    stage_projection_batch env payload owner kb db2 =
      (if dp_status p = PjFailed then Inl (ProjectionIntegrityError ''cannot replay a failed projection'')
       else Inr (r\<lparr>rc_created := False\<rparr>, db2)) \<and>
    (\<forall>other owner' kb' x. pl_projection_id other = pl_projection_id payload \<and> pl_batch_index other = pl_batch_index payload \<and>
       projection_batch_payload_hash env other \<noteq> projection_batch_payload_hash env payload \<longrightarrow>
       stage_projection_batch env other owner' kb' db2 \<noteq> Inr x)"
proof -
  note wf = reachable_projections_wf [OF reach]
  have wf1: "projections_wf env db1" by (rule stage_wf [OF wf run])
  have wf2: "projections_wf env db2" by (rule work_wf [OF work wf1])
  obtain k where k: "kb = Some k" "k \<noteq> []" "check_payload env payload owner k = Inr ()" "batch_stored env payload owner k db1"
    and r: "r = \<lparr>rc_projection_id = pl_projection_id payload, rc_batch_index = pl_batch_index payload,
            rc_created = rc_created r, rc_is_final_batch = (pl_batch_index payload = pl_batch_count payload - 1)\<rparr>"
    by (rule stage_stores [OF wf run])
  have r': "r\<lparr>rc_created := False\<rparr> = \<lparr>rc_projection_id = pl_projection_id payload, rc_batch_index = pl_batch_index payload,
            rc_created = False, rc_is_final_batch = (pl_batch_index payload = pl_batch_count payload - 1)\<rparr>" by (subst r) simp
  from work_keeps_batch [OF work wf1 k(4)]
  obtain p b where p: "p \<in> set (pj_projections db2)" "projection_metadata p = projection_metadata (new_projection payload owner k)"
      "dp_projection_id p = pl_projection_id payload"
    and b: "b \<in> set (pj_batches db2)" "pb_projection_id b = pl_projection_id payload" "pb_batch_index b = pl_batch_index payload"
      "pb_payload_hash b = projection_batch_payload_hash env payload"
    unfolding batch_stored_def by blast
  obtain q where q: "load_projection_for_update (pl_projection_id payload) db2 = Some q"
    using p(1,3) by (cases "load_projection_for_update (pl_projection_id payload) db2")
      (auto simp: load_projection_for_update_def find_None_iff)
  have "q = p" using unique_projection [OF wf2 p(1), of q] load_projectionD [OF q] p(3) by simp
  with q have load: "load_projection_for_update (pl_projection_id payload) db2 = Some p" by simp
  have "stage_projection_batch env other owner' kb' db2 \<noteq> Inr x"
    if o: "pl_projection_id other = pl_projection_id payload" "pl_batch_index other = pl_batch_index payload"
      "projection_batch_payload_hash env other \<noteq> projection_batch_payload_hash env payload" for other owner' kb' x
  proof
    assume run': "stage_projection_batch env other owner' kb' db2 = Inr x"
    obtain rx dbx where x: "x = (rx, dbx)" by (cases x)
    from stage_stores [OF wf2 run' [unfolded x]]
    obtain b' where b': "b' \<in> set (pj_batches dbx)" "pb_projection_id b' = pl_projection_id other" "pb_batch_index b' = pl_batch_index other"
      "pb_payload_hash b' = projection_batch_payload_hash env other" and sub: "set (pj_batches db2) \<subseteq> set (pj_batches dbx)"
      unfolding batch_stored_def by metis
    have wfx: "projections_wf env dbx" by (rule stage_wf [OF wf2 run' [unfolded x]])
    have "Some b' = Some b" using find_batch [OF wfx b'(1)] find_batch [OF wfx subsetD [OF sub b(1)]] b' b o by simp
    then show False using b'(4) b(4) o(3) by simp
  qed
  then show ?thesis
    using load stage_stored [OF wf2 k(3,2) b(1-3) load p(2)] b(4) k(1) unfolding r' by auto
qed

lemma demo_stage_work: "projection_work demo_env db0 db \<Longrightarrow> projection_work demo_env db0 (demo_stage pid version n chunks db)"
  unfolding demo_stage_def by (auto split: sum.split prod.split intro: Work_stage)

lemma demo_finish_work: "projection_work demo_env db0 db \<Longrightarrow> projection_work demo_env db0 (demo_finish pid db)"
  unfolding demo_finish_def by (rule Work_activate, assumption, rule prod.collapse [symmetric])

lemma redelivered_batch_idempotent_witness:
  "map_option dp_status (load_projection_for_update ''p1'' demo_db4) = Some PjSuperseded \<and>
   stage_projection_batch demo_env (demo_batch ''p1'' ''v1'' 1 [demo_chunk ''b'' 1 ''world'']) 7 (Some ''kb'') demo_db4 =
     Inr (\<lparr>rc_projection_id = ''p1'', rc_batch_index = 1, rc_created = False, rc_is_final_batch = True\<rparr>, demo_db4)"
proof -
  let ?pl = "demo_batch ''p1'' ''v1'' 1 [demo_chunk ''b'' 1 ''world'']"
  let ?db1 = "demo_stage ''p1'' ''v1'' 1 [demo_chunk ''b'' 1 ''world''] no_projections"
  have run: "map_option fst (case stage_projection_batch demo_env ?pl 7 (Some ''kb'') (no_projections :: nat projection_db) of Inl e \<Rightarrow> None | Inr x \<Rightarrow> Some x)
      = Some \<lparr>rc_projection_id = ''p1'', rc_batch_index = 1, rc_created = True, rc_is_final_batch = True\<rparr>" by code_simp
  then have st: "stage_projection_batch demo_env ?pl 7 (Some ''kb'') no_projections =
      Inr (\<lparr>rc_projection_id = ''p1'', rc_batch_index = 1, rc_created = True, rc_is_final_batch = True\<rparr>, ?db1)"
    unfolding demo_stage_def by (auto split: sum.splits)
  have "projection_work demo_env ?db1 demo_db4"
    unfolding demo_db4_def demo_db3_def demo_db2_def demo_db1_def by (intro demo_finish_work demo_stage_work Work_none)
  note redelivered_batch_idempotent [OF No_projections st this]
  moreover have "pl_projection_id ?pl = ''p1''" by (simp add: demo_batch_def)
  moreover have "map_option dp_status (load_projection_for_update ''p1'' demo_db4) = Some PjSuperseded" by code_simp
  ultimately show ?thesis by auto
qed

subsection \<open>Versions are not ordered\<close>

text \<open>Nothing compares document versions: a version that is finalized late retires a newer one.\<close>

definition demo_late :: "nat projection_db" where
  "demo_late = demo_finish ''p1'' (demo_finish ''p2''
     (demo_stage ''p2'' ''v2'' 0 [demo_chunk ''a'' 0 ''hallo''] (demo_stage ''p2'' ''v2'' 1 [demo_chunk ''b'' 1 ''welt''] demo_db1)))"

lemma late_version_wins:
  "map (cp_content \<circ> ck_payload) (visible_chunks 7 ''kb'' ''doc'' demo_late) = [''hello'', ''world''] \<and>
   map_option dp_status (load_projection_for_update ''p2'' demo_late) = Some PjSuperseded"
  by code_simp

end
