(* ===== verification/SourceEvents.thy ===== *)
theory SourceEvents
  imports Projections SourceDeletion
begin

text \<open>
  The database of the agent service and the handlers that project and delete sources:
  \<open>services/event_dispatcher.py\<close> (\<open>handle_document_projection_upserted\<close>) and the handlers of
  \<open>services/deletion.py\<close>.

  The environment holds what is not in the repository: digests, the validation of payloads by pydantic (the
  validated payload or nothing), the embedding service, the model provider. Every clock read of one
  handler is \<open>me_now\<close> of its memory environment. The dispatcher holds an advisory lock on the owner and
  knowledge base while a handler runs, so the parts of a handler are composed without interleaving.
\<close>

subsection \<open>The agent database\<close>

record memory_settings =
  ms_owner_id :: int
  ms_automatic_conversation_memory :: bool
  ms_ad_personalization_enabled :: bool
  ms_last_event_occurred_at :: "instant option"
  ms_last_event_id :: "string option"
  ms_ad_last_event_occurred_at :: "instant option"
  ms_ad_last_event_id :: "string option"

datatype inbox_status = InPending | InSucceeded | InFailed

record inbox_event =
  ib_event_id :: string
  ib_payload :: "(string \<times> json) list"
  ib_received_at :: instant
  ib_status :: inbox_status
  ib_attempt_count :: nat
  ib_processed_at :: "instant option"
  ib_last_error :: "string option"

record ('k, 'v) agent_db =
  ag_fences :: "'k deletion_fence list"
  ag_projections :: "'v projection_db"
  ag_memory :: memory_db
  ag_settings :: "memory_settings list"
  ag_inbox :: "inbox_event list"

subsection \<open>Payloads and environment\<close>

record document_deleted_payload =
  dd_owner_id :: int
  dd_knowledge_base_id :: string
  dd_document_id :: string

record knowledge_base_deleted_payload =
  kd_owner_id :: int
  kd_knowledge_base_id :: string

record conversation_deleted_payload =
  cd_owner_id :: int
  cd_knowledge_base_id :: "string option"
  cd_session_id :: string
  cd_message_ids :: "string list"

type_synonym 'p validator = "(string \<times> json) list \<Rightarrow> 'p option"

record ('k, 'v) agent_env =
  ae_digest :: "json \<Rightarrow> 'k"
  ae_projection :: projection_env
  ae_memory :: memory_env
  ae_embedder :: "string list \<Rightarrow> ('v list \<times> nat) result"
  ae_projection_payload :: "projection_payload validator"
  ae_document_deleted :: "document_deleted_payload validator"
  ae_knowledge_base_deleted :: "knowledge_base_deleted_payload validator"
  ae_conversation_deleted :: "conversation_deleted_payload validator"

definition ae_now :: "('k, 'v, 'x) agent_env_scheme \<Rightarrow> instant" where
  "ae_now env = me_now (ae_memory env)"

text \<open>A transaction of its own: committed when it returns, rolled back when it raises.\<close>

definition in_transaction :: "('s, 'a) tx \<Rightarrow> ('s, 'a) action" where
  "in_transaction m s = (case m s of Inl e \<Rightarrow> (s, Inl e) | Inr (x, s') \<Rightarrow> (s', Inr x))"

definition on_memory :: "(memory_db, 'a) tx \<Rightarrow> (('k, 'v) agent_db, 'a) tx" where
  "on_memory m w = (case m (ag_memory w) of Inl e \<Rightarrow> Inl e | Inr (x, db) \<Rightarrow> Inr (x, w\<lparr>ag_memory := db\<rparr>))"

definition on_projections :: "('v projection_db, 'a) action \<Rightarrow> (('k, 'v) agent_db, 'a) action" where
  "on_projections m w = (case m (ag_projections w) of (db, r) \<Rightarrow> (w\<lparr>ag_projections := db\<rparr>, r))"

definition advance_fences ::
  "('k, 'v, 'x) agent_env_scheme \<Rightarrow> agent_envelope \<Rightarrow> fence_source \<Rightarrow> fence_source list \<Rightarrow> (('k, 'v) agent_db, bool) tx" where
  "advance_fences env event primary additional w =
     (case advance_deletion_fences (ae_digest env) event primary additional (ag_fences w) of
        (rows, advanced) \<Rightarrow> Inr (advanced, w\<lparr>ag_fences := rows\<rparr>))"

definition blocked :: "('k, 'v, 'x) agent_env_scheme \<Rightarrow> agent_envelope \<Rightarrow> fence_source list \<Rightarrow> ('k, 'v) agent_db \<Rightarrow> bool" where
  "blocked env event sources w = event_is_blocked_by_deletion (ae_digest env) event sources (ag_fences w)"

subsection \<open>Deleting a document\<close>

definition sources_of :: "string \<Rightarrow> string list \<Rightarrow> source_filter" where
  "sources_of ty ids = \<lparr>sf_source_type = Some ty, sf_source_ids = ids, sf_source_document_id = None,
     sf_entire_scope = False, sf_evidence_ids = []\<rparr>"

definition projections_of :: "int \<Rightarrow> string \<Rightarrow> string \<Rightarrow> 'v projection_db \<Rightarrow> string list" where
  "projections_of owner kb document_id db = map dp_projection_id (filter (\<lambda>p. dp_owner_id p = owner \<and>
     dp_knowledge_base_id p = kb \<and> dp_document_id p = document_id) (pj_projections db))"

definition projected_chunk_ids :: "string list \<Rightarrow> 'v projection_db \<Rightarrow> string list" where
  "projected_chunk_ids ids db = uniq (
     map (\<lambda>c. cp_chunk_id (ck_payload c)) (filter (\<lambda>c. ck_projection_id c \<in> set ids) (pj_chunks db)) @
     filter (\<lambda>i. i \<noteq> []) (map cp_chunk_id (concat (map pb_chunks (filter (\<lambda>b. pb_projection_id b \<in> set ids) (pj_batches db))))))"

definition document_evidence :: "string \<Rightarrow> string list \<Rightarrow> source_filter" where
  "document_evidence document_id chunk_ids = \<lparr>sf_source_type = Some ''document'', sf_source_ids = chunk_ids,
     sf_source_document_id = Some document_id, sf_entire_scope = False, sf_evidence_ids = []\<rparr>"

definition remove_projections :: "string list \<Rightarrow> (('k, 'v) agent_db, unit) tx" where
  "remove_projections ids = tmodify (\<lambda>w. w\<lparr>ag_projections := delete_projections ids (ag_projections w)\<rparr>)"

definition delete_document_projection ::
  "('k, 'v, 'x) agent_env_scheme \<Rightarrow> int \<Rightarrow> string \<Rightarrow> string \<Rightarrow> (('k, 'v) agent_db, deletion_result) tx" where
  "delete_document_projection env owner kb document_id =
     tbind (tget (\<lambda>w. projections_of owner kb document_id (ag_projections w))) (\<lambda>projection_ids.
     tbind (tget (\<lambda>w. projected_chunk_ids projection_ids (ag_projections w))) (\<lambda>chunk_ids.
     tbind (remove_projections projection_ids) (\<lambda>_.
     on_memory (delete_source_evidence (ae_memory env) owner (Some kb) (document_evidence document_id chunk_ids) projection_ids))))"

text \<open>What a late deletion answers with: a deletion that selects nothing.\<close>

definition delete_nothing ::
  "('k, 'v, 'x) agent_env_scheme \<Rightarrow> int \<Rightarrow> string option \<Rightarrow> string \<Rightarrow> (('k, 'v) agent_db, deletion_result) tx" where
  "delete_nothing env owner kb ty = on_memory (delete_source_evidence (ae_memory env) owner kb (sources_of ty []) [])"

definition scope_error :: py_error where
  "scope_error = SourceDeletionError ''deletion payload scope does not match its envelope''"

definition handle_document_deleted ::
  "('k, 'v, 'x) agent_env_scheme \<Rightarrow> agent_envelope \<Rightarrow> (('k, 'v) agent_db, deletion_result) action" where
  "handle_document_deleted env event w =
     (case ae_document_deleted env (en_payload event) of
        None \<Rightarrow> araise (SourceDeletionError ''invalid document deletion payload'') w
      | Some p \<Rightarrow>
          if dd_owner_id p \<noteq> en_owner_id event \<or> Some (dd_knowledge_base_id p) \<noteq> en_knowledge_base_id event
          then araise scope_error w
          else if blocked env event [FenceSource ''document'' (dd_document_id p)] w
          then in_transaction (delete_nothing env (en_owner_id event) (Some (dd_knowledge_base_id p)) ''document'') w
          else in_transaction (
            tbind (advance_fences env event (FenceSource ''document'' (dd_document_id p)) []) (\<lambda>advanced.
              if \<not> advanced then delete_nothing env (en_owner_id event) (Some (dd_knowledge_base_id p)) ''document''
              else delete_document_projection env (en_owner_id event) (dd_knowledge_base_id p) (dd_document_id p))) w)"

subsection \<open>Deleting a knowledge base\<close>

definition projections_in :: "int \<Rightarrow> string \<Rightarrow> 'v projection_db \<Rightarrow> string list" where
  "projections_in owner kb db = map dp_projection_id (filter (\<lambda>p. dp_owner_id p = owner \<and> dp_knowledge_base_id p = kb)
     (pj_projections db))"

definition handle_knowledge_base_deleted ::
  "('k, 'v, 'x) agent_env_scheme \<Rightarrow> agent_envelope \<Rightarrow> (('k, 'v) agent_db, deletion_result) action" where
  "handle_knowledge_base_deleted env event w =
     (case ae_knowledge_base_deleted env (en_payload event) of
        None \<Rightarrow> araise (SourceDeletionError ''invalid knowledge base deletion payload'') w
      | Some p \<Rightarrow>
          if kd_owner_id p \<noteq> en_owner_id event \<or> Some (kd_knowledge_base_id p) \<noteq> en_knowledge_base_id event
          then araise scope_error w
          else in_transaction (
            tbind (advance_fences env event (FenceSource ''knowledge_base'' (kd_knowledge_base_id p)) []) (\<lambda>advanced.
              if \<not> advanced then delete_nothing env (en_owner_id event) (Some (kd_knowledge_base_id p)) ''document''
              else
                tbind (tget (\<lambda>w. projections_in (en_owner_id event) (kd_knowledge_base_id p) (ag_projections w))) (\<lambda>ids.
                tbind (remove_projections ids) (\<lambda>_.
                on_memory (delete_source_evidence (ae_memory env) (en_owner_id event) (Some (kd_knowledge_base_id p)) entire_scope ids))))) w)"

subsection \<open>Deleting a conversation\<close>

definition conversation_sources :: "conversation_deleted_payload \<Rightarrow> fence_source list" where
  "conversation_sources p = map (FenceSource ''explicit_request'') (cd_message_ids p)"

definition merge_deletions :: "instant \<Rightarrow> deletion_result \<Rightarrow> deletion_result \<Rightarrow> deletion_result" where
  "merge_deletions now a b =
     \<lparr>dl_status = ''succeeded'', dl_completed_at = now, dl_projection_ids = [],
      dl_evidence_ids = sorted_set (dl_evidence_ids a @ dl_evidence_ids b),
      dl_candidate_ids = sorted_set (dl_candidate_ids a @ dl_candidate_ids b),
      dl_revision_ids = sorted_set (dl_revision_ids a @ dl_revision_ids b),
      dl_memory_ids = sorted_set (dl_memory_ids a @ dl_memory_ids b),
      dl_projection_count = 0, dl_evidence_count = dl_evidence_count a + dl_evidence_count b,
      dl_candidate_count = dl_candidate_count a + dl_candidate_count b,
      dl_revision_count = dl_revision_count a + dl_revision_count b,
      dl_memory_count = dl_memory_count a + dl_memory_count b,
      dl_recalculated_count = dl_recalculated_count a + dl_recalculated_count b\<rparr>"

definition handle_conversation_deleted ::
  "('k, 'v, 'x) agent_env_scheme \<Rightarrow> agent_envelope \<Rightarrow> (('k, 'v) agent_db, deletion_result) action" where
  "handle_conversation_deleted env event w =
     (case ae_conversation_deleted env (en_payload event) of
        None \<Rightarrow> araise (SourceDeletionError ''invalid conversation deletion payload'') w
      | Some p \<Rightarrow>
          let owner = en_owner_id event; kb = en_knowledge_base_id event;
              primary = FenceSource ''conversation'' (cd_session_id p); additional = conversation_sources p
          in if cd_owner_id p \<noteq> owner \<or> cd_knowledge_base_id p \<noteq> kb then araise scope_error w
          else if blocked env event (primary # additional) w
          then in_transaction (delete_nothing env owner kb ''conversation'') w
          else in_transaction (
            tbind (advance_fences env event primary additional) (\<lambda>advanced.
              if \<not> advanced then delete_nothing env owner kb ''conversation''
              else
                tbind (on_memory (delete_source_evidence (ae_memory env) owner kb (sources_of ''conversation'' [cd_session_id p]) [])) (\<lambda>a.
                tbind (on_memory (delete_source_evidence (ae_memory env) owner kb
                  (sources_of ''explicit_request'' (uniq (cd_message_ids p))) [])) (\<lambda>b.
                treturn (merge_deletions (ae_now env) a b))))) w)"

subsection \<open>Projecting a document\<close>

definition handle_document_projection_upserted ::
  "('k, 'v, 'x) agent_env_scheme \<Rightarrow> agent_envelope \<Rightarrow> (('k, 'v) agent_db, unit) action" where
  "handle_document_projection_upserted env event w =
     (case ae_projection_payload env (en_payload event) of
        None \<Rightarrow> araise (ProjectionIntegrityError ''invalid document projection payload'') w
      | Some p \<Rightarrow>
          if blocked env event [FenceSource ''document'' (pl_document_id p)] w then areturn () w
          else abind (on_projections (in_transaction (stage_projection_batch (ae_projection env) p (en_owner_id event)
              (en_knowledge_base_id event)))) (\<lambda>receipt w1.
            case on_projections (finalize_projection (ae_projection env) (ae_embedder env) (ae_now env) (rc_projection_id receipt)) w1 of
              (w2, Inr _) \<Rightarrow> (w2, Inr ())
            | (w2, Inl (IncompleteProjectionError m)) \<Rightarrow> (w2, Inr ())
            | (w2, Inl e) \<Rightarrow> (w2, Inl e)) w)"

end
