(* ===== verification/MemoryEvents.thy ===== *)
theory MemoryEvents
  imports SourceEvents
begin

text \<open>
  Events that become memories: \<open>services/memory_events.py\<close>, \<open>memory/extraction.py\<close> and the candidates of
  \<open>memory/schemas.py\<close>. What the model provider answers for an excerpt is an argument.
\<close>

subsection \<open>Extraction\<close>

record extraction_input =
  xi_source_type :: string
  xi_source_id :: string
  xi_source_version :: string
  xi_excerpt :: string
  xi_occurred_at :: instant

record extracted_candidate =
  xc_memory_type :: string
  xc_subject :: string
  xc_predicate :: string
  xc_value :: string
  xc_confidence :: real
  xc_sensitivity_signals :: "string list"
  xc_evidence_quote :: string
  xc_evidence_start :: int
  xc_evidence_end :: int
  xc_temporal_hints :: json

text \<open>
  The client raises an exception (its class name and HTTP status, if any), or answers; an answer that is empty, is not
  JSON or does not fit the schema is None.
\<close>

datatype provider_answer =
    ClientUnavailable
  | ClientMisconfigured
  | ProviderRaised string "int option"
  | Answered "extracted_candidate list option"

definition RETRYABLE_PROVIDER_ERRORS :: "string list" where
  "RETRYABLE_PROVIDER_ERRORS = [''APIConnectionError'', ''APITimeoutError'', ''RateLimitError'', ''InternalServerError'']"

definition provider_error :: "string \<Rightarrow> int option \<Rightarrow> py_error" where
  "provider_error name status =
     (if name \<in> set RETRYABLE_PROVIDER_ERRORS \<or>
         (case status of None \<Rightarrow> False | Some s \<Rightarrow> s = 408 \<or> s = 429 \<or> 500 \<le> s)
      then RetryableExtractionError ''memory extraction provider is temporarily unavailable''
      else TerminalExtractionError ''memory extraction provider rejected the request'')"

definition py_slice :: "int \<Rightarrow> int \<Rightarrow> 'a list \<Rightarrow> 'a list" where
  "py_slice a b xs = take (nat (b - a)) (drop (nat a) xs)"

text \<open>The schema keeps the offsets non-negative.\<close>

definition validate_evidence :: "string \<Rightarrow> extracted_candidate \<Rightarrow> bool" where
  "validate_evidence excerpt c \<longleftrightarrow> xc_evidence_end c \<le> int (length excerpt) \<and>
     py_slice (xc_evidence_start c) (xc_evidence_end c) excerpt = xc_evidence_quote c \<and>
     is_substring (xc_evidence_quote c) excerpt"

definition extract_candidates ::
  "bool \<Rightarrow> (string \<Rightarrow> provider_answer) \<Rightarrow> extraction_input \<Rightarrow> extracted_candidate list result" where
  "extract_candidates configured provider evidence =
     (if contains_secret (xi_excerpt evidence) then Inr []
      else if \<not> configured then Inl (TerminalExtractionError ''memory extraction model is not configured'')
      else case provider (xi_excerpt evidence) of
          ClientUnavailable \<Rightarrow> Inl (TerminalExtractionError ''memory extraction client is unavailable'')
        | ClientMisconfigured \<Rightarrow> Inl (TerminalExtractionError ''memory extraction client configuration is invalid'')
        | ProviderRaised name status \<Rightarrow> Inl (provider_error name status)
        | Answered None \<Rightarrow> Inl (TerminalExtractionError ''memory extraction returned invalid structured output'')
        | Answered (Some cs) \<Rightarrow>
            if list_all (validate_evidence (xi_excerpt evidence)) cs then Inr cs
            else Inl (TerminalExtractionError ''memory extraction returned invalid structured output''))"

subsection \<open>Payloads\<close>

record settings_payload =
  sp_automatic_conversation_memory :: "bool option"
  sp_ad_personalization_enabled :: "bool option"

record conversation_message =
  cx_id :: string
  cx_content :: string
  cx_created_at :: instant

record conversation_completed_payload =
  cc_session_id :: string
  cc_user_message :: conversation_message
  cc_assistant_message :: conversation_message

record memory_requested_payload =
  rq_session_id :: string
  rq_message_id :: string
  rq_message_created_at :: instant
  rq_excerpt :: string

record document_observed_payload =
  do_document_id :: string
  do_projection_id :: string
  do_chunk_id :: string
  do_document_version :: string
  do_content_hash :: string
  do_excerpt_hash :: string
  do_observed_at :: instant
  do_excerpt :: string

record ('k, 'v) event_env = "('k, 'v) agent_env" +
  ee_settings_changed :: "settings_payload validator"
  ee_conversation_completed :: "conversation_completed_payload validator"
  ee_memory_requested :: "memory_requested_payload validator"
  ee_document_observed :: "document_observed_payload validator"
  ee_envelope :: "agent_envelope validator"
  ee_isoformat :: "instant \<Rightarrow> string"
  ee_configured :: bool
  ee_provider :: "string \<Rightarrow> provider_answer"

subsection \<open>Settings of the owner\<close>

definition new_settings :: "int \<Rightarrow> memory_settings" where
  "new_settings owner = \<lparr>ms_owner_id = owner, ms_automatic_conversation_memory = False,
     ms_ad_personalization_enabled = False, ms_last_event_occurred_at = None, ms_last_event_id = None,
     ms_ad_last_event_occurred_at = None, ms_ad_last_event_id = None\<rparr>"

text \<open>Whether an event is newer than the stored order; a missing part of it counts as no order.\<close>

definition newer_than :: "agent_envelope \<Rightarrow> instant option \<Rightarrow> string option \<Rightarrow> bool" where
  "newer_than event occurred_at event_id =
     (case (occurred_at, event_id) of
        (Some t, Some i) \<Rightarrow> event_stamp event > event_order t i
      | _ \<Rightarrow> True)"

definition updated_settings :: "agent_envelope \<Rightarrow> settings_payload \<Rightarrow> memory_settings \<Rightarrow> memory_settings" where
  "updated_settings event p row =
     (let row1 = (case sp_automatic_conversation_memory p of
            None \<Rightarrow> row
          | Some b \<Rightarrow> if newer_than event (ms_last_event_occurred_at row) (ms_last_event_id row)
              then row\<lparr>ms_automatic_conversation_memory := b, ms_last_event_occurred_at := Some (en_occurred_at event),
                ms_last_event_id := Some (en_event_id event)\<rparr> else row)
      in case sp_ad_personalization_enabled p of
            None \<Rightarrow> row1
          | Some b \<Rightarrow> if newer_than event (ms_ad_last_event_occurred_at row1) (ms_ad_last_event_id row1)
              then row1\<lparr>ms_ad_personalization_enabled := b, ms_ad_last_event_occurred_at := Some (en_occurred_at event),
                ms_ad_last_event_id := Some (en_event_id event)\<rparr> else row1)"

definition apply_settings :: "('k, 'v, 'x) event_env_scheme \<Rightarrow> agent_envelope \<Rightarrow> (('k, 'v) agent_db, unit) tx" where
  "apply_settings env event =
     (case ee_settings_changed env (en_payload event) of
        None \<Rightarrow> tfail (MalformedMemoryEvent ''invalid memory event payload'')
      | Some p \<Rightarrow> tmodify (\<lambda>w. w\<lparr>ag_settings :=
          (let rows = fst (insert_if_absent ms_owner_id (new_settings (en_owner_id event)) (ag_settings w))
           in update_where (\<lambda>r. ms_owner_id r = en_owner_id event) (updated_settings event p) rows)\<rparr>))"

definition settle_inbox :: "string \<Rightarrow> inbox_status \<Rightarrow> string option \<Rightarrow> instant \<Rightarrow> ('k, 'v) agent_db \<Rightarrow> ('k, 'v) agent_db" where
  "settle_inbox event_id status reason now w = w\<lparr>ag_inbox := update_where (\<lambda>r. ib_event_id r = event_id)
     (\<lambda>r. r\<lparr>ib_status := status, ib_processed_at := Some now, ib_last_error := reason\<rparr>) (ag_inbox w)\<rparr>"

text \<open>The query on the JSON columns, \<open>astext\<close> of a number being its digits.\<close>

definition pending_settings :: "agent_envelope \<Rightarrow> inbox_event \<Rightarrow> bool" where
  "pending_settings event r \<longleftrightarrow> ib_status r = InPending \<and>
     map_of (ib_payload r) ''event_type'' = Some (JStr ''user.memory_settings.changed'') \<and>
     (case map_of (ib_payload r) ''owner_id'' of
        Some (JInt n) \<Rightarrow> py_str_int n = py_str_int (en_owner_id event)
      | Some (JStr s) \<Rightarrow> s = py_str_int (en_owner_id event)
      | _ \<Rightarrow> False)"

fun apply_in_order ::
  "('k, 'v, 'x) event_env_scheme \<Rightarrow> (agent_envelope \<times> string) list \<Rightarrow> (('k, 'v) agent_db, unit) tx" where
  "apply_in_order env [] w = treturn () w"
| "apply_in_order env ((e, row_id) # rest) w =
     (case apply_settings env e w of
        Inr (_, w1) \<Rightarrow> apply_in_order env rest (settle_inbox row_id InSucceeded None (ae_now env) w1)
      | Inl (MalformedMemoryEvent m) \<Rightarrow> apply_in_order env rest (settle_inbox row_id InFailed (Some m) (ae_now env) w)
      | Inl err \<Rightarrow> Inl err)"

definition reject_envelopes ::
  "('k, 'v, 'x) event_env_scheme \<Rightarrow> inbox_event list \<Rightarrow> ('k, 'v) agent_db \<Rightarrow> ('k, 'v) agent_db" where
  "reject_envelopes env rows w = foldl (\<lambda>w r. settle_inbox (ib_event_id r) InFailed (Some ''invalid settings event envelope'')
     (ae_now env) w) w (filter (\<lambda>r. ee_envelope env (ib_payload r) = None) rows)"

definition earlier_settings ::
  "('k, 'v, 'x) event_env_scheme \<Rightarrow> agent_envelope \<Rightarrow> inbox_event list \<Rightarrow> (agent_envelope \<times> string) list" where
  "earlier_settings env event rows = sort_key (\<lambda>(e, _). event_stamp e)
     (List.map_filter (\<lambda>r. case ee_envelope env (ib_payload r) of None \<Rightarrow> None
        | Some e \<Rightarrow> if event_stamp e < event_stamp event then Some (e, ib_event_id r) else None) rows)"

definition apply_earlier_pending_settings ::
  "('k, 'v, 'x) event_env_scheme \<Rightarrow> agent_envelope \<Rightarrow> (('k, 'v) agent_db, unit) tx" where
  "apply_earlier_pending_settings env event =
     tbind (tget (\<lambda>w. filter (pending_settings event) (ag_inbox w))) (\<lambda>rows.
     tbind (tmodify (reject_envelopes env rows)) (\<lambda>_.
     apply_in_order env (earlier_settings env event rows)))"

definition automatic_conversation_enabled ::
  "('k, 'v, 'x) event_env_scheme \<Rightarrow> agent_envelope \<Rightarrow> (('k, 'v) agent_db, bool) action" where
  "automatic_conversation_enabled env event = in_transaction (
     tbind (apply_earlier_pending_settings env event) (\<lambda>_.
     tget (\<lambda>w. case find (\<lambda>r. ms_owner_id r = en_owner_id event) (ag_settings w) of
       None \<Rightarrow> False | Some r \<Rightarrow> ms_automatic_conversation_memory r)))"

definition handle_memory_settings_changed ::
  "('k, 'v, 'x) event_env_scheme \<Rightarrow> agent_envelope \<Rightarrow> (('k, 'v) agent_db, unit) action" where
  "handle_memory_settings_changed env event = in_transaction (apply_settings env event)"

subsection \<open>Reconciling what was extracted\<close>

definition has_link :: "(string \<times> string) list \<Rightarrow> string \<Rightarrow> string \<Rightarrow> bool" where
  "has_link links key evidence_id \<longleftrightarrow> (key, evidence_id) \<in> set links"

text \<open>
  Whether the evidence already supports a candidate or revision with this content. Its document is completed or
  compared as when evidence is stored (\<open>accept_evidence\<close>, whose scope test always holds here).
\<close>

definition already_reconciled ::
  "memory_env \<Rightarrow> int \<Rightarrow> string option \<Rightarrow> extracted_candidate \<Rightarrow> evidence_input \<Rightarrow> (memory_db, bool) tx" where
  "already_reconciled env owner kb c item =
     tbind (tget (\<lambda>db. find (\<lambda>e. ev_identity_hash e = evidence_identity env owner kb (ei_source_type item) (ei_source_id item)
         (ei_source_version item) (ei_content_hash item) \<and> ev_owner_id e = owner \<and> ev_knowledge_base_id e = kb)
       (md_evidence db))) (\<lambda>found.
     case found of None \<Rightarrow> treturn False
     | Some e \<Rightarrow>
         tbind (accept_evidence kb item e) (\<lambda>e.
         let fp = memory_fingerprint env (normalize_memory_text (xc_subject c)) (normalize_memory_text (xc_predicate c))
               (normalize_memory_text (xc_value c))
         in tget (\<lambda>db.
              list_ex (\<lambda>q. mc_owner_id q = owner \<and> mc_knowledge_base_id q = kb \<and> mc_fingerprint q = fp \<and>
                has_link (md_candidate_evidence db) (mc_candidate_id q) (ev_evidence_id e)) (md_candidates db) \<or>
              list_ex (\<lambda>r. mr_owner_id r = owner \<and> mr_knowledge_base_id r = kb \<and> mr_fingerprint r = fp \<and>
                has_link (md_revision_evidence db) (mr_revision_id r) (ev_evidence_id e)) (md_revisions db))))"

definition quoted_evidence :: "memory_env \<Rightarrow> extraction_input \<Rightarrow> string option \<Rightarrow> extracted_candidate \<Rightarrow> evidence_input" where
  "quoted_evidence env evidence document_id c =
     \<lparr>ei_source_type = xi_source_type evidence, ei_source_id = xi_source_id evidence,
      ei_source_version = xi_source_version evidence, ei_minimum_text = xc_evidence_quote c,
      ei_content_hash = me_hexdigest env (xc_evidence_quote c), ei_occurred_at = xi_occurred_at evidence,
      ei_source_document_id = document_id\<rparr>"

definition extraction_provenance :: "extraction_input \<Rightarrow> string option \<Rightarrow> extracted_candidate \<Rightarrow> (string \<times> json) list" where
  "extraction_provenance evidence document_id c =
     [(''source_type'', JStr (xi_source_type evidence))] @
     (case document_id of None \<Rightarrow> [] | Some d \<Rightarrow> [(''document_id'', JStr d)]) @
     [(''evidence_start'', JInt (xc_evidence_start c)), (''evidence_end'', JInt (xc_evidence_end c)),
      (''temporal_hints'', xc_temporal_hints c)]"

definition candidate_sensitivity :: "extracted_candidate \<Rightarrow> sensitivity" where
  "candidate_sensitivity c = classify_sensitivity [xc_subject c, xc_predicate c, xc_evidence_quote c, xc_value c]
     (xc_sensitivity_signals c)"

definition reconcile_extracted ::
  "memory_env \<Rightarrow> extraction_input \<Rightarrow> int \<Rightarrow> string option \<Rightarrow> bool \<Rightarrow> string option \<Rightarrow> extracted_candidate \<Rightarrow> (memory_db, unit) tx" where
  "reconcile_extracted env evidence owner kb explicit_request document_id c =
     tbind (already_reconciled env owner kb c (quoted_evidence env evidence document_id c)) (\<lambda>known.
     if known then treturn ()
     else tbind (reconcile_candidate env owner kb (xc_memory_type c) (xc_subject c) (xc_predicate c) (xc_value c)
         (xc_confidence c) (candidate_sensitivity c) [quoted_evidence env evidence document_id c]
         (extraction_provenance evidence document_id c) explicit_request ''memory-extraction'') (\<lambda>_. treturn ()))"

fun reconcile_all ::
  "memory_env \<Rightarrow> extraction_input \<Rightarrow> int \<Rightarrow> string option \<Rightarrow> bool \<Rightarrow> string option \<Rightarrow> extracted_candidate list
   \<Rightarrow> (memory_db, unit) action" where
  "reconcile_all env evidence owner kb explicit_request document_id [] = areturn ()"
| "reconcile_all env evidence owner kb explicit_request document_id (c # cs) =
     (if candidate_sensitivity c = SSecret then reconcile_all env evidence owner kb explicit_request document_id cs
      else abind (in_transaction (reconcile_extracted env evidence owner kb explicit_request document_id c)) (\<lambda>_.
        reconcile_all env evidence owner kb explicit_request document_id cs))"

definition with_memory :: "(memory_db, 'a) action \<Rightarrow> (('k, 'v) agent_db, 'a) action" where
  "with_memory m w = (case m (ag_memory w) of (db, r) \<Rightarrow> (w\<lparr>ag_memory := db\<rparr>, r))"

definition extract_and_reconcile ::
  "('k, 'v, 'x) event_env_scheme \<Rightarrow> extraction_input \<Rightarrow> int \<Rightarrow> string option \<Rightarrow> bool \<Rightarrow> string option
   \<Rightarrow> (('k, 'v) agent_db, unit) action" where
  "extract_and_reconcile env evidence owner kb explicit_request document_id =
     (if contains_secret (xi_excerpt evidence) then areturn ()
      else case extract_candidates (ee_configured env) (ee_provider env) evidence of
          Inl e \<Rightarrow> araise e
        | Inr cs \<Rightarrow> with_memory (reconcile_all (ae_memory env) evidence owner kb explicit_request document_id cs))"

subsection \<open>Handlers\<close>

definition malformed :: "string \<Rightarrow> (('k, 'v) agent_db, 'a) action" where
  "malformed reason = araise (MalformedMemoryEvent reason)"

definition conversation_excerpt :: "conversation_completed_payload \<Rightarrow> string" where
  "conversation_excerpt p = take 20000 (''User:'' @ [CHR 0x0A] @ cx_content (cc_user_message p) @ [CHR 0x0A, CHR 0x0A] @
     ''Assistant:'' @ [CHR 0x0A] @ cx_content (cc_assistant_message p))"

definition handle_conversation_completed ::
  "('k, 'v, 'x) event_env_scheme \<Rightarrow> agent_envelope \<Rightarrow> (('k, 'v) agent_db, unit) action" where
  "handle_conversation_completed env event w =
     (case ee_conversation_completed env (en_payload event) of
        None \<Rightarrow> malformed ''invalid memory event payload'' w
      | Some p \<Rightarrow>
          if blocked env event [FenceSource ''conversation'' (cc_session_id p)] w then areturn () w
          else abind (automatic_conversation_enabled env event) (\<lambda>enabled.
            if \<not> enabled then areturn ()
            else extract_and_reconcile env
              \<lparr>xi_source_type = ''conversation'', xi_source_id = cc_session_id p,
               xi_source_version = cx_id (cc_assistant_message p), xi_excerpt = conversation_excerpt p,
               xi_occurred_at = cx_created_at (cc_assistant_message p)\<rparr>
              (en_owner_id event) (en_knowledge_base_id event) False None) w)"

definition handle_user_memory_requested ::
  "('k, 'v, 'x) event_env_scheme \<Rightarrow> agent_envelope \<Rightarrow> (('k, 'v) agent_db, unit) action" where
  "handle_user_memory_requested env event w =
     (case ee_memory_requested env (en_payload event) of
        None \<Rightarrow> malformed ''invalid memory event payload'' w
      | Some p \<Rightarrow>
          if blocked env event [FenceSource ''conversation'' (rq_session_id p), FenceSource ''explicit_request'' (rq_message_id p)] w
          then areturn () w
          else extract_and_reconcile env
            \<lparr>xi_source_type = ''explicit_request'', xi_source_id = rq_message_id p,
             xi_source_version = ee_isoformat env (rq_message_created_at p), xi_excerpt = rq_excerpt p,
             xi_occurred_at = rq_message_created_at p\<rparr>
            (en_owner_id event) (en_knowledge_base_id event) True None w)"

text \<open>The checks of an observation against the stored projection; the chunk must be bound to exactly one stored chunk.\<close>

definition check_chunk_binding ::
  "('k, 'v, 'x) event_env_scheme \<Rightarrow> document_observed_payload \<Rightarrow> chunk_payload list \<Rightarrow> unit result" where
  "check_chunk_binding env p chunks =
     (case filter (\<lambda>c. cp_chunk_id c = do_chunk_id p) chunks of
        [] \<Rightarrow> Inl (MalformedMemoryEvent ''document memory chunk is absent from projection'')
      | [c] \<Rightarrow>
          if cp_content_hash c \<noteq> do_content_hash p \<or> pv_sha256 (ae_projection env) (cp_content c) \<noteq> do_content_hash p \<or>
            \<not> is_substring (do_excerpt p) (cp_content c)
          then Inl (MalformedMemoryEvent ''document memory chunk binding mismatch'') else Inr ()
      | _ \<Rightarrow> Inl (MalformedMemoryEvent ''document memory chunk is duplicated in projection''))"

definition check_observation ::
  "('k, 'v, 'x) event_env_scheme \<Rightarrow> agent_envelope \<Rightarrow> document_observed_payload \<Rightarrow> 'v projection_db \<Rightarrow> unit result" where
  "check_observation env event p db =
     (if pv_sha256 (ae_projection env) (do_excerpt p) \<noteq> do_excerpt_hash p
      then Inl (MalformedMemoryEvent ''document memory excerpt hash mismatch'')
      else case load_projection_for_update (do_projection_id p) db of
          None \<Rightarrow> Inl (ProjectionObservationNotReady ''document projection has not arrived'')
        | Some j \<Rightarrow>
            if dp_owner_id j \<noteq> en_owner_id event \<or> Some (dp_knowledge_base_id j) \<noteq> en_knowledge_base_id event \<or>
               dp_document_id j \<noteq> do_document_id p \<or> dp_document_version j \<noteq> do_document_version p
            then Inl (MalformedMemoryEvent ''document memory projection scope mismatch'')
            else if dp_status j = PjStaging
            then Inl (ProjectionObservationNotReady ''document projection is not active'')
            else if dp_status j \<noteq> PjActive
            then Inl (MalformedMemoryEvent ''document memory projection is not active'')
            else check_chunk_binding env p
              (concat (map pb_chunks (filter (\<lambda>b. pb_projection_id b = do_projection_id p) (pj_batches db)))))"

definition handle_document_memory_observed ::
  "('k, 'v, 'x) event_env_scheme \<Rightarrow> agent_envelope \<Rightarrow> (('k, 'v) agent_db, unit) action" where
  "handle_document_memory_observed env event w =
     (case ee_document_observed env (en_payload event) of
        None \<Rightarrow> malformed ''invalid memory event payload'' w
      | Some p \<Rightarrow>
          if en_knowledge_base_id event = None then malformed ''document memory observations require a knowledge base'' w
          else if do_observed_at p \<noteq> en_occurred_at event
          then malformed ''document memory observation time does not match envelope'' w
          else if blocked env event [FenceSource ''document'' (do_document_id p)] w then areturn () w
          else case check_observation env event p (ag_projections w) of
              Inl e \<Rightarrow> araise e w
            | Inr _ \<Rightarrow> extract_and_reconcile env
                \<lparr>xi_source_type = ''document'', xi_source_id = do_chunk_id p, xi_source_version = do_document_version p,
                 xi_excerpt = do_excerpt p, xi_occurred_at = do_observed_at p\<rparr>
                (en_owner_id event) (en_knowledge_base_id event) False (Some (do_document_id p)) w)"

end
