(* ===== verification/Dispatcher.thy ===== *)
theory Dispatcher
  imports MemoryEvents
begin

text \<open>
  The inbox of the agent service: \<open>repositories/inbox.py\<close>, \<open>services/event_dispatcher.py\<close>, the scan for waiting
  events in \<open>tasks/events.py\<close> and the endpoint \<open>api/events.py\<close>. An accepted event is stored once and stays
  pending until a dispatch settles it.
\<close>

subsection \<open>Accepting events\<close>

definition envelope_dump :: "('k, 'v, 'x) event_env_scheme \<Rightarrow> agent_envelope \<Rightarrow> (string \<times> json) list" where
  "envelope_dump env e =
     [(''event_id'', JStr (en_event_id e)), (''event_type'', JStr (en_event_type e)), (''schema_version'', JStr ''1''),
      (''occurred_at'', JStr (ee_isoformat env (en_occurred_at e))), (''owner_id'', JInt (en_owner_id e)),
      (''knowledge_base_id'', jstr_opt (en_knowledge_base_id e)), (''payload'', JObj (en_payload e))]"

definition inbox_row :: "('k, 'v, 'x) event_env_scheme \<Rightarrow> instant \<Rightarrow> agent_envelope \<Rightarrow> inbox_event" where
  "inbox_row env received_at e = \<lparr>ib_event_id = en_event_id e, ib_payload = envelope_dump env e,
     ib_received_at = received_at, ib_status = InPending, ib_attempt_count = 0, ib_processed_at = None,
     ib_last_error = None\<rparr>"

definition accept_event ::
  "('k, 'v, 'x) event_env_scheme \<Rightarrow> instant \<Rightarrow> agent_envelope \<Rightarrow> ('k, 'v) agent_db \<Rightarrow> ('k, 'v) agent_db \<times> inbox_event \<times> bool" where
  "accept_event env received_at e w =
     (case insert_if_absent ib_event_id (inbox_row env received_at e) (ag_inbox w) of
        (rows, row, created) \<Rightarrow> (w\<lparr>ag_inbox := rows\<rparr>, row, created))"

record event_receipt =
  er_event_id :: string
  er_accepted :: bool
  er_duplicate :: bool

text \<open>The receipt, its HTTP status, and whether a task is sent to the broker (whose failure is only logged).\<close>

definition receive_event ::
  "('k, 'v, 'x) event_env_scheme \<Rightarrow> instant \<Rightarrow> agent_envelope \<Rightarrow> ('k, 'v) agent_db
   \<Rightarrow> ('k, 'v) agent_db \<times> event_receipt \<times> int \<times> bool" where
  "receive_event env received_at e w =
     (case accept_event env received_at e w of
        (w', row, created) \<Rightarrow> (w', \<lparr>er_event_id = en_event_id e, er_accepted = True, er_duplicate = \<not> created\<rparr>,
          if created then 202 else 200, created))"

subsection \<open>Routing\<close>

definition discard :: "('s, 'a) action \<Rightarrow> ('s, unit) action" where
  "discard m = abind m (\<lambda>_. areturn ())"

definition handle_event :: "('k, 'v, 'x) event_env_scheme \<Rightarrow> agent_envelope \<Rightarrow> (('k, 'v) agent_db, unit) action" where
  "handle_event env event =
     (let ty = en_event_type event in
      if ty = ''document.projection.upserted'' then handle_document_projection_upserted env event
      else if ty = ''document.memory.observed'' then handle_document_memory_observed env event
      else if ty = ''document.deleted'' then discard (handle_document_deleted env event)
      else if ty = ''knowledge_base.deleted'' then discard (handle_knowledge_base_deleted env event)
      else if ty = ''conversation.completed'' then handle_conversation_completed env event
      else if ty = ''conversation.deleted'' then discard (handle_conversation_deleted env event)
      else if ty = ''user.memory_requested'' then handle_user_memory_requested env event
      else if ty = ''user.memory_settings.changed'' then handle_memory_settings_changed env event
      else araise (KeyError ty))"

subsection \<open>Dispatch\<close>

datatype process_status = EvSucceeded | EvFailed | EvSkipped | EvNotFound

text \<open>The errors that make an event invalid for good, with their message.\<close>

definition terminal_error :: "py_error \<Rightarrow> string option" where
  "terminal_error e = (case e of
       ProjectionIntegrityError m \<Rightarrow> Some m
     | MalformedMemoryEvent m \<Rightarrow> Some m
     | EvidenceProvenanceError m \<Rightarrow> Some m
     | SourceDeletionError m \<Rightarrow> Some m
     | TerminalExtractionError m \<Rightarrow> Some m
     | _ \<Rightarrow> None)"

definition error_class :: "py_error \<Rightarrow> string" where
  "error_class e = (case e of
       BusinessException _ _ _ \<Rightarrow> ''BusinessException''
     | ValueError _ \<Rightarrow> ''ValueError''
     | RuntimeError _ \<Rightarrow> ''RuntimeError''
     | LookupError _ \<Rightarrow> ''LookupError''
     | KeyError _ \<Rightarrow> ''KeyError''
     | DependencyError _ \<Rightarrow> ''DependencyError''
     | MemoryAgentRetryable _ _ \<Rightarrow> ''MemoryAgentRetryable''
     | MemoryAgentPermanentFailure _ _ \<Rightarrow> ''MemoryAgentPermanentFailure''
     | IntegrityError _ \<Rightarrow> ''IntegrityError''
     | PurgeConfirmationReplay _ \<Rightarrow> ''PurgeConfirmationReplay''
     | ProjectionIntegrityError _ \<Rightarrow> ''ProjectionIntegrityError''
     | IncompleteProjectionError _ \<Rightarrow> ''IncompleteProjectionError''
     | ProjectionObservationNotReady _ \<Rightarrow> ''ProjectionObservationNotReady''
     | SourceDeletionError _ \<Rightarrow> ''SourceDeletionError''
     | MalformedMemoryEvent _ \<Rightarrow> ''MalformedMemoryEvent''
     | EvidenceProvenanceError _ \<Rightarrow> ''EvidenceProvenanceError''
     | TerminalExtractionError _ \<Rightarrow> ''TerminalExtractionError''
     | RetryableExtractionError _ \<Rightarrow> ''RetryableExtractionError'')"

definition load_inbox_event :: "string \<Rightarrow> ('k, 'v) agent_db \<Rightarrow> inbox_event option" where
  "load_inbox_event event_id w = find (\<lambda>r. ib_event_id r = event_id) (ag_inbox w)"

text \<open>An update of the row, if it is still pending.\<close>

definition update_pending :: "string \<Rightarrow> (inbox_event \<Rightarrow> inbox_event) \<Rightarrow> ('k, 'v) agent_db \<Rightarrow> ('k, 'v) agent_db" where
  "update_pending event_id f w = w\<lparr>ag_inbox :=
     update_where (\<lambda>r. ib_event_id r = event_id \<and> ib_status r = InPending) f (ag_inbox w)\<rparr>"

definition start_attempt :: "string \<Rightarrow> ('k, 'v) agent_db \<Rightarrow> ('k, 'v) agent_db" where
  "start_attempt event_id = update_pending event_id
     (\<lambda>r. r\<lparr>ib_attempt_count := Suc (ib_attempt_count r), ib_last_error := None\<rparr>)"

definition finish_event ::
  "('k, 'v, 'x) event_env_scheme \<Rightarrow> agent_envelope \<Rightarrow> string \<Rightarrow> ('k, 'v) agent_db \<times> unit result
   \<Rightarrow> ('k, 'v) agent_db \<times> process_status result" where
  "finish_event env event event_id outcome =
     (case outcome of
        (w, Inr _) \<Rightarrow> (update_pending event_id (\<lambda>r. r\<lparr>ib_status := InSucceeded, ib_processed_at := Some (ae_now env)\<rparr>) w, Inr EvSucceeded)
      | (w, Inl e) \<Rightarrow> (case terminal_error e of
            Some m \<Rightarrow> (update_pending event_id (\<lambda>r. r\<lparr>ib_status := InFailed, ib_processed_at := Some (ae_now env),
              ib_last_error := Some (take 2000 (''event rejected: '' @ m))\<rparr>) w, Inr EvFailed)
          | None \<Rightarrow> (update_pending event_id (\<lambda>r. r\<lparr>ib_last_error := Some (error_class e @ '': event processing failed'')\<rparr>) w,
              Inl (RuntimeError (en_event_type event @ '' processing failed'')))))"

text \<open>\<open>acquired\<close> tells whether the advisory lock of the event was free.\<close>

definition dispatch_inbox_event ::
  "('k, 'v, 'x) event_env_scheme \<Rightarrow> bool \<Rightarrow> string \<Rightarrow> (('k, 'v) agent_db, process_status) action" where
  "dispatch_inbox_event env acquired event_id w =
     (if \<not> acquired then (w, Inr EvSkipped)
      else case load_inbox_event event_id w of
          None \<Rightarrow> (w, Inr EvNotFound)
        | Some row \<Rightarrow>
            if ib_status row \<noteq> InPending then (w, Inr EvSkipped)
            else case ee_envelope env (ib_payload row) of
                None \<Rightarrow> (w, Inl (ValueError ''invalid event envelope''))
              | Some event \<Rightarrow> finish_event env event event_id (handle_event env event (start_attempt event_id w)))"

subsection \<open>The scan for waiting events\<close>

definition PENDING_EVENT_AGE :: int where
  "PENDING_EVENT_AGE = seconds 30"

definition DEFAULT_PENDING_EVENT_BATCH_LIMIT :: int where
  "DEFAULT_PENDING_EVENT_BATCH_LIMIT = 100"

definition waiting_events :: "instant \<Rightarrow> int \<Rightarrow> ('k, 'v) agent_db \<Rightarrow> string list" where
  "waiting_events now batch_limit w =
     map ib_event_id (order_limit ib_received_at (nat (min (max batch_limit 1) DEFAULT_PENDING_EVENT_BATCH_LIMIT))
       (filter (\<lambda>r. ib_status r = InPending \<and> ib_received_at r \<le> now - PENDING_EVENT_AGE) (ag_inbox w)))"

text \<open>How many of them the broker took.\<close>

definition dispatch_pending_events :: "(string \<Rightarrow> bool) \<Rightarrow> instant \<Rightarrow> int \<Rightarrow> ('k, 'v) agent_db \<Rightarrow> nat" where
  "dispatch_pending_events broker now batch_limit w = length (filter broker (waiting_events now batch_limit w))"

end
