(* ===== verification/AgentHistory.thy ===== *)
theory AgentHistory
  imports Dispatcher DeletionHistory ProjectionTables
begin

text \<open>
  The agent service over time: events are received and dispatched in any order and any number of times, users send
  commands, and each component stays in a state of its own history.
\<close>

subsection \<open>Steps of the service\<close>

text \<open>The service at a moment: its clocks and what the embedding and model services answer then.\<close>

definition at_moment ::
  "instant \<Rightarrow> instant \<Rightarrow> (string list \<Rightarrow> ('v list \<times> nat) result) \<Rightarrow> (string \<Rightarrow> provider_answer)
   \<Rightarrow> ('k, 'v) event_env \<Rightarrow> ('k, 'v) event_env" where
  "at_moment t u embedder provider env =
     env\<lparr>ae_memory := at_time (ae_memory env) t u, ae_embedder := embedder, ee_provider := provider\<rparr>"

inductive agent_step :: "('k, 'v) event_env \<Rightarrow> ('k, 'v) agent_db \<Rightarrow> ('k, 'v) agent_db \<Rightarrow> bool" for env where
  Event_received: "receive_event env received_at e w = (w', receipt) \<Longrightarrow> agent_step env w w'"
| Event_dispatched: "dispatch_inbox_event (at_moment t u embedder provider env) acquired event_id w = (w', r') \<Longrightarrow> agent_step env w w'"
| User_commanded: "memory_step (ae_memory env) sc (ag_memory w) db' \<Longrightarrow> agent_step env w (w\<lparr>ag_memory := db'\<rparr>)"
| User_deleted: "deletion_step (ae_memory env) sc (ag_memory w) db' \<Longrightarrow> agent_step env w (w\<lparr>ag_memory := db'\<rparr>)"

definition no_agent_rows :: "('k, 'v) agent_db" where
  "no_agent_rows = \<lparr>ag_fences = [], ag_projections = no_projections, ag_memory = empty_db, ag_settings = [], ag_inbox = []\<rparr>"

inductive agent_reachable :: "('k, 'v) event_env \<Rightarrow> ('k, 'v) agent_db \<Rightarrow> bool" for env where
  No_agent_rows: "agent_reachable env no_agent_rows"
| Agent_step: "agent_reachable env w \<Longrightarrow> agent_step env w w' \<Longrightarrow> agent_reachable env w'"

subsection \<open>The components of the state\<close>

definition components_ok :: "memory_env \<Rightarrow> projection_env \<Rightarrow> ('k, 'v) agent_db \<Rightarrow> bool" where
  "components_ok menv penv w \<longleftrightarrow> memory_history menv (ag_memory w) \<and> projection_reachable penv (ag_projections w) \<and>
     distinct (map df_fence_key (ag_fences w)) \<and> distinct (map ib_event_id (ag_inbox w)) \<and>
     distinct (map ms_owner_id (ag_settings w))"

definition keeps :: "('s \<Rightarrow> bool) \<Rightarrow> ('s, 'a) action \<Rightarrow> bool" where
  "keeps I m \<longleftrightarrow> (\<forall>s. I s \<longrightarrow> I (fst (m s)))"

definition keeps_tx :: "('s \<Rightarrow> bool) \<Rightarrow> ('s, 'a) tx \<Rightarrow> bool" where
  "keeps_tx I m \<longleftrightarrow> (\<forall>s x s'. I s \<longrightarrow> m s = Inr (x, s') \<longrightarrow> I s')"

named_theorems keeping

lemma keepsI: "(\<And>s. I s \<Longrightarrow> I (fst (m s))) \<Longrightarrow> keeps I m"
  by (simp add: keeps_def)

lemma keepsD: "keeps I m \<Longrightarrow> I s \<Longrightarrow> m s = (s', r) \<Longrightarrow> I s'"
  by (metis keeps_def fst_conv)

lemma keeps_simple [keeping]: "keeps I (areturn x)" "keeps I (araise e)"
  by (simp_all add: keeps_def areturn_def araise_def)

lemma keeps_abind [keeping]: "keeps I m \<Longrightarrow> (\<And>x. keeps I (f x)) \<Longrightarrow> keeps I (abind m f)"
  by (auto simp: keeps_def abind_def split: prod.split sum.split)

lemma keeps_transaction [keeping]: "keeps_tx I m \<Longrightarrow> keeps I (in_transaction m)"
  by (auto simp: keeps_def keeps_tx_def in_transaction_def split: sum.split)

lemma keeps_tx_bind [keeping]: "keeps_tx I m \<Longrightarrow> (\<And>x. keeps_tx I (f x)) \<Longrightarrow> keeps_tx I (tbind m f)"
  unfolding keeps_tx_def tbind_Inr by blast

lemma keeps_tx_simple [keeping]:
  "keeps_tx I (treturn x)" "keeps_tx I (tfail e)" "keeps_tx I (tget g)" "keeps_tx I (tguard c e)"
  by (auto simp: keeps_tx_def tx_simps)

lemma keeps_tx_modify: "(\<And>s. I s \<Longrightarrow> I (g s)) \<Longrightarrow> keeps_tx I (tmodify g)"
  by (auto simp: keeps_tx_def tx_simps)

lemma keeps_tx_if [keeping]: "keeps_tx I m \<Longrightarrow> keeps_tx I n \<Longrightarrow> keeps_tx I (if c then m else n)"
  by simp

lemma keeps_option [keeping]:
  "keeps I m \<Longrightarrow> (\<And>x. keeps I (f x)) \<Longrightarrow> keeps I (case c of None \<Rightarrow> m | Some x \<Rightarrow> f x)"
  by (simp split: option.split)

lemma keeps_if [keeping]: "keeps I m \<Longrightarrow> keeps I n \<Longrightarrow> keeps I (if c then m else n)"
  by simp

text \<open>A handler that looks at the state first.\<close>

lemma keeps_at: "(\<And>w. I w \<Longrightarrow> keeps I (m w)) \<Longrightarrow> keeps I (\<lambda>w. m w w)"
  by (simp add: keeps_def)

subsection \<open>Invariants of the service\<close>

text \<open>
  What a property of the whole state has to satisfy to hold after every step: each elementary write of a component
  keeps it. The handlers are composed of these writes only.
\<close>

locale agent_invariant =
  fixes env :: "('k, 'v) event_env" and I :: "('k, 'v) agent_db \<Rightarrow> bool"
  assumes memory_kept: "I w \<Longrightarrow> memory_step (ae_memory env) sc (ag_memory w) db \<Longrightarrow> I (w\<lparr>ag_memory := db\<rparr>)"
    and deletion_kept: "I w \<Longrightarrow> deletion_step (ae_memory env) sc (ag_memory w) db \<Longrightarrow> I (w\<lparr>ag_memory := db\<rparr>)"
    and projection_kept: "I w \<Longrightarrow> projection_step (ae_projection env) (ag_projections w) pdb \<Longrightarrow> I (w\<lparr>ag_projections := pdb\<rparr>)"
    and fences_kept: "I w \<Longrightarrow> advance_deletion_fences (ae_digest env) event p add (ag_fences w) = (rows, b) \<Longrightarrow>
      I (w\<lparr>ag_fences := rows\<rparr>)"
    and settings_kept: "I w \<Longrightarrow> I (w\<lparr>ag_settings := update_where (\<lambda>r. ms_owner_id r = owner) (updated_settings event sp)
      (fst (insert_if_absent ms_owner_id (new_settings owner) (ag_settings w)))\<rparr>)"
    and accepted_kept: "I w \<Longrightarrow> accept_event env received_at event w = (w', row, created) \<Longrightarrow> I w'"
    and pending_kept: "I w \<Longrightarrow> (\<And>r. ib_event_id (f r) = ib_event_id r \<and> ib_payload (f r) = ib_payload r \<and>
      ib_received_at (f r) = ib_received_at r \<and> ib_attempt_count r \<le> ib_attempt_count (f r)) \<Longrightarrow> I (update_pending event_id f w)"
    and inbox_distinct: "I w \<Longrightarrow> distinct (map ib_event_id (ag_inbox w))"
begin

subsubsection \<open>Memory\<close>

lemma on_memory_deletion:
  "keeps_tx I (on_memory (delete_source_evidence (at_time (ae_memory env) t u) owner kb f ids))"
  by (auto simp: keeps_tx_def on_memory_def split: sum.splits intro: deletion_kept Source_deleted)

lemma keeps_reconciling: "keeps_tx (\<lambda>db. I (w\<lparr>ag_memory := db\<rparr>))
   (reconcile_candidate (at_time (ae_memory env) t u) owner kb ty s p v c sens ev prov ex actor)"
  unfolding keeps_tx_def
proof (intro allI impI)
  fix db x db'
  assume "I (w\<lparr>ag_memory := db\<rparr>)"
    and "reconcile_candidate (at_time (ae_memory env) t u) owner kb ty s p v c sens ev prov ex actor db = Inr (x, db')"
  then show "I (w\<lparr>ag_memory := db'\<rparr>)" using memory_kept [of "w\<lparr>ag_memory := db\<rparr>" "(owner, kb)" db'] by (auto intro: Reconciled)
qed

lemma keeps_known: "keeps_tx (\<lambda>db. I (w\<lparr>ag_memory := db\<rparr>)) (already_reconciled menv owner kb c item)"
  unfolding keeps_tx_def
proof (intro allI impI)
  fix db x db'
  assume inv: "I (w\<lparr>ag_memory := db\<rparr>)" and run: "already_reconciled menv owner kb c item db = Inr (x, db')"
  let ?P = "\<lambda>e. ev_identity_hash e = evidence_identity menv owner kb (ei_source_type item) (ei_source_id item)
         (ei_source_version item) (ei_content_hash item) \<and> ev_owner_id e = owner \<and> ev_knowledge_base_id e = kb"
  show "I (w\<lparr>ag_memory := db'\<rparr>)"
  proof (cases "find ?P (md_evidence db)")
    case None
    then show ?thesis using run inv by (simp add: already_reconciled_def tx_run)
  next
    case (Some e)
    then obtain e' where "accept_evidence kb item e db = Inr (e', db')"
      using run by (auto simp: already_reconciled_def tx_simps Let_def)
    moreover have "e \<in> set (md_evidence db)" "ev_owner_id e = owner" using find_SomeD [OF Some] by auto
    ultimately have "memory_step (ae_memory env) (owner, kb) db db'" by (rule Evidence_accepted)
    then show ?thesis using memory_kept [OF inv, of "(owner, kb)" db'] by simp
  qed
qed

lemma keeps_reconcile_all:
  "keeps (\<lambda>db. I (w\<lparr>ag_memory := db\<rparr>)) (reconcile_all (at_time (ae_memory env) t u) ev owner kb ex doc cs)"
  by (induction cs)
    (auto simp: reconcile_extracted_def intro!: keeping keeps_reconciling keeps_known)

lemma keeps_with_memory:
  assumes "\<And>w. keeps (\<lambda>db. I (w\<lparr>ag_memory := db\<rparr>)) m"
  shows "keeps I (with_memory m)"
proof (rule keepsI)
  fix w
  assume "I w"
  then have "I (w\<lparr>ag_memory := ag_memory w\<rparr>)" by simp
  then have "I (w\<lparr>ag_memory := fst (m (ag_memory w))\<rparr>)" using assms [of w] by (simp add: keeps_def)
  then show "I (fst (with_memory m w))" by (cases "m (ag_memory w)") (simp add: with_memory_def)
qed

lemma keeps_extraction:
  "keeps I (extract_and_reconcile (at_moment t u embedder provider env) ev owner kb ex doc)"
  unfolding extract_and_reconcile_def
  by (auto simp: at_moment_def intro!: keeping keeps_with_memory keeps_reconcile_all split: sum.split)

subsubsection \<open>Projections, fences, settings\<close>

lemma keeps_remove_projections: "keeps_tx I (remove_projections ids)"
  unfolding remove_projections_def by (rule keeps_tx_modify) (rule projection_kept [OF _ Versions_deleted])

lemma keeps_on_projections:
  assumes "\<And>w. keeps (\<lambda>db. I (w\<lparr>ag_projections := db\<rparr>)) m"
  shows "keeps I (on_projections m)"
proof (rule keepsI)
  fix w
  assume "I w"
  then have "I (w\<lparr>ag_projections := ag_projections w\<rparr>)" by simp
  then have "I (w\<lparr>ag_projections := fst (m (ag_projections w))\<rparr>)" using assms [of w] by (simp add: keeps_def)
  then show "I (fst (on_projections m w))" by (cases "m (ag_projections w)") (simp add: on_projections_def)
qed

lemma projection_step_kept:
  assumes "I (w\<lparr>ag_projections := db\<rparr>)" and "projection_step (ae_projection env) db db'"
  shows "I (w\<lparr>ag_projections := db'\<rparr>)"
  using projection_kept [OF assms(1), of db'] assms(2) by simp

lemma keeps_stage: "keeps (\<lambda>db. I (w\<lparr>ag_projections := db\<rparr>)) (in_transaction (stage_projection_batch (ae_projection env) p owner kb))"
  by (rule keeps_transaction) (auto simp: keeps_tx_def intro: projection_step_kept Batch_staged)

lemma keeps_finalize: "keeps (\<lambda>db. I (w\<lparr>ag_projections := db\<rparr>)) (finalize_projection (ae_projection env) embedder now pid)"
proof -
  have check: "keeps (\<lambda>db. I (w\<lparr>ag_projections := db\<rparr>)) (finalize_check (ae_projection env) pid)"
    by (rule keepsI, erule projection_step_kept) (rule Version_checked [OF prod.collapse [symmetric]])
  have "keeps (\<lambda>db. I (w\<lparr>ag_projections := db\<rparr>)) (finalize_activate (ae_projection env) now prep embs n)" for prep embs n
    by (rule keepsI, erule projection_step_kept) (rule Version_activated [OF prod.collapse [symmetric]])
  then have act: "keeps (\<lambda>db. I (w\<lparr>ag_projections := db\<rparr>)) (case embedder ts of Inl e \<Rightarrow> araise e
      | Inr (embs, n) \<Rightarrow> finalize_activate (ae_projection env) now prep embs n)" for ts prep
    by (simp add: keeps_simple split: sum.split prod.split)
  show ?thesis
  proof (rule keepsI)
    fix db
    assume inv: "I (w\<lparr>ag_projections := db\<rparr>)"
    have "keeps (\<lambda>db. I (w\<lparr>ag_projections := db\<rparr>)) (abind (finalize_check (ae_projection env) pid) (\<lambda>start.
       case start of
         AlreadyFinal \<Rightarrow> areturn False
       | Prepared prepared \<Rightarrow>
           (case embedder (map (\<lambda>c. document_embedding_text (case load_projection_for_update pid db of None \<Rightarrow> [] | Some p \<Rightarrow> dp_file_name p)
               (cp_section_path c) (cp_content c)) (pp_chunks prepared)) of
               Inl e \<Rightarrow> araise e
             | Inr (embs, n) \<Rightarrow> finalize_activate (ae_projection env) now prepared embs n)))"
      by (rule keeps_abind [OF check]) (simp add: keeps_simple act split: finalize_start.split)
    then show "I (w\<lparr>ag_projections := fst (finalize_projection (ae_projection env) embedder now pid db)\<rparr>)"
      using inv unfolding finalize_projection_def Let_def keeps_def by blast
  qed
qed

lemma keeps_advance: "keeps_tx I (advance_fences (at_moment t u embedder provider env) event p add)"
  by (auto simp: keeps_tx_def advance_fences_def at_moment_def intro: fences_kept split: prod.splits)

lemma keeps_apply_settings: "keeps_tx I (apply_settings env' event)"
  unfolding apply_settings_def Let_def
  by (auto intro!: keeping keeps_tx_modify settings_kept split: option.split)

end

end
