(* ===== verification/AgentRuns.thy ===== *)
theory AgentRuns
  imports AgentHistory "HOL-Library.Multiset"
begin

text \<open>Settings events settle other rows of the inbox, only pending ones.\<close>

definition all_pending :: "string set \<Rightarrow> inbox_event list \<Rightarrow> bool" where
  "all_pending ids rows \<longleftrightarrow> (\<forall>r\<in>set rows. ib_event_id r \<in> ids \<longrightarrow> ib_status r = InPending)"

lemma settle_pending:
  assumes "all_pending {i} (ag_inbox w)"
  shows "settle_inbox i st m now w = update_pending i (\<lambda>r. r\<lparr>ib_status := st, ib_processed_at := Some now, ib_last_error := m\<rparr>) w"
proof -
  have "update_where (\<lambda>r. ib_event_id r = i) f (ag_inbox w) = update_where (\<lambda>r. ib_event_id r = i \<and> ib_status r = InPending) f (ag_inbox w)" for f
    using assms by (auto simp: update_where_def all_pending_def)
  then show ?thesis by (simp add: settle_inbox_def update_pending_def)
qed

lemma settle_other: "all_pending ids (ag_inbox w) \<Longrightarrow> i \<notin> ids \<Longrightarrow> all_pending ids (ag_inbox (settle_inbox i st m now w))"
  by (auto simp: all_pending_def settle_inbox_def set_update_where)

lemma apply_settings_inbox: "apply_settings env e w = Inr (x, w1) \<Longrightarrow> ag_inbox w1 = ag_inbox w"
  by (auto simp: apply_settings_def Let_def tx_simps split: option.splits)

lemma distinct_map_filter:
  assumes "distinct (map k rows)" and "\<And>r y. f r = Some y \<Longrightarrow> g y = k r"
  shows "distinct (map g (List.map_filter f rows))"
proof -
  have sub: "g ` set (List.map_filter f rows) \<subseteq> k ` set rows" for rows
    using assms(2) by (force simp: List.map_filter_def)
  show ?thesis using assms(1)
  proof (induction rows)
    case (Cons r rows)
    have "g y \<notin> g ` set (List.map_filter f rows)" if "f r = Some y" for y
      using sub [of rows] assms(2) [OF that] Cons.prems by auto
    then show ?case using Cons by (cases "f r") (simp_all add: map_filter_simps)
  qed (simp add: map_filter_simps)
qed

lemma earlier_ids:
  assumes "distinct (map ib_event_id rows)"
  shows "distinct (map snd (earlier_settings env event rows))"
    and "i \<in> snd ` set (earlier_settings env event rows) \<Longrightarrow> \<exists>r\<in>set rows. ib_event_id r = i \<and> ee_envelope env (ib_payload r) \<noteq> None"
proof -
  let ?f = "\<lambda>r. case ee_envelope env (ib_payload r) of None \<Rightarrow> None
        | Some e \<Rightarrow> if event_stamp e < event_stamp event then Some (e, ib_event_id r) else None"
  have "mset (map snd (sort_key k xs)) = mset (map snd xs)" for k :: "agent_envelope \<times> string \<Rightarrow> instant \<times> string" and xs by simp
  then have "distinct (map snd (sort_key k xs)) \<longleftrightarrow> distinct (map snd xs)" for k :: "agent_envelope \<times> string \<Rightarrow> instant \<times> string" and xs
    by (rule mset_eq_imp_distinct_iff)
  moreover have "distinct (map snd (List.map_filter ?f rows))"
    by (rule distinct_map_filter [OF assms]) (auto split: option.splits if_splits)
  ultimately show "distinct (map snd (earlier_settings env event rows))" by (simp add: earlier_settings_def)
  show "i \<in> snd ` set (earlier_settings env event rows) \<Longrightarrow> \<exists>r\<in>set rows. ib_event_id r = i \<and> ee_envelope env (ib_payload r) \<noteq> None"
    by (force simp: earlier_settings_def List.map_filter_def split: option.splits if_splits)
qed

lemma ae_memory_moment [simp]: "ae_memory (at_moment t u embedder provider env) = at_time (ae_memory env) t u"
  and ae_projection_moment [simp]: "ae_projection (at_moment t u embedder provider env) = ae_projection env"
  and ae_digest_moment [simp]: "ae_digest (at_moment t u embedder provider env) = ae_digest env"
  and ae_embedder_moment [simp]: "ae_embedder (at_moment t u embedder provider env) = embedder"
  by (simp_all add: at_moment_def)

context agent_invariant
begin

lemma keeps_update_pending:
  "I w \<Longrightarrow> I (update_pending i (\<lambda>r. r\<lparr>ib_status := st, ib_processed_at := t, ib_last_error := m\<rparr>) w)"
  "I w \<Longrightarrow> I (update_pending i (\<lambda>r. r\<lparr>ib_status := st, ib_processed_at := t\<rparr>) w)"
  "I w \<Longrightarrow> I (update_pending i (\<lambda>r. r\<lparr>ib_last_error := m\<rparr>) w)"
  "I w \<Longrightarrow> I (start_attempt i w)"
  unfolding start_attempt_def by (rule pending_kept; simp)+

lemma keeps_settle: "I w \<Longrightarrow> all_pending {i} (ag_inbox w) \<Longrightarrow> I (settle_inbox i st m now w)"
  by (simp add: settle_pending keeps_update_pending)

lemma keeps_apply_in_order:
  "I w \<Longrightarrow> apply_in_order env' l w = Inr (x, w') \<Longrightarrow> distinct (map snd l) \<Longrightarrow> all_pending (snd ` set l) (ag_inbox w) \<Longrightarrow> I w'"
proof (induction env' l w rule: apply_in_order.induct)
  case (1 env w)
  then show ?case by (simp add: treturn_def)
next
  case (2 env e i rest w)
  have one: "all_pending {i} (ag_inbox w)" and others: "all_pending (snd ` set rest) (ag_inbox w)" "i \<notin> snd ` set rest"
    using 2(5,6) by (auto simp: all_pending_def)
  show ?case
  proof (cases "apply_settings env e w")
    case (Inr y)
    obtain u w1 where y: "y = (u, w1)" by (cases y)
    have s: "apply_settings env e w = Inr (u, w1)" using Inr y by simp
    have "I w1" using keeps_apply_settings 2(3) s unfolding keeps_tx_def by blast
    then have i: "I (settle_inbox i InSucceeded None (ae_now env) w1)"
      by (rule keeps_settle) (simp add: apply_settings_inbox [OF s] one)
    show ?thesis
    proof (rule 2(2) [OF Inr y [symmetric] i])
      show "apply_in_order env rest (settle_inbox i InSucceeded None (ae_now env) w1) = Inr (x, w')" using 2(4) s by simp
      show "distinct (map snd rest)" using 2(5) by simp
      show "all_pending (snd ` set rest) (ag_inbox (settle_inbox i InSucceeded None (ae_now env) w1))"
        by (rule settle_other) (simp_all add: apply_settings_inbox [OF s] others)
    qed
  next
    case (Inl err)
    then obtain m where m: "err = MalformedMemoryEvent m" using 2(4) by (auto split: py_error.splits)
    show ?thesis
    proof (rule 2(1) [OF Inl m keeps_settle [OF 2(3) one]])
      show "apply_in_order env rest (settle_inbox i InFailed (Some m) (ae_now env) w) = Inr (x, w')" using 2(4) Inl m by simp
      show "distinct (map snd rest)" using 2(5) by simp
      show "all_pending (snd ` set rest) (ag_inbox (settle_inbox i InFailed (Some m) (ae_now env) w))"
        by (rule settle_other) (simp_all add: others)
    qed
  qed
qed

lemma keeps_reject:
  "I w \<Longrightarrow> distinct ids \<Longrightarrow> all_pending (set ids) (ag_inbox w) \<Longrightarrow> all_pending other (ag_inbox w) \<Longrightarrow> other \<inter> set ids = {} \<Longrightarrow>
   I (foldl (\<lambda>w i. settle_inbox i st m now w) w ids) \<and>
   all_pending other (ag_inbox (foldl (\<lambda>w i. settle_inbox i st m now w) w ids))"
proof (induction ids arbitrary: w)
  case (Cons i ids)
  have "I (settle_inbox i st m now w)" by (rule keeps_settle) (use Cons.prems in \<open>auto simp: all_pending_def\<close>)
  moreover have "all_pending (set ids) (ag_inbox (settle_inbox i st m now w))" "all_pending other (ag_inbox (settle_inbox i st m now w))"
    by (rule settle_other; use Cons.prems in \<open>auto simp: all_pending_def\<close>)+
  ultimately show ?case using Cons.IH [of "settle_inbox i st m now w"] Cons.prems by auto
qed simp

lemma keeps_earlier_settings: "keeps_tx I (apply_earlier_pending_settings env' event)"
  unfolding keeps_tx_def
proof (intro allI impI)
  fix w x w'
  assume inv: "I w" and run: "apply_earlier_pending_settings env' event w = Inr (x, w')"
  let ?rows = "filter (pending_settings event) (ag_inbox w)"
  let ?bad = "filter (\<lambda>r. ee_envelope env' (ib_payload r) = None) ?rows"
  note d = inbox_distinct [OF inv]
  have dr: "distinct (map ib_event_id ?rows)" "distinct (map ib_event_id ?bad)" using d by (auto simp: distinct_map inj_on_def)
  have pend: "all_pending (ib_event_id ` set ?rows) (ag_inbox w)"
    unfolding all_pending_def
  proof (intro ballI impI)
    fix r
    assume r: "r \<in> set (ag_inbox w)" "ib_event_id r \<in> ib_event_id ` set ?rows"
    then obtain q where q: "q \<in> set ?rows" "ib_event_id r = ib_event_id q" by blast
    have "r = q" using distinct_key_unique [OF d r(1), of q] q by simp
    then show "ib_status r = InPending" using q(1) by (simp add: pending_settings_def)
  qed
  have sub: "snd ` set (earlier_settings env' event ?rows) \<subseteq> ib_event_id ` set ?rows"
  proof (rule subsetI)
    fix i
    assume "i \<in> snd ` set (earlier_settings env' event ?rows)"
    from earlier_ids(2) [OF dr(1) this] obtain r where r: "r \<in> set ?rows" "ib_event_id r = i" by blast
    show "i \<in> ib_event_id ` set ?rows" unfolding r(2) [symmetric] using r(1) by (rule imageI)
  qed
  have disj: "snd ` set (earlier_settings env' event ?rows) \<inter> set (map ib_event_id ?bad) = {}"
  proof (rule equals0I)
    fix i
    assume i: "i \<in> snd ` set (earlier_settings env' event ?rows) \<inter> set (map ib_event_id ?bad)"
    from earlier_ids(2) [OF dr(1) IntD1 [OF i]]
    obtain r where r: "r \<in> set ?rows" "ib_event_id r = i" "ee_envelope env' (ib_payload r) \<noteq> None" by blast
    from IntD2 [OF i] obtain q where q: "q \<in> set ?bad" "ib_event_id q = i" unfolding set_map by blast
    have "ib_event_id r = ib_event_id q" using r q by simp
    then have "r = q" using distinct_key_unique [OF dr(1), of r q] r(1) q(1) by simp
    then show False using r(3) q(1) by simp
  qed
  let ?w1 = "reject_envelopes env' ?rows w"
  have r: "?w1 = foldl (\<lambda>w i. settle_inbox i InFailed (Some ''invalid settings event envelope'') (ae_now env') w) w (map ib_event_id ?bad)"
    by (simp add: reject_envelopes_def foldl_map)
  have "I ?w1 \<and> all_pending (snd ` set (earlier_settings env' event ?rows)) (ag_inbox ?w1)"
    unfolding r by (rule keeps_reject [OF inv dr(2) _ _ disj]) (use pend sub in \<open>auto simp: all_pending_def\<close>)
  moreover have "apply_in_order env' (earlier_settings env' event ?rows) ?w1 = Inr (x, w')"
    using run by (simp add: apply_earlier_pending_settings_def tx_run)
  ultimately show "I w'" using keeps_apply_in_order earlier_ids(1) [OF dr(1)] by blast
qed

subsubsection \<open>Handlers\<close>

lemma keeps_delete_nothing: "keeps_tx I (delete_nothing (at_moment t u embedder provider env) owner kb ty)"
  unfolding delete_nothing_def by (simp add: at_moment_def on_memory_deletion)

lemma keeps_delete_document: "keeps_tx I (delete_document_projection (at_moment t u embedder provider env) owner kb d)"
  unfolding delete_document_projection_def by (auto simp: at_moment_def intro!: keeping keeps_remove_projections on_memory_deletion)

lemmas keeps_deletions = keeps_delete_nothing keeps_delete_document keeps_advance keeps_remove_projections

lemma keeps_fst: "keeps I m \<Longrightarrow> I w \<Longrightarrow> I (fst (m w))"
  by (simp add: keeps_def)

lemma keeps_document_deleted: "keeps I (handle_document_deleted (at_moment t u embedder provider env) event)"
  by (rule keepsI) (auto simp: handle_document_deleted_def intro!: keeps_fst keeping keeps_deletions split: option.split)

lemma keeps_knowledge_base_deleted: "keeps I (handle_knowledge_base_deleted (at_moment t u embedder provider env) event)"
  by (rule keepsI) (auto simp: handle_knowledge_base_deleted_def ae_memory_moment
      intro!: keeps_fst keeping keeps_deletions on_memory_deletion split: option.split)

lemma keeps_conversation_deleted: "keeps I (handle_conversation_deleted (at_moment t u embedder provider env) event)"
  by (rule keepsI) (auto simp: handle_conversation_deleted_def Let_def ae_memory_moment
      intro!: keeps_fst keeping keeps_deletions on_memory_deletion split: option.split)

lemma keeps_upserted: "keeps I (handle_document_projection_upserted (at_moment t u embedder provider env) event)"
proof (rule keepsI)
  fix w
  assume inv: "I w"
  let ?env = "at_moment t u embedder provider env"
  have fin: "keeps I (\<lambda>w. case on_projections (finalize_projection (ae_projection env) e now pid) w of
              (w2, Inr _) \<Rightarrow> (w2, Inr ())
            | (w2, Inl (IncompleteProjectionError m)) \<Rightarrow> (w2, Inr ())
            | (w2, Inl e) \<Rightarrow> (w2, Inl e))" for e now pid
    using keeps_on_projections [OF keeps_finalize, of e now pid]
    by (auto simp: keeps_def split: prod.split sum.split py_error.split)
  show "I (fst (handle_document_projection_upserted ?env event w))"
    unfolding handle_document_projection_upserted_def ae_projection_moment
    by (auto intro!: keeps_fst [OF _ inv] keeping fin keeps_on_projections keeps_stage inv simp: areturn_def araise_def split: option.split)
qed

lemma keeps_conversation_completed: "keeps I (handle_conversation_completed (at_moment t u embedder provider env) event)"
proof (rule keepsI)
  fix w
  assume inv: "I w"
  have "keeps I (automatic_conversation_enabled env' event)" for env' :: "('k, 'v) event_env"
    unfolding automatic_conversation_enabled_def by (intro keeping keeps_earlier_settings)
  then show "I (fst (handle_conversation_completed (at_moment t u embedder provider env) event w))"
    unfolding handle_conversation_completed_def
    by (auto intro!: keeps_fst [OF _ inv] keeping keeps_extraction simp: malformed_def split: option.split)
qed

lemma keeps_memory_requested: "keeps I (handle_user_memory_requested (at_moment t u embedder provider env) event)"
  by (rule keepsI) (auto simp: handle_user_memory_requested_def malformed_def intro!: keeps_fst keeping keeps_extraction split: option.split)

lemma keeps_memory_observed: "keeps I (handle_document_memory_observed (at_moment t u embedder provider env) event)"
  by (rule keepsI) (auto simp: handle_document_memory_observed_def malformed_def
      intro!: keeps_fst keeping keeps_extraction split: option.split sum.split)

lemma keeps_settings_changed: "keeps I (handle_memory_settings_changed env' event)"
  unfolding handle_memory_settings_changed_def by (intro keeping keeps_apply_settings)

lemma keeps_handle_event: "keeps I (handle_event (at_moment t u embedder provider env) event)"
  unfolding handle_event_def discard_def Let_def
  by (intro keeping keeps_upserted keeps_memory_observed keeps_document_deleted keeps_knowledge_base_deleted
      keeps_conversation_completed keeps_conversation_deleted keeps_memory_requested keeps_settings_changed)

lemma keeps_finish: "I (fst outcome) \<Longrightarrow> I (fst (finish_event env' event event_id outcome))"
  by (cases outcome) (auto simp: finish_event_def keeps_update_pending split: sum.split option.split intro!: pending_kept)

lemma keeps_dispatch: "keeps I (dispatch_inbox_event (at_moment t u embedder provider env) acquired event_id)"
proof (rule keepsI)
  fix w
  assume inv: "I w"
  have "I (fst (finish_event env' event event_id (handle_event (at_moment t u embedder provider env) event (start_attempt event_id w))))"
    for env' :: "('k, 'v) event_env" and event
    by (rule keeps_finish) (rule keeps_fst [OF keeps_handle_event keeps_update_pending(4) [OF inv]])
  then show "I (fst (dispatch_inbox_event (at_moment t u embedder provider env) acquired event_id w))"
    using inv by (simp add: dispatch_inbox_event_def split: option.split)
qed

theorem step_kept: "agent_step env w w' \<Longrightarrow> I w \<Longrightarrow> I w'"
proof (induction rule: agent_step.cases)
  case (Event_received received_at e w w' receipt)
  then show ?case using accepted_kept by (auto simp: receive_event_def split: prod.splits)
next
  case (Event_dispatched t u embedder provider acquired event_id w w' r')
  then show ?case using keepsD [OF keeps_dispatch] by blast
next
  case (User_commanded sc w db')
  then show ?case using memory_kept by blast
next
  case (User_deleted sc w db')
  then show ?case using deletion_kept by blast
qed

theorem steps_kept: "(agent_step env)\<^sup>*\<^sup>* w w' \<Longrightarrow> I w \<Longrightarrow> I w'"
  by (induction rule: rtranclp_induct) (simp_all add: step_kept)

end

subsection \<open>Each component stays in its own history\<close>

lemma distinct_update_pending:
  "(\<And>r. ib_event_id (f r) = ib_event_id r) \<Longrightarrow> map ib_event_id (ag_inbox (update_pending i f w)) = map ib_event_id (ag_inbox w)"
  by (simp add: update_pending_def map_update_where)

lemma update_pending_other [simp]:
  "ag_memory (update_pending i f w) = ag_memory w" "ag_projections (update_pending i f w) = ag_projections w"
  "ag_fences (update_pending i f w) = ag_fences w" "ag_settings (update_pending i f w) = ag_settings w"
  by (simp_all add: update_pending_def)

lemma accept_other:
  assumes "accept_event env received_at event w = (w', row, created)"
  shows "w' = w\<lparr>ag_inbox := fst (insert_if_absent ib_event_id (inbox_row env received_at event) (ag_inbox w))\<rparr>"
  using assms by (auto simp: accept_event_def split: prod.splits)

lemma updated_settings_owner [simp]: "ms_owner_id (updated_settings event p r) = ms_owner_id r"
  by (auto simp: updated_settings_def Let_def split: option.split)

lemma distinct_insert_if_absent: "distinct (map key rows) \<Longrightarrow> distinct (map key (fst (insert_if_absent key x rows)))"
  using plain_table.put_distinct [of key x rows] by (cases "insert_if_absent key x rows") auto

lemma advance_rows_distinct:
  "advance_deletion_fences digest e p add rows = (rows', b) \<Longrightarrow> distinct (map df_fence_key rows) \<Longrightarrow> distinct (map df_fence_key rows')"
  using advance_distinct [of rows digest e p add] by simp

interpretation components: agent_invariant env "components_ok (ae_memory env) (ae_projection env)"
  for env :: "('k, 'v) event_env"
proof
  fix w :: "('k, 'v) agent_db" and f :: "inbox_event \<Rightarrow> inbox_event" and event_id
  assume "components_ok (ae_memory env) (ae_projection env) w"
    and "\<And>r. ib_event_id (f r) = ib_event_id r \<and> ib_payload (f r) = ib_payload r \<and>
      ib_received_at (f r) = ib_received_at r \<and> ib_attempt_count r \<le> ib_attempt_count (f r)"
  then show "components_ok (ae_memory env) (ae_projection env) (update_pending event_id f w)"
    using distinct_update_pending [of f event_id w] by (simp add: components_ok_def)
next
  fix w w' :: "('k, 'v) agent_db" and received_at event row created
  assume ok: "components_ok (ae_memory env) (ae_projection env) w" and run: "accept_event env received_at event w = (w', row, created)"
  show "components_ok (ae_memory env) (ae_projection env) w'"
    unfolding accept_other [OF run] using ok by (simp add: components_ok_def distinct_insert_if_absent)
qed (auto simp: components_ok_def map_update_where distinct_insert_if_absent
    intro: Commanded Deleted Projection_step advance_rows_distinct)

end
