(* ===== verification/AgentDemo.thy ===== *)
theory AgentDemo
  imports AgentRuns ProjectionProps DeletionProps
begin

text \<open>
  A small run of the whole service for the witnesses: a document is projected in two batches, is deleted, and a late
  batch of it arrives.
\<close>

text \<open>Payloads name one of a few fixed messages by number; an envelope is found by its event id.\<close>

definition demo_event :: "string \<Rightarrow> string \<Rightarrow> instant \<Rightarrow> int \<Rightarrow> agent_envelope" where
  "demo_event i ty t n = \<lparr>en_event_id = i, en_event_type = ty, en_occurred_at = t, en_owner_id = 7,
     en_knowledge_base_id = Some ''kb'', en_payload = [(''n'', JInt n)]\<rparr>"

definition demo_events :: "agent_envelope list" where
  "demo_events = [demo_event ''e1'' ''document.projection.upserted'' 1 1, demo_event ''e2'' ''document.projection.upserted'' 2 2,
     demo_event ''e3'' ''document.deleted'' 5 0, demo_event ''e4'' ''document.projection.upserted'' 4 3]"

definition demo_payload :: "(int \<times> 'p) list \<Rightarrow> 'p validator" where
  "demo_payload table p = (case map_of p ''n'' of Some (JInt n) \<Rightarrow> map_of table n | _ \<Rightarrow> None)"

definition demo_fact :: extracted_candidate where
  "demo_fact = \<lparr>xc_memory_type = ''preference'', xc_subject = ''User'', xc_predicate = ''likes'', xc_value = ''tea'',
     xc_confidence = 9 / 10, xc_sensitivity_signals = [], xc_evidence_quote = ''hello'', xc_evidence_start = 0,
     xc_evidence_end = 5, xc_temporal_hints = JNull\<rparr>"

definition demo_provider :: "string \<Rightarrow> provider_answer" where
  "demo_provider text = Answered (Some [demo_fact])"

definition demo_embedder :: "string list \<Rightarrow> (nat list \<times> nat) result" where
  "demo_embedder ts = Inr (replicate (length ts) 0, length ts)"

definition demo_service :: "(json, nat) event_env" where
  "demo_service = \<lparr>ae_digest = id, ae_projection = demo_env, ae_memory = wide_env, ae_embedder = demo_embedder,
     ae_projection_payload = demo_payload [(1, demo_batch ''p1'' ''v1'' 0 [demo_chunk ''a'' 0 ''hello'']),
       (2, demo_batch ''p1'' ''v1'' 1 [demo_chunk ''b'' 1 ''world'']), (3, demo_batch ''p2'' ''v2'' 0 [demo_chunk ''c'' 0 ''hallo''])],
     ae_document_deleted = demo_payload [(0, \<lparr>dd_owner_id = 7, dd_knowledge_base_id = ''kb'', dd_document_id = ''doc''\<rparr>)],
     ae_knowledge_base_deleted = demo_payload [], ae_conversation_deleted = demo_payload [],
     ee_settings_changed = demo_payload [], ee_conversation_completed = demo_payload [], ee_memory_requested = demo_payload [],
     ee_document_observed = demo_payload [],
     ee_envelope = (\<lambda>p. case map_of p ''event_id'' of Some (JStr i) \<Rightarrow> find (\<lambda>e. en_event_id e = i) demo_events | _ \<Rightarrow> None),
     ee_isoformat = (\<lambda>t. []), ee_configured = True, ee_provider = demo_provider\<rparr>"

definition demo_receive :: "agent_envelope \<Rightarrow> (json, nat) agent_db \<Rightarrow> (json, nat) agent_db" where
  "demo_receive e w = fst (receive_event demo_service 9 e w)"

definition demo_dispatch :: "string \<Rightarrow> (json, nat) agent_db \<Rightarrow> (json, nat) agent_db" where
  "demo_dispatch i w = fst (dispatch_inbox_event demo_service True i w)"

definition demo_w1 :: "(json, nat) agent_db" where
  "demo_w1 = demo_dispatch ''e2'' (demo_dispatch ''e1'' (foldr demo_receive demo_events no_agent_rows))"

definition demo_w2 :: "(json, nat) agent_db" where "demo_w2 = demo_dispatch ''e3'' demo_w1"

definition demo_w3 :: "(json, nat) agent_db" where "demo_w3 = demo_dispatch ''e4'' demo_w2"

lemma demo_moment: "at_moment 10 10 demo_embedder demo_provider demo_service = demo_service"
  using wide_env_now by (simp add: at_moment_def demo_service_def)

lemma demo_receive_reachable: "agent_reachable demo_service w \<Longrightarrow> agent_reachable demo_service (demo_receive e w)"
  unfolding demo_receive_def by (rule Agent_step, assumption, rule Event_received [OF prod.collapse [symmetric]])

lemma demo_dispatch_step: "agent_step demo_service w (demo_dispatch i w)"
  unfolding demo_dispatch_def using Event_dispatched [of 10 10 demo_embedder demo_provider demo_service True i w] demo_moment
  by (metis prod.collapse)

lemma demo_dispatch_reachable: "agent_reachable demo_service w \<Longrightarrow> agent_reachable demo_service (demo_dispatch i w)"
  by (rule Agent_step [OF _ demo_dispatch_step])

lemma demo_w_reachable: "agent_reachable demo_service demo_w1" "agent_reachable demo_service demo_w2"
proof -
  have "agent_reachable demo_service (foldr demo_receive es no_agent_rows)" for es
    by (induction es) (simp_all add: No_agent_rows demo_receive_reachable)
  then show "agent_reachable demo_service demo_w1" by (simp add: demo_w1_def demo_dispatch_reachable)
  then show "agent_reachable demo_service demo_w2" by (simp add: demo_w2_def demo_dispatch_reachable)
qed

lemma demo_uuid: "inj (me_uuid (ae_memory demo_service))"
  by (simp add: demo_service_def wide_inj)

lemma demo_results:
  "map (\<lambda>r. (ib_event_id r, ib_status r)) (ag_inbox demo_w1) =
     [(''e4'', InPending), (''e3'', InPending), (''e2'', InSucceeded), (''e1'', InSucceeded)]"
  "map (cp_content \<circ> ck_payload) (visible_chunks 7 ''kb'' ''doc'' (ag_projections demo_w1)) = [''hello'', ''world'']"
  by code_simp+

lemma demo_deletion: "snd (dispatch_inbox_event demo_service True ''e3'' demo_w1) = Inr EvSucceeded"
  by code_simp

lemma demo_late: "map_option ib_status (load_inbox_event ''e4'' demo_w2) = Some InPending" by code_simp

end
