(* ===== verification/AgentProps.thy ===== *)
theory AgentProps
  imports AgentDemo
begin

text \<open>The properties of the agent service as a whole.\<close>

subsection \<open>Components\<close>

lemma reachable_components: "agent_reachable env w \<Longrightarrow> components_ok (ae_memory env) (ae_projection env) w"
proof (induction rule: agent_reachable.induct)
  case No_agent_rows
  show ?case by (simp add: components_ok_def no_agent_rows_def memory_history.Empty No_projections)
next
  case (Agent_step w w')
  then show ?case using components.step_kept by blast
qed

lemma steps_components:
  "agent_reachable env w \<Longrightarrow> (agent_step env)\<^sup>*\<^sup>* w w' \<Longrightarrow> components_ok (ae_memory env) (ae_projection env) w'"
  using components.steps_kept reachable_components by blast

text \<open>
  C2. The service refines its components: whatever events arrive, in whatever order they are dispatched and
  repeated, and whatever users do meanwhile, the memory tables stay in a history of memory commands and deletions, the
  projection tables in a run of staging, checks, activations and deletions, and fences, inbox and settings
  keep one row per key. What is proved of each component therefore holds in the service.
\<close>

theorem service_refines_components:
  assumes "agent_reachable env w"
  shows "memory_history (ae_memory env) (ag_memory w) \<and> projection_reachable (ae_projection env) (ag_projections w) \<and>
    distinct (map df_fence_key (ag_fences w)) \<and> distinct (map ib_event_id (ag_inbox w)) \<and> distinct (map ms_owner_id (ag_settings w))"
  using reachable_components [OF assms] by (simp add: components_ok_def)

lemma service_refines_components_witness:
  "map ib_event_id (ag_inbox demo_w1) = [''e4'', ''e3'', ''e2'', ''e1''] \<and> projection_reachable demo_env (ag_projections demo_w1)"
proof -
  have "map ib_event_id (ag_inbox demo_w1) = map fst (map (\<lambda>r. (ib_event_id r, ib_status r)) (ag_inbox demo_w1))" by simp
  then have "map ib_event_id (ag_inbox demo_w1) = [''e4'', ''e3'', ''e2'', ''e1'']" by (simp only: demo_results) simp
  moreover have "ae_projection demo_service = demo_env" by (simp add: demo_service_def)
  ultimately show ?thesis using service_refines_components [OF demo_w_reachable(1)] by simp
qed

subsection \<open>Settled events\<close>

definition row_after :: "inbox_event \<Rightarrow> inbox_event \<Rightarrow> bool" where
  "row_after r q \<longleftrightarrow> ib_event_id q = ib_event_id r \<and> ib_payload q = ib_payload r \<and> ib_received_at q = ib_received_at r \<and>
     ib_attempt_count r \<le> ib_attempt_count q \<and> (ib_status r = InPending \<or> q = r)"

definition inbox_after :: "inbox_event list \<Rightarrow> ('k, 'v) agent_db \<Rightarrow> bool" where
  "inbox_after rows w \<longleftrightarrow> distinct (map ib_event_id (ag_inbox w)) \<and> (\<forall>r\<in>set rows. \<exists>q\<in>set (ag_inbox w). row_after r q)"

lemma row_after_refl: "row_after r r"
  by (simp add: row_after_def)

lemma row_after_pending:
  assumes "row_after r q" and "ib_event_id (f q) = ib_event_id q \<and> ib_payload (f q) = ib_payload q \<and>
      ib_received_at (f q) = ib_received_at q \<and> ib_attempt_count q \<le> ib_attempt_count (f q)" and "ib_status q = InPending"
  shows "row_after r (f q)"
  using assms by (auto simp: row_after_def)

lemma insert_if_absent_keeps: "r \<in> set rows \<Longrightarrow> r \<in> set (fst (insert_if_absent key x rows))"
  by (auto simp: insert_if_absent_def split: option.split)

interpretation inbox_rows: agent_invariant env "inbox_after rows" for env :: "('k, 'v) event_env" and rows
proof
  fix w :: "('k, 'v) agent_db" and f :: "inbox_event \<Rightarrow> inbox_event" and i
  assume w: "inbox_after rows w" and f: "\<And>r. ib_event_id (f r) = ib_event_id r \<and> ib_payload (f r) = ib_payload r \<and>
      ib_received_at (f r) = ib_received_at r \<and> ib_attempt_count r \<le> ib_attempt_count (f r)"
  have "\<exists>q\<in>set (ag_inbox (update_pending i f w)). row_after r q" if r: "r \<in> set rows" for r
  proof -
    obtain q where q: "q \<in> set (ag_inbox w)" "row_after r q" using w r by (auto simp: inbox_after_def)
    define q' where "q' = (if ib_event_id q = i \<and> ib_status q = InPending then f q else q)"
    have "q' \<in> set (ag_inbox (update_pending i f w))" using q(1) by (auto simp: update_pending_def set_update_where q'_def)
    moreover have "row_after r q'" using row_after_pending [of r q f, OF q(2) f] q(2) by (simp add: q'_def)
    ultimately show ?thesis by blast
  qed
  then show "inbox_after rows (update_pending i f w)" using w distinct_update_pending [of f i w] f by (simp add: inbox_after_def)
next
  fix w w' :: "('k, 'v) agent_db" and received_at event row created
  assume w: "inbox_after rows w" and run: "accept_event env received_at event w = (w', row, created)"
  show "inbox_after rows w'"
    unfolding accept_other [OF run] using w insert_if_absent_keeps by (fastforce simp: inbox_after_def distinct_insert_if_absent)
qed (auto simp: inbox_after_def)

lemma find_inbox: "distinct (map ib_event_id (ag_inbox w)) \<Longrightarrow> q \<in> set (ag_inbox w) \<Longrightarrow> load_inbox_event (ib_event_id q) w = Some q"
  unfolding load_inbox_event_def by (rule find_distinct_key)

text \<open>
  C13. Once an event has succeeded or failed its row never changes again, through any further steps of the service,
  and dispatching it any time later is skipped and changes nothing; an event is never lost, its payload and time of
  arrival stay, and its attempts never decrease.
\<close>

theorem settled_events_frozen:
  assumes "agent_reachable env w" and "r \<in> set (ag_inbox w)" and "(agent_step env)\<^sup>*\<^sup>* w w'"
  shows "\<exists>q. load_inbox_event (ib_event_id r) w' = Some q \<and> ib_payload q = ib_payload r \<and> ib_received_at q = ib_received_at r \<and>
    ib_attempt_count r \<le> ib_attempt_count q \<and>
    (if ib_status r = InPending then True
     else q = r \<and> dispatch_inbox_event (at_moment t u embedder provider env) True (ib_event_id r) w' = (w', Inr EvSkipped))"
proof -
  have "distinct (map ib_event_id (ag_inbox w))" using reachable_components [OF assms(1)] by (simp add: components_ok_def)
  then have "inbox_after (ag_inbox w) w" using row_after_refl by (auto simp: inbox_after_def)
  then have after: "inbox_after (ag_inbox w) w'" by (rule inbox_rows.steps_kept [OF assms(3)])
  then obtain q where q: "q \<in> set (ag_inbox w')" "row_after r q" using assms(2) by (auto simp: inbox_after_def)
  have "load_inbox_event (ib_event_id q) w' = Some q" by (rule find_inbox [OF _ q(1)]) (use after in \<open>simp add: inbox_after_def\<close>)
  then show ?thesis using q(2) by (auto simp: row_after_def dispatch_inbox_event_def)
qed

lemma settled_events_frozen_witness:
  "\<exists>r\<in>set (ag_inbox demo_w1). ib_event_id r = ''e1'' \<and> load_inbox_event ''e1'' demo_w2 = Some r \<and>
     dispatch_inbox_event demo_service True ''e1'' demo_w2 = (demo_w2, Inr EvSkipped)"
proof -
  have "(''e1'', InSucceeded) \<in> set (map (\<lambda>r. (ib_event_id r, ib_status r)) (ag_inbox demo_w1))" by (simp only: demo_results) simp
  then obtain r where r: "r \<in> set (ag_inbox demo_w1)" "ib_event_id r = ''e1''" "ib_status r = InSucceeded" by auto
  have "(agent_step demo_service)\<^sup>*\<^sup>* demo_w1 demo_w2" unfolding demo_w2_def by (rule r_into_rtranclp) (rule demo_dispatch_step)
  from settled_events_frozen [OF demo_w_reachable(1) r(1) this, of 10 10 demo_embedder demo_provider] r
  show ?thesis unfolding demo_moment by (intro bexI [OF _ r(1)]) auto
qed

end
