(* ===== verification/AgentDeletion.thy ===== *)
theory AgentDeletion
  imports AgentProps
begin

text \<open>Deleted documents: what a deletion event removes, and that nothing late brings it back.\<close>

subsection \<open>Fences only rise\<close>

definition fences_after :: "'k deletion_fence list \<Rightarrow> ('k, 'v) agent_db \<Rightarrow> bool" where
  "fences_after rows w \<longleftrightarrow> distinct (map ib_event_id (ag_inbox w)) \<and> distinct (map df_fence_key (ag_fences w)) \<and>
     (\<forall>k t. fence_at k rows = Some t \<longrightarrow> (\<exists>t'. fence_at k (ag_fences w) = Some t' \<and> t \<le> t'))"

lemma advance_rows_monotone:
  assumes "advance_deletion_fences digest e p add rows = (rows', b)" and "fence_at k rows = Some t"
  shows "\<exists>t'. fence_at k rows' = Some t' \<and> t \<le> t'"
  using advance_monotone [OF assms(2), of digest e p add] by (simp add: assms(1))

lemma fences_after_other [simp]:
  "fences_after rows (w\<lparr>ag_memory := m\<rparr>) = fences_after rows w" "fences_after rows (w\<lparr>ag_projections := j\<rparr>) = fences_after rows w"
  "fences_after rows (w\<lparr>ag_settings := st\<rparr>) = fences_after rows w"
  by (simp_all add: fences_after_def)

lemma fences_after_advance:
  assumes "fences_after rows w" and "advance_deletion_fences digest e p add (ag_fences w) = (rows', b)"
  shows "fences_after rows (w\<lparr>ag_fences := rows'\<rparr>)"
  unfolding fences_after_def
proof (intro conjI allI impI)
  fix k t
  assume "fence_at k rows = Some t"
  then obtain t1 where "fence_at k (ag_fences w) = Some t1" "t \<le> t1" using assms(1) unfolding fences_after_def by blast
  then show "\<exists>t'. fence_at k (ag_fences (w\<lparr>ag_fences := rows'\<rparr>)) = Some t' \<and> t \<le> t'"
    using advance_rows_monotone [OF assms(2), of k t1] order_trans by (auto simp del: split_paired_Ex less_eq_prod_simp)
qed (use assms(1) advance_rows_distinct [OF assms(2)] in \<open>auto simp: fences_after_def\<close>)

interpretation fence_rows: agent_invariant env "fences_after rows" for env :: "('k, 'v) event_env" and rows
proof
  fix w :: "('k, 'v) agent_db" and f :: "inbox_event \<Rightarrow> inbox_event" and i
  assume "fences_after rows w" and "\<And>r. ib_event_id (f r) = ib_event_id r \<and> ib_payload (f r) = ib_payload r \<and>
      ib_received_at (f r) = ib_received_at r \<and> ib_attempt_count r \<le> ib_attempt_count (f r)"
  then show "fences_after rows (update_pending i f w)" using distinct_update_pending [of f i w] by (simp add: fences_after_def)
next
  fix w w' :: "('k, 'v) agent_db" and received_at event row created
  assume w: "fences_after rows w" and run: "accept_event env received_at event w = (w', row, created)"
  show "fences_after rows w'" unfolding accept_other [OF run] using w by (simp add: fences_after_def distinct_insert_if_absent)
next
  show "distinct (map ib_event_id (ag_inbox w))" if "fences_after rows w" for w :: "('k, 'v) agent_db"
    using that unfolding fences_after_def by blast
qed (simp_all add: fences_after_advance)

subsection \<open>A fenced document\<close>

text \<open>A fence of the document or of its knowledge base that is not older than \<open>stamp\<close>.\<close>

definition document_fenced :: "(json \<Rightarrow> 'k) \<Rightarrow> int \<Rightarrow> string \<Rightarrow> string \<Rightarrow> instant \<times> string \<Rightarrow> 'k deletion_fence list \<Rightarrow> bool" where
  "document_fenced digest owner kb d stamp rows \<longleftrightarrow>
     (\<exists>s\<in>{FenceSource ''document'' d, FenceSource ''knowledge_base'' kb}. \<exists>t.
        fence_at (fence_key digest owner (Some kb) s) rows = Some t \<and> stamp \<le> t)"

lemma fenced_blocked:
  assumes "distinct (map df_fence_key (ag_fences w))" and "en_knowledge_base_id e = Some kb"
  shows "blocked env e [FenceSource ''document'' d] w \<longleftrightarrow> document_fenced (ae_digest env) (en_owner_id e) kb d (event_stamp e) (ag_fences w)"
  using assms by (auto simp: blocked_def blocked_iff document_fenced_def sources_with_knowledge_base_def simp del: split_paired_Ex)

lemma fenced_after:
  assumes "document_fenced digest owner kb d stamp rows" and "fences_after rows w" and "stamp' \<le> stamp"
  shows "document_fenced digest owner kb d stamp' (ag_fences w)"
proof -
  obtain s t where s: "s \<in> {FenceSource ''document'' d, FenceSource ''knowledge_base'' kb}"
      "fence_at (fence_key digest owner (Some kb) s) rows = Some t" "stamp \<le> t"
    using assms(1) unfolding document_fenced_def by blast
  obtain t' where "fence_at (fence_key digest owner (Some kb) s) (ag_fences w) = Some t'" "t \<le> t'"
    using assms(2) s(2) unfolding fences_after_def by blast
  then show ?thesis using s(1,3) assms(3) unfolding document_fenced_def by (meson order_trans)
qed

subsection \<open>What the handlers leave alone\<close>

lemma delete_nothing_run: "delete_nothing env owner kb ty w = Inr (empty_deletion (ae_memory env) [], w)"
  by (simp add: delete_nothing_def on_memory_def delete_source_evidence_def filter_is_empty_def sources_of_def treturn_def)

lemma on_memory_Inr: "on_memory m w = Inr (x, w') \<longleftrightarrow> (\<exists>db. m (ag_memory w) = Inr (x, db) \<and> w' = w\<lparr>ag_memory := db\<rparr>)"
  by (auto simp: on_memory_def split: sum.splits)

lemma advance_fences_Inr:
  "advance_fences env e p add w = Inr (b, w') \<longleftrightarrow>
   (\<exists>rows. advance_deletion_fences (ae_digest env) e p add (ag_fences w) = (rows, b) \<and> w' = w\<lparr>ag_fences := rows\<rparr>)"
  by (auto simp: advance_fences_def split: prod.splits)

lemma in_transaction_Inr: "in_transaction m w = (w', Inr x) \<longleftrightarrow> m w = Inr (x, w')"
  by (auto simp: in_transaction_def split: sum.splits)

lemma document_deleted_cases:
  assumes run: "handle_document_deleted env e w = (w', Inr r)" and p: "ae_document_deleted env (en_payload e) = Some p"
  obtains (late) "en_knowledge_base_id e = Some (dd_knowledge_base_id p)" "dd_owner_id p = en_owner_id e" "w' = w"
      "blocked env e [FenceSource ''document'' (dd_document_id p)] w"
    | (superseded) rows where "en_knowledge_base_id e = Some (dd_knowledge_base_id p)"
      "\<not> blocked env e [FenceSource ''document'' (dd_document_id p)] w"
      "advance_deletion_fences (ae_digest env) e (FenceSource ''document'' (dd_document_id p)) [] (ag_fences w) = (rows, False)"
      "w' = w\<lparr>ag_fences := rows\<rparr>"
    | (deleted) rows db where "en_knowledge_base_id e = Some (dd_knowledge_base_id p)"
      "\<not> blocked env e [FenceSource ''document'' (dd_document_id p)] w"
      "advance_deletion_fences (ae_digest env) e (FenceSource ''document'' (dd_document_id p)) [] (ag_fences w) = (rows, True)"
      "delete_source_evidence (ae_memory env) (en_owner_id e) (Some (dd_knowledge_base_id p))
        (document_evidence (dd_document_id p) (projected_chunk_ids
          (projections_of (en_owner_id e) (dd_knowledge_base_id p) (dd_document_id p) (ag_projections w)) (ag_projections w)))
        (projections_of (en_owner_id e) (dd_knowledge_base_id p) (dd_document_id p) (ag_projections w)) (ag_memory w) = Inr (r, db)"
      "w' = w\<lparr>ag_fences := rows, ag_projections := delete_projections
        (projections_of (en_owner_id e) (dd_knowledge_base_id p) (dd_document_id p) (ag_projections w)) (ag_projections w), ag_memory := db\<rparr>"
proof -
  let ?s = "FenceSource ''document'' (dd_document_id p)"
  have sc: "dd_owner_id p = en_owner_id e" "en_knowledge_base_id e = Some (dd_knowledge_base_id p)"
    using run p by (auto simp: handle_document_deleted_def araise_def split: if_splits)
  show thesis
  proof (cases "blocked env e [?s] w")
    case True
    then have "w' = w" using run p sc by (simp add: handle_document_deleted_def in_transaction_def delete_nothing_run)
    then show thesis using late sc True by blast
  next
    case False
    then have "tbind (advance_fences env e ?s []) (\<lambda>advanced.
              if \<not> advanced then delete_nothing env (en_owner_id e) (Some (dd_knowledge_base_id p)) ''document''
              else delete_document_projection env (en_owner_id e) (dd_knowledge_base_id p) (dd_document_id p)) w = Inr (r, w')"
      using run p sc by (simp add: handle_document_deleted_def in_transaction_Inr)
    then obtain b rows where a: "advance_deletion_fences (ae_digest env) e ?s [] (ag_fences w) = (rows, b)"
      and rest: "(if \<not> b then delete_nothing env (en_owner_id e) (Some (dd_knowledge_base_id p)) ''document''
              else delete_document_projection env (en_owner_id e) (dd_knowledge_base_id p) (dd_document_id p)) (w\<lparr>ag_fences := rows\<rparr>) = Inr (r, w')"
      by (auto simp: tbind_Inr advance_fences_Inr)
    show thesis
    proof (cases b)
      case True
      then show thesis
        using rest a sc False
        by (auto simp: delete_document_projection_def remove_projections_def tx_run on_memory_Inr intro!: deleted)
    next
      case False
      then show thesis using rest a sc \<open>\<not> blocked env e [?s] w\<close> by (intro superseded) (auto simp: delete_nothing_run)
    qed
  qed
qed

lemma document_deleted_fences:
  assumes run: "handle_document_deleted env e w = (w', Inr r)" and p: "ae_document_deleted env (en_payload e) = Some p"
    and d: "distinct (map df_fence_key (ag_fences w))"
  shows "\<exists>kb. en_knowledge_base_id e = Some kb \<and>
    document_fenced (ae_digest env) (en_owner_id e) kb (dd_document_id p) (event_stamp e) (ag_fences w')"
proof -
  let ?s = "FenceSource ''document'' (dd_document_id p)" and ?kb = "dd_knowledge_base_id p"
  have new: "document_fenced (ae_digest env) (en_owner_id e) ?kb (dd_document_id p) (event_stamp e) rows"
    if kb: "en_knowledge_base_id e = Some ?kb"
      and a: "advance_deletion_fences (ae_digest env) e ?s [] (ag_fences w) = (rows, b)" for rows b
    using advance_primary [of "ae_digest env" e ?s "[]" "ag_fences w"] unfolding a fst_conv kb document_fenced_def by blast
  from run p show ?thesis
  proof (cases rule: document_deleted_cases)
    case late
    then show ?thesis using fenced_blocked [OF d late(1), of env "dd_document_id p"] by simp
  next
    case (superseded rows)
    then show ?thesis using new by auto
  next
    case (deleted rows db)
    then show ?thesis using new by auto
  qed
qed

subsection \<open>Late events\<close>

text \<open>A well-formed event about the document: a batch of it, an observation in it, or its deletion.\<close>

definition names_document :: "('k, 'v, 'x) event_env_scheme \<Rightarrow> agent_envelope \<Rightarrow> string \<Rightarrow> bool" where
  "names_document env e d \<longleftrightarrow>
     (if en_event_type e = ''document.projection.upserted''
      then (case ae_projection_payload env (en_payload e) of None \<Rightarrow> False | Some q \<Rightarrow> pl_document_id q = d)
      else if en_event_type e = ''document.memory.observed''
      then (case ee_document_observed env (en_payload e) of None \<Rightarrow> False
        | Some q \<Rightarrow> do_document_id q = d \<and> do_observed_at q = en_occurred_at e)
      else en_event_type e = ''document.deleted'' \<and>
        (case ae_document_deleted env (en_payload e) of None \<Rightarrow> False
         | Some q \<Rightarrow> dd_document_id q = d \<and> dd_owner_id q = en_owner_id e \<and> Some (dd_knowledge_base_id q) = en_knowledge_base_id e))"

lemma late_event_unchanged:
  assumes "names_document env e d" and kb: "en_knowledge_base_id e = Some kb" and "distinct (map df_fence_key (ag_fences w))"
    and "document_fenced (ae_digest env) (en_owner_id e) kb d (event_stamp e) (ag_fences w)"
  shows "handle_event env e w = (w, Inr ())"
proof -
  have b: "blocked env e [FenceSource ''document'' d] w" using fenced_blocked [OF assms(3) kb, of env d] assms(4) by simp
  consider (batch) q where "en_event_type e = ''document.projection.upserted''" "ae_projection_payload env (en_payload e) = Some q" "pl_document_id q = d"
    | (observed) q where "en_event_type e = ''document.memory.observed''" "ee_document_observed env (en_payload e) = Some q"
        "do_document_id q = d" "do_observed_at q = en_occurred_at e"
    | (deletion) q where "en_event_type e = ''document.deleted''" "ae_document_deleted env (en_payload e) = Some q"
        "dd_document_id q = d" "dd_owner_id q = en_owner_id e" "Some (dd_knowledge_base_id q) = en_knowledge_base_id e"
  proof (cases "en_event_type e = ''document.projection.upserted''")
    case True
    then show thesis using assms(1) that(1) by (cases "ae_projection_payload env (en_payload e)") (simp_all add: names_document_def)
  next
    case not_batch: False
    show thesis
    proof (cases "en_event_type e = ''document.memory.observed''")
      case True
      then show thesis using assms(1) that(2) by (cases "ee_document_observed env (en_payload e)") (simp_all add: names_document_def)
    next
      case False
      then show thesis
        using assms(1) that(3) not_batch by (cases "ae_document_deleted env (en_payload e)") (simp_all add: names_document_def)
    qed
  qed
  then show ?thesis
  proof cases
    case (batch q)
    then show ?thesis using b by (simp add: handle_event_def handle_document_projection_upserted_def areturn_def)
  next
    case (observed q)
    then show ?thesis using b kb by (simp add: handle_event_def handle_document_memory_observed_def areturn_def)
  next
    case (deletion q)
    then show ?thesis using b
      by (simp add: handle_event_def handle_document_deleted_def discard_def abind_def areturn_def in_transaction_def delete_nothing_run)
  qed
qed

lemma moment_fields [simp]:
  "ee_envelope (at_moment t u embedder provider env) = ee_envelope env"
  "ae_document_deleted (at_moment t u embedder provider env) = ae_document_deleted env"
  "names_document (at_moment t u embedder provider env) e d = names_document env e d"
  by (simp_all add: at_moment_def names_document_def)

lemma dispatch_pending:
  assumes "load_inbox_event i w = Some row" "ib_status row = InPending" "ee_envelope env (ib_payload row) = Some e"
  shows "dispatch_inbox_event env True i w = finish_event env e i (handle_event env e (start_attempt i w))"
  using assms by (simp add: dispatch_inbox_event_def)

lemma finish_succeeded:
  assumes "finish_event env e i outcome = (w', Inr EvSucceeded)"
  obtains w1 where "outcome = (w1, Inr ())"
    "w' = update_pending i (\<lambda>r. r\<lparr>ib_status := InSucceeded, ib_processed_at := Some (ae_now env)\<rparr>) w1"
  using assms by (cases outcome) (auto simp: finish_event_def split: sum.splits option.splits)

lemma start_attempt_other [simp]:
  "ag_memory (start_attempt i w) = ag_memory w" "ag_projections (start_attempt i w) = ag_projections w"
  "ag_fences (start_attempt i w) = ag_fences w" "ag_settings (start_attempt i w) = ag_settings w"
  by (simp_all add: start_attempt_def)

text \<open>
  C3. A deleted document stays deleted: once a deletion event has been dispatched with success, and whatever happens
  then, every pending event about that document (a batch, an observation, another deletion) that is not newer
  than the deletion is settled as succeeded without changing any memory, projection, fence or setting.
\<close>

theorem late_document_events_ignored:
  assumes "agent_reachable env w"
    and "load_inbox_event i w = Some row" "ib_status row = InPending" "ee_envelope env (ib_payload row) = Some e"
    and "en_event_type e = ''document.deleted''" and "ae_document_deleted env (en_payload e) = Some p"
    and del: "dispatch_inbox_event (at_moment t u embedder provider env) True i w = (w1, Inr EvSucceeded)"
    and later: "(agent_step env)\<^sup>*\<^sup>* w1 w2"
    and "load_inbox_event j w2 = Some row2" "ib_status row2 = InPending" "ee_envelope env (ib_payload row2) = Some l"
    and "names_document env l (dd_document_id p)" and "en_owner_id l = en_owner_id e"
    and "en_knowledge_base_id l = en_knowledge_base_id e" and "event_stamp l \<le> event_stamp e"
  shows "\<exists>w3. dispatch_inbox_event (at_moment t' u' embedder' provider' env) True j w2 = (w3, Inr EvSucceeded) \<and>
    ag_memory w3 = ag_memory w2 \<and> ag_projections w3 = ag_projections w2 \<and> ag_fences w3 = ag_fences w2 \<and> ag_settings w3 = ag_settings w2"
proof -
  let ?m = "at_moment t u embedder provider env" and ?m' = "at_moment t' u' embedder' provider' env"
  have r1: "agent_reachable env w1" by (rule Agent_step [OF assms(1) Event_dispatched [OF del]])
  have r2: "components_ok (ae_memory env) (ae_projection env) w2" by (rule steps_components [OF r1 later])
  have d: "distinct (map df_fence_key (ag_fences w))" using reachable_components [OF assms(1)] by (simp add: components_ok_def)
  have "finish_event ?m e i (handle_event ?m e (start_attempt i w)) = (w1, Inr EvSucceeded)"
    using del dispatch_pending [of i w row ?m e] assms(2-4) by simp
  then obtain wa where wa: "handle_event ?m e (start_attempt i w) = (wa, Inr ())" "ag_fences w1 = ag_fences wa"
    by (rule finish_succeeded) auto
  then obtain r where "handle_document_deleted ?m e (start_attempt i w) = (wa, Inr r)"
    using assms(5) by (auto simp: handle_event_def discard_def abind_def areturn_def split: prod.splits sum.splits)
  from document_deleted_fences [OF this, of p] assms(6) d
  obtain kb where kb: "en_knowledge_base_id e = Some kb"
    and fenced: "document_fenced (ae_digest env) (en_owner_id e) kb (dd_document_id p) (event_stamp e) (ag_fences w1)"
    by (auto simp: wa(2))
  have "fences_after (ag_fences w1) w1"
    using reachable_components [OF r1] unfolding fences_after_def components_ok_def by blast
  then have after: "fences_after (ag_fences w1) w2" by (rule fence_rows.steps_kept [OF later])
  have "document_fenced (ae_digest env) (en_owner_id l) kb (dd_document_id p) (event_stamp l) (ag_fences w2)"
    using fenced_after [OF fenced after assms(15)] assms(13) by simp
  then have "handle_event ?m' l (start_attempt j w2) = (start_attempt j w2, Inr ())"
    using late_event_unchanged [of ?m' l "dd_document_id p" kb "start_attempt j w2"] assms(12,14) kb r2 by (simp add: components_ok_def)
  then show ?thesis
    using dispatch_pending [of j w2 row2 ?m' l] assms(9-11) by (simp add: finish_event_def)
qed

lemma late_document_events_ignored_witness:
  "\<exists>w3. dispatch_inbox_event demo_service True ''e4'' demo_w2 = (w3, Inr EvSucceeded) \<and> ag_projections w3 = ag_projections demo_w2"
proof -
  have envs: "ee_envelope demo_service (ib_payload (inbox_row demo_service 9 e)) = find (\<lambda>d. en_event_id d = en_event_id e) demo_events" for e
    by (simp add: demo_service_def inbox_row_def envelope_dump_def)
  have row3: "load_inbox_event ''e3'' demo_w1 = Some (inbox_row demo_service 9 (demo_event ''e3'' ''document.deleted'' 5 0))"
    and row4: "load_inbox_event ''e4'' demo_w2 = Some (inbox_row demo_service 9 (demo_event ''e4'' ''document.projection.upserted'' 4 3))"
    by code_simp+
  have pend: "ib_status (inbox_row demo_service 9 e) = InPending" for e by (simp add: inbox_row_def)
  have e3: "ee_envelope demo_service (ib_payload (inbox_row demo_service 9 (demo_event ''e3'' ''document.deleted'' 5 0))) =
      Some (demo_event ''e3'' ''document.deleted'' 5 0)"
    and e4: "ee_envelope demo_service (ib_payload (inbox_row demo_service 9 (demo_event ''e4'' ''document.projection.upserted'' 4 3))) =
      Some (demo_event ''e4'' ''document.projection.upserted'' 4 3)"
    unfolding envs by (simp_all add: demo_event_def demo_events_def)
  have run: "dispatch_inbox_event demo_service True ''e3'' demo_w1 = (demo_w2, Inr EvSucceeded)"
    unfolding demo_w2_def demo_dispatch_def demo_deletion [symmetric] by simp
  have p: "ae_document_deleted demo_service (en_payload (demo_event ''e3'' ''document.deleted'' 5 0)) =
      Some \<lparr>dd_owner_id = 7, dd_knowledge_base_id = ''kb'', dd_document_id = ''doc''\<rparr>"
    and n: "names_document demo_service (demo_event ''e4'' ''document.projection.upserted'' 4 3) ''doc''"
    by code_simp+
  from late_document_events_ignored [OF demo_w_reachable(1) row3 pend e3 _ p, of 10 10 demo_embedder demo_provider demo_w2 demo_w2 "''e4''" _
      "demo_event ''e4'' ''document.projection.upserted'' 4 3" 10 10 demo_embedder demo_provider, unfolded demo_moment, OF _ run _ row4 pend e4]
  show ?thesis using n by (auto simp: demo_event_def event_stamp_def event_order_def)
qed

subsection \<open>What a deletion event removes\<close>

lemma superseded_never:
  assumes "distinct (map df_fence_key (ag_fences w))" and "\<not> blocked env e [s] w"
  shows "advance_deletion_fences (ae_digest env) e s [] (ag_fences w) \<noteq> (rows, False)"
proof (cases rule: advance_cases [of "ae_digest env" e s "ag_fences w" "[]"])
  case (older t)
  have "s \<in> set (sources_with_knowledge_base e [s])" by (simp add: sources_with_knowledge_base_def)
  then have "blocked env e [s] w" unfolding blocked_def blocked_iff [OF assms(1)] using older(1,2) by blast
  then show ?thesis using assms(2) by simp
qed auto

lemma chunk_in_projection:
  assumes wf: "projections_wf env db" and c: "c \<in> set (pj_chunks db)"
  shows "ck_projection_id c \<in> set (projections_of owner kb d db) \<longleftrightarrow>
    ck_owner_id c = owner \<and> ck_knowledge_base_id c = kb \<and> ck_document_id c = d"
proof -
  obtain p where p: "p \<in> set (pj_projections db)" "chunk_belongs p c" using projections_wfD(2) [OF wf c] by blast
  have id: "ck_projection_id c = dp_projection_id p" using p(2) unfolding chunk_belongs_def by blast
  have ids: "set (projections_of owner kb d db) = {dp_projection_id q |q. q \<in> set (pj_projections db) \<and> dp_owner_id q = owner \<and>
      dp_knowledge_base_id q = kb \<and> dp_document_id q = d}" by (auto simp: projections_of_def)
  have "ck_projection_id c \<in> set (projections_of owner kb d db) \<longleftrightarrow> dp_owner_id p = owner \<and> dp_knowledge_base_id p = kb \<and> dp_document_id p = d"
  proof
    assume "ck_projection_id c \<in> set (projections_of owner kb d db)"
    then obtain q where q: "q \<in> set (pj_projections db)" "dp_projection_id q = dp_projection_id p" "dp_owner_id q = owner"
        "dp_knowledge_base_id q = kb" "dp_document_id q = d" unfolding ids id mem_Collect_eq by metis
    show "dp_owner_id p = owner \<and> dp_knowledge_base_id p = kb \<and> dp_document_id p = d"
      using q(3-5) unfolding unique_projection [OF wf p(1) q(1,2)] by simp
  next
    assume "dp_owner_id p = owner \<and> dp_knowledge_base_id p = kb \<and> dp_document_id p = d"
    then show "ck_projection_id c \<in> set (projections_of owner kb d db)" unfolding ids id using p(1) by blast
  qed
  then show ?thesis using p(2) unfolding chunk_belongs_def by simp
qed

lemma visible_after_removal:
  assumes wf: "projections_wf env db"
  shows "visible_chunks o' k' d' (delete_projections (projections_of owner kb d db) db) =
    (if (o', k', d') = (owner, kb, d) then [] else visible_chunks o' k' d' db)"
  using chunk_in_projection [OF wf, of _ owner kb d]
  by (auto simp: visible_chunks_def delete_projections_def delete_where_def filter_empty_conv intro!: filter_cong)

lemma scope_untouched:
  assumes "memory_history env db" and "inj (me_uuid env)" and "deletion_step env sc db db'" and "other \<noteq> sc"
  shows "scope_view other db' = scope_view other db"
proof -
  have g: "deep_governed env db" by (rule history_governed [OF assms(1,2)])
  show ?thesis by (rule histories.changes_view [OF deletion_step_moves [OF assms(3) g] g assms(4)])
qed

lemma other_projections_kept:
  assumes wf: "projections_wf env db"
  shows "pj_projections (delete_projections (projections_of owner kb d db) db) =
      filter (\<lambda>q. (dp_owner_id q, dp_knowledge_base_id q, dp_document_id q) \<noteq> (owner, kb, d)) (pj_projections db)" (is ?projections)
    and "pj_chunks (delete_projections (projections_of owner kb d db) db) =
      filter (\<lambda>c. (ck_owner_id c, ck_knowledge_base_id c, ck_document_id c) \<noteq> (owner, kb, d)) (pj_chunks db)" (is ?chunks)
    and "pj_batches (delete_projections (projections_of owner kb d db) db) =
      filter (\<lambda>b. pb_projection_id b \<notin> set (projections_of owner kb d db)) (pj_batches db)" (is ?batches)
proof -
  have "dp_projection_id q \<in> set (projections_of owner kb d db) \<longleftrightarrow>
      (dp_owner_id q, dp_knowledge_base_id q, dp_document_id q) = (owner, kb, d)" if "q \<in> set (pj_projections db)" for q
    using that unique_projection [OF wf _ that] by (auto simp: projections_of_def)
  then show ?projections by (auto simp: delete_projections_def delete_where_def intro!: filter_cong)
  show ?chunks
    using chunk_in_projection [OF wf, of _ owner kb d] by (auto simp: delete_projections_def delete_where_def intro!: filter_cong)
  show ?batches by (simp add: delete_projections_def delete_where_def)
qed

text \<open>
  C4. Deleting a document: when the deletion event of a document that no fence blocks yet is handled with success, nothing of
  the document can be read afterwards: every version of it, every chunk and every batch is gone, and so is the evidence
  of its scope that names it or one of its chunks. The versions, chunks and batches of all other documents, all other
  evidence, and every memory row of every other owner or knowledge base stay exactly as they were. (A later event of a
  document that is fenced removes nothing.)
\<close>

theorem document_deletion_complete:
  assumes "agent_reachable env w" and "inj (me_uuid (ae_memory env))"
    and "ae_document_deleted env (en_payload e) = Some p"
    and fresh: "\<not> blocked env e [FenceSource ''document'' (dd_document_id p)] w"
    and "handle_document_deleted (at_moment t u embedder provider env) e w = (w', Inr r)"
  shows "let owner = en_owner_id e; kb = dd_knowledge_base_id p; d = dd_document_id p;
      chunks = projected_chunk_ids (projections_of owner kb d (ag_projections w)) (ag_projections w) in
    en_knowledge_base_id e = Some kb \<and>
    pj_projections (ag_projections w') = filter (\<lambda>q. (dp_owner_id q, dp_knowledge_base_id q, dp_document_id q) \<noteq> (owner, kb, d))
      (pj_projections (ag_projections w)) \<and>
    pj_chunks (ag_projections w') = filter (\<lambda>c. (ck_owner_id c, ck_knowledge_base_id c, ck_document_id c) \<noteq> (owner, kb, d))
      (pj_chunks (ag_projections w)) \<and>
    pj_batches (ag_projections w') = filter (\<lambda>b. pb_projection_id b \<notin> set (projections_of owner kb d (ag_projections w)))
      (pj_batches (ag_projections w)) \<and>
    (\<forall>o' k' d'. visible_chunks o' k' d' (ag_projections w') =
       (if (o', k', d') = (owner, kb, d) then [] else visible_chunks o' k' d' (ag_projections w))) \<and>
    md_evidence (ag_memory w') = filter (\<lambda>x. \<not> (ev_owner_id x = owner \<and> ev_knowledge_base_id x = Some kb \<and>
       ev_source_type x = ''document'' \<and> (ev_source_document_id x = Some d \<or> ev_source_id x \<in> set chunks))) (md_evidence (ag_memory w)) \<and>
    (\<forall>sc. sc \<noteq> (owner, Some kb) \<longrightarrow> scope_view sc (ag_memory w') = scope_view sc (ag_memory w))"
proof -
  let ?m = "at_moment t u embedder provider env" and ?d = "dd_document_id p" and ?kb = "dd_knowledge_base_id p" and ?o = "en_owner_id e"
  let ?ids = "projections_of ?o ?kb ?d (ag_projections w)"
  let ?f = "document_evidence ?d (projected_chunk_ids ?ids (ag_projections w))"
  have c: "memory_history (ae_memory env) (ag_memory w)" "projections_wf (ae_projection env) (ag_projections w)"
      "distinct (map df_fence_key (ag_fences w))"
    using reachable_components [OF assms(1)] reachable_projections_wf by (auto simp: components_ok_def)
  have ne: "\<not> filter_is_empty ?f" by (simp add: filter_is_empty_def document_evidence_def)
  have fm: "\<not> blocked ?m e [FenceSource ''document'' ?d] w" using fresh by (simp add: blocked_def at_moment_def)
  have pm: "ae_document_deleted ?m (en_payload e) = Some p" using assms(3) by simp
  from assms(5) pm show ?thesis
  proof (cases rule: document_deleted_cases)
    case late
    then show ?thesis using fm by simp
  next
    case (superseded rows)
    then show ?thesis using superseded_never [OF c(3) fm] by blast
  next
    case (deleted rows db)
    have run: "delete_source_evidence (at_time (ae_memory env) t u) ?o (Some ?kb) ?f ?ids (ag_memory w) = Inr (r, db)"
      using deleted(4) by (simp add: at_moment_def)
    have ev: "md_evidence db = filter (\<lambda>x. \<not> evidence_selected ?f ?o (Some ?kb) x) (md_evidence (ag_memory w))"
      by (rule deletion_spec(2) [OF historyD [OF c(1) assms(2)] run ne])
    have sel: "evidence_selected ?f ?o (Some ?kb) x \<longleftrightarrow> ev_owner_id x = ?o \<and> ev_knowledge_base_id x = Some ?kb \<and>
       ev_source_type x = ''document'' \<and> (ev_source_document_id x = Some ?d \<or> ev_source_id x \<in> set (projected_chunk_ids ?ids (ag_projections w)))" for x
      by (auto simp: evidence_selected_def document_evidence_def)
    have other: "scope_view sc db = scope_view sc (ag_memory w)" if "sc \<noteq> (?o, Some ?kb)" for sc
      using scope_untouched [OF c(1) assms(2) Source_deleted [OF run] that] .
    show ?thesis
      unfolding Let_def deleted(5)
      using deleted(1) ev sel other other_projections_kept [OF c(2)] visible_after_removal [OF c(2)] by simp
  qed
qed

lemma document_deletion_complete_witness:
  "visible_chunks 7 ''kb'' ''doc'' (ag_projections demo_w1) \<noteq> [] \<and>
   visible_chunks 7 ''kb'' ''doc'' (ag_projections (fst (handle_document_deleted demo_service (demo_event ''e3'' ''document.deleted'' 5 0) demo_w1))) = []"
proof -
  let ?e = "demo_event ''e3'' ''document.deleted'' 5 0"
  have p: "ae_document_deleted demo_service (en_payload ?e) = Some \<lparr>dd_owner_id = 7, dd_knowledge_base_id = ''kb'', dd_document_id = ''doc''\<rparr>"
    by (simp add: demo_service_def demo_payload_def demo_event_def)
  have "\<not> blocked demo_service ?e [FenceSource ''document'' ''doc''] demo_w1" "isl (snd (handle_document_deleted demo_service ?e demo_w1)) = False"
    "map (cp_content \<circ> ck_payload) (visible_chunks 7 ''kb'' ''doc'' (ag_projections demo_w1)) \<noteq> []"
    by code_simp+
  moreover obtain w' r where run: "handle_document_deleted demo_service ?e demo_w1 = (w', r)" by (cases "handle_document_deleted demo_service ?e demo_w1")
  ultimately obtain x where x: "handle_document_deleted demo_service ?e demo_w1 = (w', Inr x)"
      and b: "\<not> blocked demo_service ?e [FenceSource ''document'' ''doc''] demo_w1"
      and v: "visible_chunks 7 ''kb'' ''doc'' (ag_projections demo_w1) \<noteq> []" by (cases r) auto
  from document_deletion_complete [OF demo_w_reachable(1) demo_uuid p _ , of 10 10 demo_embedder demo_provider w' x] b x v
  show ?thesis by (simp add: demo_moment Let_def demo_event_def)
qed

end
