(* ===== verification/MemoryRedelivery.thy ===== *)
theory MemoryRedelivery
  imports MemoryEvents MemoryReplay DeletionHistory
begin

text \<open>
  Redelivered source events: what an event taught the memory once is recognised when the event comes again, so the
  second delivery changes nothing.
\<close>

subsection \<open>Content that is known\<close>

definition linked_content :: "int \<Rightarrow> string option \<Rightarrow> string \<Rightarrow> string \<Rightarrow> memory_db \<Rightarrow> bool" where
  "linked_content owner kb fp i db \<longleftrightarrow>
     (\<exists>c\<in>set (md_candidates db). mc_owner_id c = owner \<and> mc_knowledge_base_id c = kb \<and> mc_fingerprint c = fp \<and>
        (mc_candidate_id c, i) \<in> set (md_candidate_evidence db)) \<or>
     (\<exists>r\<in>set (md_revisions db). mr_owner_id r = owner \<and> mr_knowledge_base_id r = kb \<and> mr_fingerprint r = fp \<and>
        (mr_revision_id r, i) \<in> set (md_revision_evidence db))"

definition candidate_fingerprint :: "memory_env \<Rightarrow> extracted_candidate \<Rightarrow> string" where
  "candidate_fingerprint env c = memory_fingerprint env (normalize_memory_text (xc_subject c))
     (normalize_memory_text (xc_predicate c)) (normalize_memory_text (xc_value c))"

definition known_content :: "memory_env \<Rightarrow> int \<Rightarrow> string option \<Rightarrow> extracted_candidate \<Rightarrow> evidence_input \<Rightarrow> memory_db \<Rightarrow> bool" where
  "known_content env owner kb c item db \<longleftrightarrow>
     (\<exists>i. settled env owner kb db item i \<and> linked_content owner kb (candidate_fingerprint env c) i db)"

lemma linked_kept:
  assumes "history_kept db db'" and "linked_content owner kb fp i db"
  shows "linked_content owner kb fp i db'"
proof -
  have links: "set (md_candidate_evidence db) \<subseteq> set (md_candidate_evidence db')" "set (md_revision_evidence db) \<subseteq> set (md_revision_evidence db')"
    using assms(1) by (simp_all add: history_kept_def)
  from assms(2) consider (candidate) c where "c \<in> set (md_candidates db)" "mc_owner_id c = owner" "mc_knowledge_base_id c = kb"
      "mc_fingerprint c = fp" "(mc_candidate_id c, i) \<in> set (md_candidate_evidence db)"
    | (revision) r where "r \<in> set (md_revisions db)" "mr_owner_id r = owner" "mr_knowledge_base_id r = kb"
      "mr_fingerprint r = fp" "(mr_revision_id r, i) \<in> set (md_revision_evidence db)"
    unfolding linked_content_def by blast
  then show ?thesis
  proof cases
    case candidate
    then have "candidate_kept c (md_candidates db')" using assms(1) by (simp add: history_kept_def)
    then obtain c' where c': "c' \<in> set (md_candidates db')"
        "c' = c \<or> c' = c\<lparr>mc_status := mc_status c', mc_decided_at := mc_decided_at c'\<rparr>" by (auto simp: candidate_kept_def)
    define s t where "s = mc_status c'" and "t = mc_decided_at c'"
    have "c' = c \<or> c' = c\<lparr>mc_status := s, mc_decided_at := t\<rparr>" using c'(2) by (simp add: s_def t_def)
    then have "mc_owner_id c' = owner \<and> mc_knowledge_base_id c' = kb \<and> mc_fingerprint c' = fp \<and> mc_candidate_id c' = mc_candidate_id c"
      using candidate by auto
    then have "\<exists>c\<in>set (md_candidates db'). mc_owner_id c = owner \<and> mc_knowledge_base_id c = kb \<and> mc_fingerprint c = fp \<and>
        (mc_candidate_id c, i) \<in> set (md_candidate_evidence db')"
      by (intro bexI [OF _ c'(1)]) (use candidate(5) links(1) in auto)
    then show ?thesis unfolding linked_content_def ..
  next
    case revision
    then have "revision_kept r (md_revisions db')" using assms(1) by (simp add: history_kept_def)
    then obtain r' where r': "r' \<in> set (md_revisions db')" "r' = r \<or> (\<exists>t. r' = r\<lparr>mr_valid_to := Some t\<rparr>)" by (auto simp: revision_kept_def)
    then have "mr_owner_id r' = owner \<and> mr_knowledge_base_id r' = kb \<and> mr_fingerprint r' = fp \<and> mr_revision_id r' = mr_revision_id r"
      using revision by auto
    then have "\<exists>r\<in>set (md_revisions db'). mr_owner_id r = owner \<and> mr_knowledge_base_id r = kb \<and> mr_fingerprint r = fp \<and>
        (mr_revision_id r, i) \<in> set (md_revision_evidence db')"
      by (intro bexI [OF _ r'(1)]) (use revision(5) links(2) in auto)
    then show ?thesis unfolding linked_content_def ..
  qed
qed

lemma find_settled:
  assumes g: "governed env db" and "settled env owner kb db item i"
  obtains e where "e \<in> set (md_evidence db)" "ev_evidence_id e = i" "ev_owner_id e = owner" "ev_knowledge_base_id e = kb"
    "ei_source_document_id item = None \<or> ev_source_document_id e = ei_source_document_id item"
    "find (\<lambda>e. ev_identity_hash e = evidence_identity env owner kb (ei_source_type item) (ei_source_id item)
         (ei_source_version item) (ei_content_hash item) \<and> ev_owner_id e = owner \<and> ev_knowledge_base_id e = kb)
       (md_evidence db) = Some e"
proof -
  obtain e where e: "e \<in> set (md_evidence db)" "ev_evidence_id e = i" "ev_owner_id e = owner" "ev_knowledge_base_id e = kb"
     "ev_identity_hash e = evidence_identity env owner kb (ei_source_type item) (ei_source_id item) (ei_source_version item) (ei_content_hash item)"
     "ei_source_document_id item = None \<or> ev_source_document_id e = ei_source_document_id item"
    using assms(2) unfolding settled_def by blast
  let ?P = "\<lambda>e. ev_identity_hash e = evidence_identity env owner kb (ei_source_type item) (ei_source_id item)
         (ei_source_version item) (ei_content_hash item) \<and> ev_owner_id e = owner \<and> ev_knowledge_base_id e = kb"
  have "find ?P (md_evidence db) = Some e"
  proof (rule find_unique)
    show "e \<in> set (md_evidence db)" "?P e" using e by simp_all
    fix x assume "x \<in> set (md_evidence db)" "?P x"
    then have "ev_identity_hash x = ev_identity_hash e" "x \<in> set (md_evidence db)" using e(5) by simp_all
    then show "x = e" using distinct_key_unique [of ev_identity_hash "md_evidence db" x e] governedD(1) [OF g] e(1) by (simp add: ids_wf_def)
  qed
  then show thesis using that e by blast
qed

lemma known_recognised:
  assumes g: "governed env db" and "known_content env owner kb c item db"
  shows "already_reconciled env owner kb c item db = Inr (True, db)"
proof -
  obtain i where i: "settled env owner kb db item i" "linked_content owner kb (candidate_fingerprint env c) i db"
    using assms(2) by (auto simp: known_content_def)
  from find_settled [OF g i(1)] obtain e where e: "ev_evidence_id e = i" "ev_knowledge_base_id e = kb"
      "ei_source_document_id item = None \<or> ev_source_document_id e = ei_source_document_id item"
    and f: "find (\<lambda>e. ev_identity_hash e = evidence_identity env owner kb (ei_source_type item) (ei_source_id item)
         (ei_source_version item) (ei_content_hash item) \<and> ev_owner_id e = owner \<and> ev_knowledge_base_id e = kb)
       (md_evidence db) = Some e" by blast
  have acc: "accept_evidence kb item e db = Inr (e, db)"
    using e(2,3) by (auto simp: accept_evidence_def treturn_def split: option.split)
  have "list_ex (\<lambda>q. mc_owner_id q = owner \<and> mc_knowledge_base_id q = kb \<and> mc_fingerprint q = candidate_fingerprint env c \<and>
            has_link (md_candidate_evidence db) (mc_candidate_id q) (ev_evidence_id e)) (md_candidates db) \<or>
        list_ex (\<lambda>r. mr_owner_id r = owner \<and> mr_knowledge_base_id r = kb \<and> mr_fingerprint r = candidate_fingerprint env c \<and>
            has_link (md_revision_evidence db) (mr_revision_id r) (ev_evidence_id e)) (md_revisions db)"
    using i(2) e(1) by (auto simp: linked_content_def has_link_def list_ex_iff)
  then have q: "tget (\<lambda>db.
              list_ex (\<lambda>q. mc_owner_id q = owner \<and> mc_knowledge_base_id q = kb \<and> mc_fingerprint q = candidate_fingerprint env c \<and>
                has_link (md_candidate_evidence db) (mc_candidate_id q) (ev_evidence_id e)) (md_candidates db) \<or>
              list_ex (\<lambda>r. mr_owner_id r = owner \<and> mr_knowledge_base_id r = kb \<and> mr_fingerprint r = candidate_fingerprint env c \<and>
                has_link (md_revision_evidence db) (mr_revision_id r) (ev_evidence_id e)) (md_revisions db)) db = Inr (True, db)"
    by (simp add: tget_def)
  show ?thesis
    unfolding already_reconciled_def tbind_tget f option.case Let_def candidate_fingerprint_def [symmetric] tbind_def [of "accept_evidence kb item e"] acc sum.case prod.case
    by (rule q)
qed

subsection \<open>What a reconciliation leaves behind\<close>

lemma attach_candidate_all:
  assumes "attach_candidate_evidence cid ids owner kb db = Inr (n, db')"
  shows "\<forall>i\<in>set ids. (cid, i) \<in> set (md_candidate_evidence db')"
proof -
  obtain scoped where s: "validate_evidence_scope ids owner kb db = Inr scoped"
      and a: "(case associate cid scoped (md_candidate_evidence db) of (rows, n) \<Rightarrow> Inr (n, db\<lparr>md_candidate_evidence := rows\<rparr>)) =
        (Inr (n, db') :: (nat \<times> memory_db) result)"
    using assms by (auto simp: attach_candidate_evidence_def split: option.splits)
  obtain rows k where r: "associate cid scoped (md_candidate_evidence db) = (rows, k)" by (cases "associate cid scoped (md_candidate_evidence db)")
  have "set scoped = set ids" using s by (auto simp: validate_evidence_scope_def Let_def split: if_splits)
  then show ?thesis using associate_all [OF r] a r by auto
qed

lemma store_candidate_linked:
  assumes "store_candidate env owner kb row ids db = Inr (c, db')" and "mc_candidate_id (row (fresh_id env db)) = fresh_id env db"
    and "mc_owner_id (row (fresh_id env db)) = owner" "mc_knowledge_base_id (row (fresh_id env db)) = kb"
    and "mc_fingerprint (row (fresh_id env db)) = fp" and "i \<in> set ids"
  shows "linked_content owner kb fp i db'"
proof -
  let ?db1 = "db\<lparr>md_ids := Suc (md_ids db), md_candidates := md_candidates db @ [row (fresh_id env db)]\<rparr>"
  obtain n where a: "attach_candidate_evidence (fresh_id env db) ids owner kb ?db1 = Inr (n, db')"
    using assms(1) by (auto simp: store_candidate_def tx_simps new_id_def)
  obtain l where "db' = ?db1\<lparr>md_candidate_evidence := md_candidate_evidence ?db1 @ l\<rparr>" using attach_candidate_changes [OF a] by blast
  then have "row (fresh_id env db) \<in> set (md_candidates db')" by simp
  then show ?thesis using attach_candidate_all [OF a] assms(2-6) by (auto simp: linked_content_def)
qed

lemma supported_linked:
  assumes g: "governed env db" and "supported owner kb fp ids db" and "i \<in> set ids"
  shows "linked_content owner kb fp i db"
proof -
  obtain m where m: "m \<in> set (md_memories db)" "cm_owner_id m = owner" "cm_knowledge_base_id m = kb" "cm_fingerprint m = fp"
      "(cm_active_revision_id m, i) \<in> set (md_revision_evidence db)"
    using assms(2,3) by (auto simp: supported_def)
  obtain r where "r \<in> set (md_revisions db)" "current_revision m r"
    using governedD(2) [OF g] m(1) by (auto simp: memories_wf_def)
  then show ?thesis using m by (auto simp: linked_content_def current_revision_def revision_of_def same_content_def)
qed

lemma reconcile_knows:
  assumes g: "governed env db" and public: "sens \<noteq> SSecret"
    and run: "reconcile_candidate env owner kb ty s p v c sens ev prov ex actor db = Inr (res, db')"
  shows "\<exists>ids. list_all2 (settled env owner kb db') ev ids \<and>
      (\<forall>i\<in>set ids. linked_content owner kb (memory_fingerprint env (normalize_memory_text s) (normalize_memory_text p) (normalize_memory_text v)) i db') \<and>
      (\<forall>it i. settled env owner kb db it i \<longrightarrow> settled env owner kb db' it i)"
proof -
  let ?ns = "normalize_memory_text s" and ?np = "normalize_memory_text p" and ?nv = "normalize_memory_text v"
  let ?fp = "memory_fingerprint env ?ns ?np ?nv"
  let ?dbl = "db\<lparr>md_locks := md_locks db @ [memory_slot_lock_key env owner kb ty ?ns ?np]\<rparr>"
  let ?conf = "slot_conflict owner kb ty ?ns ?np ?fp db"
  obtain crev confrev dec stored db2 where ty: "ty \<in> set MEMORY_TYPES"
      and dec: "classify_candidate sens c ex (?conf \<noteq> None) = Inr dec"
      and ev: "persist_evidence env owner kb ev ?dbl = Inr (stored, db2)"
      and st: "settle_candidate env owner kb ty ?ns ?np ?nv ?fp c sens prov ex actor dec (find_active_memory owner kb ?fp db)
        crev ?conf confrev (map ev_evidence_id stored) db2 = Inr (res, db')"
      and cr: "active_revision_of (find_active_memory owner kb ?fp db) owner kb db = Inr crev"
    by (rule reconcile_decompose [OF run public])
  let ?ids = "map ev_evidence_id stored"
  have unit: "unit_interval c" and decs: "dec = Promote \<or> dec = Pending" using classify_cases [OF dec] public by (cases dec; auto)+
  have e2: "evidence_step ?dbl db2" using persist_evidence_changes [OF ev] by simp
  have same: "find_active_memory owner kb ?fp db2 = find_active_memory owner kb ?fp db"
      "active_revision_of x owner kb db2 = active_revision_of x owner kb db" for x
    using e2 by (simp_all add: evidence_step_def find_active_memory_def active_revision_of_def load_active_revision_def
        split: option.split)
  have row: "candidate_fields_ok env (candidate_row env i owner kb ty ?ns ?np ?nv ?fp c sens prov dec ?conf confrev)" for i
    using public unit ty normalize_content [of env s p v] decs
    by (auto simp: candidate_row_def candidate_fields_ok_def)
  have gl: "governed env ?dbl" by (rule governed_changes [OF lock_changes g])
  have g': "governed env db'" by (rule governed_changes [OF reconcile_candidate_changes [OF run g] g])
  have after: "md_evidence db' = md_evidence db2 \<and> (\<forall>i\<in>set ?ids. linked_content owner kb ?fp i db')"
  proof (cases "dec = Promote")
    case True
    have cr2: "active_revision_of (find_active_memory owner kb ?fp db) owner kb db2 = Inr crev" using cr same(2) by metis
    have "supported owner kb ?fp ?ids db' \<and> md_evidence db' = md_evidence db2"
      by (rule settle_supports [OF st [unfolded True] same(1) [symmetric] cr2 _ _ _ _ row [unfolded True]]) simp_all
    then show ?thesis using supported_linked [OF g'] by blast
  next
    case False
    then have d: "dec = Pending" using decs by simp
    obtain cand where s: "store_candidate env owner kb (\<lambda>cid. candidate_row env cid owner kb ty ?ns ?np ?nv ?fp c sens prov dec ?conf confrev)
        ?ids db2 = Inr (cand, db')"
      using st d by (auto simp: settle_candidate_def tx_simps)
    have "md_evidence db' = md_evidence db2" using store_candidate_changes [OF s _ _ _ row] by (simp add: candidate_row_def)
    then show ?thesis using store_candidate_linked [OF s] by (simp add: candidate_row_def)
  qed
  have "list_all2 (settled env owner kb db2) ev ?ids" and mono: "\<forall>it i. settled env owner kb ?dbl it i \<longrightarrow> settled env owner kb db2 it i"
    using persist_evidence_settles [OF ev gl] by simp_all
  then have "list_all2 (settled env owner kb db') ev ?ids" using list_all2_settled_evidence after by blast
  moreover have "settled env owner kb db' it i" if "settled env owner kb db it i" for it i
    using that mono after by (auto simp: settled_def)
  ultimately show ?thesis using after by blast
qed

subsection \<open>Extraction again\<close>

lemma quoted_time [simp]: "quoted_evidence (at_time env t u) evd doc c = quoted_evidence env evd doc c"
  by (simp add: quoted_evidence_def at_time_def)

lemma known_time [simp]: "known_content (at_time env t u) owner kb c item db = known_content env owner kb c item db"
  by (simp add: known_content_def candidate_fingerprint_def)

lemma already_reconciled_cases:
  assumes "already_reconciled env owner kb c item db = Inr (b, db')"
  obtains (fresh) "\<not> b" "db' = db"
    | (stored) x e where "x \<in> set (md_evidence db)" "ev_owner_id x = owner" "ev_knowledge_base_id x = kb"
        "ev_identity_hash x = evidence_identity env owner kb (ei_source_type item) (ei_source_id item) (ei_source_version item) (ei_content_hash item)"
        "accept_evidence kb item x db = Inr (e, db')" "b = linked_content owner kb (candidate_fingerprint env c) (ev_evidence_id e) db'"
proof (cases "find (\<lambda>e. ev_identity_hash e = evidence_identity env owner kb (ei_source_type item) (ei_source_id item)
         (ei_source_version item) (ei_content_hash item) \<and> ev_owner_id e = owner \<and> ev_knowledge_base_id e = kb) (md_evidence db)")
  case None
  then show thesis using assms fresh by (simp add: already_reconciled_def tx_run)
next
  case (Some x)
  then obtain e where "accept_evidence kb item x db = Inr (e, db')"
      "b = linked_content owner kb (candidate_fingerprint env c) (ev_evidence_id e) db'"
    using assms unfolding already_reconciled_def tbind_tget Some option.case Let_def candidate_fingerprint_def [symmetric]
    by (auto simp: tx_simps linked_content_def has_link_def list_ex_iff)
  then show thesis using stored find_SomeD [OF Some] by blast
qed

definition grows :: "memory_env \<Rightarrow> int \<Rightarrow> string option \<Rightarrow> memory_db \<Rightarrow> memory_db \<Rightarrow> bool" where
  "grows env owner kb db db' \<longleftrightarrow> governed env db' \<and> history_kept db db' \<and>
     (\<forall>it i. settled env owner kb db it i \<longrightarrow> settled env owner kb db' it i)"

lemma grows_refl: "governed env db \<Longrightarrow> grows env owner kb db db"
  by (simp add: grows_def history_kept_refl)

lemma grows_trans: "grows env owner kb a b \<Longrightarrow> grows env owner kb b c \<Longrightarrow> grows env owner kb a c"
  unfolding grows_def using history_kept_trans by blast

lemma known_grows: "grows env owner kb db db' \<Longrightarrow> known_content env owner kb c item db \<Longrightarrow> known_content env owner kb c item db'"
  unfolding grows_def known_content_def using linked_kept by blast

lemma changes_grow:
  assumes "changes env owner kb db db'" and "governed env db" and "\<forall>it i. settled env owner kb db it i \<longrightarrow> settled env owner kb db' it i"
  shows "grows env owner kb db db'"
  using memory_tables.changes_inv [OF assms(1,2)] memory_tables.changes_kept [OF assms(1,2)] assms(3) by (simp add: grows_def)

lemma accept_grows:
  assumes g: "governed env db" and run: "accept_evidence kb item x db = Inr (e, db')" and x: "x \<in> set (md_evidence db)" "ev_owner_id x = owner"
    and "ev_identity_hash x = evidence_identity env owner kb (ei_source_type item) (ei_source_id item) (ei_source_version item) (ei_content_hash item)"
  shows "grows env owner kb db db' \<and> settled env owner kb db' item (ev_evidence_id e)"
proof -
  have d: "distinct (map ev_evidence_id (md_evidence db))"
    using governedD(1) [OF g] by (simp add: ids_wf_def row_ids_def)
  show ?thesis
    using accept_settles [OF run x assms(5) d] changes_grow [OF _ g] accept_evidence_changes [OF run x, of env] by blast
qed

lemma extracted_knows:
  assumes g: "governed env db" and public: "candidate_sensitivity c \<noteq> SSecret"
    and run: "reconcile_extracted (at_time env t u) evd owner kb ex doc c db = Inr (x, db')"
  shows "grows env owner kb db db' \<and> known_content env owner kb c (quoted_evidence env evd doc c) db'"
proof -
  let ?e = "at_time env t u" and ?item = "quoted_evidence env evd doc c"
  obtain b db1 where ar: "already_reconciled ?e owner kb c ?item db = Inr (b, db1)"
    and rest: "(if b then treturn ()
       else tbind (reconcile_candidate ?e owner kb (xc_memory_type c) (xc_subject c) (xc_predicate c) (xc_value c)
         (xc_confidence c) (candidate_sensitivity c) [?item]
         (extraction_provenance evd doc c) ex ''memory-extraction'') (\<lambda>_. treturn ())) db1 = Inr (x, db')"
    using run unfolding reconcile_extracted_def quoted_time tbind_Inr [of "already_reconciled ?e owner kb c ?item"] by blast
  have first: "grows env owner kb db db1 \<and> (b \<longrightarrow> known_content env owner kb c ?item db1)"
    using ar
  proof (cases rule: already_reconciled_cases)
    case fresh
    then show ?thesis using grows_refl [OF g] by simp
  next
    case (stored x e)
    have "ev_identity_hash x = evidence_identity env owner kb (ei_source_type ?item) (ei_source_id ?item) (ei_source_version ?item) (ei_content_hash ?item)"
      using stored(4) by (simp add: evidence_identity_def canonical_identity_def at_time_def)
    from accept_grows [OF g stored(5,1,2) this] show ?thesis
      using stored(6) by (auto simp: known_content_def candidate_fingerprint_def)
  qed
  show ?thesis
  proof (cases b)
    case True
    then show ?thesis using rest first by (auto simp: treturn_def)
  next
    case False
    then obtain res where r: "reconcile_candidate ?e owner kb (xc_memory_type c) (xc_subject c) (xc_predicate c) (xc_value c)
         (xc_confidence c) (candidate_sensitivity c) [?item] (extraction_provenance evd doc c) ex ''memory-extraction'' db1 = Inr (res, db')"
      using rest by (auto simp: tx_simps)
    have g1: "governed ?e db1" using first by (simp add: grows_def)
    from reconcile_knows [OF g1 public r] obtain ids where ids: "list_all2 (settled env owner kb db') [?item] ids"
        "\<forall>i\<in>set ids. linked_content owner kb (candidate_fingerprint env c) i db'"
        "\<forall>it i. settled env owner kb db1 it i \<longrightarrow> settled env owner kb db' it i"
      by (auto simp: candidate_fingerprint_def)
    have "changes env owner kb db1 db'" by (rule at_time_changes [OF reconcile_candidate_changes [OF r g1]])
    then have "grows env owner kb db1 db'" by (rule changes_grow) (use g1 ids(3) in simp_all)
    moreover have "known_content env owner kb c ?item db'" using ids(1,2) by (auto simp: known_content_def list_all2_Cons1)
    ultimately show ?thesis using first grows_trans by blast
  qed
qed

lemma reconcile_all_knows:
  "governed env db \<Longrightarrow> reconcile_all (at_time env t u) evd owner kb ex doc cs db = (db', Inr ()) \<Longrightarrow>
   grows env owner kb db db' \<and>
   (\<forall>c\<in>set cs. candidate_sensitivity c \<noteq> SSecret \<longrightarrow> known_content env owner kb c (quoted_evidence env evd doc c) db')"
proof (induction cs arbitrary: db)
  case Nil
  then show ?case by (simp add: areturn_def grows_refl)
next
  case (Cons c cs)
  show ?case
  proof (cases "candidate_sensitivity c = SSecret")
    case True
    then show ?thesis using Cons by auto
  next
    case False
    then obtain db1 where one: "reconcile_extracted (at_time env t u) evd owner kb ex doc c db = Inr ((), db1)"
      and rest: "reconcile_all (at_time env t u) evd owner kb ex doc cs db1 = (db', Inr ())"
      using Cons.prems(2) by (auto simp: abind_def in_transaction_def split: sum.splits prod.splits)
    note k = extracted_knows [OF Cons.prems(1) False one]
    then have "grows env owner kb db1 db' \<and>
       (\<forall>c\<in>set cs. candidate_sensitivity c \<noteq> SSecret \<longrightarrow> known_content env owner kb c (quoted_evidence env evd doc c) db')"
      using Cons.IH [OF _ rest] by (simp add: grows_def)
    then show ?thesis using k known_grows grows_trans by (metis set_ConsD)
  qed
qed

lemma reconcile_all_known:
  assumes g: "governed env db"
  shows "\<forall>c\<in>set cs. candidate_sensitivity c \<noteq> SSecret \<longrightarrow> known_content env owner kb c (quoted_evidence env evd doc c) db \<Longrightarrow>
    reconcile_all (at_time env t u) evd owner kb ex doc cs db = (db, Inr ())"
proof (induction cs)
  case (Cons c cs)
  show ?case
  proof (cases "candidate_sensitivity c = SSecret")
    case False
    then have "already_reconciled (at_time env t u) owner kb c (quoted_evidence (at_time env t u) evd doc c) db = Inr (True, db)"
      using known_recognised [of "at_time env t u" db owner kb c] g Cons.prems by simp
    then have "reconcile_extracted (at_time env t u) evd owner kb ex doc c db = Inr ((), db)"
      by (simp add: reconcile_extracted_def tbind_def treturn_def)
    then show ?thesis using Cons False by (simp add: abind_def in_transaction_def)
  qed (use Cons in simp)
qed (simp add: areturn_def)

end
