(* ===== verification/AgentReplay.thy ===== *)
theory AgentReplay
  imports AgentProps MemoryRedelivery
begin

text \<open>What repeated deliveries of source events do to memory.\<close>

subsection \<open>Extraction again\<close>

lemma extract_run:
  assumes "extract_and_reconcile env evd owner kb ex doc w = (w', Inr ())" and "\<not> contains_secret (xi_excerpt evd)"
  obtains cs db where "extract_candidates (ee_configured env) (ee_provider env) evd = Inr cs"
    "reconcile_all (ae_memory env) evd owner kb ex doc cs (ag_memory w) = (db, Inr ())" "w' = w\<lparr>ag_memory := db\<rparr>"
  using assms by (auto simp: extract_and_reconcile_def with_memory_def araise_def split: sum.splits prod.splits)

text \<open>
  C5. A source is learned once: when an excerpt was extracted and reconciled with success, extracting it again at
  any later moment changes nothing at all, as long as the model names no candidate it did not name before
  (in whatever order and number). Redelivered events and retried tasks therefore neither duplicate memories nor
  raise confidences.
\<close>

theorem replayed_source_learns_nothing:
  assumes "agent_reachable env w" and "inj (me_uuid (ae_memory env))"
    and first: "extract_and_reconcile (at_moment t u embedder provider env) evd owner kb ex doc w = (w1, Inr ())"
    and "extract_candidates (ee_configured env) provider evd = Inr cs"
    and "extract_candidates (ee_configured env) provider' evd = Inr cs'" and "set cs' \<subseteq> set cs"
  shows "extract_and_reconcile (at_moment t' u' embedder' provider' env) evd owner kb ex doc w1 = (w1, Inr ())"
proof (cases "contains_secret (xi_excerpt evd)")
  case True
  then show ?thesis by (simp add: extract_and_reconcile_def areturn_def)
next
  case False
  let ?e = "ae_memory env"
  have "deep_governed ?e (ag_memory w)"
    using reachable_components [OF assms(1)] history_governed [OF _ assms(2)] by (simp add: components_ok_def)
  then have g: "governed ?e (ag_memory w)" by (simp add: deep_governed_def governed_def deep_wf_def)
  from first False obtain db where run: "reconcile_all (at_time ?e t u) evd owner kb ex doc cs (ag_memory w) = (db, Inr ())"
    and w1: "w1 = w\<lparr>ag_memory := db\<rparr>"
    by (rule extract_run) (use assms(4) in \<open>auto simp: at_moment_def\<close>)
  have k: "grows ?e owner kb (ag_memory w) db"
      "\<forall>c\<in>set cs. candidate_sensitivity c \<noteq> SSecret \<longrightarrow> known_content ?e owner kb c (quoted_evidence ?e evd doc c) db"
    using reconcile_all_knows [OF g run] by simp_all
  have "reconcile_all (at_time ?e t' u') evd owner kb ex doc cs' db = (db, Inr ())"
    by (rule reconcile_all_known) (use k assms(6) in \<open>auto simp: grows_def\<close>)
  then show ?thesis using False assms(5) by (simp add: extract_and_reconcile_def with_memory_def at_moment_def w1)
qed

definition demo_excerpt :: extraction_input where
  "demo_excerpt = \<lparr>xi_source_type = ''conversation'', xi_source_id = ''s1'', xi_source_version = ''m1'', xi_excerpt = ''hello'',
     xi_occurred_at = 3\<rparr>"

definition demo_learned :: memory_db where
  "demo_learned = fst (reconcile_all wide_env demo_excerpt 7 None False None [demo_fact] empty_db)"

lemma demo_learning:
  "extract_and_reconcile demo_service demo_excerpt 7 None False None no_agent_rows = (no_agent_rows\<lparr>ag_memory := demo_learned\<rparr>, Inr ())"
proof -
  have "\<not> contains_secret (xi_excerpt demo_excerpt)" "extract_candidates True demo_provider demo_excerpt = Inr [demo_fact]" by code_simp+
  moreover have "snd (reconcile_all wide_env demo_excerpt 7 None False None [demo_fact] empty_db) = Inr ()" by code_simp
  then have "reconcile_all wide_env demo_excerpt 7 None False None [demo_fact] empty_db = (demo_learned, Inr ())"
    by (simp add: demo_learned_def prod_eq_iff)
  ultimately show ?thesis
    by (simp add: extract_and_reconcile_def with_memory_def demo_service_def no_agent_rows_def)
qed

lemma replayed_source_learns_nothing_witness:
  "map cm_value (md_memories demo_learned) = [''tea''] \<and>
   extract_and_reconcile (at_moment 20 21 demo_embedder (\<lambda>_. Answered (Some [demo_fact, demo_fact])) demo_service)
     demo_excerpt 7 None False None (no_agent_rows\<lparr>ag_memory := demo_learned\<rparr>) = (no_agent_rows\<lparr>ag_memory := demo_learned\<rparr>, Inr ())"
proof -
  let ?p = "\<lambda>_. Answered (Some [demo_fact, demo_fact])"
  have v: "map cm_value (md_memories demo_learned) = [''tea'']" by code_simp
  have c: "extract_candidates (ee_configured demo_service) demo_provider demo_excerpt = Inr [demo_fact]"
    "extract_candidates (ee_configured demo_service) ?p demo_excerpt = Inr [demo_fact, demo_fact]" by code_simp+
  have "extract_and_reconcile (at_moment 10 10 demo_embedder demo_provider demo_service) demo_excerpt 7 None False None no_agent_rows =
      (no_agent_rows\<lparr>ag_memory := demo_learned\<rparr>, Inr ())" unfolding demo_moment by (rule demo_learning)
  from replayed_source_learns_nothing [OF No_agent_rows demo_uuid this c] v show ?thesis by simp
qed

end
