(* ===== verification/SettingsOrder.thy ===== *)
theory SettingsOrder
  imports AgentDemo
begin

text \<open>
  The memory settings of an owner converge: they depend on which settings events were applied, not on the order or
  number of deliveries.
\<close>

definition settings_of :: "int \<Rightarrow> ('k, 'v) agent_db \<Rightarrow> memory_settings option" where
  "settings_of owner w = find (\<lambda>r. ms_owner_id r = owner) (ag_settings w)"

definition deliver_settings ::
  "('k, 'v, 'x) event_env_scheme \<Rightarrow> agent_envelope list \<Rightarrow> ('k, 'v) agent_db \<Rightarrow> ('k, 'v) agent_db" where
  "deliver_settings env es w = fold (\<lambda>e w. fst (handle_memory_settings_changed env e w)) es w"

text \<open>What one event does to the row of an owner.\<close>

definition settings_step :: "('k, 'v, 'x) event_env_scheme \<Rightarrow> int \<Rightarrow> agent_envelope \<Rightarrow> memory_settings option \<Rightarrow> memory_settings option" where
  "settings_step env owner e row =
     (if en_owner_id e = owner then
        (case ee_settings_changed env (en_payload e) of None \<Rightarrow> row
         | Some p \<Rightarrow> Some (updated_settings e p (case row of None \<Rightarrow> new_settings owner | Some r \<Rightarrow> r)))
      else row)"

lemma updated_owner [simp]: "ms_owner_id (updated_settings e p r) = ms_owner_id r"
  by (simp add: updated_settings_def Let_def split: option.split)

lemma find_update_key:
  assumes "\<And>r. k (f r) = k r"
  shows "find (\<lambda>r. k r = x) (update_where (\<lambda>r. k r = y) f rows) =
    (if x = y then map_option f (find (\<lambda>r. k r = x) rows) else find (\<lambda>r. k r = x) rows)"
  using assms by (induction rows) (auto simp: update_where_def)

lemma find_stored_or_new:
  "find (\<lambda>r. key r = x) (fst (insert_if_absent key row rows)) =
    (if x = key row \<and> find (\<lambda>r. key r = x) rows = None then Some row else find (\<lambda>r. key r = x) rows)"
proof -
  have "find P (rows @ [row]) = (case find P rows of None \<Rightarrow> (if P row then Some row else None) | Some y \<Rightarrow> Some y)" for P
    by (induction rows) auto
  then show ?thesis by (auto simp: insert_if_absent_def split: option.split)
qed

lemma settings_handled: "settings_of owner (fst (handle_memory_settings_changed env e w)) = settings_step env owner e (settings_of owner w)"
  by (auto simp: handle_memory_settings_changed_def apply_settings_def in_transaction_def tmodify_def tfail_def settings_step_def
      settings_of_def Let_def find_update_key find_stored_or_new new_settings_def split: option.split)

lemma settings_delivered: "settings_of owner (deliver_settings env es w) = fold (settings_step env owner) es (settings_of owner w)"
  unfolding deliver_settings_def by (induction es arbitrary: w) (simp_all add: settings_handled)

subsection \<open>Order and repetition\<close>

lemma newer_than_stored [simp]: "newer_than e (Some (en_occurred_at x)) (Some (en_event_id x)) \<longleftrightarrow> event_stamp x < event_stamp e"
  by (simp add: newer_than_def event_stamp_def)

lemma newer_than_trans: "newer_than x t i \<Longrightarrow> event_stamp x < event_stamp e \<Longrightarrow> newer_than e t i"
  by (auto simp: newer_than_def split: option.splits intro: less_trans simp del: less_prod_simp)

definition update_automatic :: "agent_envelope \<Rightarrow> bool option \<Rightarrow> memory_settings \<Rightarrow> memory_settings" where
  "update_automatic e b r = (case b of None \<Rightarrow> r | Some b \<Rightarrow> if newer_than e (ms_last_event_occurred_at r) (ms_last_event_id r)
     then r\<lparr>ms_automatic_conversation_memory := b, ms_last_event_occurred_at := Some (en_occurred_at e),
       ms_last_event_id := Some (en_event_id e)\<rparr> else r)"

definition update_ads :: "agent_envelope \<Rightarrow> bool option \<Rightarrow> memory_settings \<Rightarrow> memory_settings" where
  "update_ads e b r = (case b of None \<Rightarrow> r | Some b \<Rightarrow> if newer_than e (ms_ad_last_event_occurred_at r) (ms_ad_last_event_id r)
     then r\<lparr>ms_ad_personalization_enabled := b, ms_ad_last_event_occurred_at := Some (en_occurred_at e),
       ms_ad_last_event_id := Some (en_event_id e)\<rparr> else r)"

lemma updated_parts: "updated_settings e p r = update_ads e (sp_ad_personalization_enabled p) (update_automatic e (sp_automatic_conversation_memory p) r)"
  by (simp add: updated_settings_def update_ads_def update_automatic_def Let_def split: option.split)

lemma parts_commute: "update_ads e b (update_automatic x c r) = update_automatic x c (update_ads e b r)"
  by (simp add: update_ads_def update_automatic_def split: option.split)

lemma automatic_commute:
  assumes "event_stamp e < event_stamp x"
  shows "update_automatic e b (update_automatic x c r) = update_automatic x c (update_automatic e b r)"
  using assms newer_than_trans [OF _ assms] by (auto simp: update_automatic_def split: option.split)

lemma ads_commute:
  assumes "event_stamp e < event_stamp x"
  shows "update_ads e b (update_ads x c r) = update_ads x c (update_ads e b r)"
  using assms newer_than_trans [OF _ assms] by (auto simp: update_ads_def split: option.split)

lemma updated_commute:
  assumes "event_stamp e \<noteq> event_stamp x"
  shows "updated_settings e p (updated_settings x q r) = updated_settings x q (updated_settings e p r)"
proof -
  have "event_stamp e < event_stamp x \<or> event_stamp x < event_stamp e" using assms by (rule neqE) simp_all
  then show ?thesis using automatic_commute ads_commute unfolding updated_parts parts_commute by metis
qed

lemma updated_twice: "updated_settings e p (updated_settings e p r) = updated_settings e p r"
  by (simp add: updated_parts update_ads_def update_automatic_def split: option.split)

lemma step_twice: "settings_step env owner e (settings_step env owner e row) = settings_step env owner e row"
  by (simp add: settings_step_def updated_twice split: option.split)

lemma step_commute:
  assumes "event_stamp e = event_stamp x \<longrightarrow> e = x"
  shows "settings_step env owner e (settings_step env owner x row) = settings_step env owner x (settings_step env owner e row)"
proof (cases "e = x")
  case False
  then have "event_stamp e \<noteq> event_stamp x" using assms by blast
  then show ?thesis using updated_commute [of e x] by (simp add: settings_step_def split: option.split)
qed simp

lemma fold_same_set:
  assumes "inj_on event_stamp (set es)" and "set es' = set es"
  shows "fold (settings_step env owner) es' row = fold (settings_step env owner) es row"
proof -
  have swap: "settings_step env owner y (settings_step env owner x r) = settings_step env owner x (settings_step env owner y r)"
    if "x \<in> set es" "y \<in> set es" for x y r
    by (rule step_commute) (use assms(1) that in \<open>auto simp: inj_on_def\<close>)
  have c: "comp_fun_idem_on (set es) (settings_step env owner)"
    by unfold_locales (simp_all add: fun_eq_iff step_twice swap)
  show ?thesis
    using comp_fun_idem_on.fold_set_fold [OF c, of es row] comp_fun_idem_on.fold_set_fold [OF c, of es' row] assms(2) by simp
qed

subsection \<open>The newest event decides\<close>

definition carries :: "('k, 'v, 'x) event_env_scheme \<Rightarrow> int \<Rightarrow> agent_envelope \<Rightarrow> bool \<Rightarrow> bool" where
  "carries env owner e b \<longleftrightarrow> en_owner_id e = owner \<and>
     (case ee_settings_changed env (en_payload e) of None \<Rightarrow> False | Some p \<Rightarrow> sp_automatic_conversation_memory p = Some b)"

definition decided_by :: "('k, 'v, 'x) event_env_scheme \<Rightarrow> int \<Rightarrow> agent_envelope list \<Rightarrow> agent_envelope \<Rightarrow> memory_settings \<Rightarrow> bool" where
  "decided_by env owner es x r \<longleftrightarrow> x \<in> set es \<and> carries env owner x (ms_automatic_conversation_memory r) \<and>
     ms_last_event_occurred_at r = Some (en_occurred_at x) \<and> ms_last_event_id r = Some (en_event_id x) \<and>
     (\<forall>y\<in>set es. \<forall>b. carries env owner y b \<longrightarrow> event_stamp y \<le> event_stamp x)"

definition undecided :: "('k, 'v, 'x) event_env_scheme \<Rightarrow> int \<Rightarrow> agent_envelope list \<Rightarrow> memory_settings \<Rightarrow> bool" where
  "undecided env owner es r \<longleftrightarrow> (\<forall>y\<in>set es. \<forall>b. \<not> carries env owner y b) \<and> ms_last_event_occurred_at r = None"

lemma carries_unique: "carries env owner e b \<Longrightarrow> carries env owner e c \<Longrightarrow> b = c"
  by (auto simp: carries_def split: option.splits)

lemma ads_leave_automatic [simp]:
  "ms_automatic_conversation_memory (update_ads e b r) = ms_automatic_conversation_memory r"
  "ms_last_event_occurred_at (update_ads e b r) = ms_last_event_occurred_at r"
  "ms_last_event_id (update_ads e b r) = ms_last_event_id r"
  by (simp_all add: update_ads_def split: option.split)

lemma decided_step:
  assumes r: "undecided env owner es r \<or> (\<exists>x. decided_by env owner es x r)"
    and p: "ee_settings_changed env (en_payload e) = Some p" "en_owner_id e = owner"
  shows "undecided env owner (es @ [e]) (updated_settings e p r) \<or> (\<exists>x. decided_by env owner (es @ [e]) x (updated_settings e p r))"
proof (cases "sp_automatic_conversation_memory p")
  case None
  then have "\<not> carries env owner e b" for b using p by (simp add: carries_def)
  then show ?thesis using r None by (auto simp: undecided_def decided_by_def updated_parts update_automatic_def)
next
  case (Some b)
  then have c: "carries env owner e d \<longleftrightarrow> d = b" for d using p by (auto simp: carries_def)
  show ?thesis
  proof (cases "newer_than e (ms_last_event_occurred_at r) (ms_last_event_id r)")
    case True
    have "event_stamp y \<le> event_stamp e" if y: "y \<in> set es" "carries env owner y d" for y d
    proof -
      obtain x where x: "decided_by env owner es x r" using r y unfolding undecided_def by blast
      then have "event_stamp y \<le> event_stamp x" "event_stamp x < event_stamp e" using y True by (auto simp: decided_by_def)
      then show ?thesis by (rule order.strict_implies_order [OF order.strict_trans1])
    qed
    then have "decided_by env owner (es @ [e]) e (updated_settings e p r)"
      using True Some c by (auto simp: decided_by_def updated_parts update_automatic_def)
    then show ?thesis by blast
  next
    case False
    then have "ms_last_event_occurred_at r \<noteq> None" by (cases "ms_last_event_occurred_at r") (simp_all add: newer_than_def)
    then obtain x where x: "decided_by env owner es x r" using r by (auto simp: undecided_def)
    then have "event_stamp e \<le> event_stamp x" using False by (simp add: decided_by_def)
    then have "decided_by env owner (es @ [e]) x (updated_settings e p r)"
      using x False Some by (auto simp: decided_by_def updated_parts update_automatic_def)
    then show ?thesis by blast
  qed
qed

lemma newest_decides:
  "case fold (settings_step env owner) es None of
     None \<Rightarrow> \<forall>y\<in>set es. \<forall>b. \<not> carries env owner y b
   | Some r \<Rightarrow> undecided env owner es r \<or> (\<exists>x. decided_by env owner es x r)"
proof (induction es rule: rev_induct)
  case (snoc e es)
  let ?row = "fold (settings_step env owner) es None"
  show ?case
  proof (cases "en_owner_id e = owner \<and> ee_settings_changed env (en_payload e) \<noteq> None")
    case True
    then obtain p where p: "ee_settings_changed env (en_payload e) = Some p" "en_owner_id e = owner" by blast
    have "undecided env owner es (case ?row of None \<Rightarrow> new_settings owner | Some r \<Rightarrow> r) \<or>
        (\<exists>x. decided_by env owner es x (case ?row of None \<Rightarrow> new_settings owner | Some r \<Rightarrow> r))"
      using snoc by (cases ?row) (simp_all add: undecided_def new_settings_def)
    from decided_step [OF this p] show ?thesis using p by (simp add: settings_step_def [of env owner e])
  next
    case False
    then have "\<not> carries env owner e b" for b by (auto simp: carries_def)
    moreover have "settings_step env owner e ?row = ?row" using False by (auto simp: settings_step_def)
    ultimately show ?thesis using snoc by (cases ?row) (simp_all add: undecided_def decided_by_def, blast)
  qed
qed simp

text \<open>
  C14. The settings of an owner converge: whatever order settings events arrive in and however often they are
  repeated, the same events leave the same settings, and of the events that carry the switch for conversation memory
  the one that happened last decides.
\<close>

theorem settings_last_writer_wins:
  assumes "inj_on event_stamp (set es)" and "set es' = set es" and "settings_of owner w = None"
  shows "settings_of owner (deliver_settings env es' w) = settings_of owner (deliver_settings env es w) \<and>
    (\<forall>e\<in>set es. \<forall>b. carries env owner e b \<and> (\<forall>x\<in>set es. \<forall>c. carries env owner x c \<longrightarrow> event_stamp x \<le> event_stamp e) \<longrightarrow>
       map_option ms_automatic_conversation_memory (settings_of owner (deliver_settings env es' w)) = Some b)"
proof (intro conjI ballI allI impI)
  show same: "settings_of owner (deliver_settings env es' w) = settings_of owner (deliver_settings env es w)"
    unfolding settings_delivered by (rule fold_same_set [OF assms(1,2)])
  fix e b
  assume e: "e \<in> set es" and c: "carries env owner e b \<and> (\<forall>x\<in>set es. \<forall>c. carries env owner x c \<longrightarrow> event_stamp x \<le> event_stamp e)"
  then obtain r x where r: "fold (settings_step env owner) es None = Some r" and x: "decided_by env owner es x r"
    using newest_decides [of es env owner] unfolding undecided_def by (auto split: option.splits)
  have "event_stamp x = event_stamp e" using x c e by (intro antisym) (auto simp: decided_by_def)
  then have "x = e" using assms(1) x e by (auto simp: decided_by_def dest: inj_onD)
  then have "ms_automatic_conversation_memory r = b" using x c carries_unique unfolding decided_by_def by blast
  then show "map_option ms_automatic_conversation_memory (settings_of owner (deliver_settings env es' w)) = Some b"
    unfolding same unfolding settings_delivered assms(3) r by simp
qed

definition switch_event :: "string \<Rightarrow> instant \<Rightarrow> int \<Rightarrow> agent_envelope" where
  "switch_event i t n = demo_event i ''user.memory_settings.changed'' t n"

definition switch_service :: "(json, nat) event_env" where
  "switch_service = demo_service\<lparr>ee_settings_changed := demo_payload
     [(1, \<lparr>sp_automatic_conversation_memory = Some True, sp_ad_personalization_enabled = None\<rparr>),
      (2, \<lparr>sp_automatic_conversation_memory = Some False, sp_ad_personalization_enabled = Some True\<rparr>)]\<rparr>"

lemma settings_last_writer_wins_witness:
  "map_option ms_automatic_conversation_memory
     (settings_of 7 (deliver_settings switch_service [switch_event ''s2'' 8 2, switch_event ''s1'' 5 1, switch_event ''s2'' 8 2] no_agent_rows)) = Some False"
proof -
  let ?a = "switch_event ''s1'' 5 1" and ?b = "switch_event ''s2'' 8 2"
  have s: "event_stamp ?a = (5, ''s1'')" "event_stamp ?b = (8, ''s2'')"
    by (simp_all add: switch_event_def demo_event_def event_stamp_def event_order_def)
  have i: "inj_on event_stamp (set [?a, ?b])" by (auto simp: inj_on_def s)
  have c: "carries switch_service 7 ?b False"
    by (simp add: carries_def switch_service_def demo_payload_def switch_event_def demo_event_def)
  have n: "settings_of 7 no_agent_rows = None" by (simp add: settings_of_def no_agent_rows_def)
  have "(\<forall>x\<in>set [?a, ?b]. \<forall>c. carries switch_service 7 x c \<longrightarrow> event_stamp x \<le> event_stamp ?b)"
    by (auto simp: s)
  then show ?thesis using settings_last_writer_wins [OF i _ n, of "[?b, ?a, ?b]" switch_service] c by auto
qed

text \<open>
  A conversation asks for the setting of now, not of its own time: when memory is switched on after the
  conversation, the order of delivery decides whether the conversation is read.
\<close>

lemma late_conversation_reads_later_setting:
  "snd (automatic_conversation_enabled switch_service (demo_event ''c'' ''conversation.completed'' 2 0) no_agent_rows) = Inr False"
  "snd (automatic_conversation_enabled switch_service (demo_event ''c'' ''conversation.completed'' 2 0)
     (deliver_settings switch_service [switch_event ''s1'' 5 1] no_agent_rows)) = Inr True"
  by code_simp+

end
