(* ===== verification/Spec2Isabelle.thy ===== *)
theory Spec2Isabelle
  imports TaskState RunLog Fences MemoryReplay FolderProps DeletionProps ProjectionProps AgentDeletion AgentReplay SettingsOrder
begin

text \<open>
  Verification of the Mneme backend (\<open>src/app/mneme\<close>): a personal knowledge service. A main application
  stores documents, conversations and tasks; an agent service (\<open>memoria/server\<close>) keeps governed memories
  derived from them. The two talk through an Outbox of events, workers drain queues, and PostgreSQL holds
  the state. The development models the state machines, tables and transactions that decide whether that
  state stays consistent under retries, crashes, concurrent workers and late events.

  \<^bold>\<open>How the code is translated.\<close> A table is a list of rows (records, in insertion order), a database a record of
  tables, a query a filter, an UPDATE or DELETE with a WHERE clause \<open>update_where\<close> or \<open>delete_where\<close> (theory
  Tables). A transaction is a function from the database to an error or a result with the new database
  (\<open>tx\<close>, theory Prelude), so an exception rolls everything back; unique indexes and check constraints are
  tested where the code flushes. Exceptions are values of \<open>py_error\<close>. Time is an integer of microseconds that
  is passed in wherever the code reads a clock. Python integers are \<open>int\<close>, confidences \<open>real\<close> (floating point
  rounding is not modelled), strings lists of 8-bit characters. Loops over queues and trees are recursive
  functions with a termination proof; the recursive SQL queries of the folders are \<open>partial_function\<close>, whose
  result None is a query that never returns, and reachable states are proved to return. Concurrency is an
  explicit sequence of steps: each transaction is one step, and a handler that runs several transactions is
  split where another worker may come between. The dispatch of one inbox event is one step, because it holds the
  advisory locks of the event and of its scope throughout.

  \<^bold>\<open>Parts.\<close>
  \<^item> Prelude, Tables: errors, transactions, JSON values, list and table lemmas shared by all parts. Patterns: the
    regular expressions that recognise secrets, as a matcher over the patterns of the source.
  \<^item> TaskState (\<open>domains/tasks/state.py\<close>, \<open>crud/task.py\<close>, \<open>domains/tasks/maintenance.py\<close>,
    \<open>tasks/maintenance_tasks.py\<close>): the status machine of background tasks and the maintenance queue with
    submission, claim, final write and stale recovery. Lemmas: succeeded records are frozen, attempts are bounded,
    what the final write stores on every branch.
  \<^item> Outbox (\<open>domains/tasks/outbox.py\<close>, \<open>crud/outbox_event.py\<close>): producers with deduplication, routing of an
    event to its handler, retry or dead letter, and dispatch. Lemmas: enqueueing is idempotent, every branch of
    processing, each matched event is attempted once per dispatch, an always failing event is dead after exactly
    its limit of attempts (one for a memory agent event whose error is not retryable, else its maximum), attempts
    stay bounded under interleaved workers and crashes.
  \<^item> RunEvents, RunStore, Automation, Runs, RunLog (\<open>memoria/runs.py\<close>, \<open>memoria/run_service.py\<close>,
    \<open>memoria/run_submission.py\<close>, \<open>memoria/persistence\<close>, \<open>memoria/tasks\<close>, \<open>memoria/automation\<close>): the agent runs. The
    event log with its cursor, the per-session queue with turns and leases, the tables of durable runs and
    heartbeat jobs, and the life of a run from submission through a worker to recovery. Lemmas: a claimed turn is
    exclusive until its lease expires, recovery picks every overdue run, oldest first, and decides it once, a finished
    run is terminal in cache and table. RunLog interleaves all operations (\<open>run_step\<close>), with workers that hold and save
    stale copies of records: the log of a run stays gap-free and only grows, and a listing after a cursor is complete.
  \<^item> Fences (\<open>memoria/server/services/deletion_fences.py\<close>): deletion fences as a monotone map from sources to the
    newest deletion; late events stay blocked, newer ones pass.
  \<^item> MemoryModel, Reconcile (\<open>memoria/server/memory\<close>, \<open>memoria/server/repositories/memories.py\<close>,
    \<open>memoria/server/services/memory_commands.py\<close>): candidates, canonical memories, revisions, evidence, audit rows,
    reconciliation and the commands of users. Governance and GovernedOps show that every operation is a
    sequence of elementary changes of one scope (an owner and a knowledge base); the locale \<open>scoped_changes\<close> turns
    that into invariants, isolation and immutable history. MemoryProps and MemoryReplay hold the properties.
  \<^item> SourceDeletion (\<open>memoria/server/services/deletion.py\<close>, purges and hard deletion of \<open>memory_commands.py\<close>):
    deleting evidence, and repairing each memory that loses support. DeletionChanges gives the elementary removals,
    the invariant \<open>deep_wf\<close> (with it, the revision a candidate conflicts with belongs to the scope of the candidate, so
    clearing references stays inside a scope), and interprets \<open>scoped_changes\<close> on them; DeletionOps shows that a deletion is a sequence of them and what it
    leaves; DeletionHistory interleaves commands and deletions; DeletionProps holds the properties.
  \<^item> Folders (\<open>crud/document_folder.py\<close>, \<open>domains/documents/folders.py\<close>, \<open>crud/knowledge_base.py\<close>): the folder
    tree of a knowledge base and its handlers. FolderForest: the invariant, and that recursive queries return.
    FolderOps, FolderTree: handlers keep the invariant, and the tree shown to clients refines the rows.
  \<^item> Projections (\<open>memoria/server/services/projections.py\<close>, \<open>repositories/projections.py\<close>): versions of a document
    that arrive in batches, are checked against their digests and become visible at once. ProjectionTables: the
    invariant of the tables and a locale for what every operation keeps. ProjectionProps: what readers see.
  \<^item> SourceEvents, MemoryEvents, Dispatcher (\<open>memoria/server/services/event_dispatcher.py\<close>, \<open>memory_events.py\<close>,
    handlers of \<open>deletion.py\<close>, \<open>memory/extraction.py\<close>, \<open>repositories/inbox.py\<close>, \<open>tasks/events.py\<close>): the agent
    service. Its database \<open>agent_db\<close> joins fences, projections, memories, settings and the inbox; a handler is a
    function on it, and a dispatch routes an inbox event to its handler and settles its row.
  \<^item> AgentHistory, AgentRuns: the step relation \<open>agent_step\<close> (an event arrives, an event is dispatched, a user
    issues a command) and the locale \<open>agent_invariant\<close>, which reduces an invariant of all steps to laws on the few
    writes that handlers do; its interpretation \<open>components\<close> embeds the histories of the parts. AgentProps
    shows what this gives for the whole service and that settled events are frozen; AgentDeletion, that a deletion
    event removes a document completely and that late events never bring it back; AgentReplay (with
    MemoryRedelivery), that a source is learned once however often it is delivered; SettingsOrder, that the settings of
    an owner do not depend on the order of delivery. AgentDemo holds the run that witnesses use.

  \<^bold>\<open>Interfaces.\<close> Locales state what one part relies on in another; each is interpreted on the definitions of the
  model in the theory that provides them, and the properties rest on the interpreted facts.

  \<^bold>\<open>Parameters.\<close> Code outside \<open>src\<close> is an argument: SHA-256 and JSON text (\<open>me_hexdigest\<close>, \<open>me_dumps\<close>), UUIDs (a
  function from a counter, assumed injective where freshness matters), the embedding service, language
  models, vector store, graph database, message broker and HTTP clients (the outcome of a call is an argument),
  validation by pydantic (a function from JSON to the validated payload or nothing). The witnesses instantiate each
  with a concrete function.

  \<^bold>\<open>Not modelled.\<close> The frontend, migrations, scripts and deployment files; request schemas and routers; prompts,
  answer streams and calls of language models; retrieval and ranking that depend on vector search; the Redis
  backends (Lua scripts); evaluation and command line tools; metrics, tracing and logging. Non-ASCII
  alternatives of the secret patterns are outside the alphabet of HOL characters.
\<close>

end
